(* ===== verification/Prelude.thy ===== *)
theory Prelude
  imports Main "HOL-Library.Word" "HOL-Library.List_Lexorder" "HOL-Library.Char_ord"
begin

section \<open>Shared vocabulary of the development\<close>

text \<open>
  This theory holds what every component uses: the widths of Rust's integers, the
  saturating and absolute-difference operations of the standard library on them, the
  fixed-width byte encodings, runs of event-driven machines, and the interface of a machine
  that keeps an invariant.

  Integers keep their width. An unsigned Rust integer is a word; a signed one is a word of
  the same width read with \<^const>\<open>sint\<close>. Plain \<open>+\<close>, \<open>-\<close> and \<open>*\<close> wrap, which is what an
  optimised build of the workspace does (no profile enables overflow checks).
\<close>

type_synonym u8 = "8 word"
type_synonym u16 = "16 word"
type_synonym u32 = "32 word"
type_synonym u64 = "64 word"
type_synonym i64 = "64 word"
type_synonym bytes = "u8 list"

text \<open>Addresses of \<^verbatim>\<open>std::net\<close>, as the number they stand for.\<close>

datatype IpAddr = V4 u32 | V6 "128 word"

named_theorems rust_num \<open>reading the saturating word operations as natural numbers\<close>
named_theorems machine_simps \<open>unfolding runs of event machines\<close>


subsection \<open>Saturating operations\<close>

definition saturating_sub :: "'a::len word \<Rightarrow> 'a word \<Rightarrow> 'a word" where
  "saturating_sub a b = (if a < b then 0 else a - b)"

definition saturating_add :: "'a::len word \<Rightarrow> 'a word \<Rightarrow> 'a word" where
  "saturating_add a b = (if unat a + unat b < 2 ^ LENGTH('a) then a + b else - 1)"

definition saturating_mul :: "'a::len word \<Rightarrow> 'a word \<Rightarrow> 'a word" where
  "saturating_mul a b = (if unat a * unat b < 2 ^ LENGTH('a) then a * b else - 1)"

definition abs_diff :: "'a::len word \<Rightarrow> 'a word \<Rightarrow> 'a word" where
  "abs_diff a b = (if a < b then b - a else a - b)"

lemma unat_bound: "unat (w :: 'a::len word) < 2 ^ LENGTH('a)"
  by (rule unsigned_less)

lemma unat_of_nat_small: "n < 2 ^ LENGTH('a) \<Longrightarrow> unat (of_nat n :: 'a::len word) = n"
  by (simp add: unat_of_nat take_bit_nat_eq_self)

lemma unat_drop_byte: "unat (drop_bit 8 w) = unat w div 256"
  by (simp only: unat_drop_bit_eq) (simp add: drop_bit_eq_div)

lemma unat_low_byte: "unat (ucast (w :: 'a::len word) :: u8) = unat w mod 256"
  by (simp add: unsigned_ucast_eq take_bit_eq_mod)

lemma unat_minus_one_word_len: "unat (- 1 :: 'a::len word) = 2 ^ LENGTH('a) - 1"
  by (simp add: unsigned_minus_1_eq_mask mask_eq_exp_minus_1)

lemma unat_saturating_sub [rust_num]: "unat (saturating_sub a b) = unat a - unat b"
proof (cases "a < b")
  case True
  then show ?thesis by (simp add: saturating_sub_def word_less_nat_alt)
next
  case False
  then show ?thesis by (simp add: saturating_sub_def unat_sub not_less)
qed

lemma unat_saturating_add [rust_num]:
  "unat (saturating_add a b :: 'a::len word) = min (unat a + unat b) (2 ^ LENGTH('a) - 1)"
proof (cases "unat a + unat b < 2 ^ LENGTH('a)")
  case True
  then show ?thesis
    by (simp add: saturating_add_def unat_word_ariths)
next
  case False
  then show ?thesis
    by (simp add: saturating_add_def unat_minus_one_word_len)
qed

lemma unat_saturating_mul [rust_num]:
  "unat (saturating_mul a b :: 'a::len word) = min (unat a * unat b) (2 ^ LENGTH('a) - 1)"
proof (cases "unat a * unat b < 2 ^ LENGTH('a)")
  case True
  then show ?thesis
    by (simp add: saturating_mul_def unat_word_ariths)
next
  case False
  then show ?thesis
    by (simp add: saturating_mul_def unat_minus_one_word_len)
qed

lemma unat_abs_diff [rust_num]:
  "unat (abs_diff a b) = (unat a - unat b) + (unat b - unat a)"
  by (auto simp: abs_diff_def word_less_nat_alt unat_sub word_le_nat_alt)

lemma saturating_sub_le [simp]: "saturating_sub a b \<le> a"
  by (simp add: word_le_nat_alt rust_num)

lemma saturating_sub_self [simp]: "saturating_sub a a = 0"
  by (simp add: saturating_sub_def)

lemma saturating_sub_zero [simp]: "saturating_sub a 0 = a"
  by (simp add: saturating_sub_def)

lemma saturating_sub_eq_0_iff: "saturating_sub a b = 0 \<longleftrightarrow> a \<le> b"
  by (metis rust_num(1) diff_is_0_eq unat_eq_zero word_le_nat_alt)

lemma abs_diff_commute: "abs_diff a b = abs_diff b a"
  by (auto simp: abs_diff_def)

lemma unat_min [rust_num]: "unat (min a b) = min (unat a) (unat b)"
  by (simp add: min_def word_le_nat_alt)

lemma unat_max [rust_num]: "unat (max a b) = max (unat a) (unat b)"
  by (simp add: max_def word_le_nat_alt)


subsection \<open>The host's clock\<close>

text \<open>\<^verbatim>\<open>crates/tollgate-core/src/time.rs\<close>: a monotonic instant and the time elapsed since one.\<close>

type_synonym Millis = u64

definition since :: "Millis \<Rightarrow> Millis \<Rightarrow> u64" where
  "since t earlier = saturating_sub t earlier"


subsection \<open>Runs of event machines\<close>

text \<open>
  Every stateful component is a function from a state and an event to a new state and the
  outputs it asks its host to carry out. A run feeds it a list of events and collects the
  outputs in order.
\<close>

type_synonym ('s, 'e, 'o) machine = "'s \<Rightarrow> 'e \<Rightarrow> 's \<times> 'o list"

fun run :: "('s, 'e, 'o) machine \<Rightarrow> 's \<Rightarrow> 'e list \<Rightarrow> 's \<times> 'o list" where
  "run step s [] = (s, [])"
| "run step s (e # es) =
     (let (s', out) = step s e; (s'', outs) = run step s' es in (s'', out @ outs))"

abbreviation final :: "('s, 'e, 'o) machine \<Rightarrow> 's \<Rightarrow> 'e list \<Rightarrow> 's" where
  "final step s es \<equiv> fst (run step s es)"

abbreviation outputs :: "('s, 'e, 'o) machine \<Rightarrow> 's \<Rightarrow> 'e list \<Rightarrow> 'o list" where
  "outputs step s es \<equiv> snd (run step s es)"

lemma run_Cons_split [machine_simps]:
  "final step s (e # es) = final step (fst (step s e)) es"
  "outputs step s (e # es) = snd (step s e) @ outputs step (fst (step s e)) es"
  by (simp_all add: case_prod_beta Let_def)

lemma run_append [machine_simps]:
  "final step s (xs @ ys) = final step (final step s xs) ys"
  "outputs step s (xs @ ys) = outputs step s xs @ outputs step (final step s xs) ys"
  by (induction xs arbitrary: s) (simp_all add: case_prod_beta Let_def)

text \<open>
  The interface of a machine with an invariant: one obligation per provider (one step keeps
  it), and the fact its clients use (every run keeps it).
\<close>

locale invariant_machine =
  fixes step :: "('s, 'e, 'o) machine"
    and inv :: "'s \<Rightarrow> bool"
  assumes inv_step: "inv s \<Longrightarrow> inv (fst (step s e))"
begin

lemma inv_run: "inv s \<Longrightarrow> inv (final step s es)"
  by (induction es arbitrary: s) (simp_all add: case_prod_beta Let_def inv_step)

end

text \<open>
  The same with the outputs in view: the invariant relates the state to everything emitted
  so far, so that a property of a whole trace is again a one-step obligation.
\<close>

locale traced_machine =
  fixes step :: "('s, 'e, 'o) machine"
    and tinv :: "'s \<Rightarrow> 'o list \<Rightarrow> bool"
  assumes tinv_step: "tinv s out \<Longrightarrow> tinv (fst (step s e)) (out @ snd (step s e))"
begin

lemma tinv_run: "tinv s out \<Longrightarrow> tinv (final step s es) (out @ outputs step s es)"
proof (induction es arbitrary: s out)
  case Nil
  then show ?case by simp
next
  case (Cons e es)
  from tinv_step [OF Cons.prems] have
    "tinv (final step (fst (step s e)) es) ((out @ snd (step s e)) @ outputs step (fst (step s e)) es)"
    by (rule Cons.IH)
  then show ?case by (simp add: case_prod_beta Let_def)
qed

end

text \<open>
  A machine that settles: \<open>money\<close> tells the outputs that move money, \<open>closed\<close> the states in which
  the machine has settled, and \<open>receipt\<close> the money movements a state's terms allow as one
  settlement. Its provider shows, step by step, that only the step that closes the machine
  moves money, and then as its terms allow, and that a closed machine stays closed. Then every
  run moves either nothing or exactly one settlement.
\<close>

locale settling_machine = invariant_machine step inv
  for step :: "('s, 'e, 'o) machine" and inv :: "'s \<Rightarrow> bool" +
  fixes closed :: "'s \<Rightarrow> bool"
    and money :: "'o \<Rightarrow> bool"
    and receipt :: "'s \<Rightarrow> 'o list \<Rightarrow> bool"
  assumes closed_step: "inv s \<Longrightarrow> closed s \<Longrightarrow>
      closed (fst (step s e)) \<and> filter money (snd (step s e)) = []"
    and open_step: "inv s \<Longrightarrow> \<not> closed s \<Longrightarrow>
      (if closed (fst (step s e)) then receipt s (filter money (snd (step s e)))
       else filter money (snd (step s e)) = [])"
    and receipt_step: "inv s \<Longrightarrow> receipt (fst (step s e)) = receipt s"
begin

lemma closed_run: "inv s \<Longrightarrow> closed s \<Longrightarrow>
    closed (final step s es) \<and> filter money (outputs step s es) = []"
  by (induction es arbitrary: s) (simp_all add: case_prod_beta Let_def inv_step closed_step)

lemma settles_once: "inv s \<Longrightarrow> \<not> closed s \<Longrightarrow>
    (if closed (final step s es) then receipt s (filter money (outputs step s es))
     else filter money (outputs step s es) = [])"
proof (induction es arbitrary: s)
  case Nil
  then show ?case by simp
next
  case (Cons e es)
  let ?s = "fst (step s e)"
  have inv: "inv ?s" using Cons.prems(1) by (rule inv_step)
  show ?case
  proof (cases "closed ?s")
    case True
    then show ?thesis
      using open_step [OF Cons.prems, of e] closed_run [OF inv True, of es]
      by (simp add: machine_simps del: run.simps)
  next
    case False
    then show ?thesis
      using open_step [OF Cons.prems, of e] Cons.IH [OF inv False] receipt_step [OF Cons.prems(1), of e]
      by (simp add: machine_simps split: if_splits del: run.simps)
  qed
qed

end

end
