(* ===== verification/Framing.thy ===== *)
theory Framing
  imports Prelude
begin

section \<open>Length-prefixed frames\<close>

text \<open>
  \<^verbatim>\<open>crates/tollgate-protocol/src/codec.rs\<close>: the HTTP-polling transport sends each message
  behind a 2-byte little-endian length. \<open>decode_loop\<close> is the \<^verbatim>\<open>while\<close> loop of
  \<^verbatim>\<open>decode_frames\<close> with its two mutable variables, the offset and the frames found so far;
  its indices are always in range when they are read. The theory shows that the decoder
  accepts exactly the concatenations of encoded frames, and where it stops otherwise.
\<close>

definition MAX_FRAME_LEN :: nat where
  "MAX_FRAME_LEN = 65535"

datatype FrameError = TooLong | Truncated nat

text \<open>\<^verbatim>\<open>u16::to_le_bytes\<close> and \<^verbatim>\<open>u16::from_le_bytes\<close>.\<close>

definition u16_to_le_bytes :: "u16 \<Rightarrow> bytes" where
  "u16_to_le_bytes n = [ucast n, ucast (drop_bit 8 n)]"

definition u16_from_le_bytes :: "u8 \<Rightarrow> u8 \<Rightarrow> u16" where
  "u16_from_le_bytes lo hi = ucast lo + 256 * ucast hi"

definition encode_frame :: "bytes \<Rightarrow> bytes \<Rightarrow> FrameError + bytes" where
  "encode_frame body out =
     (if length body > MAX_FRAME_LEN then Inl TooLong
      else Inr (out @ u16_to_le_bytes (of_nat (length body)) @ body))"

definition frame :: "bytes \<Rightarrow> FrameError + bytes" where
  "frame body = encode_frame body []"

function decode_loop :: "bytes \<Rightarrow> nat \<Rightarrow> bytes list \<Rightarrow> FrameError + bytes list" where
  "decode_loop buf offset frames =
     (if offset < length buf then
        if length buf - offset < 2 then Inl (Truncated offset)
        else
          let len = unat (u16_from_le_bytes (buf ! offset) (buf ! (offset + 1)));
              stop = offset + 2 + len
          in if length buf < stop then Inl (Truncated offset)
             else decode_loop buf stop (frames @ [take len (drop (offset + 2) buf)])
      else Inr frames)"
  by pat_completeness auto
termination
  by (relation "measure (\<lambda>(buf, offset, frames). length buf - offset)") auto

definition decode_frames :: "bytes \<Rightarrow> FrameError + bytes list" where
  "decode_frames buf = decode_loop buf 0 []"

declare decode_loop.simps [simp del]


subsection \<open>The length prefix\<close>

lemma unat_u16_from_le_bytes: "unat (u16_from_le_bytes lo hi) = unat lo + 256 * unat hi"
proof -
  have "unat lo < 256" "unat hi < 256"
    using unat_bound [of lo] unat_bound [of hi] by simp_all
  then show ?thesis
    by (simp add: u16_from_le_bytes_def unat_word_ariths unsigned_ucast_eq take_bit_eq_mod)
qed

lemmas unat_u16_bytes = unat_low_byte unat_drop_byte

lemma u16_hi_byte: "unat (n :: u16) div 256 mod 256 = unat n div 256"
  using unat_bound [of n] by simp

lemma u16_le_roundtrip: "u16_from_le_bytes (ucast n) (ucast (drop_bit 8 n)) = n"
  by (simp only: word_unat_eq_iff unat_u16_from_le_bytes unat_u16_bytes u16_hi_byte) simp

lemma u16_le_surj: "u16_to_le_bytes (u16_from_le_bytes lo hi) = [lo, hi]"
  using unat_bound [of lo] unat_bound [of hi]
  by (simp only: u16_to_le_bytes_def list.inject word_unat_eq_iff unat_u16_bytes
      unat_u16_from_le_bytes) simp


subsection \<open>What the decoder accepts\<close>

text \<open>
  The bytes of one frame, as a specification: the prefix followed by the body. A buffer is
  \<open>incomplete\<close> when its first frame is cut off, in the prefix or in the body.
\<close>

definition frame_bytes :: "bytes \<Rightarrow> bytes" where
  "frame_bytes body = u16_to_le_bytes (of_nat (length body)) @ body"

definition framable :: "bytes \<Rightarrow> bool" where
  "framable body \<longleftrightarrow> length body \<le> MAX_FRAME_LEN"

definition incomplete :: "bytes \<Rightarrow> bool" where
  "incomplete xs \<longleftrightarrow> xs \<noteq> [] \<and>
     (length xs < 2 \<or> length xs < 2 + unat (u16_from_le_bytes (xs ! 0) (xs ! 1)))"

lemma encode_frame_framable: "framable body \<Longrightarrow> encode_frame body out = Inr (out @ frame_bytes body)"
  by (simp add: encode_frame_def framable_def frame_bytes_def)

lemma unat_of_nat_framable: "framable body \<Longrightarrow> unat (of_nat (length body) :: u16) = length body"
  by (simp add: framable_def MAX_FRAME_LEN_def unat_of_nat_small)

lemma decode_loop_frame:
  assumes "framable body"
  shows "decode_loop (pre @ frame_bytes body @ rest) (length pre) fs =
    decode_loop (pre @ frame_bytes body @ rest) (length (pre @ frame_bytes body)) (fs @ [body])"
  using assms
  by (subst decode_loop.simps)
    (simp add: frame_bytes_def u16_to_le_bytes_def nth_append u16_le_roundtrip unat_of_nat_framable Let_def)

lemma decode_loop_frames:
  assumes "list_all framable bodies"
  shows "decode_loop (pre @ concat (map frame_bytes bodies)) (length pre) fs = Inr (fs @ bodies)"
  using assms
proof (induction bodies arbitrary: pre fs)
  case Nil
  then show ?case by (simp add: decode_loop.simps)
next
  case (Cons b bodies)
  then have "framable b" by simp
  from decode_loop_frame [OF this, of pre "concat (map frame_bytes bodies)" fs]
  show ?case
    using Cons.IH [of "pre @ frame_bytes b" "fs @ [b]"] Cons.prems by simp
qed

lemma frame_at_offset:
  assumes "offset + 2 + len \<le> length buf"
    and "len = unat (u16_from_le_bytes (buf ! offset) (buf ! (offset + 1)))"
  shows "framable (take len (drop (offset + 2) buf))"
    and "drop offset buf = frame_bytes (take len (drop (offset + 2) buf)) @ drop (offset + 2 + len) buf"
proof -
  let ?n = "u16_from_le_bytes (buf ! offset) (buf ! (offset + 1))"
  have "len < 65536" using assms(2) unat_bound [of ?n] by simp
  moreover have len: "length (take len (drop (offset + 2) buf)) = len" using assms(1) by simp
  ultimately show "framable (take len (drop (offset + 2) buf))"
    by (simp add: framable_def MAX_FRAME_LEN_def)
  have "u16_to_le_bytes (of_nat len) = [buf ! offset, buf ! (offset + 1)]"
    by (simp add: assms(2) u16_le_surj)
  moreover have "drop offset buf = buf ! offset # buf ! (offset + 1) # drop (offset + 2) buf"
    using assms(1) by (simp add: Cons_nth_drop_Suc)
  moreover have "drop (offset + 2) buf = take len (drop (offset + 2) buf) @ drop (offset + 2 + len) buf"
    by (metis append_take_drop_id drop_drop add.commute)
  ultimately show
    "drop offset buf = frame_bytes (take len (drop (offset + 2) buf)) @ drop (offset + 2 + len) buf"
    using assms(1) by (simp add: frame_bytes_def min_absorb2)
qed

lemma decode_loop_ok:
  assumes "decode_loop buf offset fs = Inr r" and "offset \<le> length buf"
  shows "\<exists>bodies. r = fs @ bodies \<and> list_all framable bodies \<and>
    drop offset buf = concat (map frame_bytes bodies)"
  using assms
proof (induction buf offset fs rule: decode_loop.induct)
  case (1 buf offset fs)
  let ?len = "unat (u16_from_le_bytes (buf ! offset) (buf ! (offset + 1)))"
  let ?body = "take ?len (drop (offset + 2) buf)"
  show ?case
  proof (cases "offset < length buf")
    case True
    with "1.prems" have two: "\<not> length buf - offset < 2" and fits: "offset + 2 + ?len \<le> length buf"
      and rec: "decode_loop buf (offset + 2 + ?len) (fs @ [?body]) = Inr r"
      by (auto simp: decode_loop.simps [of buf offset] Let_def split: if_splits)
    from "1.IH" [OF True two refl refl _ rec fits] fits obtain bodies where
      "r = (fs @ [?body]) @ bodies" "list_all framable bodies"
      "drop (offset + 2 + ?len) buf = concat (map frame_bytes bodies)"
      by auto
    with frame_at_offset [OF fits refl] show ?thesis
      by (intro exI [of _ "?body # bodies"]) simp
  next
    case False
    with "1.prems" show ?thesis
      by (intro exI [of _ "[]"]) (simp add: decode_loop.simps [of buf offset])
  qed
qed

lemma decode_loop_err:
  assumes "decode_loop buf offset fs = Inl e" and "offset \<le> length buf"
  shows "\<exists>bodies rest. e = Truncated (length buf - length rest) \<and> list_all framable bodies \<and>
    drop offset buf = concat (map frame_bytes bodies) @ rest \<and> incomplete rest"
  using assms
proof (induction buf offset fs rule: decode_loop.induct)
  case (1 buf offset fs)
  let ?len = "unat (u16_from_le_bytes (buf ! offset) (buf ! (offset + 1)))"
  let ?body = "take ?len (drop (offset + 2) buf)"
  have True: "offset < length buf"
    using "1.prems" by (auto simp: decode_loop.simps [of buf offset] split: if_splits)
  show ?case
  proof (cases "length buf - offset < 2 \<or> length buf < offset + 2 + ?len")
    case cut: True
    with True "1.prems" have "e = Truncated offset"
      by (auto simp: decode_loop.simps [of buf offset] Let_def split: if_splits)
    moreover have "incomplete (drop offset buf)"
      using cut True by (auto simp: incomplete_def add.commute)
    ultimately show ?thesis using "1.prems"(2)
      by (intro exI [of _ "[]"] exI [of _ "drop offset buf"]) simp
  next
    case False
    then have two: "\<not> length buf - offset < 2" and fits: "offset + 2 + ?len \<le> length buf"
      by auto
    with True "1.prems" have rec: "decode_loop buf (offset + 2 + ?len) (fs @ [?body]) = Inl e"
      by (auto simp: decode_loop.simps [of buf offset] Let_def split: if_splits)
    from "1.IH" [OF True two refl refl _ rec fits] fits obtain bodies rest where
      "e = Truncated (length buf - length rest)" "list_all framable bodies" "incomplete rest"
      "drop (offset + 2 + ?len) buf = concat (map frame_bytes bodies) @ rest"
      by auto
    with frame_at_offset [OF fits refl] show ?thesis
      by (intro exI [of _ "?body # bodies"] exI [of _ rest]) simp
  qed
qed


subsection \<open>The contract of the frame codec\<close>

text \<open>Encoding a whole list of bodies into one buffer, stopping at the first error.\<close>

fun encode_frames :: "bytes list \<Rightarrow> bytes \<Rightarrow> FrameError + bytes" where
  "encode_frames [] out = Inr out"
| "encode_frames (b # bs) out =
     (case encode_frame b out of Inl e \<Rightarrow> Inl e | Inr out' \<Rightarrow> encode_frames bs out')"

lemma encode_frames_eq:
  "encode_frames bodies out =
     (if list_all framable bodies then Inr (out @ concat (map frame_bytes bodies)) else Inl TooLong)"
proof (induction bodies arbitrary: out)
  case Nil
  then show ?case by simp
next
  case (Cons b bodies)
  then show ?case
    by (cases "framable b") (auto simp: encode_frame_framable, auto simp: encode_frame_def framable_def)
qed

text \<open>
  C6. The frame decoder accepts exactly what the encoder produces: a buffer decodes to a list
  of bodies if and only if encoding those bodies one after the other with \<open>encode_frame\<close>
  succeeds and gives that buffer. So decoding inverts encoding, every accepted buffer has
  one encoding only, and no accepted body is over the frame limit.
\<close>

theorem decode_frames_exact:
  "decode_frames buf = Inr bodies \<longleftrightarrow> encode_frames bodies [] = Inr buf"
  using decode_loop_ok [of buf 0 "[]" bodies] decode_loop_frames [of bodies "[]" "[]"]
  by (auto simp: decode_frames_def encode_frames_eq)

text \<open>
  When the decoder fails it reports a truncation, never an oversize frame, and the offset
  it reports is the start of the first incomplete frame: everything before it is a sequence
  of whole frames, and what follows is cut off in its prefix or in its body.
\<close>

theorem decode_frames_truncated:
  assumes "decode_frames buf = Inl e"
  shows "\<exists>bodies rest. e = Truncated (length buf - length rest) \<and>
    buf = concat (map frame_bytes bodies) @ rest \<and> incomplete rest"
  using decode_loop_err [of buf 0 "[]" e] assms by (auto simp: decode_frames_def)

theorem decode_frames_truncated_witness:
  "decode_frames [1, 0, 7, 5, 0, 0xAA] = Inl (Truncated 3) \<and>
   (\<exists>bodies rest. Truncated 3 = Truncated (length [1, 0, 7, 5, 0, 0xAA :: u8] - length rest) \<and>
     [1, 0, 7, 5, 0, 0xAA] = concat (map frame_bytes bodies) @ rest \<and> incomplete rest)"
proof -
  have "decode_frames [1, 0, 7, 5, 0, 0xAA] = Inl (Truncated 3)"
    by (simp add: decode_frames_def decode_loop.simps u16_from_le_bytes_def Let_def)
  with decode_frames_truncated [OF this] show ?thesis by blast
qed

text \<open>
  \<open>encode_frame\<close> appends exactly the 2-byte little-endian length and the body to the output
  buffer, and on a body over the limit it returns \<open>TooLong\<close> (the buffer is then untouched,
  being an argument that is not returned).
\<close>

theorem encode_frame_branches:
  "encode_frame body out =
     (if length body \<le> 65535
      then Inr (out @ [of_nat (length body mod 256), of_nat (length body div 256)] @ body)
      else Inl TooLong)"
proof (cases "framable body")
  case True
  then have n: "length body < 65536" by (simp add: framable_def MAX_FRAME_LEN_def)
  have "u16_to_le_bytes (of_nat (length body)) =
      [of_nat (length body mod 256), of_nat (length body div 256)]"
    using n by (simp only: u16_to_le_bytes_def list.inject word_unat_eq_iff unat_u16_bytes
        unat_of_nat_framable [OF True]) (simp add: unat_of_nat_small)
  with True show ?thesis
    by (simp add: encode_frame_framable frame_bytes_def framable_def MAX_FRAME_LEN_def)
next
  case False
  then show ?thesis by (simp add: encode_frame_def framable_def MAX_FRAME_LEN_def)
qed

end
