(* ===== verification/Product_Id.thy ===== *)
theory Product_Id
  imports Prelude "HOL-Library.Multiset"
begin

section \<open>Product and option identifiers\<close>

text \<open>
  \<^verbatim>\<open>crates/tollgate-protocol/src/product.rs\<close>: the canonical byte layouts that are hashed
  into a product id and a mint option id. The hash is the \<^verbatim>\<open>sha2\<close> crate's, a parameter. The
  price list is sorted with \<^verbatim>\<open>sort_unstable_by\<close>, which leaves the order of equal keys open:
  the sorter is a parameter too, constrained by \<open>url_sorter\<close> to what the standard library
  documents, a permutation whose mint URLs are in increasing byte order.
\<close>

definition DEFAULT_PRICING_SCALE :: u32 where
  "DEFAULT_PRICING_SCALE = 1000"

record mint_price =
  mint_url :: string
  price_per_second :: i64
  price_per_unit :: i64
  mint_unit :: string

datatype ProductId = ProductId bytes

text \<open>\<^verbatim>\<open>str::as_bytes\<close>, and \<^verbatim>\<open>to_be_bytes\<close> at a width given in bytes.\<close>

definition str_bytes :: "string \<Rightarrow> bytes" where
  "str_bytes s = map of_char s"

fun be_bytes :: "nat \<Rightarrow> 'a::len word \<Rightarrow> bytes" where
  "be_bytes 0 w = []"
| "be_bytes (Suc n) w = be_bytes n (drop_bit 8 w) @ [ucast w]"

abbreviation u32_to_be_bytes :: "u32 \<Rightarrow> bytes" where
  "u32_to_be_bytes \<equiv> be_bytes 4"

abbreviation i64_to_be_bytes :: "i64 \<Rightarrow> bytes" where
  "i64_to_be_bytes \<equiv> be_bytes 8"

definition price_layout :: "mint_price \<Rightarrow> bytes" where
  "price_layout price =
     (let url = str_bytes (mint_url price); unit = str_bytes (mint_unit price)
      in u32_to_be_bytes (of_nat (length url)) @ url @
         i64_to_be_bytes (price_per_second price) @ i64_to_be_bytes (price_per_unit price) @
         u32_to_be_bytes (of_nat (length unit)) @ unit)"

definition product_layout ::
    "(mint_price list \<Rightarrow> mint_price list) \<Rightarrow> u32 \<Rightarrow> mint_price list \<Rightarrow> bytes \<Rightarrow> bytes" where
  "product_layout srt scale ps ext =
     (let sorted = srt ps
      in str_bytes ''tollgate/product-id/v1'' @ u32_to_be_bytes scale @
         u32_to_be_bytes (of_nat (length sorted)) @ concat (map price_layout sorted) @
         u32_to_be_bytes (of_nat (length ext)) @ ext)"

definition product_id ::
    "(bytes \<Rightarrow> bytes) \<Rightarrow> (mint_price list \<Rightarrow> mint_price list) \<Rightarrow>
     u32 \<Rightarrow> mint_price list \<Rightarrow> bytes \<Rightarrow> ProductId" where
  "product_id sha256 srt scale ps ext = ProductId (sha256 (product_layout srt scale ps ext))"

text \<open>A priced offer, \<^verbatim>\<open>Product\<close> of \<^verbatim>\<open>crates/tollgate-core/src/pricing.rs\<close>, and its fingerprint.\<close>

record product =
  pricing_scale :: u32
  prices :: "mint_price list"
  extensions :: bytes

definition Product_id_of ::
    "(bytes \<Rightarrow> bytes) \<Rightarrow> (mint_price list \<Rightarrow> mint_price list) \<Rightarrow> product \<Rightarrow> ProductId" where
  "Product_id_of sha256 srt p = product_id sha256 srt (pricing_scale p) (prices p) (extensions p)"

definition option_layout :: "string \<Rightarrow> string \<Rightarrow> bytes" where
  "option_layout url_str unit_str =
     (let url = str_bytes url_str; unit = str_bytes unit_str
      in str_bytes ''tollgate/option-id/v1'' @ u32_to_be_bytes (of_nat (length url)) @ url @
         u32_to_be_bytes (of_nat (length unit)) @ unit)"

definition option_id :: "(bytes \<Rightarrow> bytes) \<Rightarrow> string \<Rightarrow> string \<Rightarrow> bytes" where
  "option_id sha256 url_str unit_str = sha256 (option_layout url_str unit_str)"

definition url_sorter :: "(mint_price list \<Rightarrow> mint_price list) \<Rightarrow> bool" where
  "url_sorter srt \<longleftrightarrow>
     (\<forall>ps. mset (srt ps) = mset ps \<and> sorted (map (str_bytes \<circ> mint_url) (srt ps)))"


subsection \<open>The layouts are unambiguous\<close>

lemma length_be_bytes [simp]: "length (be_bytes n w) = n"
  by (induction n arbitrary: w) simp_all

lemma be_bytes_append:
  "be_bytes n v @ r = be_bytes n w @ t \<longleftrightarrow> be_bytes n v = be_bytes n w \<and> r = t"
  by simp

lemma length_str_bytes [simp]: "length (str_bytes s) = length s"
  by (simp add: str_bytes_def)

lemma unat_of_char_u8: "unat (of_char c :: u8) = of_char c"
proof -
  have "(of_char c :: nat) < 256"
    by (simp add: of_char_def)
  then show ?thesis
    using unat_of_nat_small [where 'a = 8, of "of_char c"] by (simp add: of_nat_of_char)
qed

lemma of_char_u8_inject: "(of_char c :: u8) = of_char d \<longleftrightarrow> c = d"
  by (metis unat_of_char_u8 of_char_eq_iff)

lemma str_bytes_inject [simp]: "str_bytes a = str_bytes b \<longleftrightarrow> a = b"
  by (simp add: str_bytes_def inj_map_eq_map inj_def of_char_u8_inject)

definition be_val :: "bytes \<Rightarrow> nat" where
  "be_val bs = foldl (\<lambda>a b. a * 256 + unat b) 0 bs"

lemma be_val_be_bytes: "be_val (be_bytes n w) = unat w mod 256 ^ n"
proof (induction n arbitrary: w)
  case 0
  then show ?case by (simp add: be_val_def)
next
  case (Suc n)
  have "be_val (be_bytes (Suc n) w) = be_val (be_bytes n (drop_bit 8 w)) * 256 + unat (ucast w :: u8)"
    by (simp add: be_val_def)
  also have "\<dots> = unat w mod (256 * 256 ^ n)"
    by (simp add: Suc.IH mod_mult2_eq unat_drop_byte unat_low_byte)
  finally show ?case by simp
qed

lemma be_bytes_inject:
  assumes "be_bytes n v = be_bytes n w" and "LENGTH('a) \<le> 8 * n"
  shows "(v :: 'a::len word) = w"
proof -
  have "(2::nat) ^ LENGTH('a) \<le> 2 ^ (8 * n)" using assms(2) by simp
  also have "\<dots> = 256 ^ n" by (simp add: power_mult)
  finally have "unat v < 256 ^ n" "unat w < 256 ^ n"
    by (auto intro: less_le_trans [OF unat_bound])
  then show ?thesis
    using arg_cong [OF assms(1), of be_val] by (simp add: be_val_be_bytes word_unat_eq_iff)
qed

text \<open>Lengths are written as \<^verbatim>\<open>u32\<close>; the layouts are unambiguous below that bound.\<close>

definition fits_u32 :: "'a list \<Rightarrow> bool" where
  "fits_u32 xs \<longleftrightarrow> length xs < 2 ^ 32"

lemma length_prefix_inject:
  assumes "u32_to_be_bytes (of_nat (length xs)) = u32_to_be_bytes (of_nat (length ys))"
    and "fits_u32 xs" and "fits_u32 ys"
  shows "length xs = length ys"
proof -
  have "(of_nat (length xs) :: u32) = of_nat (length ys)"
    using assms(1) by (rule be_bytes_inject) simp
  then have "unat (of_nat (length xs) :: u32) = unat (of_nat (length ys) :: u32)"
    by simp
  then show ?thesis
    using assms(2,3) by (simp add: fits_u32_def unat_of_nat_small)
qed

lemma prefixed_inject:
  assumes "u32_to_be_bytes (of_nat (length xs)) @ xs @ r = u32_to_be_bytes (of_nat (length ys)) @ ys @ t"
    and "fits_u32 xs" and "fits_u32 ys"
  shows "xs = ys \<and> r = t"
proof -
  have "length xs = length ys"
    using assms by (intro length_prefix_inject) simp_all
  with assms(1) show ?thesis by simp
qed

definition price_fits :: "mint_price \<Rightarrow> bool" where
  "price_fits p \<longleftrightarrow> fits_u32 (mint_url p) \<and> fits_u32 (mint_unit p)"

lemma fits_str_bytes [simp]: "fits_u32 (str_bytes s) \<longleftrightarrow> fits_u32 s"
  by (simp add: fits_u32_def)

definition price_tail :: "mint_price \<Rightarrow> bytes" where
  "price_tail p = i64_to_be_bytes (price_per_second p) @ i64_to_be_bytes (price_per_unit p) @
     u32_to_be_bytes (of_nat (length (str_bytes (mint_unit p)))) @ str_bytes (mint_unit p)"

lemma price_layout_split:
  "price_layout p = u32_to_be_bytes (of_nat (length (str_bytes (mint_url p)))) @ str_bytes (mint_url p) @ price_tail p"
  by (simp only: price_layout_def price_tail_def Let_def append_assoc)

lemma price_tail_inject:
  assumes "price_tail p @ r = price_tail q @ t" and "price_fits p" and "price_fits q"
  shows "price_per_second p = price_per_second q \<and> price_per_unit p = price_per_unit q \<and>
    mint_unit p = mint_unit q \<and> r = t"
proof -
  have *: "i64_to_be_bytes (price_per_second p) = i64_to_be_bytes (price_per_second q)"
    "i64_to_be_bytes (price_per_unit p) = i64_to_be_bytes (price_per_unit q)"
    "u32_to_be_bytes (of_nat (length (str_bytes (mint_unit p)))) @ str_bytes (mint_unit p) @ r =
     u32_to_be_bytes (of_nat (length (str_bytes (mint_unit q)))) @ str_bytes (mint_unit q) @ t"
    using assms(1) unfolding price_tail_def append_assoc be_bytes_append by blast+
  from prefixed_inject [OF *(3)] assms(2,3) have "mint_unit p = mint_unit q \<and> r = t"
    by (simp add: price_fits_def)
  with *(1,2) show ?thesis by (auto intro!: be_bytes_inject [where n = 8])
qed

lemma price_layout_inject:
  assumes "price_layout p @ r = price_layout q @ t" and "price_fits p" and "price_fits q"
  shows "p = q \<and> r = t"
proof -
  have "str_bytes (mint_url p) = str_bytes (mint_url q) \<and> price_tail p @ r = price_tail q @ t"
    using assms unfolding price_layout_split append_assoc
    by (intro prefixed_inject) (simp_all only: price_fits_def fits_str_bytes)
  with price_tail_inject [of p r q t] assms(2,3) show ?thesis by simp
qed

lemma price_list_inject:
  assumes "concat (map price_layout ps) @ r = concat (map price_layout qs) @ t"
    and "length ps = length qs" and "list_all price_fits ps" and "list_all price_fits qs"
  shows "ps = qs \<and> r = t"
  using assms
proof (induction ps arbitrary: qs)
  case Nil
  then show ?case by simp
next
  case (Cons p ps)
  then obtain q qs' where qs: "qs = q # qs'" by (cases qs) auto
  with Cons.prems price_layout_inject [of p "concat (map price_layout ps) @ r" q
      "concat (map price_layout qs') @ t"]
  have "p = q" and "concat (map price_layout ps) @ r = concat (map price_layout qs') @ t"
    by simp_all
  with Cons.IH [of qs'] Cons.prems qs show ?case by simp
qed

text \<open>The order of a sorted list with distinct keys is determined by its elements.\<close>

lemma url_sorter_unique:
  assumes "url_sorter srt" and "url_sorter srt'" and "mset ps = mset qs"
    and "distinct (map mint_url ps)"
  shows "srt ps = srt' qs"
proof -
  let ?k = "str_bytes \<circ> mint_url"
  have perm: "mset (srt ps) = mset ps" "mset (srt' qs) = mset ps"
    and srtd: "sorted (map ?k (srt ps))" "sorted (map ?k (srt' qs))"
    using assms(1-3) by (auto simp: url_sorter_def)
  have keys: "mset (map ?k (srt ps)) = mset (map ?k ps)" "mset (map ?k (srt' qs)) = mset (map ?k ps)"
    using perm by (simp_all only: mset_map)
  have "distinct (map ?k ps)"
    using assms(4) by (auto simp: distinct_map inj_on_def)
  then have "distinct (map ?k (srt ps))"
    using mset_eq_imp_distinct_iff [OF keys(1)] by simp
  moreover have same: "set (srt ps) = set (srt' qs)"
    using mset_eq_setD [of "srt ps" "srt' qs"] perm by simp
  ultimately have inj: "inj_on ?k (set (srt ps) \<union> set (srt' qs))"
    by (simp add: distinct_map)
  have "map ?k (srt ps) = map ?k (srt' qs)"
    using properties_for_sort [OF keys(1) srtd(1)] properties_for_sort [OF keys(2) srtd(2)] by simp
  then show ?thesis using inj by (rule map_inj_on)
qed

text \<open>
  C29. The byte layout behind a product id is unambiguous: two products with the same layout
  have the same scale, the same sorted price list and the same extensions, as long as every
  length fits the 32-bit prefix it is written in.
\<close>

theorem product_layout_inject:
  assumes "product_layout srt s ps e = product_layout srt s' qs e'"
    and "fits_u32 (srt ps)" and "fits_u32 (srt qs)"
    and "list_all price_fits (srt ps)" and "list_all price_fits (srt qs)"
    and "fits_u32 e" and "fits_u32 e'"
  shows "s = s' \<and> srt ps = srt qs \<and> e = e'"
proof -
  let ?ext = "\<lambda>e. u32_to_be_bytes (of_nat (length e)) @ e"
  have *: "u32_to_be_bytes s = u32_to_be_bytes s'"
    "u32_to_be_bytes (of_nat (length (srt ps))) = u32_to_be_bytes (of_nat (length (srt qs)))"
    "concat (map price_layout (srt ps)) @ ?ext e = concat (map price_layout (srt qs)) @ ?ext e'"
    using assms(1) unfolding product_layout_def Let_def same_append_eq be_bytes_append by blast+
  have "s = s'" using *(1) by (rule be_bytes_inject) simp
  moreover have "length (srt ps) = length (srt qs)"
    using *(2) assms(2,3) by (rule length_prefix_inject)
  from price_list_inject [OF *(3) this assms(4,5)]
  have "srt ps = srt qs" and "?ext e @ [] = ?ext e' @ []" by simp_all
  moreover from prefixed_inject [of e "[]" e' "[]"] this(2) assms(6,7) have "e = e'"
    by simp
  ultimately show ?thesis by simp
qed

text \<open>
  The product id does not depend on the order in which the prices are declared, nor on how
  the unstable sort treats ties, as long as no two prices share a mint URL.
\<close>

theorem product_id_order_independent:
  assumes "url_sorter srt" and "url_sorter srt'" and "mset ps = mset qs"
    and "distinct (map mint_url ps)"
  shows "product_id sha256 srt scale ps ext = product_id sha256 srt' scale qs ext"
  using url_sorter_unique [OF assms] by (simp add: product_id_def product_layout_def)

text \<open>The standard library's stable sort is one sorter the hypotheses allow.\<close>

definition stable_url_sort :: "mint_price list \<Rightarrow> mint_price list" where
  "stable_url_sort ps = sort_key (str_bytes \<circ> mint_url) ps"

lemma stable_url_sort_sorter: "url_sorter stable_url_sort"
  unfolding url_sorter_def stable_url_sort_def by (simp only: mset_sort sorted_sort_key simp_thms all_simps)

definition sat_price :: mint_price where
  "sat_price = \<lparr> mint_url = ''m'', price_per_second = 1, price_per_unit = 1, mint_unit = ''sat'' \<rparr>"

definition usd_price :: mint_price where
  "usd_price = \<lparr> mint_url = ''m'', price_per_second = 2, price_per_unit = 2, mint_unit = ''usd'' \<rparr>"

definition other_price :: mint_price where
  "other_price = \<lparr> mint_url = ''a'', price_per_second = 3, price_per_unit = 3, mint_unit = ''sat'' \<rparr>"

theorem product_id_order_independent_witness:
  "product_id (\<lambda>bs. bs) stable_url_sort 1000 [sat_price, other_price] [] =
   product_id (\<lambda>bs. bs) stable_url_sort 1000 [other_price, sat_price] []"
  by (rule product_id_order_independent [OF stable_url_sort_sorter stable_url_sort_sorter])
    (simp_all add: sat_price_def other_price_def)

theorem product_layout_inject_witness:
  "product_layout stable_url_sort 1000 [sat_price, other_price] [7] =
     product_layout stable_url_sort 1000 [other_price, sat_price] [7] \<and>
   stable_url_sort [sat_price, other_price] = stable_url_sort [other_price, sat_price]"
proof -
  let ?ps = "[sat_price, other_price]" and ?qs = "[other_price, sat_price]"
  have srt: "stable_url_sort ?ps = ?qs" "stable_url_sort ?qs = ?qs"
    by (simp_all add: stable_url_sort_def sat_price_def other_price_def str_bytes_def)
  then have eq: "product_layout stable_url_sort 1000 ?ps [7] = product_layout stable_url_sort 1000 ?qs [7]"
    by (simp add: product_layout_def)
  have "price_fits sat_price" "price_fits other_price"
    by (simp_all add: price_fits_def fits_u32_def sat_price_def other_price_def)
  then show ?thesis
    using eq product_layout_inject [OF eq] by (simp add: srt fits_u32_def)
qed

text \<open>
  With two prices for the same mint URL, which a mint with two units has, the sort by URL
  leaves their order open, and under a stable sort the layout depends on the declaration
  order: the id is not declaration-order independent there.
\<close>

theorem product_layout_order_dependent:
  "url_sorter stable_url_sort \<and>
   product_layout stable_url_sort 1000 [sat_price, usd_price] [] \<noteq>
   product_layout stable_url_sort 1000 [usd_price, sat_price] []"
proof
  show "url_sorter stable_url_sort" by (rule stable_url_sort_sorter)
  have srt: "stable_url_sort [sat_price, usd_price] = [sat_price, usd_price]"
    "stable_url_sort [usd_price, sat_price] = [usd_price, sat_price]"
    by (simp_all add: stable_url_sort_def sat_price_def usd_price_def)
  have fit: "price_fits sat_price" "price_fits usd_price"
    by (simp_all add: price_fits_def fits_u32_def sat_price_def usd_price_def)
  have "sat_price \<noteq> usd_price" by (simp add: sat_price_def usd_price_def)
  then have "concat (map price_layout [sat_price, usd_price]) @ r \<noteq>
      concat (map price_layout [usd_price, sat_price]) @ r" for r
    using price_list_inject [of "[sat_price, usd_price]" r "[usd_price, sat_price]" r] fit by auto
  then show "product_layout stable_url_sort 1000 [sat_price, usd_price] [] \<noteq>
     product_layout stable_url_sort 1000 [usd_price, sat_price] []"
    unfolding product_layout_def Let_def srt by simp
qed

end
