(* ===== verification/BTreeMap.thy ===== *)
theory BTreeMap
  imports Prelude
begin

section \<open>Ordered maps\<close>

text \<open>
  The code keeps its per-peer state in \<^verbatim>\<open>alloc::collections::BTreeMap\<close>. What it uses of
  it is: \<open>get\<close>, \<open>insert\<close>, \<open>remove\<close>, \<open>len\<close> and iteration in increasing key order. The map is
  modelled by the list of its entries in that order. \<open>keyed_store\<close> is the contract the
  components rely on; it is discharged once, here, for the model of the map.
\<close>

type_synonym ('k, 'v) btree = "('k \<times> 'v) list"

definition bt_empty :: "('k, 'v) btree" where
  "bt_empty = []"

fun bt_get :: "('k, 'v) btree \<Rightarrow> 'k \<Rightarrow> 'v option" where
  "bt_get [] k = None"
| "bt_get ((k', v) # m) k = (if k = k' then Some v else bt_get m k)"

fun bt_insert :: "'k::linorder \<Rightarrow> 'v \<Rightarrow> ('k, 'v) btree \<Rightarrow> ('k, 'v) btree" where
  "bt_insert k v [] = [(k, v)]"
| "bt_insert k v ((k', v') # m) =
     (if k = k' then (k, v) # m
      else if k < k' then (k, v) # (k', v') # m
      else (k', v') # bt_insert k v m)"

definition bt_remove :: "'k \<Rightarrow> ('k, 'v) btree \<Rightarrow> ('k, 'v) btree" where
  "bt_remove k m = filter (\<lambda>e. fst e \<noteq> k) m"

definition bt_keys :: "('k, 'v) btree \<Rightarrow> 'k list" where
  "bt_keys m = map fst m"

text \<open>The representation invariant: strictly increasing keys.\<close>

definition bt_ok :: "('k::linorder, 'v) btree \<Rightarrow> bool" where
  "bt_ok m \<longleftrightarrow> sorted_wrt (<) (bt_keys m)"

locale keyed_store =
  fixes empty :: "'m"
    and get :: "'m \<Rightarrow> 'k \<Rightarrow> 'v option"
    and put :: "'k \<Rightarrow> 'v \<Rightarrow> 'm \<Rightarrow> 'm"
    and del :: "'k \<Rightarrow> 'm \<Rightarrow> 'm"
    and ok :: "'m \<Rightarrow> bool"
  assumes get_empty: "get empty k = None"
    and get_put: "get (put k v m) k' = (if k' = k then Some v else get m k')"
    and get_del: "get (del k m) k' = (if k' = k then None else get m k')"
    and ok_empty: "ok empty"
    and ok_put: "ok m \<Longrightarrow> ok (put k v m)"
    and ok_del: "ok m \<Longrightarrow> ok (del k m)"
begin

lemma put_overwrites: "get (put k v (put k w m)) = get (put k v m)"
  by (rule ext) (simp add: get_put)

lemma put_other: "k' \<noteq> k \<Longrightarrow> get (put k v m) k' = get m k'"
  by (simp add: get_put)

lemma del_put: "get (del k (put k v m)) = get (del k m)"
  by (rule ext) (simp add: get_put get_del)

lemma dom_put: "dom (get (put k v m)) = insert k (dom (get m))"
  by (auto simp: get_put dom_def)

lemma dom_del: "dom (get (del k m)) = dom (get m) - {k}"
  by (auto simp: get_del dom_def)

end

lemma bt_keys_insert: "set (bt_keys (bt_insert k v m)) = insert k (set (bt_keys m))"
  by (induction k v m rule: bt_insert.induct) (auto simp: bt_keys_def)

lemma bt_ok_insert: "bt_ok m \<Longrightarrow> bt_ok (bt_insert k v m)"
proof (induction k v m rule: bt_insert.induct)
  case (1 k v)
  then show ?case by (simp add: bt_ok_def bt_keys_def)
next
  case (2 k v k' v' m)
  have tail: "bt_ok m" and low: "\<And>x. x \<in> set (map fst m) \<Longrightarrow> k' < x"
    using "2.prems" by (auto simp: bt_ok_def bt_keys_def)
  show ?case
  proof (cases "k < k' \<or> k = k'")
    case True
    with "2.prems" low show ?thesis
      by (force simp: bt_ok_def bt_keys_def intro: less_trans)
  next
    case False
    then have "bt_ok (bt_insert k v m)" using "2.IH" tail by auto
    moreover have "\<forall>x \<in> set (bt_keys (bt_insert k v m)). k' < x"
      unfolding bt_keys_insert using False low by (auto simp: bt_keys_def)
    ultimately show ?thesis using False by (auto simp: bt_ok_def bt_keys_def)
  qed
qed

lemma bt_ok_remove: "bt_ok m \<Longrightarrow> bt_ok (bt_remove k m)"
  by (induction m) (auto simp: bt_ok_def bt_keys_def bt_remove_def)

lemma bt_get_insert: "bt_get (bt_insert k v m) k' = (if k' = k then Some v else bt_get m k')"
  by (induction k v m rule: bt_insert.induct) auto

lemma bt_get_remove: "bt_get (bt_remove k m) k' = (if k' = k then None else bt_get m k')"
  by (induction m) (auto simp: bt_remove_def)

interpretation bt: keyed_store bt_empty bt_get bt_insert bt_remove bt_ok
  by unfold_locales
    (simp_all add: bt_get_insert bt_get_remove bt_ok_insert bt_ok_remove,
      simp_all add: bt_empty_def bt_ok_def bt_keys_def)

lemmas bt_laws [simp] = bt.get_empty bt.get_put bt.get_del bt.ok_empty bt.ok_put bt.ok_del

lemma bt_get_keys: "(bt_get m k \<noteq> None) \<longleftrightarrow> k \<in> set (bt_keys m)"
  by (induction m) (auto simp: bt_keys_def)

lemma bt_get_map_values:
  "bt_get (map (\<lambda>(k, v). (k, f k v)) m) k = map_option (f k) (bt_get m k)"
  by (induction m) auto

lemma bt_get_entry: "bt_get m k = Some v \<Longrightarrow> (k, v) \<in> set m"
  by (induction m) (auto split: if_splits)

lemma bt_entry_get: "bt_ok m \<Longrightarrow> (k, v) \<in> set m \<Longrightarrow> bt_get m k = Some v"
proof (induction m)
  case Nil
  then show ?case by simp
next
  case (Cons e m)
  then show ?case
    by (cases e) (force simp: bt_ok_def bt_keys_def)
qed

end
