(* ===== verification/Wire_Message.thy ===== *)
theory Wire_Message
  imports Prelude
begin

section \<open>Wire messages\<close>

text \<open>
  The messages of \<^verbatim>\<open>crates/tollgate-protocol/src/message.rs\<close>: identifiers, the message
  structs with their constructors and accessors, and the two wire enumerations with their
  byte codes. A Rust \<^verbatim>\<open>String\<close> is the list of its UTF-8 bytes, as a \<^typ>\<open>string\<close>;
  fixed-size byte arrays are byte lists.

  The CBOR bytes themselves are produced and read by the \<^verbatim>\<open>minicbor\<close> crate, which is not
  part of the repository. Its encoders and decoders are the fields of \<open>codec\<close>, a parameter
  of every definition that sends or receives a message.
\<close>

subsection \<open>Identifiers\<close>

datatype PublicKey = PublicKey (as_bytes: bytes)

definition PublicKey_LEN :: nat where
  "PublicKey_LEN = 33"

definition pk_wf :: "PublicKey \<Rightarrow> bool" where
  "pk_wf k \<longleftrightarrow> length (as_bytes k) = PublicKey_LEN"

instantiation PublicKey :: linorder
begin

definition less_eq_PublicKey :: "PublicKey \<Rightarrow> PublicKey \<Rightarrow> bool" where
  "a \<le> b \<longleftrightarrow> as_bytes a \<le> as_bytes b"

definition less_PublicKey :: "PublicKey \<Rightarrow> PublicKey \<Rightarrow> bool" where
  "a < b \<longleftrightarrow> as_bytes a < as_bytes b"

instance
  by standard (auto simp: less_eq_PublicKey_def less_PublicKey_def PublicKey.expand)

end


subsection \<open>Message types and reason codes\<close>

datatype MessageType =
    Announce | PriceSheet | Accept | ChannelReady | MeteringReport | BalanceUpdate
  | BalanceAck | BootstrapToken | BootstrapAck | RolloverInit | RolloverReady
  | ChannelClose | CloseAck | Reject | Disconnect

fun MessageType_as_u8 :: "MessageType \<Rightarrow> u8" where
  "MessageType_as_u8 Announce = 0x00"
| "MessageType_as_u8 PriceSheet = 0x01"
| "MessageType_as_u8 Accept = 0x02"
| "MessageType_as_u8 ChannelReady = 0x03"
| "MessageType_as_u8 MeteringReport = 0x04"
| "MessageType_as_u8 BalanceUpdate = 0x05"
| "MessageType_as_u8 BalanceAck = 0x06"
| "MessageType_as_u8 BootstrapToken = 0x07"
| "MessageType_as_u8 BootstrapAck = 0x08"
| "MessageType_as_u8 RolloverInit = 0x09"
| "MessageType_as_u8 RolloverReady = 0x0A"
| "MessageType_as_u8 ChannelClose = 0x0B"
| "MessageType_as_u8 CloseAck = 0x0C"
| "MessageType_as_u8 Reject = 0x0D"
| "MessageType_as_u8 Disconnect = 0x0E"

definition MessageType_from_u8 :: "u8 \<Rightarrow> MessageType option" where
  "MessageType_from_u8 v =
     (if v = 0x00 then Some Announce
      else if v = 0x01 then Some PriceSheet
      else if v = 0x02 then Some Accept
      else if v = 0x03 then Some ChannelReady
      else if v = 0x04 then Some MeteringReport
      else if v = 0x05 then Some BalanceUpdate
      else if v = 0x06 then Some BalanceAck
      else if v = 0x07 then Some BootstrapToken
      else if v = 0x08 then Some BootstrapAck
      else if v = 0x09 then Some RolloverInit
      else if v = 0x0A then Some RolloverReady
      else if v = 0x0B then Some ChannelClose
      else if v = 0x0C then Some CloseAck
      else if v = 0x0D then Some Reject
      else if v = 0x0E then Some Disconnect
      else None)"

datatype RejectReason =
    PriceTooHigh | MintNotAccepted | UnitNotAccepted | MeteringIntervalOutOfRange
  | ChannelFundingInvalid | BalanceVerificationFailed | TransitLossToleranceExceeded
  | ProductChangedRenegotiationRequired | ProtocolVersionUnsupported | Other

fun RejectReason_as_u8 :: "RejectReason \<Rightarrow> u8" where
  "RejectReason_as_u8 PriceTooHigh = 0x01"
| "RejectReason_as_u8 MintNotAccepted = 0x02"
| "RejectReason_as_u8 UnitNotAccepted = 0x03"
| "RejectReason_as_u8 MeteringIntervalOutOfRange = 0x04"
| "RejectReason_as_u8 ChannelFundingInvalid = 0x05"
| "RejectReason_as_u8 BalanceVerificationFailed = 0x06"
| "RejectReason_as_u8 TransitLossToleranceExceeded = 0x07"
| "RejectReason_as_u8 ProductChangedRenegotiationRequired = 0x08"
| "RejectReason_as_u8 ProtocolVersionUnsupported = 0x09"
| "RejectReason_as_u8 Other = 0xFF"

definition RejectReason_from_u8 :: "u8 \<Rightarrow> RejectReason option" where
  "RejectReason_from_u8 v =
     (if v = 0x01 then Some PriceTooHigh
      else if v = 0x02 then Some MintNotAccepted
      else if v = 0x03 then Some UnitNotAccepted
      else if v = 0x04 then Some MeteringIntervalOutOfRange
      else if v = 0x05 then Some ChannelFundingInvalid
      else if v = 0x06 then Some BalanceVerificationFailed
      else if v = 0x07 then Some TransitLossToleranceExceeded
      else if v = 0x08 then Some ProductChangedRenegotiationRequired
      else if v = 0x09 then Some ProtocolVersionUnsupported
      else if v = 0xFF then Some Other
      else None)"


subsection \<open>The message structs\<close>

record metering_report =
  mr_type_tag :: u8
  mr_elapsed_ms :: u64
  mr_delivered :: u64
  mr_received :: u64
  mr_new_product_id :: "bytes option"

definition MeteringReport_new :: "u64 \<Rightarrow> u64 \<Rightarrow> u64 \<Rightarrow> metering_report" where
  "MeteringReport_new elapsed_ms delivered received =
     \<lparr> mr_type_tag = MessageType_as_u8 MeteringReport, mr_elapsed_ms = elapsed_ms,
       mr_delivered = delivered, mr_received = received, mr_new_product_id = None \<rparr>"

definition PROTOCOL_VERSION :: u8 where
  "PROTOCOL_VERSION = 1"

definition CAP_SPILMAN :: u32 where
  "CAP_SPILMAN = 0x01"

record announce =
  an_type_tag :: u8
  an_version :: u8
  an_pubkey :: bytes
  an_unit :: string
  an_capabilities :: u32

definition Announce_new :: "u8 \<Rightarrow> PublicKey \<Rightarrow> string \<Rightarrow> u32 \<Rightarrow> announce" where
  "Announce_new version pubkey unit capabilities =
     \<lparr> an_type_tag = MessageType_as_u8 Announce, an_version = version,
       an_pubkey = as_bytes pubkey, an_unit = unit, an_capabilities = capabilities \<rparr>"

definition public_key :: "announce \<Rightarrow> PublicKey" where
  "public_key a = PublicKey (an_pubkey a)"

definition supports_spilman :: "announce \<Rightarrow> bool" where
  "supports_spilman a \<longleftrightarrow> Bit_Operations.and (an_capabilities a) CAP_SPILMAN \<noteq> 0"

record bootstrap_token =
  bt_type_tag :: u8
  bt_token :: bytes

definition BootstrapToken_new :: "bytes \<Rightarrow> bootstrap_token" where
  "BootstrapToken_new token =
     \<lparr> bt_type_tag = MessageType_as_u8 BootstrapToken, bt_token = token \<rparr>"

definition token_bytes :: "bootstrap_token \<Rightarrow> bytes" where
  "token_bytes m = bt_token m"

record bootstrap_ack =
  ba_type_tag :: u8
  ba_status :: u8
  ba_reason :: "string option"

definition STATUS_ACCEPTED :: u8 where
  "STATUS_ACCEPTED = 0"

definition STATUS_REJECTED :: u8 where
  "STATUS_REJECTED = 1"

definition BootstrapAck_accepted :: bootstrap_ack where
  "BootstrapAck_accepted =
     \<lparr> ba_type_tag = MessageType_as_u8 BootstrapAck, ba_status = STATUS_ACCEPTED, ba_reason = None \<rparr>"

definition BootstrapAck_rejected :: "string \<Rightarrow> bootstrap_ack" where
  "BootstrapAck_rejected reason =
     \<lparr> ba_type_tag = MessageType_as_u8 BootstrapAck, ba_status = STATUS_REJECTED,
       ba_reason = Some reason \<rparr>"

definition is_accepted :: "bootstrap_ack \<Rightarrow> bool" where
  "is_accepted a \<longleftrightarrow> ba_status a = STATUS_ACCEPTED"

record reject =
  rj_type_tag :: u8
  rj_rejected_type :: u8
  rj_reason_code :: u8
  rj_reason_text :: "string option"

definition Reject_new :: "MessageType \<Rightarrow> RejectReason \<Rightarrow> reject" where
  "Reject_new rejected_type reason =
     \<lparr> rj_type_tag = MessageType_as_u8 Reject, rj_rejected_type = MessageType_as_u8 rejected_type,
       rj_reason_code = RejectReason_as_u8 reason, rj_reason_text = None \<rparr>"

definition with_reason_text :: "reject \<Rightarrow> string \<Rightarrow> reject" where
  "with_reason_text r t = r\<lparr> rj_reason_text := Some t \<rparr>"

definition Reject_reason :: "reject \<Rightarrow> RejectReason option" where
  "Reject_reason r = RejectReason_from_u8 (rj_reason_code r)"

definition is_transit_loss :: "reject \<Rightarrow> bool" where
  "is_transit_loss r \<longleftrightarrow> Reject_reason r = Some TransitLossToleranceExceeded"

definition is_balance_exhausted :: "reject \<Rightarrow> bool" where
  "is_balance_exhausted r \<longleftrightarrow> Reject_reason r = Some BalanceVerificationFailed"

record disconnect =
  dc_type_tag :: u8
  dc_reason_code :: u8

definition Disconnect_new :: "RejectReason \<Rightarrow> disconnect" where
  "Disconnect_new reason =
     \<lparr> dc_type_tag = MessageType_as_u8 Disconnect, dc_reason_code = RejectReason_as_u8 reason \<rparr>"

definition Disconnect_reason :: "disconnect \<Rightarrow> RejectReason option" where
  "Disconnect_reason d = RejectReason_from_u8 (dc_reason_code d)"

record interval_range =
  ir_min_ms :: u32
  ir_max_ms :: u32

definition IntervalRange_new :: "u32 \<Rightarrow> u32 \<Rightarrow> interval_range" where
  "IntervalRange_new min_ms max_ms = \<lparr> ir_min_ms = min_ms, ir_max_ms = max_ms \<rparr>"

definition interval_contains :: "interval_range \<Rightarrow> u32 \<Rightarrow> bool" where
  "interval_contains r ms \<longleftrightarrow> ms \<ge> ir_min_ms r \<and> ms \<le> ir_max_ms r"

record mint_option =
  mo_option_id :: bytes
  mo_mint_url :: string
  mo_price_per_second :: i64
  mo_price_per_unit :: i64
  mo_mint_unit :: string

definition MintOption_new ::
    "bytes \<Rightarrow> string \<Rightarrow> i64 \<Rightarrow> i64 \<Rightarrow> string \<Rightarrow> mint_option" where
  "MintOption_new option_id mint_url price_per_second price_per_unit mint_unit =
     \<lparr> mo_option_id = option_id, mo_mint_url = mint_url,
       mo_price_per_second = price_per_second, mo_price_per_unit = price_per_unit,
       mo_mint_unit = mint_unit \<rparr>"

record product_entry =
  pe_product_id :: bytes
  pe_extensions :: bytes
  pe_pricing_scale :: u32
  pe_mint_options :: "mint_option list"

definition ProductEntry_new ::
    "bytes \<Rightarrow> bytes \<Rightarrow> u32 \<Rightarrow> mint_option list \<Rightarrow> product_entry" where
  "ProductEntry_new product_id extensions pricing_scale mint_options =
     \<lparr> pe_product_id = product_id, pe_extensions = extensions,
       pe_pricing_scale = pricing_scale, pe_mint_options = mint_options \<rparr>"

record price_sheet =
  ps_type_tag :: u8
  ps_products :: "product_entry list"
  ps_interval :: interval_range

definition PriceSheet_new :: "product_entry list \<Rightarrow> interval_range \<Rightarrow> price_sheet" where
  "PriceSheet_new products interval =
     \<lparr> ps_type_tag = MessageType_as_u8 PriceSheet, ps_products = products, ps_interval = interval \<rparr>"

record accept =
  ac_type_tag :: u8
  ac_product_id :: bytes
  ac_option_id :: bytes
  ac_interval :: interval_range
  ac_channel_funding :: bytes

definition Accept_new :: "bytes \<Rightarrow> bytes \<Rightarrow> interval_range \<Rightarrow> bytes \<Rightarrow> accept" where
  "Accept_new product_id option_id interval channel_funding =
     \<lparr> ac_type_tag = MessageType_as_u8 Accept, ac_product_id = product_id,
       ac_option_id = option_id, ac_interval = interval, ac_channel_funding = channel_funding \<rparr>"


subsection \<open>The CBOR codec, a parameter\<close>

text \<open>
  \<^verbatim>\<open>minicbor::to_vec\<close> and \<^verbatim>\<open>minicbor::decode\<close> at each message type, and the decoder of the
  one-field \<^verbatim>\<open>Header\<close> view that reads field key 0. Decoders return \<open>None\<close> for any decode
  error: no caller looks at which.
\<close>

record codec =
  dec_header :: "bytes \<Rightarrow> u8 option"
  enc_metering_report :: "metering_report \<Rightarrow> bytes"
  dec_metering_report :: "bytes \<Rightarrow> metering_report option"
  enc_announce :: "announce \<Rightarrow> bytes"
  dec_announce :: "bytes \<Rightarrow> announce option"
  enc_bootstrap_token :: "bootstrap_token \<Rightarrow> bytes"
  dec_bootstrap_token :: "bytes \<Rightarrow> bootstrap_token option"
  enc_bootstrap_ack :: "bootstrap_ack \<Rightarrow> bytes"
  dec_bootstrap_ack :: "bytes \<Rightarrow> bootstrap_ack option"
  enc_reject :: "reject \<Rightarrow> bytes"
  dec_reject :: "bytes \<Rightarrow> reject option"
  enc_disconnect :: "disconnect \<Rightarrow> bytes"
  dec_disconnect :: "bytes \<Rightarrow> disconnect option"
  enc_price_sheet :: "price_sheet \<Rightarrow> bytes"
  dec_price_sheet :: "bytes \<Rightarrow> price_sheet option"
  enc_accept :: "accept \<Rightarrow> bytes"
  dec_accept :: "bytes \<Rightarrow> accept option"

text \<open>Read the message type of an encoded message without decoding its body.\<close>

definition peek_type :: "codec \<Rightarrow> bytes \<Rightarrow> MessageType option" where
  "peek_type cdc message =
     (case dec_header cdc message of None \<Rightarrow> None | Some tag \<Rightarrow> MessageType_from_u8 tag)"


subsection \<open>Facts about the codes\<close>

lemma MessageType_from_as [simp]: "MessageType_from_u8 (MessageType_as_u8 t) = Some t"
  by (cases t) (simp_all add: MessageType_from_u8_def)

lemma MessageType_as_from: "MessageType_from_u8 v = Some t \<Longrightarrow> MessageType_as_u8 t = v"
  by (auto simp: MessageType_from_u8_def split: if_splits)

lemma RejectReason_from_as [simp]: "RejectReason_from_u8 (RejectReason_as_u8 r) = Some r"
  by (cases r) (simp_all add: RejectReason_from_u8_def)

lemma RejectReason_as_from: "RejectReason_from_u8 v = Some r \<Longrightarrow> RejectReason_as_u8 r = v"
  by (auto simp: RejectReason_from_u8_def split: if_splits)

lemma Reject_new_reason [simp]: "Reject_reason (Reject_new t r) = Some r"
  by (simp add: Reject_reason_def Reject_new_def)

end
