(* ===== verification/Pricing.thy ===== *)
theory Pricing
  imports Prelude
begin

section \<open>Static pricing\<close>

text \<open>
  \<^verbatim>\<open>crates/tollgate-core/src/pricing.rs\<close>: the rate a node charges, the cost of an interval
  and the clamping of a price into its bounds. Costs are computed in 128-bit signed
  arithmetic and then saturated to 64 bits; \<open>wrap_i128\<close> is the wrap-around of that
  arithmetic, so the model also says what happens where the 128-bit sum overflows.

  \<^verbatim>\<open>apply_multiplier\<close> and \<^verbatim>\<open>adjust\<close> compute in IEEE doubles and are not modelled.
\<close>

record price =
  per_second :: i64
  per_unit :: i64

definition Price_default :: price where
  "Price_default = \<lparr> per_second = 0, per_unit = 0 \<rparr>"

definition i64_MAX :: int where
  "i64_MAX = 2 ^ 63 - 1"

definition i64_MIN :: int where
  "i64_MIN = - (2 ^ 63)"

definition wrap_i128 :: "int \<Rightarrow> int" where
  "wrap_i128 x = signed_take_bit 127 x"

text \<open>Rust's division truncates towards zero.\<close>

definition trunc_div :: "int \<Rightarrow> int \<Rightarrow> int" where
  "trunc_div a b = sgn a * sgn b * (\<bar>a\<bar> div \<bar>b\<bar>)"

definition cost_scaled :: "price \<Rightarrow> u64 \<Rightarrow> u64 \<Rightarrow> i64" where
  "cost_scaled p elapsed_ms units =
     (let time = trunc_div (wrap_i128 (uint elapsed_ms * sint (per_second p))) 1000;
          unit = wrap_i128 (uint units * sint (per_unit p));
          total = wrap_i128 (time + unit)
      in if i64_MIN \<le> total \<and> total \<le> i64_MAX then word_of_int total
         else word_of_int (if total > 0 then i64_MAX else i64_MIN))"

record price_bounds =
  per_second_floor :: "i64 option"
  per_second_ceiling :: "i64 option"
  per_unit_floor :: "i64 option"
  per_unit_ceiling :: "i64 option"

definition i64_max :: "i64 \<Rightarrow> i64 \<Rightarrow> i64" where
  "i64_max a b = (if sint b < sint a then a else b)"

definition i64_min :: "i64 \<Rightarrow> i64 \<Rightarrow> i64" where
  "i64_min a b = (if sint b < sint a then b else a)"

definition clamp_val :: "i64 \<Rightarrow> i64 option \<Rightarrow> i64 option \<Rightarrow> i64" where
  "clamp_val val floor ceiling =
     (let v = (case floor of None \<Rightarrow> val | Some f \<Rightarrow> i64_max val f)
      in case ceiling of None \<Rightarrow> v | Some c \<Rightarrow> i64_min v c)"

definition Price_clamp :: "price \<Rightarrow> price_bounds \<Rightarrow> price" where
  "Price_clamp p bounds =
     \<lparr> per_second = clamp_val (per_second p) (per_second_floor bounds) (per_second_ceiling bounds),
       per_unit = clamp_val (per_unit p) (per_unit_floor bounds) (per_unit_ceiling bounds) \<rparr>"

text \<open>The exact cost, as an integer: what \<open>cost_scaled\<close> means to compute.\<close>

definition exact_cost :: "price \<Rightarrow> u64 \<Rightarrow> u64 \<Rightarrow> int" where
  "exact_cost p elapsed_ms units =
     trunc_div (uint elapsed_ms * sint (per_second p)) 1000 + uint units * sint (per_unit p)"

definition saturate_i64 :: "int \<Rightarrow> int" where
  "saturate_i64 x = max i64_MIN (min i64_MAX x)"


subsection \<open>The cost of an interval\<close>

lemma wrap_i128_id: "- (2 ^ 127) \<le> x \<Longrightarrow> x < 2 ^ 127 \<Longrightarrow> wrap_i128 x = x"
  by (simp add: wrap_i128_def signed_take_bit_int_eq_self)

lemma product_in_i128:
  fixes u w :: u64
  shows "- (2 ^ 127) \<le> uint u * sint w" and "uint u * sint w < 2 ^ 127"
proof -
  have u: "0 \<le> uint u" "uint u < 2 ^ 64"
    using uint_lt2p [of u] by simp_all
  have w: "- (2 ^ 63) \<le> sint w" "sint w < 2 ^ 63"
    using sint_ge [of w] sint_lt [of w] by simp_all
  have "\<bar>uint u * sint w\<bar> \<le> (2 ^ 64 - 1) * 2 ^ 63"
    unfolding abs_mult using u w by (intro mult_mono) auto
  then show "- (2 ^ 127) \<le> uint u * sint w" and "uint u * sint w < 2 ^ 127"
    by (simp_all add: abs_le_iff)
qed


lemma exact_in_range_cost:
  assumes "- (2 ^ 127) \<le> exact_cost p t u" and "exact_cost p t u < 2 ^ 127"
  shows "sint (cost_scaled p t u) = saturate_i64 (exact_cost p t u)"
proof -
  have time: "wrap_i128 (uint t * sint (per_second p)) = uint t * sint (per_second p)"
    and unit: "wrap_i128 (uint u * sint (per_unit p)) = uint u * sint (per_unit p)"
    using product_in_i128 by (simp_all add: wrap_i128_id)
  have total: "wrap_i128 (exact_cost p t u) = exact_cost p t u"
    using assms by (rule wrap_i128_id)
  have fits: "i64_MIN \<le> x \<Longrightarrow> x \<le> i64_MAX \<Longrightarrow> sint (word_of_int x :: i64) = x" for x
    by (simp add: i64_MIN_def i64_MAX_def sint_sbintrunc' signed_take_bit_int_eq_self)
  show ?thesis
    using total fits [of "exact_cost p t u"] fits [of i64_MAX] fits [of i64_MIN]
    unfolding cost_scaled_def time unit exact_cost_def [symmetric] Let_def
    by (auto simp: exact_cost_def saturate_i64_def i64_MIN_def i64_MAX_def)
qed

lemma cost_scaled_nat:
  assumes "exact_cost p t u = int k" and "k < 2 ^ 63"
  shows "nat (sint (cost_scaled p t u)) = k"
proof -
  from assms(2) have "int k < int (2 ^ 63)" by (simp only: of_nat_less_iff)
  then have "int k < 2 ^ 63" by simp
  then have "sint (cost_scaled p t u) = int k"
    by (subst exact_in_range_cost) (simp_all add: assms(1) saturate_i64_def i64_MIN_def i64_MAX_def)
  then show ?thesis by simp
qed

lemma trunc_div_1000_bound: "\<bar>trunc_div a 1000\<bar> \<le> \<bar>a\<bar> div 1000"
  by (simp add: trunc_div_def abs_mult sgn_if)

lemma exact_cost_in_i128:
  assumes "u < 2 ^ 63"
  shows "- (2 ^ 127) \<le> exact_cost p t u" and "exact_cost p t u < 2 ^ 127"
proof -
  let ?a = "uint t * sint (per_second p)" and ?b = "uint u * sint (per_unit p)"
  have "uint u < 2 ^ 63" using assms by (simp add: word_less_def)
  moreover have "\<bar>sint (per_unit p)\<bar> \<le> 2 ^ 63"
    using sint_ge [of "per_unit p"] sint_lt [of "per_unit p"] by simp
  ultimately have b: "\<bar>?b\<bar> \<le> 2 ^ 63 * 2 ^ 63"
    unfolding abs_mult by (intro mult_mono) auto
  have "\<bar>?a\<bar> \<le> 2 ^ 127"
    using product_in_i128 [of t "per_second p"] by simp
  then have "\<bar>trunc_div ?a 1000\<bar> \<le> 2 ^ 127 div 1000"
    using trunc_div_1000_bound [of ?a] zdiv_mono1 [of "\<bar>?a\<bar>" "2 ^ 127" 1000] by linarith
  with b show "- (2 ^ 127) \<le> exact_cost p t u" and "exact_cost p t u < 2 ^ 127"
    by (simp_all add: exact_cost_def abs_le_iff)
qed

text \<open>
  C28. For any interval of fewer than \<open>2 ^ 63\<close> units the cost is the exact rational cost
  truncated per second, saturated to the signed 64-bit range: no intermediate overflow, and
  the sign of a negative rate is kept.
\<close>

theorem cost_scaled_exact:
  assumes "units < 2 ^ 63"
  shows "sint (cost_scaled p elapsed_ms units) =
    max (- (2 ^ 63)) (min (2 ^ 63 - 1)
      (trunc_div (uint elapsed_ms * sint (per_second p)) 1000 + uint units * sint (per_unit p)))"
  using exact_in_range_cost [OF exact_cost_in_i128 [OF assms], of p elapsed_ms]
  by (simp add: exact_cost_def saturate_i64_def i64_MIN_def i64_MAX_def)

theorem cost_scaled_exact_witness:
  "(10 :: u64) < 2 ^ 63 \<and> sint (cost_scaled \<lparr> per_second = - 5, per_unit = 3 \<rparr> 2000 10) = 20"
proof -
  have "(10 :: u64) < 2 ^ 63" by simp
  with cost_scaled_exact [OF this, of "\<lparr> per_second = - 5, per_unit = 3 \<rparr>" 2000]
  show ?thesis by (simp add: trunc_div_def)
qed

text \<open>
  At the top of the unit range the 128-bit sum of the two products overflows: with the
  largest positive rates, the largest interval gets the most negative cost there is, so a
  biller that clamps negative costs to zero charges nothing for it.
\<close>

theorem cost_scaled_overflows:
  "sint (cost_scaled \<lparr> per_second = 2 ^ 63 - 1, per_unit = 2 ^ 63 - 1 \<rparr>
     0xFFFFFFFFFFFFFFFF 0xFFFFFFFFFFFFFFFF) = - (2 ^ 63)"
  by (simp add: cost_scaled_def wrap_i128_def trunc_div_def i64_MIN_def i64_MAX_def Let_def
      signed_take_bit_eq_if_positive signed_take_bit_int_eq_self)

lemma sint_inject: "sint v = sint w \<Longrightarrow> v = w"
  by (rule signed_word_eqI)

lemma clamp_val_bounds:
  "case c of None \<Rightarrow> True | Some c' \<Rightarrow> sint (clamp_val v f c) \<le> sint c'"
  "case f of None \<Rightarrow> True
     | Some f' \<Rightarrow> (case c of None \<Rightarrow> sint f' | Some c' \<Rightarrow> min (sint f') (sint c')) \<le> sint (clamp_val v f c)"
  "clamp_val (clamp_val v f c) f c = clamp_val v f c"
  by (auto simp: clamp_val_def i64_max_def i64_min_def Let_def intro!: sint_inject split: option.splits)

lemma Price_clamp_sel:
  "per_second (Price_clamp p b) = clamp_val (per_second p) (per_second_floor b) (per_second_ceiling b)"
  "per_unit (Price_clamp p b) = clamp_val (per_unit p) (per_unit_floor b) (per_unit_ceiling b)"
  by (simp_all add: Price_clamp_def)

text \<open>
  Clamping a price puts each rate at or below its ceiling and, unless a lower ceiling wins,
  at or above its floor; clamping twice changes nothing.
\<close>

theorem Price_clamp_bounds:
  "(case per_second_ceiling b of None \<Rightarrow> True | Some c \<Rightarrow> sint (per_second (Price_clamp p b)) \<le> sint c) \<and>
   (case per_unit_ceiling b of None \<Rightarrow> True | Some c \<Rightarrow> sint (per_unit (Price_clamp p b)) \<le> sint c) \<and>
   (case per_unit_floor b of None \<Rightarrow> True
    | Some f \<Rightarrow> (case per_unit_ceiling b of None \<Rightarrow> sint f | Some c \<Rightarrow> min (sint f) (sint c))
        \<le> sint (per_unit (Price_clamp p b))) \<and>
   Price_clamp (Price_clamp p b) b = Price_clamp p b"
proof (intro conjI)
  show "Price_clamp (Price_clamp p b) b = Price_clamp p b"
    by (simp add: Price_clamp_def clamp_val_bounds(3))
qed (simp_all only: Price_clamp_sel clamp_val_bounds)

end
