(* ===== verification/Session.thy ===== *)
theory Session
  imports BTreeMap Wire_Message Pricing
begin

section \<open>The session state machine\<close>

text \<open>
  \<^verbatim>\<open>crates/tollgate-core/src/session.rs\<close> with the small modules it uses (\<^verbatim>\<open>access.rs\<close>,
  \<^verbatim>\<open>action.rs\<close>, \<^verbatim>\<open>event.rs\<close>, \<^verbatim>\<open>metering.rs\<close>, \<^verbatim>\<open>peer.rs\<close>, \<^verbatim>\<open>time.rs\<close>). \<open>handle\<close> is
  \<^verbatim>\<open>Session::handle\<close>; each arm of its \<^verbatim>\<open>match\<close> is a definition of its own, and the arm of a
  meter sample is split at the values it computes. A step takes the event with the host's
  time stamp. The codec of \<open>Wire_Message\<close> is its first argument.

  The drift of a peer snapshot, the one floating-point value of the module, is modelled by
  the two integers whose quotient it is.
\<close>

subsection \<open>Peers, time, access and counters\<close>

datatype PeerId = PeerId PublicKey

instantiation PeerId :: linorder
begin

fun less_eq_PeerId :: "PeerId \<Rightarrow> PeerId \<Rightarrow> bool" where
  "PeerId a \<le> PeerId b \<longleftrightarrow> a \<le> b"

fun less_PeerId :: "PeerId \<Rightarrow> PeerId \<Rightarrow> bool" where
  "PeerId a < PeerId b \<longleftrightarrow> a < b"

instance
proof
  fix x y z :: PeerId
  show "x < y \<longleftrightarrow> x \<le> y \<and> \<not> y \<le> x" by (cases x; cases y) auto
  show "x \<le> x" by (cases x) simp
  show "x \<le> y \<Longrightarrow> y \<le> z \<Longrightarrow> x \<le> z" by (cases x; cases y; cases z) auto
  show "x \<le> y \<Longrightarrow> y \<le> x \<Longrightarrow> x = y" by (cases x; cases y) auto
  show "x \<le> y \<or> y \<le> x" by (cases x; cases y) auto
qed

end

datatype AccessLevel = AccessNone | AccessActive | AccessZeroPrice | AccessSuspended

fun allows_delivery :: "AccessLevel \<Rightarrow> bool" where
  "allows_delivery AccessActive = True"
| "allows_delivery AccessZeroPrice = True"
| "allows_delivery _ = False"

fun is_metered :: "AccessLevel \<Rightarrow> bool" where
  "is_metered AccessActive = True"
| "is_metered _ = False"

definition is_visible :: "AccessLevel \<Rightarrow> bool" where
  "is_visible l = allows_delivery l"

record counters =
  delivered :: u64
  received :: u64

definition Counters_default :: counters where
  "Counters_default = \<lparr> delivered = 0, received = 0 \<rparr>"

definition reconcile :: "u64 \<Rightarrow> u64 \<Rightarrow> u64" where
  "reconcile local remote = (if local > remote then local else remote)"


subsection \<open>Events and actions\<close>

datatype Event =
    PeerConnected PeerId
  | PeerDisconnected PeerId
  | MessageReceived PeerId bytes
  | MeterSample PeerId counters
  | BootstrapVerified PeerId u64 bool
  | Tick

datatype Action =
    Send PeerId bytes
  | SetAccess PeerId AccessLevel
  | VerifyBootstrapToken PeerId bytes
  | StartMetering PeerId
  | StopMetering PeerId
  | DisconnectPeer PeerId


subsection \<open>Per-peer state\<close>

datatype PeerPhase = New | BootstrapPending | Active | Suspended | Closed

record peer_session =
  phase :: PeerPhase
  balance :: u64
  last_counters :: "counters option"
  last_meter_at :: Millis
  metering_baseline :: counters
  metering_start :: Millis
  peer_report :: "counters option"
  billed_units :: u64
  over_tolerance_streak :: u8
  last_price_sheet :: "price_sheet option"
  accepted_product :: "bytes option"

definition PeerSession_new :: peer_session where
  "PeerSession_new =
     \<lparr> phase = New, balance = 0, last_counters = None, last_meter_at = 0,
       metering_baseline = Counters_default, metering_start = 0, peer_report = None,
       billed_units = 0, over_tolerance_streak = 0, last_price_sheet = None,
       accepted_product = None \<rparr>"

definition reset_metering :: "peer_session \<Rightarrow> counters \<Rightarrow> Millis \<Rightarrow> peer_session" where
  "reset_metering ps c now =
     ps\<lparr> last_counters := Some c, last_meter_at := now, metering_baseline := c,
         metering_start := now, peer_report := None, billed_units := 0,
         over_tolerance_streak := 0 \<rparr>"

record metering_policy =
  tolerance_bps :: u32
  max_streak :: u8

definition MeteringPolicy_default :: metering_policy where
  "MeteringPolicy_default = \<lparr> tolerance_bps = 500, max_streak = 3 \<rparr>"

record session =
  peers :: "(PeerId, peer_session) btree"
  sess_price :: price
  policy :: metering_policy

definition Session_new :: session where
  "Session_new =
     \<lparr> peers = bt_empty, sess_price = Price_default, policy = MeteringPolicy_default \<rparr>"

definition set_price :: "session \<Rightarrow> price \<Rightarrow> session" where
  "set_price s p = s\<lparr> sess_price := p \<rparr>"

definition set_metering_policy :: "session \<Rightarrow> metering_policy \<Rightarrow> session" where
  "set_metering_policy s p = s\<lparr> policy := p \<rparr>"

definition set_peer :: "PeerId \<Rightarrow> peer_session \<Rightarrow> session \<Rightarrow> session" where
  "set_peer peer ps s = s\<lparr> peers := bt_insert peer ps (peers s) \<rparr>"

definition close_peer :: "PeerId \<Rightarrow> session \<Rightarrow> session" where
  "close_peer peer s =
     (let s1 = (case bt_get (peers s) peer of None \<Rightarrow> s
                | Some ps \<Rightarrow> set_peer peer (ps\<lparr> phase := Closed \<rparr>) s)
      in s1\<lparr> peers := bt_remove peer (peers s1) \<rparr>)"


subsection \<open>Connection and inbound messages\<close>

definition handle_peer_connected :: "PeerId \<Rightarrow> session \<Rightarrow> session \<times> Action list" where
  "handle_peer_connected peer s =
     (case bt_get (peers s) peer of
        Some _ \<Rightarrow> (s, [])
      | None \<Rightarrow> (set_peer peer PeerSession_new s, [SetAccess peer AccessNone]))"

definition handle_bootstrap_token ::
    "codec \<Rightarrow> PeerId \<Rightarrow> bytes \<Rightarrow> session \<Rightarrow> session \<times> Action list" where
  "handle_bootstrap_token cdc peer bs s =
     (case dec_bootstrap_token cdc bs of
        None \<Rightarrow> (s, [])
      | Some msg \<Rightarrow>
          (case bt_get (peers s) peer of
             None \<Rightarrow> (s, [])
           | Some ps \<Rightarrow>
               (set_peer peer (ps\<lparr> phase := BootstrapPending \<rparr>) s,
                [VerifyBootstrapToken peer (token_bytes msg)])))"

definition handle_reject ::
    "codec \<Rightarrow> PeerId \<Rightarrow> bytes \<Rightarrow> session \<Rightarrow> session \<times> Action list" where
  "handle_reject cdc peer bs s =
     (case dec_reject cdc bs of
        None \<Rightarrow> (s, [])
      | Some _ \<Rightarrow>
          (case bt_get (peers s) peer of
             None \<Rightarrow> (s, [])
           | Some ps \<Rightarrow>
               if phase ps \<noteq> Closed
               then (set_peer peer (ps\<lparr> phase := New \<rparr>) s,
                     if phase ps = Active then [SetAccess peer AccessNone, StopMetering peer] else [])
               else (s, [])))"

definition handle_disconnect ::
    "codec \<Rightarrow> PeerId \<Rightarrow> bytes \<Rightarrow> session \<Rightarrow> session \<times> Action list" where
  "handle_disconnect cdc peer bs s =
     (case dec_disconnect cdc bs of
        None \<Rightarrow> (s, [])
      | Some _ \<Rightarrow> (close_peer peer s, [SetAccess peer AccessNone, StopMetering peer]))"

definition handle_price_sheet ::
    "codec \<Rightarrow> PeerId \<Rightarrow> bytes \<Rightarrow> session \<Rightarrow> session \<times> Action list" where
  "handle_price_sheet cdc peer bs s =
     (case dec_price_sheet cdc bs of
        None \<Rightarrow> (s, [])
      | Some sheet \<Rightarrow>
          (case bt_get (peers s) peer of
             None \<Rightarrow> (s, [])
           | Some ps \<Rightarrow> (set_peer peer (ps\<lparr> last_price_sheet := Some sheet \<rparr>) s, [])))"

definition handle_accept ::
    "codec \<Rightarrow> PeerId \<Rightarrow> bytes \<Rightarrow> session \<Rightarrow> session \<times> Action list" where
  "handle_accept cdc peer bs s =
     (case dec_accept cdc bs of
        None \<Rightarrow> (s, [])
      | Some acc \<Rightarrow>
          (case bt_get (peers s) peer of
             None \<Rightarrow> (s, [])
           | Some ps \<Rightarrow>
               (set_peer peer
                  (ps\<lparr> accepted_product :=
                        (if length (ac_product_id acc) = 32 then Some (ac_product_id acc) else None) \<rparr>) s,
                [])))"

definition handle_metering_report ::
    "codec \<Rightarrow> PeerId \<Rightarrow> bytes \<Rightarrow> session \<Rightarrow> session \<times> Action list" where
  "handle_metering_report cdc peer bs s =
     (case dec_metering_report cdc bs of
        None \<Rightarrow> (s, [])
      | Some report \<Rightarrow>
          (case bt_get (peers s) peer of
             None \<Rightarrow> (s, [])
           | Some ps \<Rightarrow>
               (set_peer peer
                  (ps\<lparr> peer_report :=
                        Some \<lparr> delivered = mr_delivered report, received = mr_received report \<rparr> \<rparr>) s,
                [])))"

definition handle_message ::
    "codec \<Rightarrow> PeerId \<Rightarrow> bytes \<Rightarrow> session \<Rightarrow> session \<times> Action list" where
  "handle_message cdc peer bs s =
     (case peek_type cdc bs of
        Some BootstrapToken \<Rightarrow> handle_bootstrap_token cdc peer bs s
      | Some Reject \<Rightarrow> handle_reject cdc peer bs s
      | Some Disconnect \<Rightarrow> handle_disconnect cdc peer bs s
      | Some PriceSheet \<Rightarrow> handle_price_sheet cdc peer bs s
      | Some Accept \<Rightarrow> handle_accept cdc peer bs s
      | Some MeteringReport \<Rightarrow> handle_metering_report cdc peer bs s
      | _ \<Rightarrow> (s, []))"


subsection \<open>Payment\<close>

definition handle_bootstrap_verified ::
    "codec \<Rightarrow> PeerId \<Rightarrow> u64 \<Rightarrow> bool \<Rightarrow> Millis \<Rightarrow> session \<Rightarrow> session \<times> Action list" where
  "handle_bootstrap_verified cdc peer amount ok now s =
     (case bt_get (peers s) peer of
        None \<Rightarrow> (s, [])
      | Some ps \<Rightarrow>
          if ok then
            let was_active = (phase ps = Active);
                ps1 = ps\<lparr> balance := saturating_add (balance ps) amount, phase := Active \<rparr>;
                ps2 = (if was_active then ps1
                       else ps1\<lparr> last_counters := None, last_meter_at := now \<rparr>)
            in (set_peer peer ps2 s,
                [Send peer (enc_bootstrap_ack cdc BootstrapAck_accepted),
                 SetAccess peer AccessActive, StartMetering peer])
          else
            (set_peer peer (ps\<lparr> phase := New \<rparr>) s,
             [Send peer (enc_bootstrap_ack cdc (BootstrapAck_rejected ''token verification failed'')),
              SetAccess peer AccessNone]))"


subsection \<open>Metering\<close>

text \<open>The values a charged sample computes, in the order the code computes them.\<close>

definition our_delivered :: "peer_session \<Rightarrow> counters \<Rightarrow> u64" where
  "our_delivered ps c = saturating_sub (delivered c) (delivered (metering_baseline ps))"

definition our_received :: "peer_session \<Rightarrow> counters \<Rightarrow> u64" where
  "our_received ps c = saturating_sub (received c) (received (metering_baseline ps))"

definition billable :: "peer_session \<Rightarrow> counters \<Rightarrow> u64" where
  "billable ps c =
     (case peer_report ps of
        Some r \<Rightarrow> reconcile (our_delivered ps c) (received r)
      | None \<Rightarrow> our_delivered ps c)"

definition new_units :: "peer_session \<Rightarrow> counters \<Rightarrow> u64" where
  "new_units ps c = saturating_sub (billable ps c) (billed_units ps)"

definition sample_cost :: "price \<Rightarrow> peer_session \<Rightarrow> counters \<Rightarrow> Millis \<Rightarrow> i64" where
  "sample_cost p ps c now = cost_scaled p (since now (last_meter_at ps)) (new_units ps c)"

definition charge_of :: "i64 \<Rightarrow> u64" where
  "charge_of cost = (if sint cost > 0 then cost else 0)"

definition over_tolerance :: "metering_policy \<Rightarrow> u64 \<Rightarrow> u64 \<Rightarrow> bool" where
  "over_tolerance pol ours theirs \<longleftrightarrow>
     ours > 0 \<and> unat (abs_diff ours theirs) * 10000 > unat ours * unat (tolerance_bps pol)"

definition next_streak :: "metering_policy \<Rightarrow> peer_session \<Rightarrow> counters \<Rightarrow> u8" where
  "next_streak pol ps c =
     (case peer_report ps of
        None \<Rightarrow> over_tolerance_streak ps
      | Some r \<Rightarrow>
          if over_tolerance pol (our_delivered ps c) (received r)
          then saturating_add (over_tolerance_streak ps) 1 else 0)"

definition drift_warning ::
    "codec \<Rightarrow> metering_policy \<Rightarrow> PeerId \<Rightarrow> peer_session \<Rightarrow> counters \<Rightarrow> Action list" where
  "drift_warning cdc pol peer ps c =
     (case peer_report ps of
        None \<Rightarrow> []
      | Some r \<Rightarrow>
          if over_tolerance pol (our_delivered ps c) (received r)
          then [Send peer (enc_reject cdc (Reject_new MeteringReport TransitLossToleranceExceeded))]
          else [])"

definition charged_sample ::
    "codec \<Rightarrow> price \<Rightarrow> metering_policy \<Rightarrow> PeerId \<Rightarrow> counters \<Rightarrow> Millis \<Rightarrow> peer_session \<Rightarrow>
     peer_session \<times> Action list" where
  "charged_sample cdc p pol peer c now ps =
     (let cost = sample_cost p ps c now;
          charging = (sint cost > 0);
          ps1 = ps\<lparr> billed_units := billable ps c, last_counters := Some c, last_meter_at := now,
                    balance := saturating_sub (balance ps) (charge_of cost),
                    over_tolerance_streak := next_streak pol ps c \<rparr>;
          report = Send peer (enc_metering_report cdc
                     (MeteringReport_new (since now (metering_start ps)) (our_delivered ps c)
                        (our_received ps c)));
          exhausted = (charging \<and> balance ps1 = 0);
          drift_persisted = (over_tolerance_streak ps1 \<ge> max_streak pol)
      in if exhausted \<or> drift_persisted
         then (ps1\<lparr> phase := Suspended \<rparr>,
               drift_warning cdc pol peer ps c @ [report] @
               (if exhausted
                then [Send peer (enc_reject cdc (Reject_new MeteringReport BalanceVerificationFailed))]
                else []) @
               [SetAccess peer AccessSuspended, StopMetering peer])
         else (ps1, drift_warning cdc pol peer ps c @ [report]))"

definition handle_meter_sample ::
    "codec \<Rightarrow> PeerId \<Rightarrow> counters \<Rightarrow> Millis \<Rightarrow> session \<Rightarrow> session \<times> Action list" where
  "handle_meter_sample cdc peer c now s =
     (case bt_get (peers s) peer of
        None \<Rightarrow> (s, [])
      | Some ps \<Rightarrow>
          if phase ps = Active then
            (case last_counters ps of
               None \<Rightarrow> (set_peer peer (reset_metering ps c now) s, [])
             | Some _ \<Rightarrow>
                 let (ps', acts) = charged_sample cdc (sess_price s) (policy s) peer c now ps
                 in (set_peer peer ps' s, acts))
          else (s, []))"

definition handle_peer_disconnected :: "PeerId \<Rightarrow> session \<Rightarrow> session \<times> Action list" where
  "handle_peer_disconnected peer s =
     (close_peer peer s, [SetAccess peer AccessNone, StopMetering peer])"


subsection \<open>The machine\<close>

fun handle :: "codec \<Rightarrow> session \<Rightarrow> Event \<times> Millis \<Rightarrow> session \<times> Action list" where
  "handle cdc s (PeerConnected peer, now) = handle_peer_connected peer s"
| "handle cdc s (MessageReceived peer bs, now) = handle_message cdc peer bs s"
| "handle cdc s (BootstrapVerified peer amount ok, now) =
     handle_bootstrap_verified cdc peer amount ok now s"
| "handle cdc s (MeterSample peer c, now) = handle_meter_sample cdc peer c now s"
| "handle cdc s (PeerDisconnected peer, now) = handle_peer_disconnected peer s"
| "handle cdc s (Tick, now) = (s, [])"

definition peer_count :: "session \<Rightarrow> nat" where
  "peer_count s = length (peers s)"

definition peer_phase :: "session \<Rightarrow> PeerId \<Rightarrow> PeerPhase option" where
  "peer_phase s peer = map_option phase (bt_get (peers s) peer)"

record peer_snapshot =
  snap_peer :: PeerId
  snap_phase :: PeerPhase
  snap_balance :: i64
  snap_delivered :: u64
  snap_received :: u64
  snap_metering_start :: "Millis option"
  snap_drift :: "(u64 \<times> u64) option"

definition snapshot_of :: "PeerId \<Rightarrow> peer_session \<Rightarrow> peer_snapshot" where
  "snapshot_of peer ps =
     (let (del, rec, start) =
            (case last_counters ps of
               Some c \<Rightarrow> (saturating_sub (delivered c) (delivered (metering_baseline ps)),
                          saturating_sub (received c) (received (metering_baseline ps)),
                          Some (metering_start ps))
             | None \<Rightarrow> (0, 0, None));
          drift = (case peer_report ps of
                     Some r \<Rightarrow> if del > 0 then Some (abs_diff del (received r), del) else None
                   | None \<Rightarrow> None)
      in \<lparr> snap_peer = peer, snap_phase = phase ps, snap_balance = balance ps,
           snap_delivered = del, snap_received = rec, snap_metering_start = start,
           snap_drift = drift \<rparr>)"

definition snapshot :: "session \<Rightarrow> peer_snapshot list" where
  "snapshot s = map (\<lambda>(peer, ps). snapshot_of peer ps) (peers s)"

end
