(* ===== verification/Sample_Codec.thy ===== *)
theory Sample_Codec
  imports Wire_Message
begin

section \<open>A concrete codec for closed instances\<close>

text \<open>
  The theorems hold for any codec. Where one of them is applied at a concrete message, the
  codec parameter is this one: a message is its type tag followed by its fields, with lengths
  where they are needed. It stands for no code of the repository.
\<close>

definition sample_codec :: codec where
  "sample_codec =
     \<lparr> dec_header = (\<lambda>bs. case bs of [] \<Rightarrow> None | t # _ \<Rightarrow> Some t),
       enc_metering_report = (\<lambda>m. [mr_type_tag m, ucast (mr_delivered m), ucast (mr_received m)]),
       dec_metering_report = (\<lambda>bs. case bs of
           [t, d, r] \<Rightarrow> Some \<lparr> mr_type_tag = t, mr_elapsed_ms = 0, mr_delivered = ucast d,
             mr_received = ucast r, mr_new_product_id = None \<rparr>
         | _ \<Rightarrow> None),
       enc_announce = (\<lambda>m. an_type_tag m # an_version m # an_pubkey m),
       dec_announce = (\<lambda>bs. case bs of
           t # v # k \<Rightarrow> Some \<lparr> an_type_tag = t, an_version = v, an_pubkey = k, an_unit = [],
             an_capabilities = 0 \<rparr>
         | _ \<Rightarrow> None),
       enc_bootstrap_token = (\<lambda>m. bt_type_tag m # bt_token m),
       dec_bootstrap_token = (\<lambda>bs. case bs of
           t # tok \<Rightarrow> Some \<lparr> bt_type_tag = t, bt_token = tok \<rparr> | _ \<Rightarrow> None),
       enc_bootstrap_ack = (\<lambda>m. [ba_type_tag m, ba_status m]),
       dec_bootstrap_ack = (\<lambda>bs. case bs of
           [t, st] \<Rightarrow> Some \<lparr> ba_type_tag = t, ba_status = st, ba_reason = None \<rparr> | _ \<Rightarrow> None),
       enc_reject = (\<lambda>m. [rj_type_tag m, rj_rejected_type m, rj_reason_code m]),
       dec_reject = (\<lambda>bs. case bs of
           [t, rt, c] \<Rightarrow> Some \<lparr> rj_type_tag = t, rj_rejected_type = rt, rj_reason_code = c,
             rj_reason_text = None \<rparr>
         | _ \<Rightarrow> None),
       enc_disconnect = (\<lambda>m. [dc_type_tag m, dc_reason_code m]),
       dec_disconnect = (\<lambda>bs. case bs of
           [t, c] \<Rightarrow> Some \<lparr> dc_type_tag = t, dc_reason_code = c \<rparr> | _ \<Rightarrow> None),
       enc_price_sheet = (\<lambda>m. [ps_type_tag m]),
       dec_price_sheet = (\<lambda>_. None),
       enc_accept = (\<lambda>m. [ac_type_tag m]),
       dec_accept = (\<lambda>_. None) \<rparr>"

definition token_frame :: bytes where
  "token_frame = enc_bootstrap_token sample_codec (BootstrapToken_new [99])"

definition reject_frame :: bytes where
  "reject_frame = enc_reject sample_codec (Reject_new PriceSheet PriceTooHigh)"

lemma sample_peek [simp]:
  "peek_type sample_codec (t # bs) = MessageType_from_u8 t" "peek_type sample_codec [] = None"
  by (simp_all add: peek_type_def sample_codec_def)

lemma sample_token_frame:
  "peek_type sample_codec token_frame = Some BootstrapToken"
  "dec_bootstrap_token sample_codec token_frame = Some (BootstrapToken_new [99])"
  by (simp_all add: token_frame_def sample_codec_def peek_type_def BootstrapToken_new_def
      MessageType_from_u8_def)

lemma sample_reject_frame:
  "peek_type sample_codec reject_frame = Some Reject"
  "dec_reject sample_codec reject_frame = Some (Reject_new PriceSheet PriceTooHigh)"
  by (simp_all add: reject_frame_def sample_codec_def peek_type_def Reject_new_def
      MessageType_from_u8_def)

end
