(* ===== verification/Session_Access.thy ===== *)
theory Session_Access
  imports Session Sample_Codec
begin

section \<open>Access decisions of the session machine\<close>

text \<open>
  What the host's firewall does follows the \<open>SetAccess\<close> actions. This theory reads the
  access state of a peer off the actions emitted so far and relates it to the peer's phase,
  for every run of the machine from an empty session; and it shows that the handling of one
  peer's event never touches another peer.
\<close>

subsection \<open>Reading the access state off a trace\<close>

text \<open>
  The last access level set for the peer, and whether a token of that peer was handed out
  for verification since.
\<close>

fun track :: "PeerId \<Rightarrow> Action \<Rightarrow> AccessLevel \<times> bool \<Rightarrow> AccessLevel \<times> bool" where
  "track p (SetAccess q l) st = (if q = p then (l, False) else st)"
| "track p (VerifyBootstrapToken q t) st = (if q = p then (fst st, True) else st)"
| "track p _ st = st"

definition access_state :: "PeerId \<Rightarrow> Action list \<Rightarrow> AccessLevel \<times> bool" where
  "access_state p acts = fold (track p) acts (AccessNone, False)"

definition access_level :: "PeerId \<Rightarrow> Action list \<Rightarrow> AccessLevel" where
  "access_level p acts = fst (access_state p acts)"

definition verifying :: "PeerId \<Rightarrow> Action list \<Rightarrow> bool" where
  "verifying p acts = snd (access_state p acts)"

lemma access_state_append:
  "access_state p (xs @ ys) = fold (track p) ys (access_state p xs)"
  by (simp add: access_state_def)

fun action_peer :: "Action \<Rightarrow> PeerId" where
  "action_peer (Send p b) = p"
| "action_peer (SetAccess p l) = p"
| "action_peer (VerifyBootstrapToken p t) = p"
| "action_peer (StartMetering p) = p"
| "action_peer (StopMetering p) = p"
| "action_peer (DisconnectPeer p) = p"

fun event_peer :: "Event \<Rightarrow> PeerId option" where
  "event_peer (PeerConnected p) = Some p"
| "event_peer (PeerDisconnected p) = Some p"
| "event_peer (MessageReceived p b) = Some p"
| "event_peer (MeterSample p c) = Some p"
| "event_peer (BootstrapVerified p a ok) = Some p"
| "event_peer Tick = None"

lemma track_other: "action_peer a \<noteq> p \<Longrightarrow> track p a st = st"
  by (cases a) auto

lemma fold_track_other: "list_all (\<lambda>a. action_peer a \<noteq> p) acts \<Longrightarrow> fold (track p) acts st = st"
  by (induction acts arbitrary: st) (simp_all add: track_other)

lemma fold_track_send: "list_all (\<lambda>a. \<exists>q b. a = Send q b) acts \<Longrightarrow> fold (track p) acts st = st"
  by (induction acts arbitrary: st) auto


subsection \<open>One event, one peer\<close>

lemmas arm_defs =
  handle_peer_connected_def handle_bootstrap_token_def handle_reject_def handle_disconnect_def
  handle_price_sheet_def handle_accept_def handle_metering_report_def
  handle_bootstrap_verified_def handle_meter_sample_def handle_peer_disconnected_def

lemma set_peer_get [simp]:
  "bt_get (peers (set_peer p ps s)) q = (if q = p then Some ps else bt_get (peers s) q)"
  by (simp add: set_peer_def)

lemma set_peer_frame [simp]:
  "sess_price (set_peer p ps s) = sess_price s" "policy (set_peer p ps s) = policy s"
  by (simp_all add: set_peer_def)

lemma close_peer_get [simp]:
  "bt_get (peers (close_peer p s)) q = (if q = p then None else bt_get (peers s) q)"
  by (simp add: close_peer_def Let_def set_peer_def split: option.split)

lemma close_peer_frame [simp]:
  "sess_price (close_peer p s) = sess_price s" "policy (close_peer p s) = policy s"
  by (simp_all add: close_peer_def Let_def set_peer_def split: option.split)

lemma charged_sample_actions:
  "list_all (\<lambda>a. action_peer a = peer) (snd (charged_sample cdc p pol peer c now ps))"
  by (auto simp: charged_sample_def drift_warning_def Let_def split: option.splits)

lemma handle_message_arms:
  assumes "P (s, [])" and "P (handle_bootstrap_token cdc peer bs s)"
    and "P (handle_reject cdc peer bs s)" and "P (handle_disconnect cdc peer bs s)"
    and "P (handle_price_sheet cdc peer bs s)" and "P (handle_accept cdc peer bs s)"
    and "P (handle_metering_report cdc peer bs s)"
  shows "P (handle_message cdc peer bs s)"
  using assms by (auto simp: handle_message_def split: option.split MessageType.split)

text \<open>The arms leave everything but the event's peer alone.\<close>

definition concerns :: "PeerId \<Rightarrow> session \<Rightarrow> session \<times> Action list \<Rightarrow> bool" where
  "concerns p s r \<longleftrightarrow>
     (\<forall>q. q \<noteq> p \<longrightarrow> bt_get (peers (fst r)) q = bt_get (peers s) q) \<and>
     sess_price (fst r) = sess_price s \<and> policy (fst r) = policy s \<and>
     list_all (\<lambda>a. action_peer a = p) (snd r)"

lemma concerns_message: "concerns p s (handle_message cdc p bs s)"
  by (rule handle_message_arms) (auto simp: arm_defs concerns_def split: option.splits)

lemma concerns_handle:
  assumes "event_peer e = Some p"
  shows "concerns p s (handle cdc s (e, now))"
proof (cases e)
  case (MessageReceived q bs)
  with assms show ?thesis by (simp add: concerns_message)
next
  case (MeterSample q c)
  with assms show ?thesis
    using charged_sample_actions
    by (auto simp: arm_defs concerns_def case_prod_beta split: option.split)
qed (use assms in \<open>auto simp: arm_defs concerns_def Let_def split: option.split\<close>)

text \<open>
  C15. Peers are isolated: handling an event of one peer changes neither the session of any
  other peer nor the price and policy, and every action it emits is for that peer.
\<close>

theorem handle_isolation:
  assumes "event_peer e = Some p" and "q \<noteq> p"
  shows "bt_get (peers (fst (handle cdc s (e, now)))) q = bt_get (peers s) q \<and>
    sess_price (fst (handle cdc s (e, now))) = sess_price s \<and>
    policy (fst (handle cdc s (e, now))) = policy s \<and>
    list_all (\<lambda>a. action_peer a = p) (snd (handle cdc s (e, now)))"
  using concerns_handle [OF assms(1)] assms(2) by (simp add: concerns_def)


subsection \<open>The access invariant\<close>

text \<open>
  An active peer has been let in; and a peer that is let in is active, or one of its tokens
  is with the host for verification.
\<close>

definition peer_access_ok :: "PeerPhase option \<Rightarrow> AccessLevel \<times> bool \<Rightarrow> bool" where
  "peer_access_ok ph st \<longleftrightarrow>
     (ph = Some Active \<longrightarrow> fst st = AccessActive) \<and>
     (allows_delivery (fst st) \<longrightarrow> ph = Some Active \<or> snd st)"

definition access_inv :: "session \<Rightarrow> Action list \<Rightarrow> bool" where
  "access_inv s out \<longleftrightarrow> (\<forall>p. peer_access_ok (peer_phase s p) (access_state p out))"

definition arm_ok :: "PeerId \<Rightarrow> session \<Rightarrow> session \<times> Action list \<Rightarrow> bool" where
  "arm_ok p s r \<longleftrightarrow>
     (\<forall>st. peer_access_ok (peer_phase s p) st \<longrightarrow>
        peer_access_ok (peer_phase (fst r) p) (fold (track p) (snd r) st))"

lemma arm_okD:
  "arm_ok p s r \<Longrightarrow> peer_access_ok (peer_phase s p) st \<Longrightarrow>
    peer_access_ok (peer_phase (fst r) p) (fold (track p) (snd r) st)"
  unfolding arm_ok_def by blast

lemma arm_ok_message: "arm_ok p s (handle_message cdc p bs s)"
  by (rule handle_message_arms)
    (auto simp: arm_defs arm_ok_def peer_access_ok_def peer_phase_def split: option.splits)

lemma charged_sample_ok:
  assumes "phase ps = Active" and "peer_access_ok (Some Active) st"
  shows "peer_access_ok (Some (phase (fst (charged_sample cdc pr pol p c now ps))))
    (fold (track p) (snd (charged_sample cdc pr pol p c now ps)) st)"
  using assms
  by (auto simp: charged_sample_def drift_warning_def peer_access_ok_def Let_def split: option.splits)

lemma arm_ok_handle:
  assumes "event_peer e = Some p"
  shows "arm_ok p s (handle cdc s (e, now))"
proof (cases e)
  case (MessageReceived q bs)
  with assms show ?thesis by (simp add: arm_ok_message)
next
  case (MeterSample q c)
  with assms show ?thesis
    using charged_sample_ok
    by (auto simp: arm_defs arm_ok_def peer_phase_def reset_metering_def case_prod_beta split: option.split)
qed (use assms in \<open>auto simp: arm_defs arm_ok_def peer_access_ok_def peer_phase_def PeerSession_new_def
    Let_def split: option.split\<close>)

lemma access_inv_step:
  assumes "access_inv s out"
  shows "access_inv (fst (handle cdc s ev)) (out @ snd (handle cdc s ev))"
proof (cases ev)
  case (Pair e now)
  show ?thesis
  proof (cases "event_peer e")
    case None
    then have "e = Tick" by (cases e) auto
    with Pair assms show ?thesis by simp
  next
    case (Some p)
    have "peer_access_ok (peer_phase (fst (handle cdc s ev)) q)
        (access_state q (out @ snd (handle cdc s ev)))" for q
    proof (cases "q = p")
      case True
      then show ?thesis
        using arm_okD [OF arm_ok_handle [OF Some], of s "access_state p out" cdc now] assms Pair
        by (simp add: access_inv_def access_state_append)
    next
      case False
      then have "peer_phase (fst (handle cdc s ev)) q = peer_phase s q"
        and "list_all (\<lambda>a. action_peer a \<noteq> q) (snd (handle cdc s ev))"
        using concerns_handle [OF Some, of s cdc now] Pair
        by (auto simp: concerns_def peer_phase_def list_all_iff)
      then show ?thesis
        using assms by (simp add: access_inv_def access_state_append fold_track_other)
    qed
    then show ?thesis by (simp add: access_inv_def)
  qed
qed

interpretation access: traced_machine "handle cdc" access_inv for cdc
  by unfold_locales (rule access_inv_step)

lemma access_inv_init: "peers s = bt_empty \<Longrightarrow> access_inv s []"
  by (simp add: access_inv_def peer_access_ok_def peer_phase_def access_state_def)

text \<open>
  C1. Access safety, for every sequence of events from a session with no peers, whatever the
  codec, price and policy: a peer the host was last told to let through is active, or it has
  a token out for verification; and an active peer is one the host was told to let through.
\<close>

theorem access_safety:
  assumes "peers s = bt_empty"
  shows "(allows_delivery (access_level p (outputs (handle cdc) s evs)) \<longrightarrow>
      peer_phase (final (handle cdc) s evs) p = Some Active \<or>
      verifying p (outputs (handle cdc) s evs)) \<and>
    (peer_phase (final (handle cdc) s evs) p = Some Active \<longrightarrow>
      access_level p (outputs (handle cdc) s evs) = AccessActive)"
  using access.tinv_run [OF access_inv_init [OF assms], of cdc evs]
  by (auto simp: access_inv_def peer_access_ok_def access_level_def verifying_def)


text \<open>A paying peer in the sample codec: it connects and its first token is accepted.\<close>

definition sample_peer :: PeerId where
  "sample_peer = PeerId (PublicKey (replicate 33 7))"

definition paid_session :: session where
  "paid_session =
     final (handle sample_codec) Session_new
       [(PeerConnected sample_peer, 0), (BootstrapVerified sample_peer 5000 True, 1)]"

lemma paid_session_get:
  "bt_get (peers paid_session) sample_peer =
     Some (PeerSession_new\<lparr> balance := 5000, phase := Active, last_counters := None, last_meter_at := 1 \<rparr>)"
  by (simp add: paid_session_def Session_new_def arm_defs PeerSession_new_def saturating_add_def Let_def)

theorem access_safety_witness:
  "allows_delivery (access_level sample_peer (outputs (handle sample_codec) Session_new
      [(PeerConnected sample_peer, 0), (BootstrapVerified sample_peer 5000 True, 1)])) \<and>
   (peer_phase paid_session sample_peer = Some Active \<or>
    verifying sample_peer (outputs (handle sample_codec) Session_new
      [(PeerConnected sample_peer, 0), (BootstrapVerified sample_peer 5000 True, 1)]))"
proof -
  let ?out = "outputs (handle sample_codec) Session_new
    [(PeerConnected sample_peer, 0), (BootstrapVerified sample_peer 5000 True, 1)]"
  have "access_level sample_peer ?out = AccessActive"
    by (simp add: Session_new_def arm_defs access_level_def access_state_def Let_def)
  moreover have "peers Session_new = bt_empty" by (simp add: Session_new_def)
  ultimately show ?thesis
    using access_safety [of Session_new sample_peer sample_codec
        "[(PeerConnected sample_peer, 0), (BootstrapVerified sample_peer 5000 True, 1)]"]
    unfolding paid_session_def by simp
qed

theorem handle_isolation_witness:
  "event_peer (PeerDisconnected sample_peer) = Some sample_peer \<and>
   bt_get (peers (fst (handle sample_codec paid_session (PeerDisconnected sample_peer, 9))))
     (PeerId (PublicKey [])) = bt_get (peers paid_session) (PeerId (PublicKey []))"
proof -
  have "event_peer (PeerDisconnected sample_peer) = Some sample_peer"
    and "PeerId (PublicKey []) \<noteq> sample_peer"
    by (simp_all add: sample_peer_def)
  with handle_isolation [OF this, of sample_codec paid_session 9] show ?thesis by simp
qed

text \<open>
  A \<open>Reject\<close> that arrives while a paid peer's next token is being verified moves the
  peer to \<open>New\<close>, the phase the code documents as blocked, without revoking access or stopping
  metering: the two messages emit only the verification request. Until the host answers that
  request the peer is let through and its meter samples are ignored.
\<close>

theorem reject_while_verifying_keeps_access:
  assumes "bt_get (peers s) p = Some ps" and "phase ps = Active"
    and "peek_type cdc tb = Some BootstrapToken" and "dec_bootstrap_token cdc tb = Some m"
    and "peek_type cdc rb = Some Reject" and "dec_reject cdc rb = Some r"
  shows "peer_phase (final (handle cdc) s [(MessageReceived p tb, t1), (MessageReceived p rb, t2)]) p
      = Some New \<and>
    outputs (handle cdc) s [(MessageReceived p tb, t1), (MessageReceived p rb, t2),
        (MeterSample p c, t3)] = [VerifyBootstrapToken p (token_bytes m)]"
  using assms by (simp add: handle_message_def arm_defs peer_phase_def)

theorem reject_while_verifying_keeps_access_witness:
  "peer_phase (final (handle sample_codec) paid_session
      [(MessageReceived sample_peer token_frame, 2), (MessageReceived sample_peer reject_frame, 3)])
      sample_peer = Some New \<and>
   outputs (handle sample_codec) paid_session
      [(MessageReceived sample_peer token_frame, 2), (MessageReceived sample_peer reject_frame, 3),
       (MeterSample sample_peer Counters_default, 4)] =
     [VerifyBootstrapToken sample_peer (token_bytes (BootstrapToken_new [99]))]"
  by (rule reject_while_verifying_keeps_access [OF paid_session_get _ sample_token_frame sample_reject_frame])
    simp

end
