(* ===== verification/Session_Billing.thy ===== *)
theory Session_Billing
  imports Session_Access
begin

section \<open>Billing, suspension and top-ups\<close>

text \<open>
  What a meter sample charges and when it cuts a peer off, what payments can add, and how
  the increments charged over a metering session add up.
\<close>

subsection \<open>One charged sample\<close>

lemma unat_charge_of: "unat (charge_of cost) = nat (sint cost)"
proof (cases "sint cost > 0")
  case True
  moreover have "sint cost < 2 ^ 63" using sint_lt [of cost] by simp
  ultimately have "uint cost = sint cost"
    by (subst uint_sint) (simp add: take_bit_int_eq_self)
  with True show ?thesis by (simp add: charge_of_def flip: nat_uint_eq)
next
  case False
  then show ?thesis by (simp add: charge_of_def)
qed

lemma charged_sample_balance:
  "unat (balance (fst (charged_sample cdc pr pol p c now ps))) =
     unat (balance ps) - nat (sint (sample_cost pr ps c now))"
  by (simp add: charged_sample_def Let_def rust_num unat_charge_of)

lemma charged_sample_suspends:
  "phase ps = Active \<Longrightarrow>
   phase (fst (charged_sample cdc pr pol p c now ps)) =
     (if (0 < sint (sample_cost pr ps c now) \<and>
          unat (balance ps) \<le> nat (sint (sample_cost pr ps c now))) \<or>
         max_streak pol \<le> next_streak pol ps c
      then Suspended else Active)"
  by (simp add: charged_sample_def Let_def saturating_sub_eq_0_iff word_le_nat_alt unat_charge_of)

lemma charged_sample_frame:
  "last_counters (fst (charged_sample cdc pr pol p c now ps)) = Some c"
  "metering_baseline (fst (charged_sample cdc pr pol p c now ps)) = metering_baseline ps"
  "peer_report (fst (charged_sample cdc pr pol p c now ps)) = peer_report ps"
  "billed_units (fst (charged_sample cdc pr pol p c now ps)) = billable ps c"
  "over_tolerance_streak (fst (charged_sample cdc pr pol p c now ps)) = next_streak pol ps c"
  by (simp_all add: charged_sample_def Let_def)

lemma charged_sample_access:
  "SetAccess p l \<in> set (snd (charged_sample cdc pr pol p c now ps)) \<longleftrightarrow>
     l = AccessSuspended \<and>
     ((0 < sint (sample_cost pr ps c now) \<and>
       unat (balance ps) \<le> nat (sint (sample_cost pr ps c now))) \<or>
      max_streak pol \<le> next_streak pol ps c)"
  by (auto simp: charged_sample_def Let_def drift_warning_def saturating_sub_eq_0_iff word_le_nat_alt
      unat_charge_of split: option.splits)

lemma handle_sample:
  assumes "bt_get (peers s) p = Some ps" and "phase ps = Active" and "last_counters ps = Some c0"
  shows "bt_get (peers (fst (handle cdc s (MeterSample p c, now)))) p =
      Some (fst (charged_sample cdc (sess_price s) (policy s) p c now ps))"
    and "snd (handle cdc s (MeterSample p c, now)) =
      snd (charged_sample cdc (sess_price s) (policy s) p c now ps)"
  using assms by (simp_all add: handle_meter_sample_def case_prod_beta)

text \<open>
  C2. A meter sample of an active peer bills the higher of the two sides' delivery counts, less
  what was billed before, plus the elapsed time, at the session's price: exactly that cost is
  taken off the balance, never below zero and never when the cost is negative. The peer is
  suspended, and the host told so, exactly when a positive cost used up its balance or its
  drift has lasted \<open>max_streak\<close> samples.
\<close>

theorem meter_sample_effect:
  assumes "bt_get (peers s) p = Some ps" and "phase ps = Active" and "last_counters ps = Some c0"
    and "cost = cost_scaled (sess_price s) (since now (last_meter_at ps))
      (saturating_sub
         (case peer_report ps of None \<Rightarrow> our_delivered ps c
          | Some r \<Rightarrow> max (our_delivered ps c) (received r)) (billed_units ps))"
    and "cuts = ((0 < sint cost \<and> unat (balance ps) \<le> nat (sint cost)) \<or>
      max_streak (policy s) \<le> next_streak (policy s) ps c)"
  shows "\<exists>ps'. bt_get (peers (fst (handle cdc s (MeterSample p c, now)))) p = Some ps' \<and>
    unat (balance ps') = unat (balance ps) - nat (sint cost) \<and>
    phase ps' = (if cuts then Suspended else Active) \<and>
    (SetAccess p AccessSuspended \<in> set (snd (handle cdc s (MeterSample p c, now))) \<longleftrightarrow> cuts)"
proof -
  have "cost = sample_cost (sess_price s) ps c now"
    unfolding assms(4) sample_cost_def new_units_def billable_def reconcile_def max_def
    by (auto split: option.split intro: arg_cong2 [where f = saturating_sub])
  then show ?thesis
    using handle_sample [OF assms(1-3), of cdc c now] assms(2,5)
    by (simp add: charged_sample_balance charged_sample_suspends charged_sample_access)
qed

text \<open>The paying peer of the closed instances, after its first meter reading.\<close>

definition metered_peer :: peer_session where
  "metered_peer = reset_metering (PeerSession_new\<lparr> balance := 5000, phase := Active \<rparr>) Counters_default 1"

definition metered_session :: "i64 \<Rightarrow> session" where
  "metered_session u =
     set_price (set_peer sample_peer metered_peer Session_new) \<lparr> per_second = 0, per_unit = u \<rparr>"

lemma metered_peer_sel [simp]:
  "phase metered_peer = Active" "balance metered_peer = 5000"
  "last_counters metered_peer = Some Counters_default" "peer_report metered_peer = None"
  "metering_baseline metered_peer = Counters_default" "billed_units metered_peer = 0"
  "over_tolerance_streak metered_peer = 0" "last_meter_at metered_peer = 1"
  by (simp_all add: metered_peer_def reset_metering_def)

lemma metered_session_sel [simp]:
  "bt_get (peers (metered_session u)) sample_peer = Some metered_peer"
  "sess_price (metered_session u) = \<lparr> per_second = 0, per_unit = u \<rparr>"
  "policy (metered_session u) = MeteringPolicy_default"
  by (simp_all add: metered_session_def set_price_def set_peer_def Session_new_def)

lemma metered_peer_delivered [simp]: "our_delivered metered_peer c = delivered c"
  by (simp add: our_delivered_def Counters_default_def)

theorem meter_sample_effect_witness:
  "\<exists>ps'. bt_get (peers (fst (handle sample_codec (metered_session 2)
        (MeterSample sample_peer \<lparr> delivered = 100, received = 0 \<rparr>, 2)))) sample_peer = Some ps' \<and>
     unat (balance ps') = 4800 \<and> phase ps' = Active"
proof -
  have cost: "sint (cost_scaled \<lparr> per_second = 0, per_unit = 2 \<rparr> t 100) = 200" for t
    by (subst exact_in_range_cost)
      (simp_all add: exact_cost_def trunc_div_def saturate_i64_def i64_MIN_def i64_MAX_def)
  from meter_sample_effect [OF metered_session_sel(1) [of 2] metered_peer_sel(1,3) refl refl,
      where cdc = sample_codec and c = "\<lparr> delivered = 100, received = 0 \<rparr>" and now = 2]
  show ?thesis by (simp add: cost next_streak_def MeteringPolicy_default_def) blast
qed


subsection \<open>The prepaid balance\<close>

definition balance_of :: "session \<Rightarrow> PeerId \<Rightarrow> nat" where
  "balance_of s p = (case bt_get (peers s) p of None \<Rightarrow> 0 | Some ps \<Rightarrow> unat (balance ps))"

fun credit :: "PeerId \<Rightarrow> Event \<Rightarrow> nat" where
  "credit p (BootstrapVerified q amount ok) = (if q = p \<and> ok then unat amount else 0)"
| "credit p _ = 0"

lemma balance_of_other: "event_peer e \<noteq> Some p \<Longrightarrow> balance_of (fst (handle cdc s (e, now))) p = balance_of s p"
proof (cases "event_peer e")
  case None
  then show ?thesis by (cases e) auto
next
  case (Some q)
  moreover assume "event_peer e \<noteq> Some p"
  ultimately show ?thesis
    using concerns_handle [OF Some, of s cdc now] by (auto simp: concerns_def balance_of_def)
qed

lemma balance_of_message: "balance_of (fst (handle_message cdc p bs s)) p \<le> balance_of s p"
  by (rule handle_message_arms) (simp_all add: arm_defs balance_of_def split: option.split)

lemma balance_of_step: "balance_of (fst (handle cdc s (e, now))) p \<le> balance_of s p + credit p e"
proof (cases "event_peer e = Some p")
  case True
  then show ?thesis
  proof (cases e)
    case (MeterSample q c)
    with True show ?thesis
      using charged_sample_balance
      by (auto simp: arm_defs balance_of_def reset_metering_def case_prod_beta split: option.split)
  next
    case (MessageReceived q bs)
    with True show ?thesis using balance_of_message [of cdc p bs s] by simp
  qed (simp_all add: arm_defs balance_of_def PeerSession_new_def Let_def rust_num split: option.split)
next
  case False
  then show ?thesis by (simp add: balance_of_other)
qed

text \<open>
  C13. No sequence of events creates credit: whatever the peers send and the meters report, a
  peer's balance is at most what it started with plus the amounts of its tokens that the
  wallet accepted.
\<close>

theorem balance_bounded_by_payments:
  "balance_of (final (handle cdc) s evs) p \<le> balance_of s p + (\<Sum>(e, _) \<leftarrow> evs. credit p e)"
proof (induction evs arbitrary: s)
  case Nil
  then show ?case by simp
next
  case (Cons ev evs)
  obtain e now where ev: "ev = (e, now)" by (cases ev)
  show ?case
    using Cons.IH [of "fst (handle cdc s ev)"] balance_of_step [of cdc s e now p]
    by (simp add: ev machine_simps del: run.simps)
qed



subsection \<open>Sequences of samples\<close>

definition sampling :: "PeerId \<Rightarrow> (counters \<times> Millis) list \<Rightarrow> (Event \<times> Millis) list" where
  "sampling p cs = map (\<lambda>(c, now). (MeterSample p c, now)) cs"

lemma sampling_simps [simp]:
  "sampling p [] = []" "sampling p ((c, now) # cs) = (MeterSample p c, now) # sampling p cs"
  by (simp_all add: sampling_def)

lemma sampling_inactive:
  assumes "bt_get (peers s) p = Some ps" and "phase ps \<noteq> Active"
  shows "final (handle cdc) s (sampling p cs) = s"
  using assms by (induction cs) (auto simp: arm_defs)

text \<open>
  A peer metered by traffic alone: what it was billed so far is what it used up to \<open>c0\<close>.
\<close>

definition traffic_metered :: "session \<Rightarrow> PeerId \<Rightarrow> peer_session \<Rightarrow> counters \<Rightarrow> bool" where
  "traffic_metered s p ps c0 \<longleftrightarrow>
     bt_get (peers s) p = Some ps \<and> phase ps = Active \<and> last_counters ps \<noteq> None \<and>
     peer_report ps = None \<and> over_tolerance_streak ps < max_streak (policy s) \<and>
     delivered (metering_baseline ps) \<le> delivered c0 \<and> billed_units ps = our_delivered ps c0 \<and>
     per_second (sess_price s) = 0 \<and> 0 \<le> sint (per_unit (sess_price s))"

lemma traffic_cost:
  assumes "traffic_metered s p ps c0" and "delivered c0 \<le> delivered c"
    and "unat (delivered c) * nat (sint (per_unit (sess_price s))) < 2 ^ 63"
  shows "nat (sint (sample_cost (sess_price s) ps c now)) =
    (unat (delivered c) - unat (delivered c0)) * nat (sint (per_unit (sess_price s)))"
proof -
  let ?u = "sint (per_unit (sess_price s))" and ?d = "unat (delivered c) - unat (delivered c0)"
  have units: "unat (new_units ps c) = ?d"
    using assms(1,2) by (simp add: traffic_metered_def new_units_def billable_def our_delivered_def
        rust_num word_le_nat_alt)
  then have units': "uint (new_units ps c) = int ?d" by (simp only: uint_nat)
  have "?d * nat ?u \<le> unat (delivered c) * nat ?u" by simp
  with assms(3) have "?d * nat ?u < 2 ^ 63" by linarith
  moreover have "exact_cost (sess_price s) (since now (last_meter_at ps)) (new_units ps c) = int (?d * nat ?u)"
    using assms(1) units' by (simp add: traffic_metered_def exact_cost_def trunc_div_def)
  ultimately show ?thesis by (simp add: sample_cost_def cost_scaled_nat)
qed

lemma traffic_metered_sample:
  assumes "traffic_metered s p ps c0" and "delivered c0 \<le> delivered c"
    and "phase (fst (charged_sample cdc (sess_price s) (policy s) p c now ps)) = Active"
  shows "traffic_metered (fst (handle cdc s (MeterSample p c, now))) p
    (fst (charged_sample cdc (sess_price s) (policy s) p c now ps)) c"
proof -
  have frame: "sess_price (fst (handle cdc s (MeterSample p c, now))) = sess_price s"
    "policy (fst (handle cdc s (MeterSample p c, now))) = policy s"
    using concerns_handle [of "MeterSample p c" p s cdc now] by (simp_all add: concerns_def)
  obtain l where l: "last_counters ps = Some l" and act: "phase ps = Active"
    and get: "bt_get (peers s) p = Some ps"
    using assms(1) by (auto simp: traffic_metered_def)
  have "our_delivered (fst (charged_sample cdc (sess_price s) (policy s) p c now ps)) c =
      our_delivered ps c"
    by (simp add: our_delivered_def charged_sample_frame)
  then show ?thesis
    using assms handle_sample(1) [OF get act l, of cdc c now]
    unfolding traffic_metered_def
    by (simp add: charged_sample_frame frame billable_def next_streak_def del: handle.simps)
      (blast intro: order_trans)
qed

lemma samples_charge:
  assumes "traffic_metered s p ps c0"
    and "sorted (map delivered (c0 # map fst cs))"
    and "unat (delivered (last (c0 # map fst cs))) * nat (sint (per_unit (sess_price s))) < 2 ^ 63"
  shows "balance_of (final (handle cdc) s (sampling p cs)) p =
    unat (balance ps) -
      (unat (delivered (last (c0 # map fst cs))) - unat (delivered c0)) * nat (sint (per_unit (sess_price s)))"
  using assms
proof (induction cs arbitrary: s ps c0)
  case Nil
  then show ?case by (simp add: balance_of_def traffic_metered_def)
next
  case (Cons x cs)
  obtain c now where x: "x = (c, now)" by (cases x)
  let ?u = "nat (sint (per_unit (sess_price s)))" and ?e = "last (c # map fst cs)"
  let ?s = "fst (handle cdc s (MeterSample p c, now))"
    and ?ps = "fst (charged_sample cdc (sess_price s) (policy s) p c now ps)"
  have sorted: "sorted (map delivered (c # map fst cs))" and c0: "delivered c0 \<le> delivered c"
    using Cons.prems(2) by (simp_all add: x)
  have "?e \<in> set (c # map fst cs)" by (rule last_in_set) simp
  with sorted have "delivered c \<le> delivered ?e" by auto
  with c0 have mono: "delivered c0 \<le> delivered c" "unat (delivered c) \<le> unat (delivered ?e)"
    by (simp_all add: word_le_nat_alt)
  have bound: "unat (delivered ?e) * ?u < 2 ^ 63"
    using Cons.prems(3) by (simp add: x)
  moreover have "unat (delivered c) * ?u \<le> unat (delivered ?e) * ?u" using mono by simp
  ultimately have "unat (delivered c) * ?u < 2 ^ 63" by linarith
  note cost = traffic_cost [OF Cons.prems(1) mono(1) this, of now]
  have price: "sess_price ?s = sess_price s"
    using concerns_handle [of "MeterSample p c" p s cdc now] by (simp add: concerns_def)
  from Cons.prems(1) obtain l where ps: "bt_get (peers s) p = Some ps" "phase ps = Active"
    "last_counters ps = Some l" and streak: "next_streak (policy s) ps c < max_streak (policy s)"
    by (auto simp: traffic_metered_def next_streak_def)
  note get = handle_sample(1) [OF ps, of cdc c now]
  have parts: "(unat (delivered ?e) - unat (delivered c0)) * ?u =
      (unat (delivered c) - unat (delivered c0)) * ?u + (unat (delivered ?e) - unat (delivered c)) * ?u"
    using mono by (simp add: word_le_nat_alt flip: distrib_right)
  have last: "last (c0 # map fst (x # cs)) = ?e" by (simp add: x)
  show ?case
  proof (cases "phase ?ps = Active")
    case True
    from Cons.IH [OF traffic_metered_sample [OF Cons.prems(1) mono(1) True] sorted] bound
    show ?thesis unfolding last
      by (simp add: x machine_simps price charged_sample_balance cost parts
          del: run.simps handle.simps last.simps)
  next
    case False
    then have "unat (balance ps) \<le> (unat (delivered c) - unat (delivered c0)) * ?u"
      using charged_sample_suspends [OF ps(2), of cdc "sess_price s" "policy s" p c now] streak cost
      by (auto split: if_splits)
    then show ?thesis
      using sampling_inactive [OF get False, of cdc cs] get unfolding last
      by (simp add: x machine_simps balance_of_def charged_sample_balance cost parts
          del: run.simps handle.simps last.simps)
  qed
qed

text \<open>
  C5. Billing does not depend on when the meter is read. With a per-unit price and no drift
  reports, a peer that has just been let in and is then sampled any number of times, at any
  times, pays the units delivered between the first and the last reading times the rate, or
  all it has: the first reading is free, nothing is billed twice and nothing is skipped.
\<close>

theorem billing_independent_of_sampling:
  assumes "bt_get (peers s) p = Some ps" and "phase ps = Active" and "last_counters ps = None"
    and "0 < max_streak (policy s)"
    and "per_second (sess_price s) = 0" and "0 \<le> sint (per_unit (sess_price s))"
    and "sorted (map delivered (c0 # map fst cs))"
    and "unat (delivered (last (c0 # map fst cs))) * nat (sint (per_unit (sess_price s))) < 2 ^ 63"
  shows "balance_of (final (handle cdc) s (sampling p ((c0, t0) # cs))) p =
    unat (balance ps) -
      (unat (delivered (last (c0 # map fst cs))) - unat (delivered c0)) * nat (sint (per_unit (sess_price s)))"
proof -
  have "fst (handle cdc s (MeterSample p c0, t0)) = set_peer p (reset_metering ps c0 t0) s"
    using assms(1-3) by (simp add: arm_defs)
  moreover have "traffic_metered (set_peer p (reset_metering ps c0 t0) s) p (reset_metering ps c0 t0) c0"
    using assms(1-6) by (simp add: traffic_metered_def reset_metering_def our_delivered_def)
  note samples_charge [OF this, of cs cdc]
  ultimately show ?thesis
    using assms(7,8) by (simp add: machine_simps reset_metering_def del: run.simps handle.simps)
qed

theorem billing_independent_of_sampling_witness:
  "balance_of (final (handle sample_codec) (set_price paid_session \<lparr> per_second = 0, per_unit = 2 \<rparr>)
     (sampling sample_peer
        [(\<lparr> delivered = 10, received = 0 \<rparr>, 2), (\<lparr> delivered = 40, received = 0 \<rparr>, 3),
         (\<lparr> delivered = 110, received = 0 \<rparr>, 9)])) sample_peer = 4800"
proof -
  let ?s = "set_price paid_session \<lparr> per_second = 0, per_unit = 2 \<rparr>"
  have "policy paid_session = MeteringPolicy_default"
    by (simp add: paid_session_def Session_new_def arm_defs PeerSession_new_def Let_def)
  then have pre: "bt_get (peers ?s) sample_peer = bt_get (peers paid_session) sample_peer"
    "0 < max_streak (policy ?s)" "sess_price ?s = \<lparr> per_second = 0, per_unit = 2 \<rparr>"
    by (simp_all add: set_price_def MeteringPolicy_default_def)
  show ?thesis
    by (subst billing_independent_of_sampling [OF pre(1) [unfolded paid_session_get]])
      (use pre in simp_all)
qed


subsection \<open>Persistent drift\<close>

lemma drift_run:
  assumes "bt_get (peers s) p = Some ps" and "phase ps = Active" and "last_counters ps = Some c0"
    and "peer_report ps = Some r"
    and "list_all (\<lambda>(c, now). over_tolerance (policy s) (our_delivered ps c) (received r)) cs"
    and "unat (max_streak (policy s)) \<le> unat (over_tolerance_streak ps) + length cs" and "cs \<noteq> []"
  shows "peer_phase (final (handle cdc) s (sampling p cs)) p = Some Suspended"
  using assms
proof (induction cs arbitrary: s ps c0)
  case Nil
  then show ?case by simp
next
  case (Cons x cs)
  obtain c now where x: "x = (c, now)" by (cases x)
  let ?s = "fst (handle cdc s (MeterSample p c, now))"
    and ?ps = "fst (charged_sample cdc (sess_price s) (policy s) p c now ps)"
  note get = handle_sample(1) [OF Cons.prems(1-3), of cdc c now]
  have pol: "policy ?s = policy s"
    using concerns_handle [of "MeterSample p c" p s cdc now] by (simp add: concerns_def)
  have streak: "unat (next_streak (policy s) ps c) = min (unat (over_tolerance_streak ps) + 1) 255"
    using Cons.prems(4,5) by (simp add: next_streak_def x rust_num)
  show ?case
  proof (cases "phase ?ps = Active")
    case False
    then have "phase ?ps = Suspended"
      using charged_sample_suspends [OF Cons.prems(2), of cdc "sess_price s" "policy s" p c now] by metis
    then show ?thesis
      using sampling_inactive [OF get False, of cdc cs] get
      by (simp add: x machine_simps peer_phase_def del: run.simps handle.simps)
  next
    case True
    have "over_tolerance_streak ?ps < max_streak (policy s)"
      using True charged_sample_suspends [OF Cons.prems(2), of cdc "sess_price s" "policy s" p c now]
      by (auto simp: charged_sample_frame split: if_splits)
    then have "cs \<noteq> []"
      using Cons.prems(6) unat_bound [of "max_streak (policy s)"] streak
      by (auto simp: charged_sample_frame word_less_nat_alt)
    moreover have "unat (max_streak (policy s)) \<le> unat (over_tolerance_streak ?ps) + length cs"
      using Cons.prems(6) unat_bound [of "max_streak (policy s)"]
      by (simp add: charged_sample_frame streak)
    moreover have "our_delivered ?ps = our_delivered ps"
      by (rule ext) (simp add: our_delivered_def charged_sample_frame)
    ultimately show ?thesis
      using Cons.IH [OF get True charged_sample_frame(1)] Cons.prems(4,5)
      by (simp add: x machine_simps pol charged_sample_frame del: run.simps handle.simps)
  qed
qed

text \<open>
  Persistent drift suspends: once a peer has reported, \<open>max_streak\<close> consecutive samples
  whose count differs from the report by more than the tolerance leave the peer suspended,
  whatever its balance and the price.
\<close>

theorem persistent_drift_suspends:
  assumes "bt_get (peers s) p = Some ps" and "phase ps = Active" and "last_counters ps = Some c0"
    and "peer_report ps = Some r"
    and "list_all (\<lambda>(c, now). over_tolerance (policy s) (our_delivered ps c) (received r)) cs"
    and "unat (max_streak (policy s)) \<le> length cs" and "cs \<noteq> []"
  shows "peer_phase (final (handle cdc) s (sampling p cs)) p = Some Suspended"
  using drift_run [OF assms(1-5) _ assms(7)] assms(6) by simp

theorem persistent_drift_suspends_witness:
  "peer_phase (final (handle sample_codec)
     (set_peer sample_peer (metered_peer\<lparr> peer_report := Some \<lparr> delivered = 0, received = 90 \<rparr> \<rparr>)
        Session_new)
     (sampling sample_peer (replicate 3 (\<lparr> delivered = 100, received = 0 \<rparr>, 2)))) sample_peer
   = Some Suspended"
proof -
  let ?ps = "metered_peer\<lparr> peer_report := Some \<lparr> delivered = 0, received = 90 \<rparr> \<rparr>"
  have "bt_get (peers (set_peer sample_peer ?ps Session_new)) sample_peer = Some ?ps" by simp
  then show ?thesis
    by (rule persistent_drift_suspends [where r = "\<lparr> delivered = 0, received = 90 \<rparr>"])
      (simp_all add: over_tolerance_def our_delivered_def abs_diff_def Session_new_def
        MeteringPolicy_default_def Counters_default_def list_all_iff)
qed


subsection \<open>Topping up\<close>

text \<open>
  C36. A top-up forgives the traffic since the last sample. The handler of an accepted token
  keeps the metering baseline of a peer that was active, but the token's arrival has already
  taken the peer out of that phase: the baseline is dropped, and the next sample charges
  nothing, however much was delivered and however long ago the last charge was.
\<close>

theorem topup_forgives_usage:
  assumes "bt_get (peers s) p = Some ps" and "phase ps = Active" and "last_counters ps = Some c0"
    and "peek_type cdc tb = Some BootstrapToken" and "dec_bootstrap_token cdc tb = Some m"
  shows "balance_of (final (handle cdc) s
      [(MessageReceived p tb, t1), (BootstrapVerified p amount True, t2), (MeterSample p c, t3)]) p =
    unat (saturating_add (balance ps) amount)"
  using assms by (simp add: handle_message_def arm_defs balance_of_def reset_metering_def Let_def)

theorem topup_forgives_usage_witness:
  "balance_of (final (handle sample_codec) (metered_session 2)
      [(MessageReceived sample_peer token_frame, 2), (BootstrapVerified sample_peer 1 True, 3),
       (MeterSample sample_peer \<lparr> delivered = 1000000, received = 0 \<rparr>, 4)]) sample_peer = 5001"
  using topup_forgives_usage [OF metered_session_sel(1) metered_peer_sel(1,3) sample_token_frame,
      of 2 2 1 3 "\<lparr> delivered = 1000000, received = 0 \<rparr>" 4]
  by (simp add: saturating_add_def)

text \<open>
  A failed top-up costs a paying peer its access: when the wallet refuses the token of an
  active peer, the peer is blocked and back in \<open>New\<close> with its balance kept, the host is not told
  to stop metering it, and further samples are ignored.
\<close>

theorem failed_topup_blocks:
  assumes "bt_get (peers s) p = Some ps" and "phase ps = Active"
    and "peek_type cdc tb = Some BootstrapToken" and "dec_bootstrap_token cdc tb = Some m"
    and "evs = [(MessageReceived p tb, t1), (BootstrapVerified p amount False, t2), (MeterSample p c, t3)]"
  shows "peer_phase (final (handle cdc) s evs) p = Some New \<and>
    balance_of (final (handle cdc) s evs) p = unat (balance ps) \<and>
    access_level p (outputs (handle cdc) s evs) = AccessNone \<and>
    StopMetering p \<notin> set (outputs (handle cdc) s evs)"
  using assms
  by (simp add: handle_message_def arm_defs peer_phase_def balance_of_def access_level_def access_state_def
      Let_def)

theorem failed_topup_blocks_witness:
  "peer_phase (final (handle sample_codec) paid_session
      [(MessageReceived sample_peer token_frame, 2), (BootstrapVerified sample_peer 0 False, 3),
       (MeterSample sample_peer Counters_default, 4)]) sample_peer = Some New"
  using failed_topup_blocks [OF paid_session_get _ sample_token_frame refl, of 2 0 3 Counters_default 4]
  by simp

text \<open>
  A report that dips is billed twice. The units billed so far follow the reconciled count down
  as well as up, so a peer whose reports of what it received go up, down and up again pays
  the difference twice: here 100 units are reported at most, and 160 are charged.
\<close>

theorem report_dip_bills_twice:
  "balance_of (final (handle sample_codec) (metered_session 1)
     (concat (map (\<lambda>r. [(MessageReceived sample_peer (enc_metering_report sample_codec
                           (MeteringReport_new 0 0 r)), 2),
                       (MeterSample sample_peer Counters_default, 2)])
        [100, 40, 100]))) sample_peer = 4840"
  by code_simp

end
