(* ===== verification/Delivery.thy ===== *)
theory Delivery
  imports Prelude
begin

section \<open>Budgeted deliveries\<close>

text \<open>
  \<^verbatim>\<open>crates/tollgate-core/src/delivery.rs\<close>: grants with their caps and lease, the budget guard, and
  the engine that settles a deposit. The engine is a machine of \<open>Prelude\<close>. The debug assertion
  that a grant has a cap is absent, as it is from an optimised build.
\<close>

subsection \<open>Grants and reports\<close>

record caps =
  max_units :: "u64 option"
  max_seconds :: "u64 option"
  max_cost_millis :: "u64 option"

definition bounded :: "caps \<Rightarrow> bool" where
  "bounded c \<longleftrightarrow> max_units c \<noteq> None \<or> max_seconds c \<noteq> None \<or> max_cost_millis c \<noteq> None"

record lease =
  expires_at :: Millis

record grant =
  nonce :: u64
  deposit_millis :: u64
  grant_caps :: caps
  grant_lease :: lease

record progress =
  units_total :: u64
  seconds_total :: u64
  cost_millis_total :: u64
  observed_at :: Millis

datatype TerminalKind =
  Completed | CapUnits | CapSeconds | CapCost | Failed | Revoked | LeaseExpired

text \<open>The discriminant of a field-less enumeration, as the cast \<^verbatim>\<open>report.kind as u64\<close> reads it.\<close>

fun TerminalKind_as_u64 :: "TerminalKind \<Rightarrow> u64" where
  "TerminalKind_as_u64 Completed = 0"
| "TerminalKind_as_u64 CapUnits = 1"
| "TerminalKind_as_u64 CapSeconds = 2"
| "TerminalKind_as_u64 CapCost = 3"
| "TerminalKind_as_u64 Failed = 4"
| "TerminalKind_as_u64 Revoked = 5"
| "TerminalKind_as_u64 LeaseExpired = 6"

record terminal_report =
  tr_kind :: TerminalKind
  tr_units_total :: u64
  tr_seconds_total :: u64
  tr_cost_millis_total :: u64
  tr_at :: Millis
  tr_receipt :: "bytes option"

datatype DeliveryEvent =
    GrantIssued grant
  | ProgressObserved progress
  | TerminalObserved terminal_report
  | RevokeRequested Millis
  | DeliveryTick Millis

datatype AlarmReason = NonMonotonicProgress | UnmatchedTerminal

datatype DeliveryAction =
    StopDelivery u64
  | SettleDelivery u64 u64
  | RefundChange u64 u64
  | Alarm u64 AlarmReason

datatype DeliveryPhase = Idle | Granted | Delivering | Done


subsection \<open>The budget guard\<close>

record budget_guard =
  guard_grant :: grant
  guard_last :: progress

definition zero_progress :: "Millis \<Rightarrow> progress" where
  "zero_progress t = \<lparr> units_total = 0, seconds_total = 0, cost_millis_total = 0, observed_at = t \<rparr>"

definition BudgetGuard_new :: "grant \<Rightarrow> budget_guard" where
  "BudgetGuard_new g = \<lparr> guard_grant = g, guard_last = zero_progress 0 \<rparr>"

definition journalled :: "budget_guard \<Rightarrow> progress" where
  "journalled g = guard_last g"

definition cap_hit :: "u64 option \<Rightarrow> u64 \<Rightarrow> bool" where
  "cap_hit cap used = (case cap of None \<Rightarrow> False | Some m \<Rightarrow> used \<ge> m)"

definition exhausted :: "budget_guard \<Rightarrow> TerminalKind option" where
  "exhausted g =
     (let c = grant_caps (guard_grant g); l = guard_last g
      in if cap_hit (max_units c) (units_total l) then Some CapUnits
         else if cap_hit (max_seconds c) (seconds_total l) then Some CapSeconds
         else if cap_hit (max_cost_millis c) (cost_millis_total l) then Some CapCost
         else None)"

definition apply_progress ::
    "budget_guard \<Rightarrow> progress \<Rightarrow> budget_guard \<times> (AlarmReason + TerminalKind option)" where
  "apply_progress g p =
     (if units_total p < units_total (guard_last g) \<or>
         seconds_total p < seconds_total (guard_last g) \<or>
         cost_millis_total p < cost_millis_total (guard_last g)
      then (g, Inl NonMonotonicProgress)
      else let g' = g\<lparr> guard_last := p \<rparr> in (g', Inr (exhausted g')))"


subsection \<open>The engine\<close>

record delivery_engine =
  engine_phase :: DeliveryPhase
  guard :: "budget_guard option"

definition DeliveryEngine_new :: delivery_engine where
  "DeliveryEngine_new = \<lparr> engine_phase = Idle, guard = None \<rparr>"

definition DeliveryEngine_resume :: "grant \<Rightarrow> progress \<Rightarrow> delivery_engine" where
  "DeliveryEngine_resume g l =
     (let gd = fst (apply_progress (BudgetGuard_new g) l)
      in \<lparr> engine_phase = (if exhausted gd \<noteq> None then Granted else Delivering), guard = Some gd \<rparr>)"

definition engine_nonce :: "delivery_engine \<Rightarrow> u64" where
  "engine_nonce e = (case guard e of Some g \<Rightarrow> nonce (guard_grant g) | None \<Rightarrow> 0)"

definition settle_amount :: "grant \<Rightarrow> u64 \<Rightarrow> u64" where
  "settle_amount g final_cost =
     min (min final_cost (deposit_millis g))
         (case max_cost_millis (grant_caps g) of None \<Rightarrow> - 1 | Some m \<Rightarrow> m)"

definition settle_from_totals ::
    "delivery_engine \<Rightarrow> u64 \<Rightarrow> TerminalKind \<Rightarrow> delivery_engine \<times> DeliveryAction list" where
  "settle_from_totals e final_cost kind =
     (case guard e of
        None \<Rightarrow> (e, [])
      | Some gd \<Rightarrow>
          let g = guard_grant gd;
              settle = settle_amount g final_cost;
              refund = deposit_millis g - settle
          in (e\<lparr> engine_phase := Done \<rparr>,
              [SettleDelivery (nonce g) settle, RefundChange (nonce g) refund]))"

definition handle_progress :: "delivery_engine \<Rightarrow> progress \<Rightarrow> delivery_engine \<times> DeliveryAction list" where
  "handle_progress e p =
     (case guard e of
        None \<Rightarrow> (e, [])
      | Some gd \<Rightarrow>
          let (gd', r) = apply_progress gd p; e' = e\<lparr> guard := Some gd' \<rparr>
          in case r of
               Inl _ \<Rightarrow> (e', [Alarm (engine_nonce e') NonMonotonicProgress])
             | Inr (Some _) \<Rightarrow>
                 (e'\<lparr> engine_phase := Delivering \<rparr>, [StopDelivery (engine_nonce e')])
             | Inr None \<Rightarrow> (e'\<lparr> engine_phase := Delivering \<rparr>, []))"

definition handle_lease :: "delivery_engine \<Rightarrow> Millis \<Rightarrow> delivery_engine \<times> DeliveryAction list" where
  "handle_lease e now =
     (case guard e of
        None \<Rightarrow> (e, [])
      | Some gd \<Rightarrow>
          if engine_phase e \<in> {Granted, Delivering} \<and>
             now \<ge> expires_at (grant_lease (guard_grant gd))
          then settle_from_totals e (cost_millis_total (journalled gd)) LeaseExpired
          else (e, []))"

fun engine_handle :: "delivery_engine \<Rightarrow> DeliveryEvent \<Rightarrow> delivery_engine \<times> DeliveryAction list" where
  "engine_handle e (GrantIssued g) =
     (case engine_phase e of
        Idle \<Rightarrow> (e\<lparr> guard := Some (BudgetGuard_new g), engine_phase := Granted \<rparr>, [])
      | _ \<Rightarrow> (e, []))"
| "engine_handle e (ProgressObserved p) = handle_progress e p"
| "engine_handle e (TerminalObserved report) =
     (case engine_phase e of
        Idle \<Rightarrow> (e, [Alarm (TerminalKind_as_u64 (tr_kind report)) UnmatchedTerminal])
      | Granted \<Rightarrow> settle_from_totals e (tr_cost_millis_total report) (tr_kind report)
      | Delivering \<Rightarrow> settle_from_totals e (tr_cost_millis_total report) (tr_kind report)
      | Done \<Rightarrow> (e, []))"
| "engine_handle e (RevokeRequested at) =
     (case engine_phase e of
        Granted \<Rightarrow> (e, [StopDelivery (engine_nonce e)])
      | Delivering \<Rightarrow> (e, [StopDelivery (engine_nonce e)])
      | _ \<Rightarrow> (e, []))"
| "engine_handle e (DeliveryTick now) = handle_lease e now"


subsection \<open>Well-formed engines\<close>

text \<open>An engine holds a guard exactly when a grant was issued.\<close>

definition engine_ok :: "delivery_engine \<Rightarrow> bool" where
  "engine_ok e \<longleftrightarrow> (engine_phase e = Idle \<longleftrightarrow> guard e = None)"

definition open_engine :: "delivery_engine \<Rightarrow> bool" where
  "open_engine e \<longleftrightarrow> engine_phase e = Granted \<or> engine_phase e = Delivering"

text \<open>One reading is at or above another in all three totals.\<close>

definition totals_le :: "progress \<Rightarrow> progress \<Rightarrow> bool" where
  "totals_le l p \<longleftrightarrow> units_total l \<le> units_total p \<and> seconds_total l \<le> seconds_total p \<and>
     cost_millis_total l \<le> cost_millis_total p"

lemma totals_le_refl [simp]: "totals_le l l"
  by (simp add: totals_le_def)

lemma totals_le_trans: "totals_le k l \<Longrightarrow> totals_le l p \<Longrightarrow> totals_le k p"
  unfolding totals_le_def using order_trans by blast

lemma handle_progress_None [simp]: "guard e = None \<Longrightarrow> handle_progress e p = (e, [])"
  by (simp add: handle_progress_def)

lemma handle_progress_Some [simp]:
  assumes "guard e = Some gd"
  shows "handle_progress e p =
    (if totals_le (guard_last gd) p
     then (e\<lparr> guard := Some (gd\<lparr> guard_last := p \<rparr>), engine_phase := Delivering \<rparr>,
           if exhausted (gd\<lparr> guard_last := p \<rparr>) = None then [] else [StopDelivery (nonce (guard_grant gd))])
     else (e, [Alarm (nonce (guard_grant gd)) NonMonotonicProgress]))"
  using assms
  by (cases e)
    (auto simp: handle_progress_def apply_progress_def totals_le_def engine_nonce_def Let_def not_less
      split: option.split)

lemmas engine_defs =
  handle_lease_def settle_from_totals_def apply_progress_def engine_nonce_def
  journalled_def BudgetGuard_new_def zero_progress_def

lemma engine_ok_step: "engine_ok e \<Longrightarrow> engine_ok (fst (engine_handle e ev))"
  by (cases ev; cases "guard e")
    (auto simp: engine_ok_def engine_defs Let_def split: option.split DeliveryPhase.split)

interpretation engine: invariant_machine engine_handle engine_ok
  by unfold_locales (rule engine_ok_step)

lemma engine_ok_new: "engine_ok DeliveryEngine_new"
  by (simp add: engine_ok_def DeliveryEngine_new_def)

text \<open>The grant of an engine, once issued, never changes, and its journal never goes back.\<close>

definition journal_from :: "grant \<Rightarrow> progress \<Rightarrow> delivery_engine \<Rightarrow> bool" where
  "journal_from g l e \<longleftrightarrow> engine_ok e \<and>
     (\<exists>gd. guard e = Some gd \<and> guard_grant gd = g \<and> totals_le l (guard_last gd))"

lemma journal_step: "journal_from g l e \<Longrightarrow> journal_from g l (fst (engine_handle e ev))"
  by (cases ev)
    (auto simp: journal_from_def engine_ok_def engine_defs Let_def
      intro: totals_le_trans split: DeliveryPhase.split if_splits)

interpretation journal: invariant_machine engine_handle "journal_from g l" for g l
  by unfold_locales (rule journal_step)

text \<open>
  The journal of a grant is monotone: through any sequence of events an engine keeps its
  grant, and none of the three totals it would settle on ever decreases.
\<close>

theorem journal_monotone:
  assumes "engine_ok e" and "guard e = Some gd"
  shows "\<exists>gd'. guard (final engine_handle e evs) = Some gd' \<and> guard_grant gd' = guard_grant gd \<and>
    units_total (journalled gd) \<le> units_total (journalled gd') \<and>
    seconds_total (journalled gd) \<le> seconds_total (journalled gd') \<and>
    cost_millis_total (journalled gd) \<le> cost_millis_total (journalled gd')"
proof -
  have "journal_from (guard_grant gd) (guard_last gd) e"
    using assms by (simp add: journal_from_def)
  from journal.inv_run [OF this, of evs] show ?thesis
    by (auto simp: journal_from_def journalled_def totals_le_def)
qed

text \<open>A grant of the closed instances: a deposit of 12000 with all three caps.\<close>

definition sample_grant :: grant where
  "sample_grant =
     \<lparr> nonce = 7, deposit_millis = 12000,
       grant_caps = \<lparr> max_units = Some 100, max_seconds = Some 600, max_cost_millis = Some 10000 \<rparr>,
       grant_lease = \<lparr> expires_at = 100000 \<rparr> \<rparr>"

definition sample_progress :: progress where
  "sample_progress =
     \<lparr> units_total = 40, seconds_total = 60, cost_millis_total = 3000, observed_at = 5000 \<rparr>"

definition sample_engine :: delivery_engine where
  "sample_engine =
     \<lparr> engine_phase = Delivering,
       guard = Some \<lparr> guard_grant = sample_grant, guard_last = sample_progress \<rparr> \<rparr>"

lemma sample_engine_ok: "engine_ok sample_engine" "open_engine sample_engine"
  "guard sample_engine = Some \<lparr> guard_grant = sample_grant, guard_last = sample_progress \<rparr>"
  by (simp_all add: engine_ok_def open_engine_def sample_engine_def)

theorem journal_monotone_witness:
  "\<exists>gd'. guard (final engine_handle sample_engine
      [ProgressObserved (zero_progress 1), DeliveryTick 200000]) = Some gd' \<and>
     3000 \<le> cost_millis_total (journalled gd')"
  using journal_monotone [OF sample_engine_ok(1,3), of "[ProgressObserved (zero_progress 1), DeliveryTick 200000]"]
  by (auto simp: journalled_def sample_progress_def simp del: run.simps)


subsection \<open>Caps\<close>

definition caps_reached :: "caps \<Rightarrow> progress \<Rightarrow> bool" where
  "caps_reached c p \<longleftrightarrow>
     (\<exists>m. max_units c = Some m \<and> m \<le> units_total p) \<or>
     (\<exists>m. max_seconds c = Some m \<and> m \<le> seconds_total p) \<or>
     (\<exists>m. max_cost_millis c = Some m \<and> m \<le> cost_millis_total p)"

lemma exhausted_None_iff:
  "exhausted gd = None \<longleftrightarrow> \<not> caps_reached (grant_caps (guard_grant gd)) (guard_last gd)"
  by (auto simp: exhausted_def caps_reached_def cap_hit_def Let_def split: option.splits)

text \<open>
  The guard stops delivery at the first cap reached: a reading that goes back in any total is
  refused with an alarm and leaves the engine as it was; any other reading is journalled, and the
  agent is told to stop exactly when it reaches one of the grant's bounds.
\<close>

theorem progress_enforces_caps:
  assumes "guard e = Some gd"
    and "regress = (units_total p < units_total (journalled gd) \<or>
      seconds_total p < seconds_total (journalled gd) \<or>
      cost_millis_total p < cost_millis_total (journalled gd))"
  shows "(regress \<longrightarrow> engine_handle e (ProgressObserved p) =
      (e, [Alarm (nonce (guard_grant gd)) NonMonotonicProgress])) \<and>
    (\<not> regress \<longrightarrow>
      (\<exists>gd'. guard (fst (engine_handle e (ProgressObserved p))) = Some gd' \<and> journalled gd' = p \<and>
        guard_grant gd' = guard_grant gd) \<and>
      snd (engine_handle e (ProgressObserved p)) =
        (if caps_reached (grant_caps (guard_grant gd)) p
         then [StopDelivery (nonce (guard_grant gd))] else []))"
proof -
  have "regress \<longleftrightarrow> \<not> totals_le (guard_last gd) p"
    by (auto simp: assms(2) totals_le_def journalled_def not_le)
  then show ?thesis
    using assms(1) by (simp add: journalled_def exhausted_None_iff)
qed

theorem progress_enforces_caps_witness:
  "snd (engine_handle sample_engine (ProgressObserved
      (sample_progress\<lparr> cost_millis_total := 10000 \<rparr>))) = [StopDelivery 7]"
  using progress_enforces_caps [OF sample_engine_ok(3) refl,
      of "sample_progress\<lparr> cost_millis_total := 10000 \<rparr>"]
  by (simp add: journalled_def sample_progress_def sample_grant_def caps_reached_def)


subsection \<open>Settlement\<close>

lemma settle_amount_le: "settle_amount g c \<le> deposit_millis g"
  by (simp add: settle_amount_def min_le_iff_disj)

text \<open>
  C9. Settlement conserves the deposit. When a terminal report reaches an engine with an open
  grant, the engine closes and emits exactly one settlement and one refund: the settlement is
  the reported cost cut to the deposit and to the money cap, and the two add up to the deposit.
\<close>

theorem settlement_conserves:
  assumes "engine_phase e = Granted \<or> engine_phase e = Delivering" and "guard e = Some gd"
    and "g = guard_grant gd"
  shows "\<exists>burn change. engine_handle e (TerminalObserved r) =
      (e\<lparr> engine_phase := Done \<rparr>, [SettleDelivery (nonce g) burn, RefundChange (nonce g) change]) \<and>
    unat burn + unat change = unat (deposit_millis g) \<and>
    unat burn = min (min (unat (tr_cost_millis_total r)) (unat (deposit_millis g)))
      (case max_cost_millis (grant_caps g) of None \<Rightarrow> 2 ^ 64 - 1 | Some m \<Rightarrow> unat m)"
proof -
  let ?s = "settle_amount g (tr_cost_millis_total r)"
  have "engine_handle e (TerminalObserved r) =
      (e\<lparr> engine_phase := Done \<rparr>,
       [SettleDelivery (nonce g) ?s, RefundChange (nonce g) (deposit_millis g - ?s)])"
    using assms by (auto simp: settle_from_totals_def Let_def)
  moreover have "unat ?s + unat (deposit_millis g - ?s) = unat (deposit_millis g)"
    using settle_amount_le [of g "tr_cost_millis_total r"]
    by (simp add: unat_sub word_le_nat_alt)
  moreover have "unat ?s = min (min (unat (tr_cost_millis_total r)) (unat (deposit_millis g)))
      (case max_cost_millis (grant_caps g) of None \<Rightarrow> 2 ^ 64 - 1 | Some m \<Rightarrow> unat m)"
    by (simp add: settle_amount_def rust_num unat_minus_one_word_len split: option.split)
  ultimately show ?thesis by blast
qed

definition sample_report :: terminal_report where
  "sample_report =
     \<lparr> tr_kind = Completed, tr_units_total = 50, tr_seconds_total = 90, tr_cost_millis_total = 11000,
       tr_at = 6000, tr_receipt = None \<rparr>"

theorem settlement_conserves_witness:
  "\<exists>burn change. engine_handle sample_engine (TerminalObserved sample_report) =
      (sample_engine\<lparr> engine_phase := Done \<rparr>, [SettleDelivery 7 burn, RefundChange 7 change]) \<and>
    unat burn + unat change = 12000 \<and> unat burn = 10000"
  using settlement_conserves [OF sample_engine_ok(2) [unfolded open_engine_def] sample_engine_ok(3) refl,
      of sample_report]
  by (simp add: sample_grant_def sample_report_def)

text \<open>
  C11. The lease is a backstop: whatever happens before it, a timer tick at or after the lease's
  deadline leaves the engine of an issued grant closed, and if the grant was still open then it
  is settled at the journalled cost, cut to the deposit and the money cap.
\<close>

theorem lease_closes:
  assumes "engine_ok e" and "guard e = Some gd" and "expires_at (grant_lease (guard_grant gd)) \<le> now"
    and "e' = final engine_handle e evs"
  shows "engine_phase (final engine_handle e (evs @ [DeliveryTick now])) = Done \<and>
    (open_engine e' \<longrightarrow>
      (\<exists>gd'. guard e' = Some gd' \<and>
        snd (engine_handle e' (DeliveryTick now)) =
          [SettleDelivery (nonce (guard_grant gd)) (settle_amount (guard_grant gd) (cost_millis_total (journalled gd'))),
           RefundChange (nonce (guard_grant gd)) (deposit_millis (guard_grant gd)
             - settle_amount (guard_grant gd) (cost_millis_total (journalled gd')))]))"
proof -
  have "journal_from (guard_grant gd) (guard_last gd) e"
    using assms(1,2) by (simp add: journal_from_def)
  from journal.inv_run [OF this, of evs] obtain gd' where
    gd': "engine_ok e'" "guard e' = Some gd'" "guard_grant gd' = guard_grant gd"
    unfolding assms(4) journal_from_def by blast
  then have "engine_phase e' = Done \<or> open_engine e'"
    by (cases "engine_phase e'") (auto simp: engine_ok_def open_engine_def)
  then show ?thesis
    using gd' assms(3)
    by (auto simp: machine_simps assms(4) [symmetric] open_engine_def handle_lease_def
        settle_from_totals_def Let_def simp del: run.simps) (auto simp: machine_simps)
qed

theorem lease_closes_witness:
  "engine_phase (final engine_handle sample_engine ([RevokeRequested 3] @ [DeliveryTick 100000])) = Done"
  using lease_closes [OF sample_engine_ok(1,3) _ refl, of 100000 "[RevokeRequested 3]"]
  by (simp add: sample_grant_def)


subsection \<open>Crash recovery\<close>

text \<open>Two engines with the same guard that are both open behave alike, whichever open phase each is in.\<close>

definition alike :: "delivery_engine \<Rightarrow> delivery_engine \<Rightarrow> bool" where
  "alike a b \<longleftrightarrow> guard a = guard b \<and>
     (engine_phase a = engine_phase b \<or> open_engine a \<and> open_engine b)"

lemma alike_step:
  assumes "alike a b"
  shows "alike (fst (engine_handle a ev)) (fst (engine_handle b ev)) \<and>
    snd (engine_handle a ev) = snd (engine_handle b ev)"
proof -
  have g: "guard b = guard a" using assms by (simp add: alike_def)
  show ?thesis
    using assms
    by (cases ev; cases "guard a"; cases "engine_phase a"; cases "engine_phase b")
      (simp_all add: alike_def open_engine_def engine_defs g Let_def)
qed

lemma alike_run: "alike a b \<Longrightarrow> outputs engine_handle a evs = outputs engine_handle b evs"
proof (induction evs arbitrary: a b)
  case Nil
  then show ?case by simp
next
  case (Cons ev evs)
  from alike_step [OF Cons.prems, of ev] Cons.IH show ?case
    by (simp add: machine_simps del: run.simps)
qed

lemma resume_guard: "guard (DeliveryEngine_resume g l) = Some \<lparr> guard_grant = g, guard_last = l \<rparr>"
  by (simp add: DeliveryEngine_resume_def apply_progress_def BudgetGuard_new_def zero_progress_def Let_def)

lemma resume_open: "open_engine (DeliveryEngine_resume g l)"
  by (simp add: DeliveryEngine_resume_def open_engine_def Let_def)

text \<open>
  C10. Crash recovery is transparent: an engine rebuilt from the grant and the journal of one
  whose grant is open emits, on every further sequence of events, exactly what the lost engine
  would have emitted.
\<close>

theorem resume_transparent:
  assumes "open_engine e" and "guard e = Some gd"
  shows "outputs engine_handle (DeliveryEngine_resume (guard_grant gd) (journalled gd)) evs =
    outputs engine_handle e evs"
proof -
  have "alike (DeliveryEngine_resume (guard_grant gd) (journalled gd)) e"
    using assms resume_open by (simp add: alike_def resume_guard journalled_def)
  then show ?thesis by (rule alike_run)
qed

theorem resume_transparent_witness:
  "outputs engine_handle (DeliveryEngine_resume sample_grant sample_progress)
     [DeliveryTick 5, TerminalObserved sample_report] =
   outputs engine_handle sample_engine [DeliveryTick 5, TerminalObserved sample_report]"
  using resume_transparent [OF sample_engine_ok(2,3), of "[DeliveryTick 5, TerminalObserved sample_report]"]
  by (simp add: journalled_def del: run.simps)


subsection \<open>Reopening\<close>

text \<open>
  \<open>Done\<close> is documented as terminal, but a reading that arrives after it reopens the engine:
  the guard is still there and the phase becomes \<open>Delivering\<close>, so that a repeated terminal report
  settles the same deposit a second time.
\<close>

theorem done_reopens:
  assumes "engine_phase e = Done" and "guard e = Some gd" and "totals_le (journalled gd) p"
    and "g = guard_grant gd" and "s = settle_amount g (tr_cost_millis_total r)"
  shows "engine_phase (fst (engine_handle e (ProgressObserved p))) = Delivering \<and>
    filter (\<lambda>a. \<exists>n x. a = SettleDelivery n x)
      (outputs engine_handle e [ProgressObserved p, TerminalObserved r]) = [SettleDelivery (nonce g) s]"
  using assms by (simp add: journalled_def settle_from_totals_def Let_def)

theorem done_reopens_witness:
  "engine_phase (fst (engine_handle (sample_engine\<lparr> engine_phase := Done \<rparr>)
      (ProgressObserved sample_progress))) = Delivering"
  using done_reopens [of "sample_engine\<lparr> engine_phase := Done \<rparr>", OF _ _ _ refl refl, of _ sample_progress]
  by (simp add: sample_engine_def journalled_def)

end
