(* ===== verification/Charger.thy ===== *)
theory Charger
  imports Delivery
begin

section \<open>The charger host\<close>

text \<open>
  \<^verbatim>\<open>crates/tollgate-charger-host\<close>: the driver that translates a charger's wire messages and timer
  ticks into delivery events (\<^verbatim>\<open>src/driver.rs\<close>), and the simulated device it is tested against
  (\<^verbatim>\<open>src/sim.rs\<close>). The driver's three entry points are the operations of one machine, which the
  theory shows to settle a deposit at most once and without loss.
\<close>

subsection \<open>The driver\<close>

record price_vector =
  per_second_millis :: u64

definition PRICELESS :: price_vector where
  "PRICELESS = \<lparr> per_second_millis = 0 \<rparr>"

datatype Inbound = GrantAck Millis | DeviceDone Millis bytes | Aborted Millis bytes

datatype Outbound =
    PublishStart string u64
  | PublishStop string
  | Settle u64 u64
  | Refund u64 u64

datatype PendingStop = StopCapSeconds | StopCapCost | StopRevoked

record charger_driver =
  device :: string
  engine :: delivery_engine
  price_of :: price_vector
  cd_grant :: grant
  acked_at :: "Millis option"
  last_obs :: progress
  pending_stop :: "PendingStop option"

definition lease_seconds_remaining :: "grant \<Rightarrow> Millis \<Rightarrow> u64" where
  "lease_seconds_remaining g now = saturating_sub (expires_at (grant_lease g)) now div 1000"

definition ChargerDriver_open ::
    "string \<Rightarrow> grant \<Rightarrow> price_vector \<Rightarrow> Millis \<Rightarrow> charger_driver \<times> Outbound list" where
  "ChargerDriver_open dev g pv now =
     (let e = fst (engine_handle DeliveryEngine_new (GrantIssued g));
          end_epoch_sec = now div 1000 + lease_seconds_remaining g now
      in (\<lparr> device = dev, engine = e, price_of = pv, cd_grant = g, acked_at = None,
            last_obs = zero_progress now, pending_stop = None \<rparr>,
          [PublishStart dev end_epoch_sec]))"

definition ChargerDriver_resume ::
    "string \<Rightarrow> grant \<Rightarrow> price_vector \<Rightarrow> progress \<Rightarrow> charger_driver" where
  "ChargerDriver_resume dev g pv l =
     \<lparr> device = dev, engine = DeliveryEngine_resume g l, price_of = pv, cd_grant = g,
       acked_at = Some (saturating_sub (observed_at l) (seconds_total l * 1000)),
       last_obs = l, pending_stop = None \<rparr>"

definition journal_of :: "charger_driver \<Rightarrow> grant \<times> progress" where
  "journal_of d = (cd_grant d, last_obs d)"

definition synthesize :: "charger_driver \<Rightarrow> Millis \<Rightarrow> progress" where
  "synthesize d now =
     (case acked_at d of
        None \<Rightarrow> zero_progress now
      | Some acked \<Rightarrow>
          let seconds = since now acked div 1000
          in \<lparr> units_total = 0, seconds_total = seconds,
               cost_millis_total = saturating_mul seconds (per_second_millis (price_of d)),
               observed_at = now \<rparr>)"

definition terminal ::
    "charger_driver \<Rightarrow> TerminalKind \<Rightarrow> Millis \<Rightarrow> bytes option \<Rightarrow> terminal_report" where
  "terminal d kind t receipt =
     \<lparr> tr_kind = kind, tr_units_total = units_total (last_obs d),
       tr_seconds_total = seconds_total (last_obs d),
       tr_cost_millis_total = cost_millis_total (last_obs d), tr_at = t, tr_receipt = receipt \<rparr>"

definition stop_reason :: "charger_driver \<Rightarrow> PendingStop" where
  "stop_reason d =
     (if cap_hit (max_cost_millis (grant_caps (cd_grant d))) (cost_millis_total (last_obs d))
      then StopCapCost else StopCapSeconds)"

fun relay :: "charger_driver \<Rightarrow> DeliveryAction list \<Rightarrow> charger_driver \<times> Outbound list" where
  "relay d [] = (d, [])"
| "relay d (StopDelivery n # acts) =
     (let d1 = (if pending_stop d = None then d\<lparr> pending_stop := Some (stop_reason d) \<rparr> else d);
          (d2, out) = relay d1 acts
      in (d2, PublishStop (device d) # out))"
| "relay d (SettleDelivery n amount # acts) =
     (let (d2, out) = relay d acts in (d2, Settle n amount # out))"
| "relay d (RefundChange n amount # acts) =
     (let (d2, out) = relay d acts in (d2, Refund n amount # out))"
| "relay d (Alarm n r # acts) = relay d acts"

definition dispatch :: "charger_driver \<Rightarrow> DeliveryEvent \<Rightarrow> charger_driver \<times> Outbound list" where
  "dispatch d ev =
     (let (e, acts) = engine_handle (engine d) ev in relay (d\<lparr> engine := e \<rparr>) acts)"

definition observe_unless_stopping :: "charger_driver \<Rightarrow> Millis \<Rightarrow> charger_driver" where
  "observe_unless_stopping d t =
     (if pending_stop d = None then d\<lparr> last_obs := synthesize d t \<rparr> else d)"

fun charger_message :: "charger_driver \<Rightarrow> Inbound \<Rightarrow> charger_driver \<times> Outbound list" where
  "charger_message d (GrantAck t) = (d\<lparr> acked_at := Some t \<rparr>, [])"
| "charger_message d (DeviceDone t raw) =
     (let d1 = observe_unless_stopping d t
      in dispatch d1 (TerminalObserved (terminal d1 CapSeconds t (Some raw))))"
| "charger_message d (Aborted t raw) =
     (let d1 = observe_unless_stopping d t
      in dispatch d1 (TerminalObserved (terminal d1 Completed t (Some raw))))"

fun stop_kind :: "PendingStop \<Rightarrow> TerminalKind" where
  "stop_kind StopCapSeconds = CapSeconds"
| "stop_kind StopCapCost = CapCost"
| "stop_kind StopRevoked = Revoked"

definition charger_tick :: "charger_driver \<Rightarrow> Millis \<Rightarrow> charger_driver \<times> Outbound list" where
  "charger_tick d now =
     (if engine_phase (engine d) = Done then (d, [])
      else case pending_stop d of
        Some reason \<Rightarrow>
          (let report = terminal d (stop_kind reason) (observed_at (last_obs d)) None
           in dispatch (d\<lparr> pending_stop := None \<rparr>) (TerminalObserved report))
      | None \<Rightarrow>
          (let d1 = d\<lparr> last_obs := synthesize d now \<rparr>;
               (d2, out) = dispatch d1 (ProgressObserved (last_obs d1));
               (d3, out') = dispatch d2 (DeliveryTick now)
           in (d3, out @ out')))"

definition charger_revoke :: "charger_driver \<Rightarrow> Millis \<Rightarrow> charger_driver \<times> Outbound list" where
  "charger_revoke d now =
     dispatch (d\<lparr> pending_stop := Some StopRevoked \<rparr>) (RevokeRequested now)"

definition time_money_grant :: "u64 \<Rightarrow> u64 \<Rightarrow> u64 \<Rightarrow> u64 \<Rightarrow> u64 \<Rightarrow> grant" where
  "time_money_grant n dep secs cost expires_at_ms =
     \<lparr> nonce = n, deposit_millis = dep,
       grant_caps = \<lparr> max_units = None, max_seconds = Some secs, max_cost_millis = Some cost \<rparr>,
       grant_lease = \<lparr> expires_at = expires_at_ms \<rparr> \<rparr>"

text \<open>The entry points a host may call, in any order.\<close>

datatype charger_op = OpMessage Inbound | OpTick Millis | OpRevoke Millis

fun charger_step :: "charger_driver \<Rightarrow> charger_op \<Rightarrow> charger_driver \<times> Outbound list" where
  "charger_step d (OpMessage m) = charger_message d m"
| "charger_step d (OpTick now) = charger_tick d now"
| "charger_step d (OpRevoke now) = charger_revoke d now"


subsection \<open>The simulated device\<close>

record mock_charger =
  window :: "(Millis \<times> Millis) option"

definition MockCharger_new :: mock_charger where
  "MockCharger_new = \<lparr> window = None \<rparr>"

definition mock_start :: "mock_charger \<Rightarrow> Millis \<Rightarrow> u64 \<Rightarrow> mock_charger \<times> string option" where
  "mock_start m now end_epoch_sec =
     (if window m \<noteq> None then (m, None)
      else (m\<lparr> window := Some (now, end_epoch_sec * 1000) \<rparr>, Some ''start-acked''))"

definition mock_stop :: "mock_charger \<Rightarrow> mock_charger" where
  "mock_stop m = m\<lparr> window := None \<rparr>"

definition mock_pump :: "mock_charger \<Rightarrow> Millis \<Rightarrow> mock_charger \<times> string option" where
  "mock_pump m now =
     (case window m of
        Some (_, ends_at) \<Rightarrow>
          if now \<ge> ends_at then (m\<lparr> window := None \<rparr>, Some ''countdown-finished'') else (m, None)
      | None \<Rightarrow> (m, None))"

definition mock_is_idle :: "mock_charger \<Rightarrow> bool" where
  "mock_is_idle m \<longleftrightarrow> window m = None"


subsection \<open>One settlement per session\<close>

text \<open>The wire form of an engine action; alarms stay inside the driver.\<close>

fun outbound_of :: "string \<Rightarrow> DeliveryAction \<Rightarrow> Outbound option" where
  "outbound_of dev (StopDelivery n) = Some (PublishStop dev)"
| "outbound_of dev (SettleDelivery n x) = Some (Settle n x)"
| "outbound_of dev (RefundChange n x) = Some (Refund n x)"
| "outbound_of dev (Alarm n r) = None"

lemma relay_frame [simp]:
  "engine (fst (relay d acts)) = engine d" "cd_grant (fst (relay d acts)) = cd_grant d"
  "last_obs (fst (relay d acts)) = last_obs d" "device (fst (relay d acts)) = device d"
  "acked_at (fst (relay d acts)) = acked_at d" "price_of (fst (relay d acts)) = price_of d"
  "snd (relay d acts) = List.map_filter (outbound_of (device d)) acts"
  by (induction d acts rule: relay.induct) (auto simp: case_prod_beta Let_def map_filter_simps)

lemma dispatch_sel [simp]:
  "engine (fst (dispatch d ev)) = fst (engine_handle (engine d) ev)"
  "cd_grant (fst (dispatch d ev)) = cd_grant d"
  "last_obs (fst (dispatch d ev)) = last_obs d"
  "acked_at (fst (dispatch d ev)) = acked_at d"
  "price_of (fst (dispatch d ev)) = price_of d"
  "snd (dispatch d ev) = List.map_filter (outbound_of (device d)) (snd (engine_handle (engine d) ev))"
  by (simp_all add: dispatch_def case_prod_beta)

definition driver_ok :: "charger_driver \<Rightarrow> bool" where
  "driver_ok d \<longleftrightarrow> engine_phase (engine d) \<noteq> Idle \<and>
     (\<exists>gd. guard (engine d) = Some gd \<and> guard_grant gd = cd_grant d)"

definition is_money :: "Outbound \<Rightarrow> bool" where
  "is_money a \<longleftrightarrow> (case a of Settle _ _ \<Rightarrow> True | Refund _ _ \<Rightarrow> True | _ \<Rightarrow> False)"

lemma is_money_simps [simp]:
  "is_money (Settle n x)" "is_money (Refund n x)" "\<not> is_money (PublishStop v)"
  "\<not> is_money (PublishStart v t)"
  by (simp_all add: is_money_def)

text \<open>One settlement under a grant: a burn within the deposit and the money cap, and the rest as change.\<close>

definition settlement :: "grant \<Rightarrow> Outbound list \<Rightarrow> bool" where
  "settlement g out \<longleftrightarrow>
     (\<exists>burn change. out = [Settle (nonce g) burn, Refund (nonce g) change] \<and>
        unat burn + unat change = unat (deposit_millis g) \<and>
        (\<forall>m. max_cost_millis (grant_caps g) = Some m \<longrightarrow> burn \<le> m))"

lemma settlement_amount:
  "settlement g [Settle (nonce g) (settle_amount g c), Refund (nonce g) (deposit_millis g - settle_amount g c)]"
  using settle_amount_le [of g c]
  by (auto simp: settlement_def unat_sub word_le_nat_alt settle_amount_def rust_num)

lemma driver_ok_dispatch: "driver_ok d \<Longrightarrow> driver_ok (fst (dispatch d ev))"
  using engine_ok_step [of "engine d" ev] journal_step [of "cd_grant d" "zero_progress 0" "engine d" ev]
  by (auto simp: driver_ok_def engine_ok_def journal_from_def totals_le_def zero_progress_def)

lemma driver_ok_update [simp]:
  "driver_ok (d\<lparr> last_obs := l \<rparr>) = driver_ok d" "driver_ok (d\<lparr> pending_stop := x \<rparr>) = driver_ok d"
  "driver_ok (d\<lparr> acked_at := a \<rparr>) = driver_ok d"
  by (simp_all add: driver_ok_def)

text \<open>What the engine's answers amount to on the wire, event by event.\<close>

lemma dispatch_terminal:
  assumes "driver_ok d"
  shows "if engine_phase (engine d) = Done
    then engine (fst (dispatch d (TerminalObserved r))) = engine d \<and> snd (dispatch d (TerminalObserved r)) = []
    else engine_phase (engine (fst (dispatch d (TerminalObserved r)))) = Done \<and>
      snd (dispatch d (TerminalObserved r)) =
        [Settle (nonce (cd_grant d)) (settle_amount (cd_grant d) (tr_cost_millis_total r)),
         Refund (nonce (cd_grant d)) (deposit_millis (cd_grant d) -
           settle_amount (cd_grant d) (tr_cost_millis_total r))]"
  using assms
  by (cases "engine_phase (engine d)")
    (auto simp: driver_ok_def settle_from_totals_def Let_def map_filter_simps)

lemma dispatch_progress:
  assumes "driver_ok d" and "engine_phase (engine d) \<noteq> Done"
  shows "engine_phase (engine (fst (dispatch d (ProgressObserved p)))) \<noteq> Done"
    and "filter is_money (snd (dispatch d (ProgressObserved p))) = []"
  using assms by (auto simp: driver_ok_def map_filter_simps split: if_splits)

lemma dispatch_revoke:
  assumes "driver_ok d"
  shows "engine (fst (dispatch d (RevokeRequested t))) = engine d"
    and "filter is_money (snd (dispatch d (RevokeRequested t))) = []"
  using assms by (cases "engine_phase (engine d)"; simp add: map_filter_simps)+

lemma dispatch_lease:
  assumes "driver_ok d" and "engine_phase (engine d) \<noteq> Done"
  shows "if expires_at (grant_lease (cd_grant d)) \<le> now
    then engine_phase (engine (fst (dispatch d (DeliveryTick now)))) = Done \<and>
      (\<exists>c. snd (dispatch d (DeliveryTick now)) =
        [Settle (nonce (cd_grant d)) (settle_amount (cd_grant d) c),
         Refund (nonce (cd_grant d)) (deposit_millis (cd_grant d) - settle_amount (cd_grant d) c)])
    else engine (fst (dispatch d (DeliveryTick now))) = engine d \<and> snd (dispatch d (DeliveryTick now)) = []"
  using assms
  by (cases "engine_phase (engine d)")
    (auto simp: driver_ok_def handle_lease_def settle_from_totals_def Let_def map_filter_simps)

lemma driver_ok_step: "driver_ok d \<Longrightarrow> driver_ok (fst (charger_step d op))"
proof (cases op)
  case (OpMessage m)
  assume "driver_ok d"
  with OpMessage show ?thesis
    by (cases m) (simp_all add: observe_unless_stopping_def Let_def driver_ok_dispatch)
next
  case (OpTick now)
  assume "driver_ok d"
  with OpTick show ?thesis
    by (simp add: charger_tick_def Let_def case_prod_beta driver_ok_dispatch split: option.split)
next
  case (OpRevoke now)
  assume "driver_ok d"
  with OpRevoke show ?thesis by (simp add: charger_revoke_def driver_ok_dispatch)
qed

lemma cd_grant_step [simp]: "cd_grant (fst (charger_step d op)) = cd_grant d"
proof (cases op)
  case (OpMessage m)
  then show ?thesis by (cases m) (simp_all add: observe_unless_stopping_def Let_def)
next
  case (OpTick now)
  then show ?thesis by (simp add: charger_tick_def Let_def case_prod_beta split: option.split)
next
  case (OpRevoke now)
  then show ?thesis by (simp add: charger_revoke_def)
qed

lemma observe_unless_stopping_sel [simp]:
  "engine (observe_unless_stopping d t) = engine d" "cd_grant (observe_unless_stopping d t) = cd_grant d"
  "driver_ok (observe_unless_stopping d t) = driver_ok d"
  "device (observe_unless_stopping d t) = device d"
  by (simp_all add: observe_unless_stopping_def)

lemma charger_closed_step:
  assumes "driver_ok d" and "engine_phase (engine d) = Done"
  shows "engine_phase (engine (fst (charger_step d op))) = Done \<and>
    filter is_money (snd (charger_step d op)) = []"
proof (cases op)
  case (OpMessage m)
  with assms show ?thesis by (cases m) (simp_all add: Let_def map_filter_simps)
next
  case (OpTick now)
  with assms show ?thesis by (simp add: charger_tick_def)
next
  case (OpRevoke now)
  with assms show ?thesis by (simp add: charger_revoke_def map_filter_simps)
qed

lemma charger_terminal_step:
  assumes "driver_ok d" and "engine_phase (engine d) \<noteq> Done"
  shows "engine_phase (engine (fst (dispatch d (TerminalObserved r)))) = Done \<and>
    settlement (cd_grant d) (filter is_money (snd (dispatch d (TerminalObserved r))))"
  using dispatch_terminal [OF assms(1), of r] assms(2) settlement_amount
  by (simp del: dispatch_sel)

lemma charger_tick_effect:
  assumes "driver_ok d" and "engine_phase (engine d) \<noteq> Done"
  shows "if pending_stop d \<noteq> None \<or> expires_at (grant_lease (cd_grant d)) \<le> now
    then engine_phase (engine (fst (charger_tick d now))) = Done \<and>
      settlement (cd_grant d) (filter is_money (snd (charger_tick d now)))
    else engine_phase (engine (fst (charger_tick d now))) \<noteq> Done \<and>
      filter is_money (snd (charger_tick d now)) = []"
proof (cases "pending_stop d")
  case (Some reason)
  with assms charger_terminal_step [of "d\<lparr> pending_stop := None \<rparr>"] show ?thesis
    by (simp add: charger_tick_def Let_def del: dispatch_sel)
next
  case None
  let ?d1 = "d\<lparr> last_obs := synthesize d now \<rparr>"
  let ?d2 = "fst (dispatch ?d1 (ProgressObserved (synthesize d now)))"
  have ok: "driver_ok ?d1" "engine_phase (engine ?d1) \<noteq> Done" using assms by simp_all
  note p = dispatch_progress [OF ok, of "synthesize d now"]
  have "driver_ok ?d2" using driver_ok_dispatch [OF ok(1)] .
  moreover have "cd_grant ?d2 = cd_grant d" by simp
  ultimately show ?thesis
    using None assms(2) p dispatch_lease [of ?d2 now] settlement_amount [of "cd_grant d"]
    by (auto simp: charger_tick_def Let_def case_prod_beta simp del: dispatch_sel)
qed

lemma charger_open_step:
  assumes "driver_ok d" and "engine_phase (engine d) \<noteq> Done"
  shows "if engine_phase (engine (fst (charger_step d op))) = Done
    then settlement (cd_grant d) (filter is_money (snd (charger_step d op)))
    else filter is_money (snd (charger_step d op)) = []"
proof (cases op)
  case (OpMessage m)
  with assms charger_terminal_step [of "observe_unless_stopping d t" for t] show ?thesis
    by (cases m) (simp_all add: Let_def del: dispatch_sel)
next
  case (OpTick now)
  with charger_tick_effect [OF assms, of now] show ?thesis by (simp split: if_splits)
next
  case (OpRevoke now)
  with assms dispatch_revoke [of "d\<lparr> pending_stop := Some StopRevoked \<rparr>" now] show ?thesis
    by (simp add: charger_revoke_def del: dispatch_sel)
qed

interpretation charger: settling_machine charger_step driver_ok "\<lambda>d. engine_phase (engine d) = Done"
  is_money "\<lambda>d. settlement (cd_grant d)"
  by unfold_locales (simp_all add: driver_ok_step charger_closed_step charger_open_step)

lemma open_driver_ok:
  "driver_ok (fst (ChargerDriver_open dev g pv now))"
  "engine_phase (engine (fst (ChargerDriver_open dev g pv now))) = Granted"
  "cd_grant (fst (ChargerDriver_open dev g pv now)) = g"
  by (simp_all add: ChargerDriver_open_def Let_def driver_ok_def DeliveryEngine_new_def BudgetGuard_new_def)

text \<open>
  C4. A charging session moves its deposit at most once and without loss: whatever messages,
  ticks and revocations reach a driver after it is armed, and in whatever order, the money it
  moves is nothing while the session is open, and once it is over exactly one burn followed by
  one refund that add up to the deposit, the burn within the money cap.
\<close>

theorem charger_settles_once:
  assumes "d = fst (ChargerDriver_open dev g pv now)"
    and "settled = filter is_money (outputs charger_step d ops)"
  shows "if engine_phase (engine (final charger_step d ops)) = Done
    then \<exists>burn change. settled = [Settle (nonce g) burn, Refund (nonce g) change] \<and>
      unat burn + unat change = unat (deposit_millis g) \<and>
      (\<forall>m. max_cost_millis (grant_caps g) = Some m \<longrightarrow> burn \<le> m)
    else settled = []"
proof -
  have d: "driver_ok d" "engine_phase (engine d) \<noteq> Done" and g: "cd_grant d = g"
    using open_driver_ok [of dev g pv now] by (simp_all add: assms(1))
  from charger.settles_once [OF d, of ops] show ?thesis
    unfolding settlement_def g assms(2) .
qed

lemma cd_grant_run [simp]: "cd_grant (final charger_step d ops) = cd_grant d"
  by (induction ops arbitrary: d) (simp_all add: machine_simps del: run.simps(2) charger_step.simps)

lemma final_tick_closes:
  assumes "driver_ok d"
    and "pending_stop (final charger_step d ops) \<noteq> None \<or> expires_at (grant_lease (cd_grant d)) \<le> now"
  shows "engine_phase (engine (final charger_step d (ops @ [OpTick now]))) = Done"
proof -
  let ?d = "final charger_step d ops"
  have "driver_ok ?d" using charger.inv_run [OF assms(1)] .
  then have "engine_phase (engine (fst (charger_tick ?d now))) = Done"
    using charger_tick_effect [of ?d now] assms(2)
    by (cases "engine_phase (engine ?d) = Done") (auto simp: charger_tick_def split: if_splits)
  then show ?thesis by (simp add: machine_simps)
qed

text \<open>The closed instances: a session at 50 a second, with the money cap below the deposit.\<close>

definition sample_terms :: grant where
  "sample_terms = time_money_grant 7 12000 600 10000 100000"

definition sample_driver :: charger_driver where
  "sample_driver = fst (ChargerDriver_open ''ev1'' sample_terms \<lparr> per_second_millis = 50 \<rparr> 1000)"

lemma sample_terms_sel [simp]:
  "nonce sample_terms = 7" "deposit_millis sample_terms = 12000"
  "expires_at (grant_lease sample_terms) = 100000"
  "max_cost_millis (grant_caps sample_terms) = Some 10000"
  by (simp_all add: sample_terms_def time_money_grant_def)

lemma sample_driver_ok:
  "driver_ok sample_driver" "cd_grant sample_driver = sample_terms"
  "engine_phase (engine sample_driver) = Granted"
  using open_driver_ok by (simp_all add: sample_driver_def)

theorem charger_settles_once_witness:
  "\<exists>burn change. filter is_money (outputs charger_step sample_driver
      ([OpMessage (GrantAck 1000), OpTick 61000, OpRevoke 62000] @ [OpTick 100000])) =
        [Settle 7 burn, Refund 7 change] \<and> unat burn + unat change = 12000"
proof -
  let ?ops = "[OpMessage (GrantAck 1000), OpTick 61000, OpRevoke 62000] @ [OpTick 100000]"
  have "engine_phase (engine (final charger_step sample_driver ?ops)) = Done"
    by (rule final_tick_closes) (simp_all add: sample_driver_ok)
  then show ?thesis
    using charger_settles_once [OF sample_driver_def refl, of ?ops] by auto
qed

text \<open>
  Every session ends: a tick at or after the lease's deadline, or the first tick after the
  driver stopped the device for a cap or a revocation, leaves the session settled, whatever
  happened before. No acknowledgement from the device is needed.
\<close>

theorem charger_session_ends:
  assumes "d = fst (ChargerDriver_open dev g pv t0)"
    and "pending_stop (final charger_step d ops) \<noteq> None \<or> expires_at (grant_lease g) \<le> now"
  shows "engine_phase (engine (final charger_step d (ops @ [OpTick now]))) = Done"
  using final_tick_closes [of d ops now] assms open_driver_ok [of dev g pv t0] by simp

theorem charger_session_ends_witness:
  "engine_phase (engine (final charger_step sample_driver ([OpRevoke 62000] @ [OpTick 62001]))) = Done"
proof -
  have "pending_stop (final charger_step sample_driver [OpRevoke 62000]) \<noteq> None"
    using sample_driver_ok(3) by (simp add: charger_revoke_def dispatch_def Let_def)
  then show ?thesis
    using charger_session_ends [OF sample_driver_def, of "[OpRevoke 62000]" 62001] by blast
qed


subsection \<open>What a session bills\<close>

lemma synthesize_cost:
  "acked_at d = Some a \<Longrightarrow> unat (cost_millis_total (synthesize d t)) =
    min ((unat t - unat a) div 1000 * unat (per_second_millis (price_of d))) (2 ^ 64 - 1)"
  by (simp add: synthesize_def Let_def since_def rust_num unat_div)

text \<open>
  A device terminal bills the whole seconds since the acknowledgement: the burn is that time
  at the per-second price, cut to the deposit and to the money cap, if no stop was pending.
\<close>

theorem device_terminal_bills_time:
  assumes "d = final charger_step (fst (ChargerDriver_open dev g pv t0)) ops"
    and "engine_phase (engine d) \<noteq> Done" and "pending_stop d = None" and "acked_at d = Some a"
    and "m = DeviceDone t raw \<or> m = Aborted t raw"
  shows "\<exists>burn change. snd (charger_step d (OpMessage m)) =
      [Settle (nonce g) burn, Refund (nonce g) change] \<and>
    unat burn =
      min (min ((unat t - unat a) div 1000 * unat (per_second_millis (price_of d))) (unat (deposit_millis g)))
        (case max_cost_millis (grant_caps g) of None \<Rightarrow> 2 ^ 64 - 1 | Some c \<Rightarrow> unat c)"
proof -
  let ?d = "observe_unless_stopping d t"
  have ok: "driver_ok d" "cd_grant d = g"
    using charger.inv_run [OF open_driver_ok(1)] open_driver_ok(3) [of dev g pv t0]
    by (simp_all add: assms(1))
  have obs: "last_obs ?d = synthesize d t"
    using assms(3) by (simp add: observe_unless_stopping_def)
  have fits: "min (min x (2 ^ 64 - 1)) (unat (deposit_millis g)) = min x (unat (deposit_millis g))" for x
    using unat_bound [of "deposit_millis g"] by (simp add: min_def)
  have "unat (settle_amount g (cost_millis_total (synthesize d t))) =
      min (min ((unat t - unat a) div 1000 * unat (per_second_millis (price_of d))) (unat (deposit_millis g)))
        (case max_cost_millis (grant_caps g) of None \<Rightarrow> 2 ^ 64 - 1 | Some c \<Rightarrow> unat c)"
    using fits
    by (simp add: settle_amount_def rust_num synthesize_cost [OF assms(4)] unat_minus_one_word_len
        split: option.split)
  moreover have "snd (charger_step d (OpMessage m)) =
      [Settle (nonce g) (settle_amount g (cost_millis_total (synthesize d t))),
       Refund (nonce g) (deposit_millis g - settle_amount g (cost_millis_total (synthesize d t)))]"
    using dispatch_terminal [of ?d "terminal ?d k t r" for k r] ok assms(2,5) obs
    by (auto simp: Let_def terminal_def simp del: dispatch_sel)
  ultimately show ?thesis by blast
qed

lemma sample_driver_acked:
  "final charger_step sample_driver [OpMessage (GrantAck 1000)] = sample_driver\<lparr> acked_at := Some 1000 \<rparr>"
  "pending_stop sample_driver = None" "price_of sample_driver = \<lparr> per_second_millis = 50 \<rparr>"
  by (simp_all add: sample_driver_def ChargerDriver_open_def Let_def)

theorem device_terminal_bills_time_witness:
  "\<exists>burn change. snd (charger_step (sample_driver\<lparr> acked_at := Some 1000 \<rparr>)
      (OpMessage (Aborted 61999 []))) = [Settle 7 burn, Refund 7 change] \<and> unat burn = 3000"
  using device_terminal_bills_time [OF sample_driver_acked(1) [symmetric, unfolded sample_driver_def],
      where a = 1000 and t = 61999 and raw = "[]" and m = "Aborted 61999 []"]
    sample_driver_ok sample_driver_acked
  by (simp add: sample_driver_def [symmetric])

text \<open>
  A resumed driver bills on: rebuilt from the journal of a driver that observed at \<open>t\<close>, it
  charges at any later time at most what the lost driver would have charged, and at most one
  second less.
\<close>

theorem resume_accrual:
  assumes "acked_at d = Some a" and "a \<le> t" and "t \<le> now"
    and "r = ChargerDriver_resume (device d) (cd_grant d) (price_of d) (synthesize d t)"
  shows "unat (seconds_total (synthesize r now)) \<le> unat (seconds_total (synthesize d now)) \<and>
    unat (seconds_total (synthesize d now)) \<le> unat (seconds_total (synthesize r now)) + 1"
proof -
  let ?s = "(unat t - unat a) div 1000"
  have le: "unat a \<le> unat t" "unat t \<le> unat now" using assms(2,3) by (simp_all add: word_le_nat_alt)
  have secs: "unat (seconds_total (synthesize d t')) = (unat t' - unat a) div 1000" for t'
    using assms(1) by (simp add: synthesize_def since_def Let_def unat_div rust_num)
  have "?s * 1000 < 2 ^ 64" using unat_bound [of t] by simp
  then have "unat (seconds_total (synthesize d t) * 1000) = ?s * 1000"
    by (simp add: unat_word_ariths secs)
  moreover have "observed_at (synthesize d t) = t"
    using assms(1) by (simp add: synthesize_def Let_def)
  ultimately have "unat (seconds_total (synthesize r now)) = (unat now - (unat t - ?s * 1000)) div 1000"
    by (simp add: assms(4) ChargerDriver_resume_def synthesize_def since_def Let_def unat_div rust_num)
  then show ?thesis unfolding secs using le by linarith
qed

theorem resume_accrual_witness:
  "unat (seconds_total (synthesize (sample_driver\<lparr> acked_at := Some 1000 \<rparr>) 9000)) \<le>
   unat (seconds_total (synthesize (ChargerDriver_resume ''ev1'' sample_terms \<lparr> per_second_millis = 50 \<rparr>
     (synthesize (sample_driver\<lparr> acked_at := Some 1000 \<rparr>) 3500)) 9000)) + 1"
proof -
  let ?d = "sample_driver\<lparr> acked_at := Some 1000 \<rparr>"
  have d: "device ?d = ''ev1''" "cd_grant ?d = sample_terms" "price_of ?d = \<lparr> per_second_millis = 50 \<rparr>"
    by (simp_all add: sample_driver_def ChargerDriver_open_def Let_def)
  show ?thesis
    using resume_accrual [of ?d 1000 3500 9000, OF _ _ _ refl] unfolding d by simp
qed

text \<open>
  The device is told a deadline within the lease: the whole seconds the start message carries
  end at most at the lease's deadline, and less than two seconds before it.
\<close>

theorem start_deadline_within_lease:
  assumes "now \<le> expires_at (grant_lease g)"
    and "snd (ChargerDriver_open dev g pv now) = [PublishStart dev secs]"
  shows "unat secs * 1000 \<le> unat (expires_at (grant_lease g)) \<and>
    unat (expires_at (grant_lease g)) < unat secs * 1000 + 2000"
proof -
  let ?e = "unat (expires_at (grant_lease g))"
  have le: "unat now \<le> ?e" using assms(1) by (simp add: word_le_nat_alt)
  have "unat now div 1000 + (?e - unat now) div 1000 < 2 ^ 64"
    using le unat_bound [of "expires_at (grant_lease g)"] by simp
  then have "unat secs = unat now div 1000 + (?e - unat now) div 1000"
    using assms(2)
    by (auto simp: ChargerDriver_open_def lease_seconds_remaining_def Let_def unat_word_ariths
        unat_div rust_num)
  then show ?thesis using le by linarith
qed

theorem start_deadline_within_lease_witness:
  "snd (ChargerDriver_open ''ev1'' sample_terms PRICELESS 1500) = [PublishStart ''ev1'' 99] \<and>
   unat (99 :: u64) * 1000 \<le> 100000 \<and> 100000 < unat (99 :: u64) * 1000 + 2000"
proof -
  have out: "snd (ChargerDriver_open ''ev1'' sample_terms PRICELESS 1500) = [PublishStart ''ev1'' 99]"
    by (simp add: ChargerDriver_open_def lease_seconds_remaining_def saturating_sub_def)
  with start_deadline_within_lease [OF _ out] show ?thesis by simp
qed

lemma dispatch_refused:
  assumes "guard (engine d) = Some gd" and "\<not> totals_le (guard_last gd) p"
  shows "dispatch d (ProgressObserved p) = (d, [])"
  using assms by (simp add: dispatch_def)

lemma dispatch_before_lease:
  assumes "guard (engine d) = Some gd" and "now < expires_at (grant_lease (guard_grant gd))"
  shows "dispatch d (DeliveryTick now) = (d, [])"
  using assms by (simp add: dispatch_def handle_lease_def flip: not_le)

text \<open>
  A second acknowledgement lowers the bill. The engine refuses a reading that goes back and
  keeps its journal, but the driver has already overwritten its own with it, and a revocation is
  settled on that one: the session is billed the time since the second acknowledgement only,
  although the engine's journal stands at the longer time.
\<close>

theorem reacknowledgement_lowers_bill:
  assumes "driver_ok d" and "engine_phase (engine d) \<noteq> Done" and "pending_stop d = None"
    and "guard (engine d) = Some gd" and "since t' t div 1000 < seconds_total (journalled gd)"
    and "t' < expires_at (grant_lease (cd_grant d))" and "g = cd_grant d"
    and "d' = final charger_step d [OpMessage (GrantAck t), OpTick t', OpRevoke t'']"
    and "burn = settle_amount g (saturating_mul (since t' t div 1000) (per_second_millis (price_of d)))"
  shows "guard (engine d') = Some gd \<and>
    snd (charger_step d' (OpTick u)) = [Settle (nonce g) burn, Refund (nonce g) (deposit_millis g - burn)]"
proof -
  let ?a = "d\<lparr> acked_at := Some t \<rparr>"
  let ?b = "?a\<lparr> last_obs := synthesize ?a t' \<rparr>" and ?c = "d'\<lparr> pending_stop := None \<rparr>"
  have obs: "seconds_total (synthesize ?a t') = since t' t div 1000"
    "cost_millis_total (synthesize ?a t') =
       saturating_mul (since t' t div 1000) (per_second_millis (price_of d))"
    by (simp_all add: synthesize_def Let_def)
  then have "\<not> totals_le (guard_last gd) (synthesize ?a t')"
    using assms(5) by (simp add: totals_le_def journalled_def not_le)
  moreover have grant: "guard_grant gd = cd_grant d" using assms(1,4) by (simp add: driver_ok_def)
  ultimately have tick: "charger_tick ?a t' = (?b, [])"
    using assms(2-4,6) dispatch_refused [of ?b gd] dispatch_before_lease [of ?b gd t']
    by (simp add: charger_tick_def Let_def)
  have "d' = fst (charger_revoke ?b t'')" by (simp add: assms(8) tick)
  then have d': "engine d' = engine d" "pending_stop d' = Some StopRevoked" "cd_grant d' = cd_grant d"
    "last_obs d' = synthesize ?a t'"
    using assms(1,2,4)
    by (auto simp: charger_revoke_def dispatch_def driver_ok_def Let_def case_prod_beta
        split: DeliveryPhase.split)
  have "driver_ok ?c" using d' assms(1) by (simp add: driver_ok_def)
  from dispatch_terminal [OF this] d' assms(2,7,9) obs show ?thesis
    by (auto simp: charger_tick_def Let_def terminal_def assms(4) simp del: dispatch_sel)
qed

theorem reacknowledgement_lowers_bill_witness:
  "snd (charger_step (final charger_step
      (ChargerDriver_resume ''ev1'' sample_terms \<lparr> per_second_millis = 50 \<rparr>
         \<lparr> units_total = 0, seconds_total = 60, cost_millis_total = 3000, observed_at = 61000 \<rparr>)
      [OpMessage (GrantAck 61000), OpTick 61500, OpRevoke 61600]) (OpTick 61700)) =
   [Settle 7 0, Refund 7 12000]"
proof -
  let ?l = "\<lparr> units_total = 0, seconds_total = 60, cost_millis_total = 3000, observed_at = 61000 \<rparr>"
  let ?d = "ChargerDriver_resume ''ev1'' sample_terms \<lparr> per_second_millis = 50 \<rparr> ?l"
  have eng: "engine ?d = DeliveryEngine_resume sample_terms ?l" "cd_grant ?d = sample_terms"
    "pending_stop ?d = None" "price_of ?d = \<lparr> per_second_millis = 50 \<rparr>"
    by (simp_all add: ChargerDriver_resume_def)
  then have "driver_ok ?d" "engine_phase (engine ?d) \<noteq> Done"
    and gd: "guard (engine ?d) = Some \<lparr> guard_grant = sample_terms, guard_last = ?l \<rparr>"
    using resume_open [of sample_terms ?l] resume_guard [of sample_terms ?l]
    by (auto simp: driver_ok_def open_engine_def)
  from reacknowledgement_lowers_bill [OF this(1,2) eng(3) gd _ _ refl refl refl, of 61500 61000 61600 61700]
  show ?thesis
    by (simp add: eng journalled_def since_def saturating_sub_def saturating_mul_def settle_amount_def
        del: run.simps)
qed

end
