(* ===== verification/External.thy ===== *)
theory External
  imports Delivery
begin

section \<open>Deliveries by an external provider\<close>

text \<open>
  \<^verbatim>\<open>crates/tollgate-charger-host/src/external.rs\<close>: the driver for a meter that belongs to someone
  else. The provider is a parameter: a record of the four calls of the trait
  \<^verbatim>\<open>ExternalProviderPort\<close>, each a function of the provider's own state, about which nothing is
  assumed.
\<close>

datatype ProviderError = Refused

record receipt =
  rc_cost_millis_total :: u64
  rc_seconds_total :: u64

record 'p provider_port =
  quote :: "u64 \<Rightarrow> 'p \<Rightarrow> u64 \<times> 'p"
  start :: "u64 \<Rightarrow> u64 \<Rightarrow> 'p \<Rightarrow> (ProviderError + u64) \<times> 'p"
  poll :: "u64 \<Rightarrow> Millis \<Rightarrow> 'p \<Rightarrow> progress \<times> 'p"
  stop :: "u64 \<Rightarrow> 'p \<Rightarrow> receipt \<times> 'p"

datatype ExternalAction = ExtSettle u64 u64 | ExtRefund u64 u64

record external_driver =
  ext_engine :: delivery_engine
  ext_grant :: grant
  ext_session :: "u64 option"
  ext_last :: progress

definition ExternalDriver_open ::
    "'p provider_port \<Rightarrow> u64 \<Rightarrow> u64 \<Rightarrow> Millis \<Rightarrow> u64 \<Rightarrow> 'p \<Rightarrow>
     (ProviderError + external_driver \<times> ExternalAction list) \<times> 'p" where
  "ExternalDriver_open port n secs now lease_ms w =
     (let (deposit, w1) = quote port secs w;
          (r, w2) = start port n secs w1
      in case r of
           Inl err \<Rightarrow> (Inl err, w2)
         | Inr sid \<Rightarrow>
             let g = \<lparr> nonce = n, deposit_millis = deposit,
                       grant_caps = \<lparr> max_units = None, max_seconds = Some secs, max_cost_millis = None \<rparr>,
                       grant_lease = \<lparr> expires_at = now + lease_ms \<rparr> \<rparr>;
                 e = fst (engine_handle DeliveryEngine_new (GrantIssued g))
             in (Inr (\<lparr> ext_engine = e, ext_grant = g, ext_session = Some sid,
                        ext_last = zero_progress now \<rparr>, []), w2))"

definition ext_journal :: "external_driver \<Rightarrow> grant \<times> progress" where
  "ext_journal d = (ext_grant d, ext_last d)"

definition ExternalDriver_resume :: "grant \<Rightarrow> progress \<Rightarrow> u64 \<Rightarrow> external_driver" where
  "ExternalDriver_resume g l sid =
     \<lparr> ext_engine = DeliveryEngine_resume g l, ext_grant = g, ext_session = Some sid, ext_last = l \<rparr>"

fun translate_action :: "DeliveryAction \<Rightarrow> ExternalAction option" where
  "translate_action (SettleDelivery n x) = Some (ExtSettle n x)"
| "translate_action (RefundChange n x) = Some (ExtRefund n x)"
| "translate_action _ = None"

definition translate :: "DeliveryAction list \<Rightarrow> ExternalAction list" where
  "translate acts = List.map_filter translate_action acts"

definition ext_tick ::
    "'p provider_port \<Rightarrow> external_driver \<Rightarrow> Millis \<Rightarrow> 'p \<Rightarrow> (external_driver \<times> ExternalAction list) \<times> 'p" where
  "ext_tick port d now w =
     (if engine_phase (ext_engine d) = Done then ((d, []), w)
      else
        let (d1, w1) = (case ext_session d of
                          Some sid \<Rightarrow> (let (p, w') = poll port sid now w in (d\<lparr> ext_last := p \<rparr>, w'))
                        | None \<Rightarrow> (d, w));
            (e2, acts) = engine_handle (ext_engine d1) (ProgressObserved (ext_last d1));
            (e3, acts') = engine_handle e2 (DeliveryTick now)
        in ((d1\<lparr> ext_engine := e3 \<rparr>, translate acts @ translate acts'), w1))"

definition ext_stop ::
    "'p provider_port \<Rightarrow> external_driver \<Rightarrow> Millis \<Rightarrow> 'p \<Rightarrow> (external_driver \<times> ExternalAction list) \<times> 'p" where
  "ext_stop port d now w =
     (if engine_phase (ext_engine d) = Done then ((d, []), w)
      else
        let ((cost, seconds), w1) =
              (case ext_session d of
                 Some sid \<Rightarrow> (let (r, w') = stop port sid w
                               in ((rc_cost_millis_total r, rc_seconds_total r), w'))
               | None \<Rightarrow> ((cost_millis_total (ext_last d), seconds_total (ext_last d)), w));
            report = \<lparr> tr_kind = Completed, tr_units_total = 0, tr_seconds_total = seconds,
                       tr_cost_millis_total = cost, tr_at = now, tr_receipt = None \<rparr>;
            (e', acts) = engine_handle (ext_engine d) (TerminalObserved report)
        in ((d\<lparr> ext_session := None, ext_engine := e' \<rparr>, translate acts), w1))"

text \<open>The two operations as one machine whose state is the driver and the provider's world.\<close>

datatype external_op = ExtTick Millis | ExtStop Millis

definition ext_step ::
    "'p provider_port \<Rightarrow> external_driver \<times> 'p \<Rightarrow> external_op \<Rightarrow> (external_driver \<times> 'p) \<times> ExternalAction list" where
  "ext_step port st op =
     (let ((d', out), w') = (case op of ExtTick now \<Rightarrow> ext_tick port (fst st) now (snd st)
                             | ExtStop now \<Rightarrow> ext_stop port (fst st) now (snd st))
      in ((d', w'), out))"


subsection \<open>One settlement per session\<close>

definition ext_ok :: "external_driver \<Rightarrow> bool" where
  "ext_ok d \<longleftrightarrow> engine_phase (ext_engine d) \<noteq> Idle \<and>
     (\<exists>gd. guard (ext_engine d) = Some gd \<and> guard_grant gd = ext_grant d)"

definition ext_settlement :: "grant \<Rightarrow> ExternalAction list \<Rightarrow> bool" where
  "ext_settlement g out \<longleftrightarrow>
     (\<exists>burn change. out = [ExtSettle (nonce g) burn, ExtRefund (nonce g) change] \<and>
        unat burn + unat change = unat (deposit_millis g) \<and>
        (\<forall>m. max_cost_millis (grant_caps g) = Some m \<longrightarrow> burn \<le> m))"

lemma ext_settlement_amount:
  "ext_settlement g
     [ExtSettle (nonce g) (settle_amount g c), ExtRefund (nonce g) (deposit_millis g - settle_amount g c)]"
  using settle_amount_le [of g c]
  by (auto simp: ext_settlement_def unat_sub word_le_nat_alt settle_amount_def rust_num)

lemma translate_simps [simp]:
  "translate [] = []" "translate (SettleDelivery n x # acts) = ExtSettle n x # translate acts"
  "translate (RefundChange n x # acts) = ExtRefund n x # translate acts"
  "translate (StopDelivery n # acts) = translate acts" "translate (Alarm n r # acts) = translate acts"
  by (simp_all add: translate_def map_filter_simps)

text \<open>The driver's settlements, by operation, for an open session.\<close>

definition ext_polled :: "'p provider_port \<Rightarrow> external_driver \<Rightarrow> Millis \<Rightarrow> 'p \<Rightarrow> progress \<times> 'p" where
  "ext_polled port d now w =
     (case ext_session d of Some sid \<Rightarrow> poll port sid now w | None \<Rightarrow> (ext_last d, w))"

lemma ext_tick_open:
  assumes "ext_ok d" and "engine_phase (ext_engine d) \<noteq> Done"
  shows "\<exists>gd. guard (ext_engine d) = Some gd \<and> guard_grant gd = ext_grant d \<and>
    (let p = fst (ext_polled port d now w);
         gd' = (if totals_le (guard_last gd) p then gd\<lparr> guard_last := p \<rparr> else gd);
         burn = settle_amount (ext_grant d) (cost_millis_total (guard_last gd'));
         d' = fst (fst (ext_tick port d now w))
     in ext_last d' = p \<and> ext_grant d' = ext_grant d \<and> ext_session d' = ext_session d \<and>
        snd (ext_tick port d now w) = snd (ext_polled port d now w) \<and>
        guard (ext_engine d') = Some gd' \<and>
        (if expires_at (grant_lease (ext_grant d)) \<le> now
         then engine_phase (ext_engine d') = Done \<and>
           snd (fst (ext_tick port d now w)) =
             [ExtSettle (nonce (ext_grant d)) burn,
              ExtRefund (nonce (ext_grant d)) (deposit_millis (ext_grant d) - burn)]
         else (engine_phase (ext_engine d') = Granted \<or> engine_phase (ext_engine d') = Delivering) \<and>
           snd (fst (ext_tick port d now w)) = []))"
proof -
  obtain gd where gd: "guard (ext_engine d) = Some gd" "guard_grant gd = ext_grant d"
    and ph: "engine_phase (ext_engine d) = Granted \<or> engine_phase (ext_engine d) = Delivering"
    using assms by (cases "engine_phase (ext_engine d)") (auto simp: ext_ok_def)
  show ?thesis
    using gd ph
    by (cases "ext_session d")
      (auto simp: ext_tick_def ext_polled_def handle_lease_def settle_from_totals_def journalled_def
        Let_def case_prod_beta)
qed

definition ext_final_cost :: "'p provider_port \<Rightarrow> external_driver \<Rightarrow> 'p \<Rightarrow> u64" where
  "ext_final_cost port d w =
     (case ext_session d of Some sid \<Rightarrow> rc_cost_millis_total (fst (stop port sid w))
      | None \<Rightarrow> cost_millis_total (ext_last d))"

lemma ext_stop_open:
  assumes "ext_ok d" and "engine_phase (ext_engine d) \<noteq> Done"
    and "burn = settle_amount (ext_grant d) (ext_final_cost port d w)"
  shows "guard (ext_engine (fst (fst (ext_stop port d now w)))) = guard (ext_engine d)"
    and "engine_phase (ext_engine (fst (fst (ext_stop port d now w)))) = Done"
    and "ext_grant (fst (fst (ext_stop port d now w))) = ext_grant d"
    and "snd (fst (ext_stop port d now w)) =
      [ExtSettle (nonce (ext_grant d)) burn,
       ExtRefund (nonce (ext_grant d)) (deposit_millis (ext_grant d) - burn)]"
proof -
  obtain gd where gd: "guard (ext_engine d) = Some gd" "guard_grant gd = ext_grant d"
    and ph: "engine_phase (ext_engine d) = Granted \<or> engine_phase (ext_engine d) = Delivering"
    using assms(1,2) by (cases "engine_phase (ext_engine d)") (auto simp: ext_ok_def)
  show "guard (ext_engine (fst (fst (ext_stop port d now w)))) = guard (ext_engine d)"
    and "engine_phase (ext_engine (fst (fst (ext_stop port d now w)))) = Done"
    and "ext_grant (fst (fst (ext_stop port d now w))) = ext_grant d"
    and "snd (fst (ext_stop port d now w)) =
      [ExtSettle (nonce (ext_grant d)) burn,
       ExtRefund (nonce (ext_grant d)) (deposit_millis (ext_grant d) - burn)]"
    using gd ph
    by (cases "ext_session d"; auto simp: ext_stop_def ext_final_cost_def settle_from_totals_def
        assms(3) Let_def case_prod_beta)+
qed

lemma ext_done_step:
  assumes "engine_phase (ext_engine (fst st)) = Done"
  shows "ext_step port st op = (st, [])"
  using assms
  by (cases st) (auto simp: ext_step_def ext_tick_def ext_stop_def split: external_op.split)

lemma ext_tick_step:
  assumes "ext_ok (fst st)" and "engine_phase (ext_engine (fst st)) \<noteq> Done"
  shows "ext_ok (fst (fst (ext_step port st (ExtTick now))))"
    and "ext_grant (fst (fst (ext_step port st (ExtTick now)))) = ext_grant (fst st)"
    and "snd (fst (ext_step port st (ExtTick now))) = snd (ext_polled port (fst st) now (snd st))"
    and "engine_phase (ext_engine (fst (fst (ext_step port st (ExtTick now))))) = Done \<longleftrightarrow>
      expires_at (grant_lease (ext_grant (fst st))) \<le> now"
    and "engine_phase (ext_engine (fst (fst (ext_step port st (ExtTick now))))) = Done \<Longrightarrow>
      ext_settlement (ext_grant (fst st)) (snd (ext_step port st (ExtTick now)))"
    and "engine_phase (ext_engine (fst (fst (ext_step port st (ExtTick now))))) \<noteq> Done \<Longrightarrow>
      snd (ext_step port st (ExtTick now)) = []"
  using ext_tick_open [OF assms, of port now "snd st"] ext_settlement_amount [of "ext_grant (fst st)"]
  by (auto simp: ext_step_def ext_ok_def Let_def case_prod_beta split: if_splits)

lemma ext_stop_step:
  assumes "ext_ok (fst st)" and "engine_phase (ext_engine (fst st)) \<noteq> Done"
  shows "ext_ok (fst (fst (ext_step port st (ExtStop now))))"
    and "ext_grant (fst (fst (ext_step port st (ExtStop now)))) = ext_grant (fst st)"
    and "engine_phase (ext_engine (fst (fst (ext_step port st (ExtStop now))))) = Done"
    and "ext_settlement (ext_grant (fst st)) (snd (ext_step port st (ExtStop now)))"
  using ext_stop_open [OF assms refl, where port = port and w = "snd st" and now = now] assms(1) ext_settlement_amount [of "ext_grant (fst st)"]
  by (auto simp: ext_step_def ext_ok_def case_prod_beta)

lemma ext_ok_step:
  assumes "ext_ok (fst st)"
  shows "ext_ok (fst (fst (ext_step port st op))) \<and>
    ext_grant (fst (fst (ext_step port st op))) = ext_grant (fst st)"
proof (cases "engine_phase (ext_engine (fst st)) = Done")
  case True
  then show ?thesis using assms by (simp add: ext_done_step)
next
  case False
  then show ?thesis
    using ext_tick_step(1,2) [OF assms False] ext_stop_step(1,2) [OF assms False] by (cases op) simp_all
qed

lemma ext_open_step:
  assumes "ext_ok (fst st)" and "engine_phase (ext_engine (fst st)) \<noteq> Done"
  shows "if engine_phase (ext_engine (fst (fst (ext_step port st op)))) = Done
    then ext_settlement (ext_grant (fst st)) (snd (ext_step port st op))
    else snd (ext_step port st op) = []"
  using ext_tick_step(5,6) [OF assms] ext_stop_step(3,4) [OF assms] by (cases op) auto

interpretation external: settling_machine "ext_step port" "\<lambda>st. ext_ok (fst st)"
  "\<lambda>st. engine_phase (ext_engine (fst st)) = Done" "\<lambda>_. True" "\<lambda>st. ext_settlement (ext_grant (fst st))"
  for port
  by unfold_locales (simp_all add: ext_ok_step ext_done_step ext_open_step)

lemma ext_open_ok:
  assumes "fst (ExternalDriver_open port n secs now lease_ms w) = Inr (d, out)"
  shows "ext_ok d" and "engine_phase (ext_engine d) = Granted" and "ext_session d \<noteq> None"
    and "nonce (ext_grant d) = n" and "deposit_millis (ext_grant d) = fst (quote port secs w)"
    and "max_cost_millis (grant_caps (ext_grant d)) = None"
    and "expires_at (grant_lease (ext_grant d)) = now + lease_ms"
  using assms
  by (auto simp: ExternalDriver_open_def Let_def case_prod_beta ext_ok_def DeliveryEngine_new_def
      BudgetGuard_new_def split: sum.splits)

text \<open>
  C14. A session with an external provider moves its deposit at most once and without loss, whatever
  the provider answers: over any sequence of ticks and stops after a successful opening the driver
  emits nothing until the session ends, and then one burn and one refund that add up to the
  quoted deposit.
\<close>

theorem external_settles_once:
  assumes "fst (ExternalDriver_open port n secs now lease_ms w) = Inr (d, out)"
  shows "if engine_phase (ext_engine (fst (final (ext_step port) (d, w') ops))) = Done
    then \<exists>burn change. outputs (ext_step port) (d, w') ops = [ExtSettle n burn, ExtRefund n change] \<and>
      unat burn + unat change = unat (fst (quote port secs w))
    else outputs (ext_step port) (d, w') ops = []"
  using external.settles_once [of "(d, w')" port ops] ext_open_ok [OF assms]
  by (auto simp: ext_settlement_def split: if_splits)

text \<open>
  The provider of the closed instances: its state is whether a session runs and the seconds polled;
  it charges 10 a second and quotes a window at that rate.
\<close>

definition sample_port :: "(bool \<times> u64) provider_port" where
  "sample_port =
     \<lparr> quote = (\<lambda>secs w. (10 * secs, w)),
       start = (\<lambda>n secs w. if fst w then (Inl Refused, w) else (Inr 1, (True, 0))),
       poll = (\<lambda>sid now w. (\<lparr> units_total = 0, seconds_total = snd w + 30,
                  cost_millis_total = 10 * (snd w + 30), observed_at = now \<rparr>, (fst w, snd w + 30))),
       stop = (\<lambda>sid w. (\<lparr> rc_cost_millis_total = 10 * snd w, rc_seconds_total = snd w \<rparr>, (False, snd w))) \<rparr>"

definition sample_ext :: external_driver where
  "sample_ext =
     (case fst (ExternalDriver_open sample_port 9 60 1000 50000 (False, 0)) of Inr (d, _) \<Rightarrow> d)"

lemma sample_ext_open:
  "fst (ExternalDriver_open sample_port 9 60 1000 50000 (False, 0)) = Inr (sample_ext, [])"
  by (simp add: sample_ext_def ExternalDriver_open_def sample_port_def Let_def)

theorem external_settles_once_witness:
  "\<exists>burn change. outputs (ext_step sample_port) (sample_ext, (True, 0)) [ExtTick 2000, ExtStop 3000] =
     [ExtSettle 9 burn, ExtRefund 9 change] \<and> unat burn + unat change = 600"
proof -
  let ?st = "fst (ext_step sample_port (sample_ext, (True, 0)) (ExtTick 2000))"
  have ok: "ext_ok (fst (sample_ext, (True, 0 :: u64)))"
    and ph: "engine_phase (ext_engine (fst (sample_ext, (True, 0 :: u64)))) \<noteq> Done"
    and lease: "expires_at (grant_lease (ext_grant sample_ext)) = 51000"
    using ext_open_ok [OF sample_ext_open] by simp_all
  have "ext_ok (fst ?st)" "engine_phase (ext_engine (fst ?st)) \<noteq> Done"
    using ext_tick_step(1,4) [OF ok ph, of sample_port 2000] lease by simp_all
  from ext_stop_step(3) [OF this]
  have "engine_phase (ext_engine (fst (final (ext_step sample_port) (sample_ext, (True, 0))
      [ExtTick 2000, ExtStop 3000]))) = Done"
    by (simp add: machine_simps del: run.simps(2))
  with external_settles_once [OF sample_ext_open, of "(True, 0)" "[ExtTick 2000, ExtStop 3000]"]
  show ?thesis by (simp add: sample_port_def del: run.simps)
qed


subsection \<open>Stopping at the provider\<close>

text \<open>
  The receipt is the settlement truth: stopping an open session whose provider session is known
  asks the provider once to stop and burns what its receipt says, cut to the deposit and the money
  cap, whatever was polled before.
\<close>

theorem external_receipt_settles:
  assumes "ext_ok d" and "engine_phase (ext_engine d) \<noteq> Done" and "ext_session d = Some sid"
    and "stop port sid w = (r, w')" and "g = ext_grant d"
  shows "\<exists>burn change. snd (ext_step port (d, w) (ExtStop now)) =
      [ExtSettle (nonce g) burn, ExtRefund (nonce g) change] \<and>
    unat burn = min (min (unat (rc_cost_millis_total r)) (unat (deposit_millis g)))
      (case max_cost_millis (grant_caps g) of None \<Rightarrow> 2 ^ 64 - 1 | Some m \<Rightarrow> unat m) \<and>
    snd (fst (ext_step port (d, w) (ExtStop now))) = w'"
proof -
  have "snd (fst (ext_step port (d, w) (ExtStop now))) = w'"
    using assms(2-4) by (simp add: ext_step_def ext_stop_def Let_def case_prod_beta)
  moreover have "unat (settle_amount g (rc_cost_millis_total r)) =
      min (min (unat (rc_cost_millis_total r)) (unat (deposit_millis g)))
      (case max_cost_millis (grant_caps g) of None \<Rightarrow> 2 ^ 64 - 1 | Some m \<Rightarrow> unat m)"
    by (simp add: settle_amount_def rust_num unat_minus_one_word_len split: option.split)
  ultimately show ?thesis
    using ext_stop_open(4) [OF assms(1,2) refl, where port = port and w = w and now = now] assms(3-5)
    by (simp add: ext_step_def ext_final_cost_def case_prod_beta)
qed

lemma sample_ext_session: "ext_session sample_ext = Some 1"
  by (simp add: sample_ext_def ExternalDriver_open_def sample_port_def Let_def)

theorem external_receipt_settles_witness:
  "\<exists>burn change. snd (ext_step sample_port (sample_ext, (True, 45)) (ExtStop 3000)) =
     [ExtSettle 9 burn, ExtRefund 9 change] \<and> unat burn = 450"
proof -
  have "stop sample_port 1 (True, 45) =
      (\<lparr> rc_cost_millis_total = 450, rc_seconds_total = 45 \<rparr>, (False, 45))"
    by (simp add: sample_port_def)
  from external_receipt_settles [OF ext_open_ok(1) [OF sample_ext_open] _ sample_ext_session this refl, of 3000]
    ext_open_ok [OF sample_ext_open]
  show ?thesis by (auto simp: sample_port_def)
qed

lemma ext_done_run:
  "engine_phase (ext_engine (fst st)) = Done \<Longrightarrow> run (ext_step port) st ops = (st, [])"
  by (induction ops) (simp_all add: ext_done_step)

lemma ext_ticks_run:
  assumes "ext_ok (fst st)" and "\<And>sid t w. running w \<Longrightarrow> running (snd (poll port sid t w))"
    and "running (snd st)"
  shows "running (snd (final (ext_step port) st (map ExtTick ts)))"
  using assms(1,3)
proof (induction ts arbitrary: st)
  case Nil
  then show ?case by simp
next
  case (Cons t ts)
  show ?case
  proof (cases "engine_phase (ext_engine (fst st)) = Done")
    case True
    then show ?thesis using Cons.prems by (simp add: ext_done_run del: run.simps)
  next
    case False
    note step = ext_tick_step [OF Cons.prems(1) False, of port t]
    have "running (snd (fst (ext_step port st (ExtTick t))))"
      unfolding step(3) using Cons.prems(2) assms(2) by (simp add: ext_polled_def split: option.split)
    from Cons.IH [OF step(1) this] show ?thesis by (simp add: machine_simps del: run.simps)
  qed
qed

text \<open>
  Ticks never stop the provider. The engine's order to stop delivery at a cap is dropped in
  translation, and a lapsed lease is settled without a word to the provider; from then on a stop
  is not forwarded either. So a provider session that polling leaves running is still running after
  any ticks, the last of them past the lease, and any operations after that, although the deposit
  has been settled.
\<close>

theorem lapsed_session_left_running:
  assumes "ext_ok d" and "\<And>sid t w. running w \<Longrightarrow> running (snd (poll port sid t w))" and "running w"
    and "expires_at (grant_lease (ext_grant d)) \<le> now"
    and "st = final (ext_step port) (d, w) (map ExtTick ts @ ExtTick now # ops)"
  shows "engine_phase (ext_engine (fst st)) = Done \<and> running (snd st)"
proof -
  let ?st = "final (ext_step port) (d, w) (map ExtTick (ts @ [now]))"
  have ok: "ext_ok (fst (final (ext_step port) (d, w) es)) \<and>
      ext_grant (fst (final (ext_step port) (d, w) es)) = ext_grant d" for es
    using assms(1)
    by (induction es rule: rev_induct) (simp_all add: machine_simps ext_ok_step)
  have "engine_phase (ext_engine (fst ?st)) = Done"
    using ok [of "map ExtTick ts"] assms(4)
      ext_tick_step(4) [of "final (ext_step port) (d, w) (map ExtTick ts)" port now]
      ext_done_step [of "final (ext_step port) (d, w) (map ExtTick ts)" port "ExtTick now"]
    by (cases "engine_phase (ext_engine (fst (final (ext_step port) (d, w) (map ExtTick ts)))) = Done")
      (simp_all add: machine_simps)
  moreover have "running (snd ?st)"
    using ext_ticks_run [of "(d, w)" running port "ts @ [now]"] assms(1-3) by (simp del: run.simps map_append)
  moreover have "st = final (ext_step port) ?st ops"
    by (simp add: assms(5) machine_simps del: run.simps(2))
  ultimately show ?thesis by (simp add: ext_done_run)
qed

theorem lapsed_session_left_running_witness:
  "fst (snd (final (ext_step sample_port) (sample_ext, (True, 0))
     (map ExtTick [2000, 3000, 4000] @ ExtTick 51000 # [ExtStop 52000])))"
  using lapsed_session_left_running [OF ext_open_ok(1) [OF sample_ext_open], where running = fst
      and port = sample_port and w = "(True, 0)" and now = 51000 and ts = "[2000, 3000, 4000]"
      and ops = "[ExtStop 52000]", OF _ _ _ refl] ext_open_ok [OF sample_ext_open]
  by (simp add: sample_port_def del: run.simps map_append list.map)

end
