(* ===== verification/Rust_Strings.thy ===== *)
theory Rust_Strings
  imports Prelude
begin

section \<open>Strings of the standard library\<close>

text \<open>
  A Rust string is the list of its bytes, each a \<open>char\<close>. This theory holds the operations of the
  standard library that the components use: UTF-8 validation, lines, trimming, splitting, decimal
  numbers. Whitespace is that of the ASCII range, the only one in the texts the program reads.
\<close>

definition char_nat :: "char \<Rightarrow> nat" where
  "char_nat c = of_char c"

definition is_whitespace :: "char \<Rightarrow> bool" where
  "is_whitespace c \<longleftrightarrow> (9 \<le> char_nat c \<and> char_nat c \<le> 13) \<or> char_nat c = 32"

definition newline :: char where
  "newline = CHR 0x0A"

definition carriage_return :: char where
  "carriage_return = CHR 0x0D"

definition trim_start :: "string \<Rightarrow> string" where
  "trim_start s = dropWhile is_whitespace s"

definition trim_end_matches :: "char \<Rightarrow> string \<Rightarrow> string" where
  "trim_end_matches c s = rev (dropWhile (\<lambda>x. x = c) (rev s))"

definition trim :: "string \<Rightarrow> string" where
  "trim s = rev (dropWhile is_whitespace (rev (trim_start s)))"

definition strip_cr :: "string \<Rightarrow> string" where
  "strip_cr l = (if l \<noteq> [] \<and> last l = carriage_return then butlast l else l)"

function rust_lines :: "string \<Rightarrow> string list" where
  "rust_lines s =
     (if s = [] then []
      else let l = takeWhile (\<lambda>c. c \<noteq> newline) s; r = dropWhile (\<lambda>c. c \<noteq> newline) s
           in if r = [] then [l] else strip_cr l # rust_lines (tl r))"
  by pat_completeness auto
termination
proof (relation "measure length")
  fix s :: string and l r
  assume "s \<noteq> []" "r = dropWhile (\<lambda>c. c \<noteq> newline) s" "r \<noteq> []"
  then show "(tl r, s) \<in> measure length"
    using length_dropWhile_le [of "\<lambda>c. c \<noteq> newline" s] by (cases s) auto
qed auto

declare rust_lines.simps [simp del]

fun show_nat :: "nat \<Rightarrow> string" where
  "show_nat n = (if n < 10 then [char_of (48 + n)] else show_nat (n div 10) @ [char_of (48 + n mod 10)])"

declare show_nat.simps [simp del]

definition to_ascii_lowercase :: "string \<Rightarrow> string" where
  "to_ascii_lowercase s =
     map (\<lambda>c. if 65 \<le> char_nat c \<and> char_nat c \<le> 90 then char_of (char_nat c + 32) else c) s"


subsection \<open>UTF-8\<close>

definition byte_in :: "nat \<Rightarrow> nat \<Rightarrow> u8 \<Rightarrow> bool" where
  "byte_in lo hi b \<longleftrightarrow> lo \<le> unat b \<and> unat b \<le> hi"

definition tail_byte :: "u8 \<Rightarrow> bool" where
  "tail_byte b = byte_in 0x80 0xBF b"

text \<open>The well-formed sequences: no overlong forms, no surrogates, nothing above U+10FFFF.\<close>

fun valid_utf8 :: "bytes \<Rightarrow> bool" where
  "valid_utf8 [] = True"
| "valid_utf8 (a # bs) =
     (if byte_in 0 0x7F a then valid_utf8 bs
      else case bs of
        [] \<Rightarrow> False
      | b # cs \<Rightarrow>
          if byte_in 0xC2 0xDF a then tail_byte b \<and> valid_utf8 cs
          else case cs of
            [] \<Rightarrow> False
          | c # ds \<Rightarrow>
              if byte_in 0xE0 0xEF a then
                tail_byte b \<and> tail_byte c \<and> (unat a = 0xE0 \<longrightarrow> 0xA0 \<le> unat b) \<and>
                (unat a = 0xED \<longrightarrow> unat b \<le> 0x9F) \<and> valid_utf8 ds
              else case ds of
                [] \<Rightarrow> False
              | d # es \<Rightarrow>
                  byte_in 0xF0 0xF4 a \<and> tail_byte b \<and> tail_byte c \<and> tail_byte d \<and>
                  (unat a = 0xF0 \<longrightarrow> 0x90 \<le> unat b) \<and> (unat a = 0xF4 \<longrightarrow> unat b \<le> 0x8F) \<and>
                  valid_utf8 es)"

definition from_utf8 :: "bytes \<Rightarrow> string option" where
  "from_utf8 bs = (if valid_utf8 bs then Some (map (\<lambda>b. char_of (unat b)) bs) else None)"


subsection \<open>Lines written and read back\<close>

lemma takeWhile_all: "(\<And>x. x \<in> set xs \<Longrightarrow> P x) \<Longrightarrow> takeWhile P (xs @ ys) = xs @ takeWhile P ys"
  by (induction xs) auto

lemma dropWhile_all: "(\<And>x. x \<in> set xs \<Longrightarrow> P x) \<Longrightarrow> dropWhile P (xs @ ys) = dropWhile P ys"
  by (induction xs) auto

lemma rust_lines_write:
  assumes "newline \<notin> set l"
  shows "rust_lines (l @ newline # s) = strip_cr l # rust_lines s"
proof -
  have "takeWhile (\<lambda>c. c \<noteq> newline) (l @ newline # s) = l"
    "dropWhile (\<lambda>c. c \<noteq> newline) (l @ newline # s) = newline # s"
    using assms by (subst takeWhile_all dropWhile_all; auto)+
  then show ?thesis by (subst rust_lines.simps) (simp add: Let_def)
qed

text \<open>A word: a non-empty string with no whitespace in it.\<close>

definition is_word :: "string \<Rightarrow> bool" where
  "is_word w \<longleftrightarrow> w \<noteq> [] \<and> list_all (\<lambda>c. \<not> is_whitespace c) w"

lemma whitespace_newline: "is_whitespace newline" "is_whitespace carriage_return"
  by (simp_all add: is_whitespace_def newline_def carriage_return_def char_nat_def)

lemma word_newline: "is_word w \<Longrightarrow> newline \<notin> set w"
  using whitespace_newline by (auto simp: is_word_def list_all_iff)

lemma word_strip_cr: "is_word w \<Longrightarrow> strip_cr w = w"
  using whitespace_newline last_in_set [of w] by (metis is_word_def list_all_iff strip_cr_def)

lemma word_trim:
  assumes "is_word w"
  shows "trim w = w"
proof -
  have none: "dropWhile is_whitespace v = v" if "v \<noteq> []" "set v = set w" for v
    using assms that by (cases v) (auto simp: is_word_def list_all_iff)
  show ?thesis using assms by (simp add: trim_def trim_start_def none is_word_def)
qed

lemma rust_lines_words:
  "list_all is_word ws \<Longrightarrow> rust_lines (concat (map (\<lambda>w. w @ [newline]) ws) @ s) = ws @ rust_lines s"
  by (induction ws) (simp_all add: rust_lines_write word_newline word_strip_cr)


subsection \<open>Decimal numbers\<close>

text \<open>\<^verbatim>\<open>to_string\<close> and \<^verbatim>\<open>str::parse\<close> of the 64-bit integers: one leading sign, digits, no overflow.\<close>

definition digit_value :: "char \<Rightarrow> nat option" where
  "digit_value c = (if 48 \<le> char_nat c \<and> char_nat c \<le> 57 then Some (char_nat c - 48) else None)"

fun decimal_value :: "nat \<Rightarrow> string \<Rightarrow> nat option" where
  "decimal_value acc [] = Some acc"
| "decimal_value acc (c # s) =
     (case digit_value c of None \<Rightarrow> None | Some d \<Rightarrow> decimal_value (acc * 10 + d) s)"

definition parse_nat :: "string \<Rightarrow> nat option" where
  "parse_nat s = (if s = [] then None else decimal_value 0 s)"

definition parse_u64 :: "string \<Rightarrow> u64 option" where
  "parse_u64 s =
     (case parse_nat (case s of c # r \<Rightarrow> if c = CHR ''+'' then r else s | [] \<Rightarrow> []) of
        None \<Rightarrow> None
      | Some n \<Rightarrow> if n < 2 ^ 64 then Some (of_nat n) else None)"

definition show_u64 :: "u64 \<Rightarrow> string" where
  "show_u64 w = show_nat (unat w)"

lemma decimal_value_snoc:
  "decimal_value acc (s @ [c]) =
     (case decimal_value acc s of None \<Rightarrow> None
      | Some n \<Rightarrow> map_option (\<lambda>d. n * 10 + d) (digit_value c))"
  by (induction s arbitrary: acc) (auto split: option.split)

lemma digit_value_digit: "d < 10 \<Longrightarrow> digit_value (char_of (48 + d)) = Some d"
  by (simp add: digit_value_def char_nat_def)

lemma decimal_show: "decimal_value 0 (show_nat n) = Some n"
proof (induction n rule: show_nat.induct)
  case (1 n)
  show ?case
  proof (cases "n < 10")
    case True
    then show ?thesis by (subst show_nat.simps) (simp add: digit_value_digit)
  next
    case False
    then have "decimal_value 0 (show_nat n) = Some (n div 10 * 10 + n mod 10)"
      using 1 by (subst show_nat.simps) (simp add: decimal_value_snoc digit_value_digit)
    then show ?thesis by simp
  qed
qed

lemma show_nat_nonempty [simp]: "show_nat n \<noteq> []"
  by (subst show_nat.simps) simp

lemma parse_show_u64 [simp]: "parse_u64 (show_u64 w) = Some w"
proof -
  have plus: "digit_value (CHR ''+'') = None" by (simp add: digit_value_def char_nat_def)
  obtain c r where s: "show_nat (unat w) = c # r" by (cases "show_nat (unat w)") auto
  with decimal_show [of "unat w"] plus have "c \<noteq> CHR ''+''" by auto
  then have "parse_u64 (show_u64 w) = (if unat w < 2 ^ 64 then Some (of_nat (unat w)) else None)"
    using decimal_show [of "unat w"] unfolding parse_u64_def show_u64_def s
    by (simp add: parse_nat_def del: decimal_value.simps)
  then show ?thesis using unat_bound [of w] by simp
qed

definition parse_u32 :: "string \<Rightarrow> u32 option" where
  "parse_u32 s =
     (case parse_nat (case s of c # r \<Rightarrow> if c = CHR ''+'' then r else s | [] \<Rightarrow> []) of
        None \<Rightarrow> None
      | Some n \<Rightarrow> if n < 2 ^ 32 then Some (of_nat n) else None)"

definition parse_i64 :: "string \<Rightarrow> i64 option" where
  "parse_i64 s =
     (if s \<noteq> [] \<and> hd s = CHR ''-''
      then (case parse_nat (tl s) of
              None \<Rightarrow> None
            | Some n \<Rightarrow> if n \<le> 2 ^ 63 then Some (- of_nat n) else None)
      else (case parse_nat (case s of c # r \<Rightarrow> if c = CHR ''+'' then r else s | [] \<Rightarrow> []) of
              None \<Rightarrow> None
            | Some n \<Rightarrow> if n < 2 ^ 63 then Some (of_nat n) else None))"

definition show_i64 :: "i64 \<Rightarrow> string" where
  "show_i64 w =
     (if sint w < 0 then CHR ''-'' # show_nat (nat (- sint w)) else show_nat (nat (sint w)))"

lemma show_nat_digit:
  obtains c r where "show_nat n = c # r" "digit_value c \<noteq> None"
proof -
  obtain c r where s: "show_nat n = c # r" by (cases "show_nat n") auto
  moreover from decimal_show [of n] s have "digit_value c \<noteq> None" by (auto split: option.splits)
  ultimately show thesis by (rule that)
qed

lemma digit_value_sign: "digit_value (CHR ''+'') = None" "digit_value (CHR ''-'') = None"
  by (simp_all add: digit_value_def char_nat_def)

lemma sint_range: "- (2 ^ 63) \<le> sint (w :: i64)" "sint (w :: i64) < 2 ^ 63"
  using sint_ge [of w] sint_lt [of w] by simp_all

lemma parse_show_i64 [simp]: "parse_i64 (show_i64 w) = Some w"
proof (cases "sint w < 0")
  case True
  then have "nat (- sint w) \<le> 2 ^ 63" using sint_range(1) [of w] by (simp add: nat_le_iff)
  moreover have "- of_nat (nat (- sint w)) = w" using True by (simp add: word_of_int_minus flip: of_int_minus)
  ultimately show ?thesis using True
    by (simp add: parse_i64_def show_i64_def parse_nat_def decimal_show)
next
  case False
  obtain c r where s: "show_nat (nat (sint w)) = c # r" and d: "digit_value c \<noteq> None"
    by (rule show_nat_digit)
  then have c: "c \<noteq> CHR ''-''" "c \<noteq> CHR ''+''" using digit_value_sign by auto
  have "parse_i64 (show_i64 w) =
      (if nat (sint w) < 2 ^ 63 then Some (of_nat (nat (sint w))) else None)"
    using False c decimal_show [of "nat (sint w)"] unfolding parse_i64_def show_i64_def
    by (simp add: s parse_nat_def del: decimal_value.simps)
  moreover have "nat (sint w) < 2 ^ 63" using sint_range(2) [of w] False by (simp add: nat_less_iff)
  moreover have "(of_nat (nat (sint w)) :: i64) = w" using False by simp
  ultimately show ?thesis by simp
qed

end
