(* ===== verification/Wallet.thy ===== *)
theory Wallet
  imports Rust_Strings
begin

section \<open>The bootstrap wallet\<close>

text \<open>
  \<^verbatim>\<open>crates/tollgate-net/src/wallet.rs\<close>: accepting a Cashu token for a top-up. The libraries it
  calls are parameters: the token format and URL parser (\<open>cashu_api\<close>) and, per call, what the mint
  and the file system answer (\<open>mint_answers\<close>). \<open>verify\<close> is the method run without interruption. It suspends at its
  requests to the mint, so it is the composition of \<open>verify_start\<close>, which ends with the check of
  the local spent set, and \<open>verify_finish\<close>, which begins with the answer of the mint and ends with
  recording the proofs; two concurrent calls may interleave these.
\<close>

subsection \<open>The libraries\<close>

record parsed_url =
  url_scheme :: string
  url_host :: "string option"
  url_port :: "u16 option"
  url_path :: string

record 'tok cashu_api =
  parse_token :: "string \<Rightarrow> 'tok option"
  token_entries :: "'tok \<Rightarrow> string list list"
  token_mint_url :: "'tok \<Rightarrow> string option"
  token_value :: "'tok \<Rightarrow> u64 option"
  url_parse :: "string \<Rightarrow> parsed_url option"

text \<open>
  The answers of one call: the states array of the check-state endpoint (\<open>None\<close> for any transport or
  format error, an element \<open>None\<close> for one without a state string), and whether the repository has a
  wallet for the mint and what its \<^verbatim>\<open>receive\<close> returns. When the call appends to the spent file, the file
  system answers too: whether the file can be opened, and for each line whether it is written whole
  (\<open>None\<close>) or fails after some bytes.
\<close>

record mint_answers =
  checkstate :: "string \<Rightarrow> string list \<Rightarrow> string option list option"
  has_wallet :: "string \<Rightarrow> bool"
  receive :: "string \<Rightarrow> string \<Rightarrow> u64 option"
  file_opens :: bool
  line_cut :: "nat \<Rightarrow> nat option"

datatype WalletError =
    InvalidToken | NoProofs | SpentLocally string | NoMintUrl | NoWallet string | RejectedByMint
  | MintNotAccepted string | NoValue | CheckStateFailed | ProofSpent string

record bootstrap_wallet =
  accepted_mints :: "string list"
  wallet_repo :: bool
  spent_yvalues :: "string set"
  spent_file :: "string option option"


subsection \<open>The wallet\<close>

definition normalize_mint_url :: "'tok cashu_api \<Rightarrow> string \<Rightarrow> string" where
  "normalize_mint_url api url =
     (let normalized = trim_end_matches (CHR ''/'') url
      in case url_parse api normalized of
           None \<Rightarrow> normalized
         | Some parsed \<Rightarrow>
             (let scheme = url_scheme parsed;
                  host = to_ascii_lowercase (case url_host parsed of None \<Rightarrow> [] | Some h \<Rightarrow> h);
                  path = trim_end_matches (CHR ''/'') (url_path parsed)
              in case url_port parsed of
                   Some p \<Rightarrow>
                     if scheme = ''https'' \<and> p = 443 \<or> scheme = ''http'' \<and> p = 80
                     then scheme @ ''://'' @ host @ path
                     else scheme @ ''://'' @ host @ '':'' @ show_nat (unat p) @ path
                 | None \<Rightarrow> scheme @ ''://'' @ host @ path))"

text \<open>
  The spent file: \<open>None\<close> when no path is configured, \<open>Some None\<close> when the file is not there. A wallet is
  opened on what is on the disk and on whether it can be read; a file that cannot be read is taken
  for empty.
\<close>

definition load_spent_file :: "string option \<Rightarrow> string set" where
  "load_spent_file contents =
     (case contents of
        None \<Rightarrow> {}
      | Some s \<Rightarrow> set (filter (\<lambda>l. l \<noteq> []) (map trim (rust_lines s))))"

type_synonym spent_disk = "string option \<times> bool"

definition with_spent_file :: "string list \<Rightarrow> spent_disk option \<Rightarrow> bootstrap_wallet" where
  "with_spent_file mint_urls file =
     \<lparr> accepted_mints = mint_urls, wallet_repo = False,
       spent_yvalues =
         (case file of
            None \<Rightarrow> {}
          | Some (contents, readable) \<Rightarrow> load_spent_file (if readable then contents else None)),
       spent_file = map_option fst file \<rparr>"

definition BootstrapWallet_new :: "string list \<Rightarrow> bootstrap_wallet" where
  "BootstrapWallet_new mint_urls = with_spent_file mint_urls None"

definition with_wallet_repo :: "bootstrap_wallet \<Rightarrow> bootstrap_wallet" where
  "with_wallet_repo w = w\<lparr> wallet_repo := True \<rparr>"

text \<open>
  Appending to the spent file: when it cannot be opened nothing is written, and the error of a line is
  ignored, so the next line goes on where the last one was cut.
\<close>

definition persist_yvalues :: "mint_answers \<Rightarrow> bootstrap_wallet \<Rightarrow> string list \<Rightarrow> bootstrap_wallet" where
  "persist_yvalues ans w ys =
     (case spent_file w of
        None \<Rightarrow> w
      | Some contents \<Rightarrow>
          if file_opens ans
          then w\<lparr> spent_file := Some (Some ((case contents of None \<Rightarrow> [] | Some s \<Rightarrow> s) @
                 concat (map (\<lambda>(i, y). let line = y @ [newline]
                                        in case line_cut ans i of None \<Rightarrow> line | Some k \<Rightarrow> take k line)
                           (enumerate 0 ys)))) \<rparr>
          else w)"

definition token_proof_ys :: "'tok cashu_api \<Rightarrow> 'tok \<Rightarrow> string list" where
  "token_proof_ys api tok = concat (token_entries api tok)"

definition record_spent :: "mint_answers \<Rightarrow> bootstrap_wallet \<Rightarrow> string list \<Rightarrow> bootstrap_wallet" where
  "record_spent ans w ys = persist_yvalues ans (w\<lparr> spent_yvalues := spent_yvalues w \<union> set ys \<rparr>) ys"

fun check_states :: "string option list \<Rightarrow> WalletError + unit" where
  "check_states [] = Inr ()"
| "check_states (st # sts) =
     (let s = (case st of None \<Rightarrow> [] | Some s \<Rightarrow> s)
      in if s \<noteq> ''UNSPENT'' then Inl (ProofSpent s) else check_states sts)"

definition check_proofs_unspent :: "mint_answers \<Rightarrow> string \<Rightarrow> string list \<Rightarrow> WalletError + unit" where
  "check_proofs_unspent mint base ys =
     (case checkstate mint (base @ ''/v1/checkstate'') ys of
        None \<Rightarrow> Inl CheckStateFailed
      | Some states \<Rightarrow> check_states states)"

definition verify_start ::
    "'tok cashu_api \<Rightarrow> bootstrap_wallet \<Rightarrow> string \<Rightarrow> WalletError + 'tok \<times> string list" where
  "verify_start api w token_str =
     (case parse_token api token_str of
        None \<Rightarrow> Inl InvalidToken
      | Some tok \<Rightarrow>
          (let ys = token_proof_ys api tok
           in if ys = [] then Inl NoProofs
              else case find (\<lambda>y. y \<in> spent_yvalues w) ys of
                     Some y \<Rightarrow> Inl (SpentLocally y)
                   | None \<Rightarrow> Inr (tok, ys)))"

definition verify_finish ::
    "'tok cashu_api \<Rightarrow> mint_answers \<Rightarrow> bootstrap_wallet \<Rightarrow> string \<Rightarrow> 'tok \<Rightarrow> string list \<Rightarrow>
     (WalletError + u64) \<times> bootstrap_wallet" where
  "verify_finish api mint w token_str tok ys =
     (case token_mint_url api tok of
        None \<Rightarrow> (Inl NoMintUrl, w)
      | Some mint_url \<Rightarrow>
          if wallet_repo w then
            (if \<not> has_wallet mint mint_url then (Inl (NoWallet mint_url), w)
             else case receive mint mint_url token_str of
                    Some amount \<Rightarrow> (Inr (amount * 1000), record_spent mint w ys)
                  | None \<Rightarrow> (Inl RejectedByMint, w))
          else
            (let normalized = normalize_mint_url api mint_url
             in if accepted_mints w \<noteq> [] \<and>
                   \<not> list_ex (\<lambda>m. normalize_mint_url api m = normalized) (accepted_mints w)
                then (Inl (MintNotAccepted mint_url), w)
                else case token_value api tok of
                       None \<Rightarrow> (Inl NoValue, w)
                     | Some amount \<Rightarrow>
                         (case check_proofs_unspent mint normalized ys of
                            Inl e \<Rightarrow> (Inl e, w)
                          | Inr _ \<Rightarrow> (Inr (amount * 1000), record_spent mint w ys))))"

definition verify ::
    "'tok cashu_api \<Rightarrow> mint_answers \<Rightarrow> bootstrap_wallet \<Rightarrow> string \<Rightarrow> (WalletError + u64) \<times> bootstrap_wallet" where
  "verify api mint w token_str =
     (case verify_start api w token_str of
        Inl e \<Rightarrow> (Inl e, w)
      | Inr (tok, ys) \<Rightarrow> verify_finish api mint w token_str tok ys)"


subsection \<open>Double spending\<close>

lemma record_spent_sel [simp]:
  "spent_yvalues (record_spent mint w ys) = spent_yvalues w \<union> set ys"
  "accepted_mints (record_spent mint w ys) = accepted_mints w" "wallet_repo (record_spent mint w ys) = wallet_repo w"
  by (simp_all add: record_spent_def persist_yvalues_def split: option.split)

lemma verify_finish_cases:
  "(\<exists>e. verify_finish api mint w s tok ys = (Inl e, w)) \<or>
   (\<exists>a. verify_finish api mint w s tok ys = (Inr a, record_spent mint w ys))"
  by (simp add: verify_finish_def Let_def split: option.split sum.split)

text \<open>The proofs a token string carries.\<close>

definition proofs_of :: "'tok cashu_api \<Rightarrow> string \<Rightarrow> string list" where
  "proofs_of api s = (case parse_token api s of None \<Rightarrow> [] | Some tok \<Rightarrow> token_proof_ys api tok)"

lemma verify_start_ok:
  "verify_start api w s = Inr (tok, ys) \<longleftrightarrow>
     parse_token api s = Some tok \<and> ys = token_proof_ys api tok \<and> ys \<noteq> [] \<and> set ys \<inter> spent_yvalues w = {}"
  by (auto simp: verify_start_def Let_def find_None_iff find_Some_iff dest: nth_mem split: option.splits)

lemma verify_cases:
  "(\<exists>e. verify api mint w s = (Inl e, w)) \<or>
   (\<exists>a. verify api mint w s = (Inr a, record_spent mint w (proofs_of api s)) \<and> proofs_of api s \<noteq> [] \<and>
      set (proofs_of api s) \<inter> spent_yvalues w = {})"
proof (cases "verify_start api w s")
  case (Inl e)
  then show ?thesis by (simp add: verify_def)
next
  case (Inr r)
  obtain tok ys where r: "r = (tok, ys)" by (cases r)
  with Inr have "proofs_of api s = ys" "ys \<noteq> []" "set ys \<inter> spent_yvalues w = {}"
    by (auto simp: verify_start_ok proofs_of_def)
  with verify_finish_cases [of api mint w s tok ys] show ?thesis by (auto simp: verify_def Inr r)
qed

text \<open>
  A sequence of calls, one after the other, as a machine: a call is a token string with the
  answers the mint gives during it, and the output is the string and the result.
\<close>

definition wallet_step ::
    "'tok cashu_api \<Rightarrow> bootstrap_wallet \<Rightarrow> string \<times> mint_answers \<Rightarrow>
     bootstrap_wallet \<times> (string \<times> (WalletError + u64)) list" where
  "wallet_step api w call =
     (let (r, w') = verify api (snd call) w (fst call) in (w', [(fst call, r)]))"

definition accepts_proof :: "'tok cashu_api \<Rightarrow> string \<Rightarrow> string \<times> (WalletError + u64) \<Rightarrow> bool" where
  "accepts_proof api y out \<longleftrightarrow> y \<in> set (proofs_of api (fst out)) \<and> (\<exists>a. snd out = Inr a)"

lemma wallet_step_accepts:
  "if y \<in> spent_yvalues w
   then y \<in> spent_yvalues (fst (wallet_step api w call)) \<and>
     filter (accepts_proof api y) (snd (wallet_step api w call)) = []
   else length (filter (accepts_proof api y) (snd (wallet_step api w call))) =
     (if y \<in> spent_yvalues (fst (wallet_step api w call)) then 1 else 0)"
  using verify_cases [of api "snd call" w "fst call"]
  by (auto simp: wallet_step_def accepts_proof_def)

interpretation wallet: settling_machine "wallet_step api" "\<lambda>_. True" "\<lambda>w. y \<in> spent_yvalues w"
  "accepts_proof api y" "\<lambda>_ out. length out = 1" for api y
proof (unfold_locales, goal_cases)
  case (2 w call)
  then show ?case using wallet_step_accepts [of y w api call] by simp
next
  case (3 w call)
  then show ?case using wallet_step_accepts [of y w api call] by (auto split: if_splits)
qed auto

text \<open>
  C7. No proof pays twice: over any sequence of verifications, whatever the tokens and whatever the
  mints answer, at most one accepted token contains a given proof, and none does if the proof is
  in the spent set to begin with.
\<close>

theorem no_double_spend:
  "length (filter (accepts_proof api y) (outputs (wallet_step api) w calls))
     \<le> (if y \<in> spent_yvalues w then 0 else 1)"
  using wallet.closed_run [of y w api calls] wallet.settles_once [of y w api calls] by (auto split: if_splits)

text \<open>
  C37. Two verifications of one token that interleave. Between the check of the local spent set and the
  entry into it the method waits for the mint. Without a wallet repository the mint is only asked for the state of
  the proofs and keeps no record of the question: once both calls are past their first check, both are credited the
  token's value. With a repository the token is redeemed instead, and the second call is refused as soon as
  the mint refuses to swap the proofs again. In both cases a call that starts later is refused by the local set.
\<close>

theorem interleaved_double_spend:
  assumes "verify_start api w s = Inr (tok, ys)"
    and "verify_finish api mint w s tok ys = (Inr amount, w1)"
  shows "(\<not> wallet_repo w \<longrightarrow> (\<exists>w2. verify_finish api mint w1 s tok ys = (Inr amount, w2))) \<and>
    (wallet_repo w \<longrightarrow> (\<forall>url mint'. token_mint_url api tok = Some url \<longrightarrow> has_wallet mint' url \<longrightarrow>
       receive mint' url s = None \<longrightarrow> verify_finish api mint' w1 s tok ys = (Inl RejectedByMint, w1))) \<and>
    (\<forall>mint'. \<exists>y. verify api mint' w1 s = (Inl (SpentLocally y), w1))"
proof (intro conjI impI allI)
  have w1: "w1 = record_spent mint w ys"
    using verify_finish_cases [of api mint w s tok ys] assms(2) by auto
  show "\<exists>w2. verify_finish api mint w1 s tok ys = (Inr amount, w2)" if "\<not> wallet_repo w"
    using assms(2) that
    by (auto simp: verify_finish_def Let_def w1 split: option.splits sum.splits if_splits)
  show "verify_finish api mint' w1 s tok ys = (Inl RejectedByMint, w1)"
    if "wallet_repo w" "token_mint_url api tok = Some url" "has_wallet mint' url" "receive mint' url s = None" for url mint'
    using that by (simp add: verify_finish_def w1)
  have ys: "parse_token api s = Some tok" "ys = token_proof_ys api tok" "ys \<noteq> []"
    using assms(1) by (auto simp: verify_start_ok)
  then obtain y where "find (\<lambda>y. y \<in> spent_yvalues w1) ys = Some y"
    using find_None_iff [of "\<lambda>y. y \<in> spent_yvalues w1" ys]
    by (cases "find (\<lambda>y. y \<in> spent_yvalues w1) ys") (auto simp: w1 intro: hd_in_set)
  with ys show "\<exists>y. verify api mint' w1 s = (Inl (SpentLocally y), w1)" for mint'
    by (auto simp: verify_def verify_start_def Let_def)
qed

text \<open>The closed instances: a token is its list of proofs, worth 5, from one mint that finds all unspent.\<close>

definition sample_api :: "string list cashu_api" where
  "sample_api =
     \<lparr> parse_token = (\<lambda>s. if s = [] then None else Some [s]), token_entries = (\<lambda>tok. [tok]),
       token_mint_url = (\<lambda>_. Some ''https://m''), token_value = (\<lambda>_. Some 5), url_parse = (\<lambda>_. None) \<rparr>"

definition sample_mint :: mint_answers where
  "sample_mint =
     \<lparr> checkstate = (\<lambda>_ ys. Some (map (\<lambda>_. Some ''UNSPENT'') ys)), has_wallet = (\<lambda>_. False),
       receive = (\<lambda>_ _. None), file_opens = True, line_cut = (\<lambda>_. None) \<rparr>"

theorem interleaved_double_spend_witness:
  "(\<exists>w1 w2. verify_finish sample_api sample_mint (BootstrapWallet_new []) ''a'' [''a''] [''a''] = (Inr 5000, w1) \<and>
     verify_finish sample_api sample_mint w1 ''a'' [''a''] [''a''] = (Inr 5000, w2)) \<and>
   (\<exists>w1. verify_finish sample_api (sample_mint\<lparr> has_wallet := (\<lambda>_. True), receive := (\<lambda>_ _. Some 5) \<rparr>)
       (with_wallet_repo (BootstrapWallet_new [])) ''a'' [''a''] [''a''] = (Inr 5000, w1) \<and>
     verify_finish sample_api (sample_mint\<lparr> has_wallet := (\<lambda>_. True) \<rparr>) w1 ''a'' [''a''] [''a''] = (Inl RejectedByMint, w1))"
proof (rule conjI, goal_cases)
  case 1
  let ?w = "BootstrapWallet_new []"
  have "verify_start sample_api ?w ''a'' = Inr ([''a''], [''a''])"
    "verify_finish sample_api sample_mint ?w ''a'' [''a''] [''a''] = (Inr 5000, record_spent sample_mint ?w [''a''])"
    by (simp_all add: verify_start_def verify_finish_def sample_api_def sample_mint_def BootstrapWallet_new_def
        with_spent_file_def token_proof_ys_def check_proofs_unspent_def Let_def)
  moreover have "\<not> wallet_repo ?w" by (simp add: BootstrapWallet_new_def with_spent_file_def)
  ultimately show ?case using interleaved_double_spend [of sample_api ?w "''a''"] by blast
next
  case 2
  let ?w = "with_wallet_repo (BootstrapWallet_new [])"
    and ?mint = "sample_mint\<lparr> has_wallet := (\<lambda>_. True), receive := (\<lambda>_ _. Some 5) \<rparr>"
  have "verify_start sample_api ?w ''a'' = Inr ([''a''], [''a''])"
    "verify_finish sample_api ?mint ?w ''a'' [''a''] [''a''] = (Inr 5000, record_spent ?mint ?w [''a''])"
    "wallet_repo ?w" "token_mint_url sample_api [''a''] = Some ''https://m''"
    by (simp_all add: verify_start_def verify_finish_def sample_api_def sample_mint_def BootstrapWallet_new_def
        with_wallet_repo_def with_spent_file_def token_proof_ys_def Let_def)
  then show ?case using interleaved_double_spend [of sample_api ?w "''a''"] by (auto simp: sample_mint_def)
qed


text \<open>
  What an accepted token guarantees, without a wallet repository: it parses and has proofs, none
  of them spent here before; its mint is on the list, up to the spelling of the address, unless
  the list is empty; the mint answered, and called no proof anything but unspent; and the credit is
  a thousand times the token's value, in 64-bit arithmetic.
\<close>

theorem verify_accepts:
  assumes "verify api mint w s = (Inr credit, w')" and "\<not> wallet_repo w"
  shows "\<exists>tok url amount states. parse_token api s = Some tok \<and> token_mint_url api tok = Some url \<and>
    token_value api tok = Some amount \<and> credit = amount * 1000 \<and>
    token_proof_ys api tok \<noteq> [] \<and> set (token_proof_ys api tok) \<inter> spent_yvalues w = {} \<and>
    (accepted_mints w = [] \<or>
      (\<exists>m \<in> set (accepted_mints w). normalize_mint_url api m = normalize_mint_url api url)) \<and>
    checkstate mint (normalize_mint_url api url @ ''/v1/checkstate'') (token_proof_ys api tok) = Some states \<and>
    set states \<subseteq> {Some ''UNSPENT''} \<and> w' = record_spent mint w (token_proof_ys api tok)"
proof -
  have states: "check_states sts = Inr u \<Longrightarrow> set sts \<subseteq> {Some ''UNSPENT''}" for sts u
    by (induction sts) (auto simp: Let_def split: if_splits option.splits)
  obtain tok where tok: "verify_start api w s = Inr (tok, token_proof_ys api tok)"
    and fin: "verify_finish api mint w s tok (token_proof_ys api tok) = (Inr credit, w')"
    using assms(1) by (auto simp: verify_def verify_start_ok split: sum.splits)
  then show ?thesis
    using assms(2) states
    by (auto simp: verify_start_ok verify_finish_def check_proofs_unspent_def Let_def list_ex_iff
        split: option.splits sum.splits if_splits)
qed

theorem verify_accepts_witness:
  "\<exists>tok. parse_token sample_api ''a'' = Some tok \<and> (5000 :: u64) = 5 * 1000 \<and>
     token_proof_ys sample_api tok \<noteq> []"
proof -
  have "verify sample_api sample_mint (BootstrapWallet_new []) ''a'' =
      (Inr 5000, record_spent sample_mint (BootstrapWallet_new []) [''a''])" "\<not> wallet_repo (BootstrapWallet_new [])"
    by (simp_all add: verify_def verify_start_def verify_finish_def sample_api_def sample_mint_def
        BootstrapWallet_new_def with_spent_file_def token_proof_ys_def check_proofs_unspent_def Let_def)
  from verify_accepts [OF this] show ?thesis by auto
qed


subsection \<open>The spent file\<close>

text \<open>A spent file with a proof to a line, or one that is not there yet.\<close>

definition spent_lines :: "string list \<Rightarrow> string" where
  "spent_lines ys = concat (map (\<lambda>y. y @ [newline]) ys)"

definition lists_proofs :: "string list \<Rightarrow> string option \<Rightarrow> bool" where
  "lists_proofs ws disk \<longleftrightarrow> disk = Some (spent_lines ws) \<or> ws = [] \<and> disk = None"

text \<open>An append that, if the file is opened at all, writes every line whole.\<close>

definition whole_lines :: "mint_answers \<Rightarrow> bool" where
  "whole_lines ans \<longleftrightarrow> (\<forall>i. line_cut ans i = None)"

lemma load_words: "list_all is_word ws \<Longrightarrow> lists_proofs ws disk \<Longrightarrow> load_spent_file disk = set ws"
  using rust_lines_words [of ws "[]"]
  by (auto simp: lists_proofs_def load_spent_file_def spent_lines_def rust_lines.simps [of "[]"] list_all_iff word_trim is_word_def)

lemma persist_whole:
  assumes "whole_lines ans" and "spent_file w = Some disk" and "lists_proofs ws disk"
  shows "\<exists>disk'. spent_file (record_spent ans w ys) = Some disk' \<and>
    lists_proofs (ws @ (if file_opens ans then ys else [])) disk'"
proof -
  have "map (\<lambda>(i, y). y @ [newline]) (enumerate n ys) = map (\<lambda>y. y @ [newline]) ys" for n
    by (induction ys arbitrary: n) simp_all
  then show ?thesis using assms
    by (auto simp: record_spent_def persist_yvalues_def whole_lines_def lists_proofs_def spent_lines_def)
qed

text \<open>The proofs that a sequence of calls accepted and could write to the file.\<close>

definition saved_proofs :: "'tok cashu_api \<Rightarrow> bootstrap_wallet \<Rightarrow> (string \<times> mint_answers) list \<Rightarrow> string set" where
  "saved_proofs api w calls =
     {y. \<exists>(call, out) \<in> set (zip calls (outputs (wallet_step api) w calls)). accepts_proof api y out \<and> file_opens (snd call)}"

lemma saved_proofs_Cons:
  assumes "verify api (snd c) w (fst c) = (r, w')"
  shows "saved_proofs api w (c # calls) =
    (if (\<exists>a. r = Inr a) \<and> file_opens (snd c) then set (proofs_of api (fst c)) else {}) \<union> saved_proofs api w' calls"
  using assms
  by (auto simp: saved_proofs_def wallet_step_def accepts_proof_def machine_simps case_prod_beta simp del: run.simps)

lemma file_run:
  assumes "\<And>s. list_all is_word (proofs_of api s)" and "\<forall>c \<in> set calls. whole_lines (snd c)"
    and "spent_file w = Some disk" and "lists_proofs ws disk" and "list_all is_word ws"
  shows "\<exists>disk' ws'. spent_file (final (wallet_step api) w calls) = Some disk' \<and> lists_proofs ws' disk' \<and>
    list_all is_word ws' \<and> set ws' = set ws \<union> saved_proofs api w calls \<and>
    ((\<forall>c \<in> set calls. file_opens (snd c)) \<longrightarrow>
       spent_yvalues (final (wallet_step api) w calls) = spent_yvalues w \<union> saved_proofs api w calls)"
  using assms(2-)
proof (induction calls arbitrary: w disk ws)
  case Nil
  then show ?case by (auto simp: saved_proofs_def)
next
  case (Cons c calls)
  obtain r w' where v: "verify api (snd c) w (fst c) = (r, w')" by (cases "verify api (snd c) w (fst c)")
  let ?ys = "if (\<exists>a. r = Inr a) \<and> file_opens (snd c) then proofs_of api (fst c) else []"
  have "(\<exists>e. r = Inl e) \<and> w' = w \<or> (\<exists>a. r = Inr a) \<and> w' = record_spent (snd c) w (proofs_of api (fst c))"
    using verify_cases [of api "snd c" w "fst c"] v by auto
  then have "\<exists>disk'. spent_file w' = Some disk' \<and> lists_proofs (ws @ ?ys) disk'"
    and new: "file_opens (snd c) \<Longrightarrow> spent_yvalues w' = spent_yvalues w \<union> set ?ys"
    using persist_whole [OF _ Cons.prems(2,3), of "snd c" "proofs_of api (fst c)"] Cons.prems by auto
  then obtain disk' where d: "spent_file w' = Some disk'" "lists_proofs (ws @ ?ys) disk'" by blast
  have words: "list_all is_word (ws @ ?ys)" using Cons.prems(4) assms(1) by simp
  have fin: "final (wallet_step api) w (c # calls) = final (wallet_step api) w' calls"
    by (simp add: machine_simps wallet_step_def v del: run.simps)
  have "\<forall>c \<in> set calls. whole_lines (snd c)" using Cons.prems(1) by simp
  from Cons.IH [OF this d words] show ?case
    unfolding fin saved_proofs_Cons [OF v] using new by (auto split: if_splits) force+
qed

text \<open>
  C24. What the spent set keeps over a restart. Start from a file with a proof to a line, or none, and run
  any sequence of verifications, with proofs written without whitespace, as hexadecimal points are. If every append
  that opens the file writes its lines whole, a wallet that can read the file afterwards knows the
  proofs of the file at the start and exactly those accepted ones for which the file could be opened. So if it could be
  opened each time, no spent proof is forgotten; the code ignores a failure to open it, and forgets those.
\<close>

theorem spent_survives_restart:
  assumes "\<And>s. list_all is_word (proofs_of api s)" and "list_all is_word ws" and "lists_proofs ws disk"
    and "\<forall>c \<in> set calls. whole_lines (snd c)"
    and "w0 = with_spent_file mints (Some (disk, True))" and "w = final (wallet_step api) w0 calls"
  shows "\<exists>disk'. spent_file w = Some disk' \<and>
    spent_yvalues (with_spent_file mints' (Some (disk', True))) = set ws \<union> saved_proofs api w0 calls \<and>
    ((\<forall>c \<in> set calls. file_opens (snd c)) \<longrightarrow>
       spent_yvalues (with_spent_file mints' (Some (disk', True))) = spent_yvalues w)"
proof -
  have w0: "spent_file w0 = Some disk" "spent_yvalues w0 = set ws"
    using load_words [OF assms(2,3)] by (simp_all add: assms(5) with_spent_file_def)
  from file_run [OF assms(1,4) w0(1) assms(3,2)] show ?thesis
    using load_words by (fastforce simp: assms(6) with_spent_file_def w0(2))
qed

definition hex_api :: "string list cashu_api" where
  "hex_api = sample_api\<lparr> parse_token := (\<lambda>s. if is_word s then Some [s] else None) \<rparr>"

theorem spent_survives_restart_witness:
  "\<exists>disk'. spent_file (final (wallet_step hex_api) (with_spent_file [] (Some (None, True)))
        [(''02ab'', sample_mint), (''03cd'', sample_mint\<lparr> file_opens := False \<rparr>)]) = Some disk' \<and>
     spent_yvalues (final (wallet_step hex_api) (with_spent_file [] (Some (None, True)))
        [(''02ab'', sample_mint), (''03cd'', sample_mint\<lparr> file_opens := False \<rparr>)]) = {''02ab'', ''03cd''} \<and>
     spent_yvalues (with_spent_file [] (Some (disk', True))) = {''02ab''}"
proof -
  let ?calls = "[(''02ab'', sample_mint), (''03cd'', sample_mint\<lparr> file_opens := False \<rparr>)]" and ?w0 = "with_spent_file [] (Some (None, True))"
  have "list_all is_word (proofs_of hex_api s)" for s
    by (simp add: proofs_of_def hex_api_def sample_api_def token_proof_ys_def)
  moreover have "\<forall>c \<in> set ?calls. whole_lines (snd c)" by (simp add: whole_lines_def sample_mint_def)
  moreover have "lists_proofs [] None" by (simp add: lists_proofs_def)
  ultimately obtain disk' where d: "spent_file (final (wallet_step hex_api) ?w0 ?calls) = Some disk'"
    "spent_yvalues (with_spent_file [] (Some (disk', True))) = set [] \<union> saved_proofs hex_api ?w0 ?calls"
    using spent_survives_restart [of hex_api "[]" None ?calls ?w0 "[]" _ "[]"] by auto
  have w: "is_word ''02ab''" "is_word ''03cd''" by (simp_all add: is_word_def is_whitespace_def char_nat_def)
  have v: "verify hex_api ans w s = (Inr 5000, record_spent ans w [s])"
    if "is_word s" "checkstate ans = checkstate sample_mint" "\<not> wallet_repo w" "accepted_mints w = []" "s \<notin> spent_yvalues w" for ans w s
    using that by (simp add: verify_def verify_start_def verify_finish_def hex_api_def sample_api_def sample_mint_def
        token_proof_ys_def check_proofs_unspent_def Let_def)
  have w0: "\<not> wallet_repo ?w0" "accepted_mints ?w0 = []" "spent_yvalues ?w0 = {}"
    by (simp_all add: with_spent_file_def load_spent_file_def)
  have p: "proofs_of hex_api s = [s]" if "is_word s" for s
    using that by (simp add: proofs_of_def hex_api_def sample_api_def token_proof_ys_def)
  have "saved_proofs hex_api ?w0 ?calls = {''02ab''}"
    by (subst saved_proofs_Cons, rule v, simp_all add: w w0 p, subst saved_proofs_Cons, rule v)
      (simp_all add: w w0 p saved_proofs_def, simp add: sample_mint_def)
  moreover have "spent_yvalues (final (wallet_step hex_api) ?w0 ?calls) = {''02ab'', ''03cd''}"
    by (simp add: machine_simps wallet_step_def v w w0 insert_commute del: run.simps(2))
  ultimately show ?thesis using d by auto
qed

end
