(* ===== verification/Host_Driver.thy ===== *)
theory Host_Driver
  imports Session_Access Wallet Framing
begin

section \<open>The host driver\<close>

text \<open>
  \<^verbatim>\<open>crates/tollgate-net/src/driver.rs\<close> and the exchange handler of \<^verbatim>\<open>src/server.rs\<close>: the host that
  feeds the session machine and carries out its actions on the firewall, the wallet and the
  outboxes. Every field of \<^verbatim>\<open>Inner\<close> that changes is a field of \<open>host\<close>; \<open>paid_ips\<close> is the membership of
  the adapter's firewall set, which \<^verbatim>\<open>allow\<close> and \<^verbatim>\<open>deny\<close> of \<^verbatim>\<open>src/adapter.rs\<close> change.

  An operation runs without interruption. It reads the clock at \<open>now\<close>, and at \<open>later\<close> after the
  wallet has answered. Hexadecimal strings are those of the \<^verbatim>\<open>hex\<close> crate, a parameter, of which
  the theorems use that decoding inverts encoding.
\<close>

record 'tok host_env =
  cdc :: codec
  hex_encode :: "bytes \<Rightarrow> string"
  hex_decode :: "string \<Rightarrow> bytes option"
  cashu :: "'tok cashu_api"
  own_key :: bytes
  own_unit :: string
  own_price :: price
  own_price_sheet :: bytes

record report_summary =
  rs_delivered :: u64
  rs_received :: u64
  rs_elapsed_ms :: u64

record consume_event =
  ce_peer_pubkey :: string
  ce_price :: price
  ce_remaining_scaled :: i64
  ce_report :: "report_summary option"
  ce_cut_off :: bool
  ce_drift :: "(u64 \<times> u64) option"

record upstream_state =
  us_pubkey :: string
  us_url :: string
  us_price :: price
  us_remaining_scaled :: i64
  us_sent :: u64
  us_recv :: u64
  us_metered_secs :: u64
  us_drift :: "(u64 \<times> u64) option"
  us_online :: bool
  us_last_seen :: Millis

record host =
  core :: session
  outbox :: "(string, bytes list) btree"
  peer_ip :: "(string, IpAddr) btree"
  last_seen :: "(string, Millis) btree"
  metered :: "string set"
  wallet :: bootstrap_wallet
  paid_ips :: "IpAddr set"
  upstreams :: "(string, upstream_state) btree"

definition Driver_new :: "bootstrap_wallet \<Rightarrow> price \<Rightarrow> host" where
  "Driver_new w p =
     \<lparr> core = set_price Session_new p, outbox = bt_empty, peer_ip = bt_empty, last_seen = bt_empty,
       metered = {}, wallet = w, paid_ips = {}, upstreams = bt_empty \<rparr>"


subsection \<open>Identities and the adapter\<close>

definition parse_peer :: "'tok host_env \<Rightarrow> string \<Rightarrow> PeerId" where
  "parse_peer env hex =
     (let bs = (case hex_decode env hex of None \<Rightarrow> [] | Some bs \<Rightarrow> bs)
      in PeerId (PublicKey (if length bs = 33 then bs else replicate 33 0)))"

fun peer_to_hex :: "'tok host_env \<Rightarrow> PeerId \<Rightarrow> string" where
  "peer_to_hex env (PeerId k) = hex_encode env (as_bytes k)"

definition our_announce :: "'tok host_env \<Rightarrow> bytes" where
  "our_announce env =
     enc_announce (cdc env) (Announce_new PROTOCOL_VERSION (PublicKey (own_key env)) (own_unit env) 0)"

definition allow :: "IpAddr \<Rightarrow> host \<Rightarrow> host" where
  "allow ip h = h\<lparr> paid_ips := insert ip (paid_ips h) \<rparr>"

definition deny :: "IpAddr \<Rightarrow> host \<Rightarrow> host" where
  "deny ip h = h\<lparr> paid_ips := paid_ips h - {ip} \<rparr>"

definition touch :: "string \<Rightarrow> Millis \<Rightarrow> host \<Rightarrow> host" where
  "touch hex now h = h\<lparr> last_seen := bt_insert hex now (last_seen h) \<rparr>"

definition is_report :: "codec \<Rightarrow> bytes \<Rightarrow> bool" where
  "is_report c m \<longleftrightarrow> peek_type c m = Some MeteringReport"

definition enqueue :: "'tok host_env \<Rightarrow> string \<Rightarrow> bytes \<Rightarrow> host \<Rightarrow> host" where
  "enqueue env hex message h =
     (let queue = (case bt_get (outbox h) hex of None \<Rightarrow> [] | Some q \<Rightarrow> q);
          kept = (if is_report (cdc env) message then filter (\<lambda>f. \<not> is_report (cdc env) f) queue else queue)
      in h\<lparr> outbox := bt_insert hex (kept @ [message]) (outbox h) \<rparr>)"


subsection \<open>Carrying out actions\<close>

fun execute :: "'tok host_env \<Rightarrow> Action \<Rightarrow> host \<Rightarrow> host" where
  "execute env (SetAccess peer level) h =
     (case bt_get (peer_ip h) (peer_to_hex env peer) of
        Some ip \<Rightarrow> if allows_delivery level then allow ip h else deny ip h
      | None \<Rightarrow> h)"
| "execute env (Send peer bs) h = enqueue env (peer_to_hex env peer) bs h"
| "execute env (StartMetering peer) h = h\<lparr> metered := insert (peer_to_hex env peer) (metered h) \<rparr>"
| "execute env (StopMetering peer) h = h\<lparr> metered := metered h - {peer_to_hex env peer} \<rparr>"
| "execute env (DisconnectPeer peer) h = h"
| "execute env (VerifyBootstrapToken peer token) h = h"

definition host_handle :: "'tok host_env \<Rightarrow> Event \<Rightarrow> Millis \<Rightarrow> host \<Rightarrow> host \<times> Action list" where
  "host_handle env ev now h =
     (let (s, acts) = handle (cdc env) (core h) (ev, now) in (h\<lparr> core := s \<rparr>, acts))"

definition verify_token ::
    "'tok host_env \<Rightarrow> mint_answers \<Rightarrow> bytes \<Rightarrow> host \<Rightarrow> (bool \<times> u64) \<times> host" where
  "verify_token env mint token h =
     (case from_utf8 token of
        None \<Rightarrow> ((False, 0), h)
      | Some token_str \<Rightarrow>
          (let (r, w) = verify (cashu env) mint (wallet h) token_str
           in case r of
                Inr amount \<Rightarrow> ((True, amount), h\<lparr> wallet := w \<rparr>)
              | Inl _ \<Rightarrow> ((False, 0), h\<lparr> wallet := w \<rparr>)))"

definition dispatch_one :: "'tok host_env \<Rightarrow> mint_answers \<Rightarrow> Millis \<Rightarrow> Action \<Rightarrow> host \<Rightarrow> host" where
  "dispatch_one env mint later act h =
     (case act of
        VerifyBootstrapToken peer token \<Rightarrow>
          (let ((ok, amount), h1) = verify_token env mint token h;
               (h2, follow) = host_handle env (BootstrapVerified peer amount ok) later h1
           in fold (execute env) follow h2)
      | other \<Rightarrow> execute env other h)"

definition dispatch_all :: "'tok host_env \<Rightarrow> mint_answers \<Rightarrow> Millis \<Rightarrow> Action list \<Rightarrow> host \<Rightarrow> host" where
  "dispatch_all env mint later acts h = fold (dispatch_one env mint later) acts h"

definition host_event :: "'tok host_env \<Rightarrow> mint_answers \<Rightarrow> Event \<Rightarrow> Millis \<Rightarrow> Millis \<Rightarrow> host \<Rightarrow> host" where
  "host_event env mint ev now later h =
     (let (h1, acts) = host_handle env ev now h in dispatch_all env mint later acts h1)"


subsection \<open>The operations\<close>

definition meter :: "'tok host_env \<Rightarrow> mint_answers \<Rightarrow> string \<Rightarrow> counters \<Rightarrow> Millis \<Rightarrow> host \<Rightarrow> host" where
  "meter env mint hex c now h = host_event env mint (MeterSample (parse_peer env hex) c) now now h"

definition metering_round ::
    "'tok host_env \<Rightarrow> mint_answers \<Rightarrow> (IpAddr \<Rightarrow> counters) \<Rightarrow> Millis \<Rightarrow> host \<Rightarrow> host" where
  "metering_round env mint read_counters now h =
     (let peers = List.map_filter (\<lambda>hex. map_option (\<lambda>ip. (hex, ip)) (bt_get (peer_ip h) hex))
                    (sorted_list_of_set (metered h))
      in fold (\<lambda>(hex, ip). meter env mint hex (read_counters ip) now) peers h)"

definition peer_connected ::
    "'tok host_env \<Rightarrow> mint_answers \<Rightarrow> string \<Rightarrow> IpAddr option \<Rightarrow> Millis \<Rightarrow> host \<Rightarrow> host \<times> bool" where
  "peer_connected env mint hex ip now h =
     (let h1 = (case ip of Some a \<Rightarrow> h\<lparr> peer_ip := bt_insert hex a (peer_ip h) \<rparr> | None \<Rightarrow> h);
          h2 = touch hex now h1;
          is_new = (peer_phase (core h2) (parse_peer env hex) = None);
          h3 = host_event env mint (PeerConnected (parse_peer env hex)) now now h2;
          h4 = enqueue env hex (our_announce env) h3;
          h5 = (if own_price_sheet env \<noteq> [] then enqueue env hex (own_price_sheet env) h4 else h4)
      in (h5, is_new))"

definition forget_peer :: "string \<Rightarrow> host \<Rightarrow> host" where
  "forget_peer hex h =
     h\<lparr> peer_ip := bt_remove hex (peer_ip h), last_seen := bt_remove hex (last_seen h),
        metered := metered h - {hex}, outbox := bt_remove hex (outbox h) \<rparr>"

definition peer_disconnected :: "'tok host_env \<Rightarrow> mint_answers \<Rightarrow> string \<Rightarrow> Millis \<Rightarrow> host \<Rightarrow> host" where
  "peer_disconnected env mint hex now h =
     forget_peer hex (host_event env mint (PeerDisconnected (parse_peer env hex)) now now h)"

definition message_received ::
    "'tok host_env \<Rightarrow> mint_answers \<Rightarrow> string \<Rightarrow> bytes \<Rightarrow> Millis \<Rightarrow> Millis \<Rightarrow> host \<Rightarrow> host" where
  "message_received env mint hex bs now later h =
     host_event env mint (MessageReceived (parse_peer env hex) bs) now later (touch hex now h)"

definition drain_outbox :: "string \<Rightarrow> host \<Rightarrow> bytes list \<times> host" where
  "drain_outbox hex h =
     ((case bt_get (outbox h) hex of None \<Rightarrow> [] | Some q \<Rightarrow> q),
      h\<lparr> outbox := bt_remove hex (outbox h) \<rparr>)"

definition reap_one :: "'tok host_env \<Rightarrow> mint_answers \<Rightarrow> Millis \<Rightarrow> string \<Rightarrow> host \<Rightarrow> host" where
  "reap_one env mint now hex h =
     (if peer_phase (core h) (parse_peer env hex) = Some Active then h
      else peer_disconnected env mint hex now h)"

definition reap_idle :: "'tok host_env \<Rightarrow> mint_answers \<Rightarrow> Millis \<Rightarrow> u64 \<Rightarrow> host \<Rightarrow> host" where
  "reap_idle env mint now_ms idle_ms h =
     (let idle = map fst (filter (\<lambda>(_, seen). saturating_sub now_ms seen \<ge> idle_ms) (last_seen h))
      in fold (reap_one env mint now_ms) idle h)"

definition record_upstream :: "string \<Rightarrow> consume_event \<Rightarrow> Millis \<Rightarrow> host \<Rightarrow> host" where
  "record_upstream url ev now h =
     (let st0 = (case bt_get (upstreams h) url of
                   Some st \<Rightarrow> st
                 | None \<Rightarrow> \<lparr> us_pubkey = [], us_url = url, us_price = Price_default, us_remaining_scaled = 0,
                             us_sent = 0, us_recv = 0, us_metered_secs = 0, us_drift = None,
                             us_online = True, us_last_seen = now \<rparr>);
          st1 = st0\<lparr> us_pubkey := ce_peer_pubkey ev, us_price := ce_price ev,
                     us_remaining_scaled := ce_remaining_scaled ev, us_drift := ce_drift ev,
                     us_online := \<not> ce_cut_off ev, us_last_seen := now \<rparr>;
          st2 = (case ce_report ev of
                   None \<Rightarrow> st1
                 | Some r \<Rightarrow> st1\<lparr> us_recv := rs_delivered r, us_sent := rs_received r,
                                  us_metered_secs := rs_elapsed_ms r div 1000 \<rparr>)
      in h\<lparr> upstreams := bt_insert url st2 (upstreams h) \<rparr>)"

definition mark_upstream_offline :: "string \<Rightarrow> host \<Rightarrow> host" where
  "mark_upstream_offline url h =
     (case bt_get (upstreams h) url of
        None \<Rightarrow> h
      | Some st \<Rightarrow> h\<lparr> upstreams := bt_insert url (st\<lparr> us_online := False \<rparr>) (upstreams h) \<rparr>)"


subsection \<open>The HTTP exchange\<close>

definition exchange_frame ::
    "'tok host_env \<Rightarrow> mint_answers \<Rightarrow> IpAddr option \<Rightarrow> Millis \<Rightarrow> Millis \<Rightarrow> bytes \<Rightarrow>
     string option \<times> host \<Rightarrow> string option \<times> host" where
  "exchange_frame env mint ip now later frm st =
     (let (peer_hex, h) = st
      in case peek_type (cdc env) frm of
           Some Announce \<Rightarrow>
             (case dec_announce (cdc env) frm of
                Some announce \<Rightarrow>
                  (let hex = hex_encode env (as_bytes (public_key announce))
                   in (Some hex, fst (peer_connected env mint hex ip now h)))
              | None \<Rightarrow> (peer_hex, h))
         | Some _ \<Rightarrow>
             (case peer_hex of
                Some hex \<Rightarrow> (peer_hex, message_received env mint hex frm now later h)
              | None \<Rightarrow> (peer_hex, h))
         | None \<Rightarrow> (peer_hex, h))"

fun encode_response :: "bytes list \<Rightarrow> bytes \<Rightarrow> bytes" where
  "encode_response [] out = out"
| "encode_response (m # ms) out =
     encode_response ms (case encode_frame m out of Inr out' \<Rightarrow> out' | Inl _ \<Rightarrow> out)"

datatype exchange_result = BadRequest FrameError | Ok200 bytes

definition http_exchange ::
    "'tok host_env \<Rightarrow> mint_answers \<Rightarrow> IpAddr option \<Rightarrow> Millis \<Rightarrow> Millis \<Rightarrow> bytes \<Rightarrow> host \<Rightarrow>
     exchange_result \<times> host" where
  "http_exchange env mint ip now later body h =
     (case decode_frames body of
        Inl e \<Rightarrow> (BadRequest e, h)
      | Inr frames \<Rightarrow>
          (let (peer_hex, h1) = fold (exchange_frame env mint ip now later) frames (None, h)
           in case peer_hex of
                None \<Rightarrow> (Ok200 [], h1)
              | Some hex \<Rightarrow>
                  (let (msgs, h2) = drain_outbox hex h1 in (Ok200 (encode_response msgs []), h2))))"

end
