(* ===== verification/Host_Access.thy ===== *)
theory Host_Access
  imports Host_Driver
begin

section \<open>What the host enforces\<close>

text \<open>
  The host's operations as a machine, and the invariant that ties the firewall and the metering
  set to the phases of the session, for any sequence of operations in which every peer keeps the
  address it announces from.
\<close>

datatype host_op =
    HConnect string "IpAddr option" Millis
  | HMessage string bytes Millis Millis
  | HMeter string counters Millis
  | HDisconnect string Millis
  | HReap Millis u64
  | HDrain string

fun host_step :: "'tok host_env \<Rightarrow> host \<Rightarrow> host_op \<times> mint_answers \<Rightarrow> host \<times> bytes list list" where
  "host_step env h (HConnect hex ip now, mint) = (fst (peer_connected env mint hex ip now h), [])"
| "host_step env h (HMessage hex bs now later, mint) = (message_received env mint hex bs now later h, [])"
| "host_step env h (HMeter hex c now, mint) = (meter env mint hex c now h, [])"
| "host_step env h (HDisconnect hex now, mint) = (peer_disconnected env mint hex now h, [])"
| "host_step env h (HReap now idle_ms, mint) = (reap_idle env mint now idle_ms h, [])"
| "host_step env h (HDrain hex, mint) = (let (msgs, h') = drain_outbox hex h in (h', [msgs]))"


subsection \<open>Identities\<close>

definition hex_ok :: "'tok host_env \<Rightarrow> bool" where
  "hex_ok env \<longleftrightarrow> (\<forall>bs. hex_decode env (hex_encode env bs) = Some bs)"

fun peer_wf :: "PeerId \<Rightarrow> bool" where
  "peer_wf (PeerId k) \<longleftrightarrow> length (as_bytes k) = 33"

lemma peer_to_hex_inject:
  assumes "hex_ok env"
  shows "peer_to_hex env p = peer_to_hex env q \<longleftrightarrow> p = q"
proof
  assume "peer_to_hex env p = peer_to_hex env q"
  then have "hex_decode env (peer_to_hex env p) = hex_decode env (peer_to_hex env q)" by simp
  then show "p = q"
    using assms by (cases p; cases q) (auto simp: hex_ok_def intro: PublicKey.expand)
qed simp

text \<open>A set of peers with keys of the right length, each with an address of its own.\<close>

definition own_addresses :: "(PeerId \<Rightarrow> IpAddr) \<Rightarrow> PeerId set \<Rightarrow> bool" where
  "own_addresses addr P \<longleftrightarrow> inj_on addr P \<and> P \<subseteq> Collect peer_wf"

lemma parse_peer_wf: "hex_ok env \<Longrightarrow> peer_wf p \<Longrightarrow> parse_peer env (peer_to_hex env p) = p"
  by (cases p) (simp add: parse_peer_def hex_ok_def Let_def)

lemma parse_peer_hex:
  "hex_ok env \<Longrightarrow> own_addresses addr P \<Longrightarrow> p \<in> P \<Longrightarrow> parse_peer env (peer_to_hex env p) = p"
  by (auto simp: own_addresses_def intro: parse_peer_wf)


subsection \<open>What a list of actions does to one peer\<close>

text \<open>Whether the peer is let through, and whether it is metered, after a list of actions.\<close>

fun opens_one :: "PeerId \<Rightarrow> Action \<Rightarrow> bool \<Rightarrow> bool" where
  "opens_one p (SetAccess q l) b = (if q = p then allows_delivery l else b)"
| "opens_one p _ b = b"

fun meters_one :: "PeerId \<Rightarrow> Action \<Rightarrow> bool \<Rightarrow> bool" where
  "meters_one p (StartMetering q) b = (q = p \<or> b)"
| "meters_one p (StopMetering q) b = (q \<noteq> p \<and> b)"
| "meters_one p _ b = b"

lemma opens_track:
  "fold (opens_one p) acts (allows_delivery (fst st)) = allows_delivery (fst (fold (track p) acts st))"
proof (induction acts arbitrary: st)
  case (Cons a acts)
  have "opens_one p a (allows_delivery (fst st)) = allows_delivery (fst (track p a st))"
    by (cases a) auto
  with Cons.IH [of "track p a st"] show ?case by simp
qed simp

lemma track_verifying:
  "list_all (\<lambda>a. \<forall>q t. a \<noteq> VerifyBootstrapToken q t) acts \<Longrightarrow> \<not> snd st \<Longrightarrow> \<not> snd (fold (track p) acts st)"
proof (induction acts arbitrary: st)
  case (Cons a acts)
  then show ?case by (cases a) (simp_all split: if_splits)
qed simp

lemma enqueue_frame [simp]:
  "core (enqueue env x m h) = core h" "peer_ip (enqueue env x m h) = peer_ip h"
  "paid_ips (enqueue env x m h) = paid_ips h" "metered (enqueue env x m h) = metered h"
  "last_seen (enqueue env x m h) = last_seen h" "wallet (enqueue env x m h) = wallet h"
  by (simp_all add: enqueue_def Let_def)

lemma execute_frame [simp]:
  "core (execute env a h) = core h" "peer_ip (execute env a h) = peer_ip h"
  "last_seen (execute env a h) = last_seen h" "wallet (execute env a h) = wallet h"
  by (cases a; simp add: allow_def deny_def split: option.split)+

lemma executes_frame [simp]:
  "core (fold (execute env) acts h) = core h" "peer_ip (fold (execute env) acts h) = peer_ip h"
  "last_seen (fold (execute env) acts h) = last_seen h"
  by (induction acts arbitrary: h) simp_all

lemma folds_other:
  assumes "list_all (\<lambda>a. action_peer a = p) acts" and "q \<noteq> p"
  shows "fold (opens_one q) acts b = b" and "fold (meters_one q) acts b = b"
proof -
  have "opens_one q a c = c" "meters_one q a c = c" if "action_peer a = p" for a c
    using that assms(2) by (cases a; auto)+
  with assms(1) show "fold (opens_one q) acts b = b" and "fold (meters_one q) acts b = b"
    by (induction acts) simp_all
qed

lemma executes_metered:
  assumes "hex_ok env"
  shows "peer_to_hex env p \<in> metered (fold (execute env) acts h) \<longleftrightarrow>
    fold (meters_one p) acts (peer_to_hex env p \<in> metered h)"
proof (induction acts arbitrary: h)
  case (Cons a acts)
  have "peer_to_hex env p \<in> metered (execute env a h) \<longleftrightarrow> meters_one p a (peer_to_hex env p \<in> metered h)"
    by (cases a) (auto simp: peer_to_hex_inject [OF assms] allow_def deny_def split: option.split)
  with Cons.IH [of "execute env a h"] show ?case by simp
qed simp

lemma executes_paid:
  assumes "own_addresses addr P" and "p \<in> P" and "q \<in> P"
    and "list_all (\<lambda>a. action_peer a = q) acts"
    and "bt_get (peer_ip h) (peer_to_hex env q) = Some (addr q)"
  shows "addr p \<in> paid_ips (fold (execute env) acts h) \<longleftrightarrow> fold (opens_one p) acts (addr p \<in> paid_ips h)"
  using assms(4,5)
proof (induction acts arbitrary: h)
  case (Cons a acts)
  have "addr p = addr q \<longleftrightarrow> p = q" using assms(1-3) by (auto simp: own_addresses_def inj_on_def)
  then have "addr p \<in> paid_ips (execute env a h) \<longleftrightarrow> opens_one p a (addr p \<in> paid_ips h)"
    using Cons.prems by (cases a) (auto simp: allow_def deny_def)
  with Cons.IH [of "execute env a h"] Cons.prems show ?case by simp
qed simp

lemma executes_paid_unknown:
  assumes "list_all (\<lambda>a. action_peer a = q) acts" and "bt_get (peer_ip h) (peer_to_hex env q) = None"
  shows "paid_ips (fold (execute env) acts h) = paid_ips h"
  using assms
proof (induction acts arbitrary: h)
  case (Cons a acts)
  have "paid_ips (execute env a h) = paid_ips h" using Cons.prems by (cases a) auto
  with Cons.IH [of "execute env a h"] Cons.prems show ?case by simp
qed simp


subsection \<open>The session's side\<close>

text \<open>A peer that is active is metered, through every event.\<close>

definition arm_meters :: "PeerId \<Rightarrow> session \<Rightarrow> session \<times> Action list \<Rightarrow> bool" where
  "arm_meters p s r \<longleftrightarrow>
     (\<forall>m. (peer_phase s p = Some Active \<longrightarrow> m) \<longrightarrow> peer_phase (fst r) p = Some Active \<longrightarrow>
        fold (meters_one p) (snd r) m)"

lemma arm_meters_message: "arm_meters p s (handle_message cd p bs s)"
  by (rule handle_message_arms)
    (auto simp: arm_defs arm_meters_def peer_phase_def split: option.splits)

lemma charged_sample_meters:
  "phase (fst (charged_sample cd pr pol p c now ps)) = Active \<Longrightarrow> m \<Longrightarrow>
    fold (meters_one p) (snd (charged_sample cd pr pol p c now ps)) m"
  by (auto simp: charged_sample_def drift_warning_def Let_def split: option.splits)

lemma arm_meters_handle:
  assumes "event_peer e = Some p"
  shows "arm_meters p s (handle cd s (e, now))"
proof (cases e)
  case (MessageReceived q bs)
  with assms show ?thesis by (simp add: arm_meters_message)
next
  case (MeterSample q c)
  with assms show ?thesis
    using charged_sample_meters
    by (auto simp: arm_defs arm_meters_def peer_phase_def reset_metering_def case_prod_beta split: option.split)
qed (use assms in \<open>auto simp: arm_defs arm_meters_def peer_phase_def PeerSession_new_def
    Let_def split: option.split\<close>)

text \<open>Only a bootstrap token asks for a verification, and it asks for nothing else.\<close>

definition no_verify :: "Action list \<Rightarrow> bool" where
  "no_verify acts \<longleftrightarrow> list_all (\<lambda>a. \<forall>q t. a \<noteq> VerifyBootstrapToken q t) acts"

lemma handle_message_verify:
  "no_verify (snd (handle_message cd p bs s)) \<or>
   (\<exists>t ps. snd (handle_message cd p bs s) = [VerifyBootstrapToken p t] \<and>
      bt_get (peers (fst (handle_message cd p bs s))) p = Some ps \<and> phase ps = BootstrapPending)"
  by (rule handle_message_arms) (auto simp: arm_defs no_verify_def split: option.split)

lemma charged_sample_no_verify: "no_verify (snd (charged_sample cd pr pol p c now ps))"
  by (auto simp: charged_sample_def drift_warning_def no_verify_def Let_def split: option.splits)

lemma handle_verify:
  assumes "event_peer e = Some p"
  shows "no_verify (snd (handle cd s (e, now))) \<or>
    (\<exists>t ps. snd (handle cd s (e, now)) = [VerifyBootstrapToken p t] \<and>
      bt_get (peers (fst (handle cd s (e, now)))) p = Some ps \<and> phase ps = BootstrapPending)"
proof (cases e)
  case (MessageReceived q bs)
  with assms handle_message_verify [of cd p bs s] show ?thesis by auto
next
  case (MeterSample q c)
  with assms show ?thesis
    using charged_sample_no_verify
    by (auto simp: arm_defs no_verify_def case_prod_beta split: option.split)
qed (use assms in \<open>auto simp: arm_defs no_verify_def Let_def split: option.split\<close>)

lemma verified_settles:
  assumes "bt_get (peers s) p = Some ps"
  shows "no_verify (snd (handle cd s (BootstrapVerified p amount ok, now)))"
    and "\<not> snd (fold (track p) (snd (handle cd s (BootstrapVerified p amount ok, now))) st)"
  using assms by (auto simp: arm_defs no_verify_def Let_def)


subsection \<open>One event through the host\<close>

text \<open>
  What a session and a list of actions for \<open>p\<close> make of a session \<open>s\<close>: other peers are as before, and
  from a state in which \<open>p\<close> is let through exactly if active, and metered if active, so it is after.
\<close>

definition outcome :: "PeerId \<Rightarrow> session \<Rightarrow> session \<Rightarrow> Action list \<Rightarrow> bool" where
  "outcome p s s' acts \<longleftrightarrow>
     list_all (\<lambda>a. action_peer a = p) acts \<and>
     (\<forall>q. q \<noteq> p \<longrightarrow> peer_phase s' q = peer_phase s q) \<and>
     (\<forall>b m. b = (peer_phase s p = Some Active) \<longrightarrow> (peer_phase s p = Some Active \<longrightarrow> m) \<longrightarrow>
        fold (opens_one p) acts b = (peer_phase s' p = Some Active) \<and>
        (peer_phase s' p = Some Active \<longrightarrow> fold (meters_one p) acts m))"

lemma outcomeI:
  assumes "list_all (\<lambda>a. action_peer a = p) acts"
    and "\<And>q. q \<noteq> p \<Longrightarrow> peer_phase s' q = peer_phase s q"
    and "peer_access_ok (peer_phase s' p)
      (fold (track p) acts (if peer_phase s p = Some Active then AccessActive else AccessNone, v))"
    and "\<not> snd (fold (track p) acts (if peer_phase s p = Some Active then AccessActive else AccessNone, v))"
    and "\<And>m. (peer_phase s p = Some Active \<Longrightarrow> m) \<Longrightarrow> peer_phase s' p = Some Active \<Longrightarrow> fold (meters_one p) acts m"
  shows "outcome p s s' acts"
proof -
  let ?st = "(if peer_phase s p = Some Active then AccessActive else AccessNone, v)"
  have "fold (opens_one p) acts (allows_delivery (fst ?st)) = allows_delivery (fst (fold (track p) acts ?st))"
    by (rule opens_track)
  moreover have "allows_delivery (fst (fold (track p) acts ?st)) = (peer_phase s' p = Some Active)"
    using assms(3,4) by (auto simp: peer_access_ok_def)
  moreover have "allows_delivery (fst ?st) = (peer_phase s p = Some Active)" by simp
  ultimately have "fold (opens_one p) acts (peer_phase s p = Some Active) = (peer_phase s' p = Some Active)"
    by simp
  moreover have "\<forall>m. (peer_phase s p = Some Active \<longrightarrow> m) \<longrightarrow> peer_phase s' p = Some Active \<longrightarrow>
      fold (meters_one p) acts m"
    using assms(5) by simp
  ultimately show ?thesis using assms(1,2) by (simp add: outcome_def)
qed

lemma concerns_phase: "concerns p s r \<Longrightarrow> q \<noteq> p \<Longrightarrow> peer_phase (fst r) q = peer_phase s q"
  by (simp add: concerns_def peer_phase_def)

lemma handle_outcome:
  assumes "event_peer e = Some p" and "no_verify (snd (handle cd s (e, now)))"
  shows "outcome p s (fst (handle cd s (e, now))) (snd (handle cd s (e, now)))"
proof (rule outcomeI [where v = False])
  let ?st = "(if peer_phase s p = Some Active then AccessActive else AccessNone, False)"
  have "peer_access_ok (peer_phase s p) ?st" by (simp add: peer_access_ok_def)
  with arm_ok_handle [OF assms(1)]
  show "peer_access_ok (peer_phase (fst (handle cd s (e, now))) p) (fold (track p) (snd (handle cd s (e, now))) ?st)"
    by (rule arm_okD)
  show "\<not> snd (fold (track p) (snd (handle cd s (e, now))) ?st)"
    using assms(2) by (intro track_verifying) (simp_all add: no_verify_def)
  show "\<And>q. q \<noteq> p \<Longrightarrow> peer_phase (fst (handle cd s (e, now))) q = peer_phase s q"
    using concerns_phase [OF concerns_handle [OF assms(1)]] .
  show "list_all (\<lambda>a. action_peer a = p) (snd (handle cd s (e, now)))"
    using concerns_handle [OF assms(1), of s cd now] by (simp add: concerns_def)
qed (use arm_meters_handle [OF assms(1), of s cd now] in \<open>auto simp: arm_meters_def\<close>)

lemma verified_outcome:
  assumes "event_peer e = Some p" and "snd (handle cd s (e, now)) = [VerifyBootstrapToken p t]"
    and "s1 = fst (handle cd s (e, now))" and "bt_get (peers s1) p = Some ps" and "phase ps = BootstrapPending"
    and "r = handle cd s1 (BootstrapVerified p amount ok, later)"
  shows "outcome p s (fst r) (snd r)"
proof (rule outcomeI [where v = True])
  have ev: "event_peer (BootstrapVerified p amount ok) = Some p" by simp
  let ?st = "(if peer_phase s p = Some Active then AccessActive else AccessNone, True)"
  have s1: "peer_phase s1 p = Some BootstrapPending" using assms(4,5) by (simp add: peer_phase_def)
  then have "peer_access_ok (peer_phase s1 p) ?st" by (simp add: peer_access_ok_def)
  with arm_ok_handle [OF ev] show "peer_access_ok (peer_phase (fst r) p) (fold (track p) (snd r) ?st)"
    unfolding assms(6) by (rule arm_okD)
  show "\<not> snd (fold (track p) (snd r) ?st)"
    unfolding assms(6) by (rule verified_settles(2) [OF assms(4)])
  show "\<And>q. q \<noteq> p \<Longrightarrow> peer_phase (fst r) q = peer_phase s q"
    using concerns_phase [OF concerns_handle [OF ev, of s1 cd later]]
      concerns_phase [OF concerns_handle [OF assms(1), of s cd now]] assms(3,6) by simp
  show "list_all (\<lambda>a. action_peer a = p) (snd r)"
    using concerns_handle [OF ev, of s1 cd later] by (simp add: concerns_def assms(6))
  show "\<And>m. (peer_phase s p = Some Active \<Longrightarrow> m) \<Longrightarrow> peer_phase (fst r) p = Some Active \<Longrightarrow>
      fold (meters_one p) (snd r) m"
    using arm_meters_handle [OF ev, of s1 cd later] s1 by (auto simp: arm_meters_def assms(6))
qed

lemma handle_message_unknown: "peer_phase s p = None \<Longrightarrow> peer_phase (fst (handle_message cd p bs s)) p = None"
  by (rule handle_message_arms) (auto simp: arm_defs peer_phase_def split: option.split)

lemma handle_unknown:
  assumes "event_peer e = Some p" and "e \<noteq> PeerConnected p" and "peer_phase s p = None"
  shows "peer_phase (fst (handle cd s (e, now))) p = None"
  using assms
  by (cases e) (auto simp: handle_message_unknown, auto simp: arm_defs peer_phase_def split: option.split)

lemma dispatch_no_verify: "no_verify acts \<Longrightarrow> dispatch_all env mint later acts h = fold (execute env) acts h"
proof (induction acts arbitrary: h)
  case (Cons a acts)
  then have "dispatch_one env mint later a h = execute env a h"
    by (cases a) (simp_all add: dispatch_one_def no_verify_def)
  with Cons show ?case by (simp add: dispatch_all_def no_verify_def)
qed (simp add: dispatch_all_def)

lemma verify_token_frame: "\<exists>ok amount w'. verify_token env mint t h = ((ok, amount), h\<lparr> wallet := w' \<rparr>)"
proof (cases "from_utf8 t")
  case None
  then have "verify_token env mint t h = ((False, 0), h\<lparr> wallet := wallet h \<rparr>)"
    by (simp add: verify_token_def)
  then show ?thesis by blast
next
  case (Some str)
  then show ?thesis
    by (cases "fst (verify (cashu env) mint (wallet h) str)")
      (auto simp: verify_token_def case_prod_beta Let_def)
qed

lemma host_event_outcome:
  assumes "event_peer e = Some p"
  shows "\<exists>s' acts w'. host_event env mint e now later h =
      fold (execute env) acts (h\<lparr> wallet := w', core := s' \<rparr>) \<and> outcome p (core h) s' acts \<and>
      (e \<noteq> PeerConnected p \<longrightarrow> peer_phase (core h) p = None \<longrightarrow> peer_phase s' p = None)"
proof -
  let ?s1 = "fst (handle (cdc env) (core h) (e, now))" and ?acts = "snd (handle (cdc env) (core h) (e, now))"
  have he: "host_event env mint e now later h = dispatch_all env mint later ?acts (h\<lparr> core := ?s1 \<rparr>)"
    by (simp add: host_event_def host_handle_def case_prod_beta Let_def)
  show ?thesis
    using handle_verify [OF assms, of "cdc env" "core h" now]
  proof
    assume nv: "no_verify ?acts"
    have "h\<lparr> core := ?s1 \<rparr> = h\<lparr> wallet := wallet h, core := ?s1 \<rparr>" by simp
    then show ?thesis
      using handle_outcome [OF assms nv] dispatch_no_verify [OF nv] he
        handle_unknown [OF assms, of "core h" "cdc env" now] by metis
  next
    assume "\<exists>t ps. ?acts = [VerifyBootstrapToken p t] \<and> bt_get (peers ?s1) p = Some ps \<and>
      phase ps = BootstrapPending"
    then obtain t ps where t: "?acts = [VerifyBootstrapToken p t]" "bt_get (peers ?s1) p = Some ps"
      "phase ps = BootstrapPending" by blast
    obtain ok amount w' where vt: "verify_token env mint t (h\<lparr> core := ?s1 \<rparr>) =
        ((ok, amount), h\<lparr> core := ?s1, wallet := w' \<rparr>)"
      using verify_token_frame [of env mint t "h\<lparr> core := ?s1 \<rparr>"] by blast
    let ?r = "handle (cdc env) ?s1 (BootstrapVerified p amount ok, later)"
    have "host_event env mint e now later h = fold (execute env) (snd ?r) (h\<lparr> wallet := w', core := fst ?r \<rparr>)"
      unfolding he t(1)
      by (simp add: dispatch_all_def dispatch_one_def vt host_handle_def case_prod_beta Let_def del: handle.simps)
    moreover have "outcome p (core h) (fst ?r) (snd ?r)"
      by (rule verified_outcome [OF assms t(1) refl t(2,3) refl])
    moreover have "e \<noteq> PeerConnected p \<Longrightarrow> peer_phase (core h) p \<noteq> None"
      using handle_unknown [OF assms, of "core h" "cdc env" now] t(2) by (auto simp: peer_phase_def)
    ultimately show ?thesis
      by (intro exI [of _ "fst ?r"] exI [of _ "snd ?r"] exI [of _ w'] conjI impI) blast+
  qed
qed


subsection \<open>The invariant\<close>

definition peer_ok :: "'tok host_env \<Rightarrow> (PeerId \<Rightarrow> IpAddr) \<Rightarrow> host \<Rightarrow> PeerId \<Rightarrow> bool" where
  "peer_ok env addr h p \<longleftrightarrow>
     bt_get (peer_ip h) (peer_to_hex env p) \<in> {None, Some (addr p)} \<and>
     (peer_phase (core h) p \<noteq> None \<longrightarrow> bt_get (peer_ip h) (peer_to_hex env p) = Some (addr p)) \<and>
     (addr p \<in> paid_ips h \<longleftrightarrow> peer_phase (core h) p = Some Active) \<and>
     (peer_phase (core h) p = Some Active \<longrightarrow> peer_to_hex env p \<in> metered h)"

definition host_inv :: "'tok host_env \<Rightarrow> (PeerId \<Rightarrow> IpAddr) \<Rightarrow> PeerId set \<Rightarrow> host \<Rightarrow> bool" where
  "host_inv env addr P h \<longleftrightarrow> (\<forall>p \<in> P. peer_ok env addr h p) \<and> fst ` set (last_seen h) \<subseteq> peer_to_hex env ` P"

lemma host_event_inv:
  assumes "hex_ok env" and "own_addresses addr P" and "host_inv env addr P h"
    and "event_peer e = Some p" and "p \<in> P"
    and "e = PeerConnected p \<longrightarrow> bt_get (peer_ip h) (peer_to_hex env p) = Some (addr p)"
  shows "host_inv env addr P (host_event env mint e now later h)"
proof -
  obtain s' acts w' where h': "host_event env mint e now later h =
      fold (execute env) acts (h\<lparr> wallet := w', core := s' \<rparr>)"
    and out: "outcome p (core h) s' acts"
    and new: "e \<noteq> PeerConnected p \<longrightarrow> peer_phase (core h) p = None \<longrightarrow> peer_phase s' p = None"
    using host_event_outcome [OF assms(4)] by blast
  let ?h = "h\<lparr> wallet := w', core := s' \<rparr>"
  have acts: "list_all (\<lambda>a. action_peer a = p) acts" using out by (simp add: outcome_def)
  have ok: "peer_ok env addr h q" if "q \<in> P" for q
    using assms(3) that by (simp add: host_inv_def)
  have eff: "fold (opens_one p) acts (addr p \<in> paid_ips h) = (peer_phase s' p = Some Active)"
    "peer_phase s' p = Some Active \<Longrightarrow> fold (meters_one p) acts (peer_to_hex env p \<in> metered h)"
    using out ok [OF assms(5)] by (auto simp: outcome_def peer_ok_def)
  have known: "peer_phase s' p = None \<or> bt_get (peer_ip h) (peer_to_hex env p) = Some (addr p)"
    using new assms(6) ok [OF assms(5)] by (auto simp: peer_ok_def)
  have "peer_ok env addr (fold (execute env) acts ?h) q" if q: "q \<in> P" for q
  proof (cases "q = p")
    case True
    show ?thesis
    proof (cases "bt_get (peer_ip h) (peer_to_hex env p)")
      case None
      then have "addr p \<notin> paid_ips h" and "peer_phase s' p = None"
        using ok [OF assms(5)] known by (auto simp: peer_ok_def)
      then show ?thesis
        using True None executes_paid_unknown [OF acts, of ?h env] by (simp add: peer_ok_def)
    next
      case (Some a)
      then have a: "bt_get (peer_ip h) (peer_to_hex env p) = Some (addr p)"
        using ok [OF assms(5)] by (simp add: peer_ok_def)
      then show ?thesis
        using True eff executes_paid [OF assms(2,5,5) acts, of ?h env] executes_metered [OF assms(1), of p acts ?h]
        by (simp add: peer_ok_def)
    qed
  next
    case False
    note opens = folds_other [OF acts False]
    have ph: "peer_phase s' q = peer_phase (core h) q" using out False by (simp add: outcome_def)
    have "addr q \<in> paid_ips (fold (execute env) acts ?h) \<longleftrightarrow> addr q \<in> paid_ips h"
      using executes_paid [OF assms(2) q assms(5) acts, of ?h env] executes_paid_unknown [OF acts, of ?h env]
        ok [OF assms(5)] opens(1) by (auto simp: peer_ok_def)
    then show ?thesis
      using ok [OF q] ph executes_metered [OF assms(1), of q acts ?h] opens(2) by (simp add: peer_ok_def)
  qed
  then show ?thesis using assms(3) by (simp add: host_inv_def h')
qed


subsection \<open>Every operation keeps it\<close>

lemma bt_remove_set: "fst ` set (bt_remove x m) \<subseteq> fst ` set m"
  by (auto simp: bt_remove_def)

lemma bt_insert_set: "fst ` set (bt_insert x w m) \<subseteq> insert x (fst ` set m)"
  by (induction x w m rule: bt_insert.induct) auto

lemma touch_frame [simp]:
  "core (touch x now h) = core h" "peer_ip (touch x now h) = peer_ip h" "paid_ips (touch x now h) = paid_ips h"
  "metered (touch x now h) = metered h"
  by (simp_all add: touch_def)

lemma host_inv_touch:
  assumes "host_inv env addr P h" and "p \<in> P"
  shows "host_inv env addr P (touch (peer_to_hex env p) now h)"
proof -
  have "insert (peer_to_hex env p) (fst ` set (last_seen h)) \<subseteq> peer_to_hex env ` P"
    using assms by (simp add: host_inv_def)
  from subset_trans [OF bt_insert_set this]
  have "fst ` set (last_seen (touch (peer_to_hex env p) now h)) \<subseteq> peer_to_hex env ` P"
    by (simp add: touch_def)
  then show ?thesis using assms(1) by (simp add: host_inv_def peer_ok_def)
qed

lemma host_inv_enqueue: "host_inv env addr P (enqueue env x m h) = host_inv env addr P h"
  by (simp add: host_inv_def peer_ok_def)

lemma meter_inv:
  assumes "hex_ok env" and "own_addresses addr P" and "host_inv env addr P h" and "p \<in> P"
  shows "host_inv env addr P (meter env mint (peer_to_hex env p) c now h)"
  unfolding meter_def parse_peer_hex [OF assms(1,2,4)]
  by (rule host_event_inv [OF assms(1-3) _ assms(4)]) simp_all

lemma message_received_inv:
  assumes "hex_ok env" and "own_addresses addr P" and "host_inv env addr P h" and "p \<in> P"
  shows "host_inv env addr P (message_received env mint (peer_to_hex env p) bs now later h)"
  unfolding message_received_def parse_peer_hex [OF assms(1,2,4)]
  by (rule host_event_inv [OF assms(1,2) host_inv_touch [OF assms(3,4)] _ assms(4)]) simp_all

lemma peer_connected_inv:
  assumes "hex_ok env" and "own_addresses addr P" and "host_inv env addr P h" and "p \<in> P"
  shows "host_inv env addr P (fst (peer_connected env mint (peer_to_hex env p) (Some (addr p)) now h))"
proof -
  let ?h = "h\<lparr> peer_ip := bt_insert (peer_to_hex env p) (addr p) (peer_ip h) \<rparr>"
  have "host_inv env addr P ?h"
    using assms(3,4) by (auto simp: host_inv_def peer_ok_def peer_to_hex_inject [OF assms(1)])
  from host_inv_touch [OF this assms(4), of now]
  have "host_inv env addr P (host_event env mint (PeerConnected p) now now (touch (peer_to_hex env p) now ?h))"
    by (rule host_event_inv [OF assms(1,2) _ _ assms(4)]) simp_all
  then show ?thesis
    by (simp add: peer_connected_def Let_def parse_peer_hex [OF assms(1,2,4)] host_inv_enqueue)
qed

lemma disconnected_core:
  "peer_phase (core (host_event env mint (PeerDisconnected p) now later h)) p = None"
  by (simp add: host_event_def host_handle_def handle_peer_disconnected_def dispatch_all_def dispatch_one_def
      peer_phase_def del: execute.simps)

lemma peer_disconnected_inv:
  assumes "hex_ok env" and "own_addresses addr P" and "host_inv env addr P h" and "p \<in> P"
  shows "host_inv env addr P (peer_disconnected env mint (peer_to_hex env p) now h)"
proof -
  let ?h = "host_event env mint (PeerDisconnected p) now now h"
  have "host_inv env addr P ?h"
    by (rule host_event_inv [OF assms(1-3) _ assms(4)]) simp_all
  then have inv: "\<And>q. q \<in> P \<Longrightarrow> peer_ok env addr ?h q"
    and seen: "fst ` set (last_seen ?h) \<subseteq> peer_to_hex env ` P"
    by (simp_all add: host_inv_def)
  have "peer_ok env addr (forget_peer (peer_to_hex env p) ?h) q" if "q \<in> P" for q
    using inv [OF that] disconnected_core [of env mint p now now h]
    by (auto simp: peer_ok_def forget_peer_def peer_to_hex_inject [OF assms(1)])
  moreover have "fst ` set (last_seen (forget_peer (peer_to_hex env p) ?h)) \<subseteq> peer_to_hex env ` P"
    using subset_trans [OF bt_remove_set seen] by (simp add: forget_peer_def)
  ultimately show ?thesis
    by (simp add: host_inv_def peer_disconnected_def parse_peer_hex [OF assms(1,2,4)])
qed

lemma reap_inv:
  assumes "hex_ok env" and "own_addresses addr P" and "host_inv env addr P h"
    and "\<And>x. x \<in> set xs \<Longrightarrow> \<exists>p \<in> P. x = peer_to_hex env p"
  shows "host_inv env addr P (fold (reap_one env mint now) xs h)"
  using assms(3,4)
proof (induction xs arbitrary: h)
  case (Cons x xs)
  obtain p where "p \<in> P" "x = peer_to_hex env p" using Cons.prems(2) by auto
  then have "host_inv env addr P (reap_one env mint now x h)"
    using Cons.prems(1) peer_disconnected_inv [OF assms(1,2)] by (simp add: reap_one_def)
  then show ?case using Cons by simp
qed simp

text \<open>An operation in which the peers are those they say, each at its own address.\<close>

fun own_address :: "'tok host_env \<Rightarrow> (PeerId \<Rightarrow> IpAddr) \<Rightarrow> PeerId set \<Rightarrow> host_op \<Rightarrow> bool" where
  "own_address env addr P (HConnect x ip now) \<longleftrightarrow>
     (\<exists>p \<in> P. x = peer_to_hex env p \<and> ip = Some (addr p))"
| "own_address env addr P (HMessage x bs now later) \<longleftrightarrow> (\<exists>p \<in> P. x = peer_to_hex env p)"
| "own_address env addr P (HMeter x c now) \<longleftrightarrow> (\<exists>p \<in> P. x = peer_to_hex env p)"
| "own_address env addr P (HDisconnect x now) \<longleftrightarrow> (\<exists>p \<in> P. x = peer_to_hex env p)"
| "own_address env addr P (HReap now idle_ms) \<longleftrightarrow> True"
| "own_address env addr P (HDrain x) \<longleftrightarrow> True"

lemma host_step_inv:
  assumes "hex_ok env" and "own_addresses addr P" and "host_inv env addr P h"
    and "own_address env addr P op"
  shows "host_inv env addr P (fst (host_step env h (op, mint)))"
proof (cases op)
  case (HReap now idle_ms)
  let ?idle = "map fst (filter (\<lambda>(_, seen). saturating_sub now seen \<ge> idle_ms) (last_seen h))"
  have "\<exists>p \<in> P. x = peer_to_hex env p" if "x \<in> set ?idle" for x
    using assms(3) that unfolding host_inv_def by force
  from reap_inv [OF assms(1-3) this, of ?idle mint now] show ?thesis
    by (simp add: HReap reap_idle_def)
next
  case (HDrain x)
  then show ?thesis using assms(3) by (simp add: drain_outbox_def host_inv_def peer_ok_def)
qed (use assms in \<open>auto simp: peer_connected_inv message_received_inv meter_inv peer_disconnected_inv\<close>)

lemma host_run_inv:
  assumes "hex_ok env" and "own_addresses addr P" and "host_inv env addr P h"
    and "list_all (\<lambda>(op, mint). own_address env addr P op) ops"
  shows "host_inv env addr P (final (host_step env) h ops)"
  using assms(3,4)
proof (induction ops arbitrary: h)
  case (Cons x ops)
  then show ?case
    using host_step_inv [OF assms(1,2)] by (cases x) (simp add: machine_simps del: run.simps host_step.simps)
qed simp

lemma host_inv_new: "host_inv env addr P (Driver_new w pr)"
  by (simp add: host_inv_def peer_ok_def Driver_new_def set_price_def Session_new_def peer_phase_def bt_empty_def)

text \<open>
  C3. The firewall follows the session. In any sequence of the host's operations from a fresh
  driver, whatever the peers send and the mints answer, as long as every peer keeps its own
  address: a peer's address is in the firewall's paid set exactly when the session holds the
  peer active, and every active peer is metered.
\<close>

theorem firewall_follows_session:
  assumes "hex_ok env" and "own_addresses addr P"
    and "list_all (\<lambda>(op, mint). own_address env addr P op) ops"
    and "h = final (host_step env) (Driver_new w pr) ops" and "p \<in> P"
  shows "(addr p \<in> paid_ips h \<longleftrightarrow> peer_phase (core h) p = Some Active) \<and>
    (peer_phase (core h) p = Some Active \<longrightarrow> peer_to_hex env p \<in> metered h)"
  using host_run_inv [OF assms(1,2) host_inv_new assms(3), of w pr] assms(4,5)
  by (simp add: host_inv_def peer_ok_def)

text \<open>
  The environment of the closed instances: the sample codec and wallet libraries, and an encoding
  of keys that writes each byte as two letters.
\<close>

definition nibble_hex :: "bytes \<Rightarrow> string" where
  "nibble_hex bs = concat (map (\<lambda>b. [char_of (97 + unat b div 16), char_of (97 + unat b mod 16)]) bs)"

fun nibble_unhex :: "string \<Rightarrow> bytes option" where
  "nibble_unhex [] = Some []"
| "nibble_unhex [c] = None"
| "nibble_unhex (c # d # s) =
     map_option (\<lambda>bs. of_nat ((char_nat c - 97) * 16 + (char_nat d - 97)) # bs) (nibble_unhex s)"

lemma nibble_unhex_hex: "nibble_unhex (nibble_hex bs) = Some bs"
proof (induction bs)
  case (Cons b bs)
  have "unat b < 256" using unat_bound [of b] by simp
  then have "char_nat (char_of (97 + unat b div 16)) = 97 + unat b div 16"
    "char_nat (char_of (97 + unat b mod 16)) = 97 + unat b mod 16"
    by (simp_all add: char_nat_def)
  then have "nibble_unhex (nibble_hex (b # bs)) =
      Some (of_nat (unat b div 16 * 16 + unat b mod 16) # bs)"
    using Cons.IH by (simp add: nibble_hex_def)
  then show ?case by (simp add: div_mult_mod_eq)
qed (simp add: nibble_hex_def)

definition sample_env :: "string list host_env" where
  "sample_env =
     \<lparr> cdc = sample_codec, hex_encode = nibble_hex, hex_decode = nibble_unhex, cashu = sample_api,
       own_key = replicate 33 1, own_unit = ''bytes'', own_price = Price_default, own_price_sheet = [] \<rparr>"

lemma sample_env_hex: "hex_ok sample_env"
  by (simp add: hex_ok_def sample_env_def nibble_unhex_hex)

definition sample_hex :: string where
  "sample_hex = peer_to_hex sample_env sample_peer"

definition sample_addresses :: "PeerId \<Rightarrow> IpAddr" where
  "sample_addresses p = V4 0x0A000001"

lemma sample_own_addresses: "own_addresses sample_addresses {sample_peer}"
  by (simp add: own_addresses_def sample_peer_def)

lemma sample_parse: "parse_peer sample_env sample_hex = sample_peer"
  unfolding sample_hex_def by (rule parse_peer_hex [OF sample_env_hex sample_own_addresses]) simp

text \<open>A peer that connects and pays with the token of the sample codec.\<close>

definition sample_ops :: "(host_op \<times> mint_answers) list" where
  "sample_ops =
     [(HConnect sample_hex (Some (V4 0x0A000001)) 1, sample_mint),
      (HMessage sample_hex token_frame 2 3, sample_mint)]"

lemma sample_ops_own: "list_all (\<lambda>(op, mint). own_address sample_env sample_addresses {sample_peer} op) sample_ops"
  by (simp add: sample_ops_def sample_hex_def sample_addresses_def)

lemma sample_verify:
  "verify_token sample_env sample_mint [99] h =
     ((True, 5000), h\<lparr> wallet := record_spent sample_mint (wallet h) [[char_of (99 :: nat)]] \<rparr>)"
  if "\<not> wallet_repo (wallet h)" "accepted_mints (wallet h) = []" "spent_yvalues (wallet h) = {}"
  using that
  by (simp add: verify_token_def from_utf8_def byte_in_def sample_env_def verify_def verify_start_def verify_finish_def
      sample_api_def sample_mint_def token_proof_ys_def check_proofs_unspent_def Let_def)

lemma sample_active:
  "peer_phase (core (final (host_step sample_env)
     (Driver_new (BootstrapWallet_new []) Price_default) sample_ops)) sample_peer = Some Active"
proof -
  have env: "cdc sample_env = sample_codec" "own_price_sheet sample_env = []"
    "peer_to_hex sample_env sample_peer = sample_hex"
    by (simp_all add: sample_env_def sample_hex_def)
  show ?thesis
    by (simp add: sample_ops_def peer_connected_def message_received_def host_event_def host_handle_def dispatch_all_def
        dispatch_one_def sample_parse env Driver_new_def touch_def enqueue_def allow_def deny_def Session_new_def set_price_def
        arm_defs PeerSession_new_def sample_token_frame BootstrapToken_new_def token_bytes_def sample_verify
        BootstrapWallet_new_def with_spent_file_def saturating_add_def Let_def peer_phase_def set_peer_def
        handle_message_def handle_bootstrap_token_def)
qed

theorem firewall_follows_session_witness:
  "peer_phase (core (final (host_step sample_env)
      (Driver_new (BootstrapWallet_new []) Price_default) sample_ops)) sample_peer = Some Active \<and>
   sample_addresses sample_peer \<in> paid_ips (final (host_step sample_env)
      (Driver_new (BootstrapWallet_new []) Price_default) sample_ops)"
  using firewall_follows_session [OF sample_env_hex sample_own_addresses sample_ops_own refl,
      of sample_peer "BootstrapWallet_new []" Price_default] sample_active by simp

end
