(* ===== verification/Host_Exchange.thy ===== *)
theory Host_Exchange
  imports Host_Access
begin

section \<open>Outboxes, reaping and the exchange\<close>

text \<open>
  The host's bookkeeping around the access decisions: what waits for a peer, who is forgotten, and
  what one HTTP exchange answers.
\<close>

subsection \<open>Outboxes\<close>

definition queue_of :: "host \<Rightarrow> string \<Rightarrow> bytes list" where
  "queue_of h x = (case bt_get (outbox h) x of None \<Rightarrow> [] | Some q \<Rightarrow> q)"

definition queues_ok :: "'tok host_env \<Rightarrow> host \<Rightarrow> bool" where
  "queues_ok env h \<longleftrightarrow> (\<forall>x. length (filter (is_report (cdc env)) (queue_of h x)) \<le> 1)"

lemma queue_of_enqueue:
  "queue_of (enqueue env x m h) y =
     (if y = x
      then (if is_report (cdc env) m then filter (\<lambda>f. \<not> is_report (cdc env) f) (queue_of h x) else queue_of h x) @ [m]
      else queue_of h y)"
  by (simp add: queue_of_def enqueue_def Let_def)

lemma queues_ok_enqueue: "queues_ok env h \<Longrightarrow> queues_ok env (enqueue env x m h)"
  by (simp add: queues_ok_def queue_of_enqueue)

lemma queues_ok_update [simp]:
  "queues_ok env (h\<lparr> core := s \<rparr>) = queues_ok env h" "queues_ok env (h\<lparr> wallet := w \<rparr>) = queues_ok env h"
  "queues_ok env (h\<lparr> peer_ip := m \<rparr>) = queues_ok env h" "queues_ok env (h\<lparr> last_seen := l \<rparr>) = queues_ok env h"
  by (simp_all add: queues_ok_def queue_of_def)

lemma queues_ok_remove: "outbox h' = bt_remove x (outbox h) \<Longrightarrow> queues_ok env h \<Longrightarrow> queues_ok env h'"
  by (simp add: queues_ok_def queue_of_def)

lemma queues_ok_execute: "queues_ok env h \<Longrightarrow> queues_ok env (execute env a h)"
proof (cases a)
  case (Send q bs)
  then show "queues_ok env h \<Longrightarrow> ?thesis" by (simp add: queues_ok_enqueue)
qed (auto simp: allow_def deny_def queues_ok_def queue_of_def split: option.split)

lemma queues_ok_executes: "queues_ok env h \<Longrightarrow> queues_ok env (fold (execute env) acts h)"
  by (induction acts arbitrary: h) (simp_all add: queues_ok_execute)

lemma queues_ok_dispatch_one: "queues_ok env h \<Longrightarrow> queues_ok env (dispatch_one env mint later a h)"
proof (cases a)
  case (VerifyBootstrapToken q t)
  assume ok: "queues_ok env h"
  obtain b amount w' where "verify_token env mint t h = ((b, amount), h\<lparr> wallet := w' \<rparr>)"
    using verify_token_frame [of env mint t h] by blast
  then show ?thesis
    using ok VerifyBootstrapToken
    by (simp add: dispatch_one_def host_handle_def case_prod_beta Let_def queues_ok_executes)
qed (simp_all add: dispatch_one_def queues_ok_execute del: execute.simps)

lemma queues_ok_event: "queues_ok env h \<Longrightarrow> queues_ok env (host_event env mint e now later h)"
proof -
  have "queues_ok env g \<Longrightarrow> queues_ok env (dispatch_all env mint later acts g)" for acts g
    unfolding dispatch_all_def by (induction acts arbitrary: g) (simp_all add: queues_ok_dispatch_one)
  then show "queues_ok env h \<Longrightarrow> ?thesis"
    by (simp add: host_event_def host_handle_def case_prod_beta Let_def)
qed

lemma queues_ok_disconnected: "queues_ok env h \<Longrightarrow> queues_ok env (peer_disconnected env mint x now h)"
  unfolding peer_disconnected_def
  by (rule queues_ok_remove [of _ x "host_event env mint (PeerDisconnected (parse_peer env x)) now now h"])
    (simp_all add: forget_peer_def queues_ok_event)

lemma queues_ok_reap: "queues_ok env h \<Longrightarrow> queues_ok env (fold (reap_one env mint now) xs h)"
  by (induction xs arbitrary: h) (simp_all add: reap_one_def queues_ok_disconnected)

lemma queues_ok_connected: "queues_ok env h \<Longrightarrow> queues_ok env (fst (peer_connected env mint x ip now h))"
  by (auto simp: peer_connected_def Let_def touch_def
      intro!: queues_ok_enqueue queues_ok_event split: option.split)

lemma queues_ok_step:
  assumes "queues_ok env h"
  shows "queues_ok env (fst (host_step env h op))"
proof (cases op)
  case (Pair o' mint)
  have touched: "queues_ok env (touch x now h)" for x now
    using assms by (simp add: touch_def)
  show ?thesis
    using assms touched
    by (cases o') (auto simp: Pair queues_ok_connected message_received_def meter_def queues_ok_event
        queues_ok_disconnected reap_idle_def Let_def queues_ok_reap drain_outbox_def intro: queues_ok_remove)
qed

interpretation queues: invariant_machine "host_step env" "queues_ok env" for env
  by unfold_locales (rule queues_ok_step)

text \<open>
  A peer that does not poll is not flooded: whatever the host does, at most one metering report
  waits in each outbox.
\<close>

theorem one_report_per_outbox:
  "length (filter (is_report (cdc env)) (queue_of (final (host_step env) (Driver_new w pr) ops) x)) \<le> 1"
proof -
  have "queues_ok env (Driver_new w pr)"
    by (simp add: queues_ok_def queue_of_def Driver_new_def)
  from queues.inv_run [OF this, of ops] show ?thesis by (simp add: queues_ok_def)
qed


subsection \<open>Forgetting a peer\<close>

lemma disconnected_effect:
  assumes "hex_ok env" and "peer_wf p"
  shows "core (peer_disconnected env mint (peer_to_hex env p) now h) = close_peer p (core h)"
    and "peer_ip (peer_disconnected env mint (peer_to_hex env p) now h) = bt_remove (peer_to_hex env p) (peer_ip h)"
    and "last_seen (peer_disconnected env mint (peer_to_hex env p) now h) =
      bt_remove (peer_to_hex env p) (last_seen h)"
    and "metered (peer_disconnected env mint (peer_to_hex env p) now h) = metered h - {peer_to_hex env p}"
    and "outbox (peer_disconnected env mint (peer_to_hex env p) now h) = bt_remove (peer_to_hex env p) (outbox h)"
    and "paid_ips (peer_disconnected env mint (peer_to_hex env p) now h) =
      (case bt_get (peer_ip h) (peer_to_hex env p) of None \<Rightarrow> paid_ips h | Some a \<Rightarrow> paid_ips h - {a})"
  unfolding peer_disconnected_def parse_peer_wf [OF assms]
  by (cases "bt_get (peer_ip h) (peer_to_hex env p)";
      simp add: forget_peer_def host_event_def host_handle_def handle_peer_disconnected_def dispatch_all_def
        dispatch_one_def deny_def)+

text \<open>
  A peer that moves leaves its old address open. Announcing again from another address only
  overwrites the address the host knows; the firewall keeps the first one, and when the peer is
  disconnected only the second is revoked. The first address stays paid for, with no session left
  that would ever revoke it.
\<close>

theorem roaming_leaves_address_open:
  assumes "hex_ok env" and "peer_wf p" and "x = peer_to_hex env p"
    and "bt_get (peers (core h)) p = Some ps" and "ip1 \<in> paid_ips h" and "ip2 \<noteq> ip1"
    and "h' = final (host_step env) h [(HConnect x (Some ip2) t1, mint), (HDisconnect x t2, mint)]"
  shows "ip1 \<in> paid_ips h' \<and> peer_phase (core h') p = None \<and> bt_get (peer_ip h') x = None"
proof -
  let ?h1 = "fst (peer_connected env mint x (Some ip2) t1 h)"
  have "peer_ip ?h1 = bt_insert x ip2 (peer_ip h)" "paid_ips ?h1 = paid_ips h"
    using assms(4)
    by (simp_all add: peer_connected_def assms(3) parse_peer_wf [OF assms(1,2)] Let_def host_event_def host_handle_def
        handle_peer_connected_def dispatch_all_def)
  then show ?thesis
    using disconnected_effect [OF assms(1,2), of mint t2 ?h1] assms(5,6)
    by (simp add: assms(3,7) peer_phase_def)
qed

lemma sample_peer_wf: "peer_wf sample_peer"
  by (simp add: sample_peer_def)

theorem roaming_leaves_address_open_witness:
  "V4 1 \<in> paid_ips (final (host_step sample_env)
     (Driver_new (BootstrapWallet_new []) Price_default\<lparr> core := paid_session, paid_ips := {V4 1} \<rparr>)
     [(HConnect sample_hex (Some (V4 2)) 5, sample_mint), (HDisconnect sample_hex 6, sample_mint)])"
  using roaming_leaves_address_open [OF sample_env_hex sample_peer_wf sample_hex_def,
      of "Driver_new (BootstrapWallet_new []) Price_default\<lparr> core := paid_session, paid_ips := {V4 1} \<rparr>"
        _ "V4 1" "V4 2" _ 5 sample_mint 6, OF _ _ _ refl] paid_session_get
  by simp


subsection \<open>The reaper\<close>

lemma reap_one_other:
  assumes "hex_ok env" and "peer_wf p" and "peer_wf q" and "q \<noteq> p"
  shows "bt_get (peers (core (reap_one env mint now (peer_to_hex env p) h))) q = bt_get (peers (core h)) q"
    and "bt_get (peer_ip (reap_one env mint now (peer_to_hex env p) h)) (peer_to_hex env q) =
      bt_get (peer_ip h) (peer_to_hex env q)"
    and "peer_to_hex env q \<in> metered (reap_one env mint now (peer_to_hex env p) h) \<longleftrightarrow>
      peer_to_hex env q \<in> metered h"
  using assms(4)
  by (auto simp: reap_one_def disconnected_effect [OF assms(1,2)] peer_to_hex_inject [OF assms(1)])

text \<open>What the host holds for a peer: its session, its address, and whether it is metered.\<close>

definition held :: "'tok host_env \<Rightarrow> host \<Rightarrow> PeerId \<Rightarrow> peer_session option \<times> IpAddr option \<times> bool" where
  "held env h p =
     (bt_get (peers (core h)) p, bt_get (peer_ip h) (peer_to_hex env p), peer_to_hex env p \<in> metered h)"

lemma reap_one_held:
  assumes "hex_ok env" and "peer_wf p" and "peer_wf q"
  shows "held env (reap_one env mint now (peer_to_hex env p) h) q =
    (if q = p \<and> peer_phase (core h) p \<noteq> Some Active then (None, None, False) else held env h q)"
proof (cases "q = p")
  case True
  then show ?thesis
    using parse_peer_wf [OF assms(1,2)]
    by (simp add: held_def reap_one_def disconnected_effect [OF assms(1,2)])
next
  case False
  then show ?thesis using reap_one_other [OF assms] by (simp add: held_def)
qed

lemma reap_held:
  assumes "hex_ok env" and "peer_wf q" and "\<And>x. x \<in> set xs \<Longrightarrow> \<exists>p. peer_wf p \<and> x = peer_to_hex env p"
  shows "held env (fold (reap_one env mint now) xs h) q =
    (if peer_to_hex env q \<in> set xs \<and> peer_phase (core h) q \<noteq> Some Active then (None, None, False)
     else held env h q)"
  using assms(3)
proof (induction xs arbitrary: h)
  case (Cons x xs)
  obtain p where p: "peer_wf p" "x = peer_to_hex env p" using Cons.prems by auto
  have phase: "peer_phase (core g) r = map_option phase (fst (held env g r))" for g r
    by (simp add: held_def peer_phase_def)
  note IH = Cons.IH [of "reap_one env mint now x h"]
  show ?case
    using IH Cons.prems reap_one_held [OF assms(1) p(1) assms(2), of mint now h]
    by (cases "q = p") (auto simp: p(2) phase peer_to_hex_inject [OF assms(1)])
qed simp

text \<open>
  C23. The reaper forgets exactly the idle peers that are not active: after a sweep, a peer whose
  last message is at least the timeout ago and that is not active has no session, no address and
  no metering left; every other peer, an active one whatever its silence, keeps all three.
\<close>

theorem reaper_spares_active:
  assumes "hex_ok env" and "peer_wf q" and "fst ` set (last_seen h) \<subseteq> peer_to_hex env ` Collect peer_wf"
    and "idle = (\<exists>seen. (peer_to_hex env q, seen) \<in> set (last_seen h) \<and> idle_ms \<le> saturating_sub now seen)"
  shows "held env (reap_idle env mint now idle_ms h) q =
    (if idle \<and> peer_phase (core h) q \<noteq> Some Active then (None, None, False) else held env h q)"
proof -
  let ?xs = "map fst (filter (\<lambda>(_, seen). saturating_sub now seen \<ge> idle_ms) (last_seen h))"
  have xs: "\<exists>p. peer_wf p \<and> x = peer_to_hex env p" if "x \<in> set ?xs" for x
    using assms(3) that by force
  have "peer_to_hex env q \<in> set ?xs \<longleftrightarrow> idle" by (force simp: assms(4))
  then show ?thesis
    using reap_held [OF assms(1,2) xs, of ?xs mint now h] by (simp add: reap_idle_def)
qed

theorem reaper_spares_active_witness:
  "held sample_env (reap_idle sample_env sample_mint 900 100
      (Driver_new (BootstrapWallet_new []) Price_default\<lparr> last_seen := [(sample_hex, 5)] \<rparr>)) sample_peer =
   (None, None, False)"
  using reaper_spares_active [OF sample_env_hex sample_peer_wf _ refl,
      of "Driver_new (BootstrapWallet_new []) Price_default\<lparr> last_seen := [(sample_hex, 5)] \<rparr>" sample_mint 900 100]
  by (simp add: sample_hex_def sample_peer_wf saturating_sub_def Driver_new_def set_price_def Session_new_def
      peer_phase_def held_def)


subsection \<open>The exchange\<close>

lemma encode_response_eq:
  "encode_response msgs out = out @ concat (map frame_bytes (filter framable msgs))"
proof (induction msgs arbitrary: out)
  case (Cons m msgs)
  show ?case
  proof (cases "framable m")
    case True
    then show ?thesis using Cons by (simp add: encode_frame_framable)
  next
    case False
    then have "encode_frame m out = Inl TooLong" by (simp add: encode_frame_def framable_def)
    with False Cons show ?thesis by simp
  qed
qed simp

lemma decode_response: "decode_frames (encode_response msgs []) = Inr (filter framable msgs)"
proof -
  have "list_all framable (filter framable msgs)" by (simp add: list_all_iff)
  then have "encode_frames (filter framable msgs) [] = Inr (concat (map frame_bytes (filter framable msgs)))"
    by (simp add: encode_frames_eq)
  then show ?thesis
    using decode_loop_frames [of "filter framable msgs" "[]" "[]"]
    by (auto simp: encode_response_eq decode_frames_def list_all_iff)
qed

text \<open>
  Every exchange answers. A body that is not a sequence of whole frames is refused and changes
  nothing. Any other body is answered with a sequence of whole frames, which decode to the
  messages that waited for the announced peer, in order, less those too long for a frame; and
  nothing waits for that peer afterwards. Without an announcement the answer is empty.
\<close>

theorem exchange_answers:
  "(\<exists>e. decode_frames body = Inl e \<and> http_exchange env mint ip now later body h = (BadRequest e, h)) \<or>
   (\<exists>frames peer_hex h1. decode_frames body = Inr frames \<and>
      fold (exchange_frame env mint ip now later) frames (None, h) = (peer_hex, h1) \<and>
      (case peer_hex of
         None \<Rightarrow> http_exchange env mint ip now later body h = (Ok200 [], h1)
       | Some x \<Rightarrow> \<exists>resp h2. http_exchange env mint ip now later body h = (Ok200 resp, h2) \<and>
           decode_frames resp = Inr (filter framable (queue_of h1 x)) \<and> queue_of h2 x = [] \<and>
           core h2 = core h1))"
proof (cases "decode_frames body")
  case (Inl e)
  then show ?thesis by (simp add: http_exchange_def)
next
  case (Inr frames)
  obtain peer_hex h1 where f: "fold (exchange_frame env mint ip now later) frames (None, h) = (peer_hex, h1)"
    by (cases "fold (exchange_frame env mint ip now later) frames (None, h)")
  show ?thesis
    using Inr f decode_response
    by (cases peer_hex) (simp_all add: http_exchange_def drain_outbox_def queue_of_def Let_def)
qed

lemma exchange_frame_silent:
  assumes "peek_type (cdc env) f = Some Announce \<longrightarrow> dec_announce (cdc env) f = None"
  shows "exchange_frame env mint ip now later f (None, h) = (None, h)"
  using assms by (auto simp: exchange_frame_def split: option.split MessageType.split)

text \<open>
  Nobody acts anonymously: an exchange in which no frame is a well-formed announcement leaves the
  host as it was and gets an empty answer, whatever other messages it carries.
\<close>

theorem exchange_needs_announce:
  assumes "decode_frames body = Inr frames"
    and "list_all (\<lambda>f. peek_type (cdc env) f = Some Announce \<longrightarrow> dec_announce (cdc env) f = None) frames"
  shows "http_exchange env mint ip now later body h = (Ok200 [], h)"
proof -
  have "fold (exchange_frame env mint ip now later) frames (None, h) = (None, h)"
    using assms(2) by (induction frames) (simp_all add: exchange_frame_silent)
  with assms(1) show ?thesis by (simp add: http_exchange_def)
qed

theorem exchange_needs_announce_witness:
  "http_exchange sample_env sample_mint None 1 2 (frame_bytes token_frame)
     (Driver_new (BootstrapWallet_new []) Price_default) =
   (Ok200 [], Driver_new (BootstrapWallet_new []) Price_default)"
proof (rule exchange_needs_announce)
  have "framable token_frame"
    by (simp add: framable_def token_frame_def sample_codec_def MAX_FRAME_LEN_def BootstrapToken_new_def)
  then show "decode_frames (frame_bytes token_frame) = Inr [token_frame]"
    using decode_response [of "[token_frame]"] by (simp add: encode_response_eq)
  show "list_all (\<lambda>f. peek_type (cdc sample_env) f = Some Announce \<longrightarrow> dec_announce (cdc sample_env) f = None)
      [token_frame]"
    using sample_token_frame(1) by (simp add: sample_env_def)
qed

end
