(* ===== verification/Host_Status.thy ===== *)
theory Host_Status
  imports Host_Access
begin

section \<open>The status of a node\<close>

text \<open>
  \<^verbatim>\<open>Driver::status\<close> and \<^verbatim>\<open>decode_pricing\<close> of \<^verbatim>\<open>crates/tollgate-net/src/driver.rs\<close> with the structures and
  figures of \<^verbatim>\<open>src/status.rs\<close>: one entry per peering, merged from the session (what we sell) and
  the upstream loops (what we buy). A drift is the pair of integers it is the quotient of; the
  rendering of an address is a parameter. The tables drawn from a status are not modelled.
\<close>

record peer_pricing =
  pp_per_second :: i64
  pp_per_unit :: i64

definition Pricing_default :: peer_pricing where
  "Pricing_default = \<lparr> pp_per_second = 0, pp_per_unit = 0 \<rparr>"

record peer_status =
  st_pubkey :: string
  st_ip :: "string option"
  st_state :: string
  st_delivered :: u64
  st_received :: u64
  st_our_price :: peer_pricing
  st_their_price :: peer_pricing
  st_their_balance :: i64
  st_our_balance :: i64
  st_metered_secs :: u64
  st_idle_ms :: u64
  st_drift :: "(u64 \<times> u64) option"

record mint_status =
  ms_mint_url :: string
  ms_mint_unit :: string
  ms_price_per_second :: i64
  ms_price_per_unit :: i64

record product_status =
  pst_product_id :: string
  pst_pricing_scale :: u32
  pst_mints :: "mint_status list"

record pricing_status =
  prs_products :: "product_status list"
  prs_min_interval_ms :: u32
  prs_max_interval_ms :: u32

record node_status =
  ns_pubkey :: string
  ns_unit :: string
  ns_peers :: "peer_status list"
  ns_pricing :: pricing_status

definition net_balance :: "peer_status \<Rightarrow> i64" where
  "net_balance p = st_their_balance p - st_our_balance p"

definition state_counts :: "node_status \<Rightarrow> nat \<times> nat \<times> nat" where
  "state_counts s =
     foldl (\<lambda>(active, suspended, other) p.
        if st_state p = ''Active'' then (active + 1, suspended, other)
        else if st_state p = ''Suspended'' then (active, suspended + 1, other)
        else (active, suspended, other + 1)) (0, 0, 0) (ns_peers s)"

fun phase_name :: "PeerPhase \<Rightarrow> string" where
  "phase_name New = ''New''"
| "phase_name BootstrapPending = ''BootstrapPending''"
| "phase_name Active = ''Active''"
| "phase_name Suspended = ''Suspended''"
| "phase_name Closed = ''Closed''"


subsection \<open>Pricing\<close>

definition decode_pricing :: "'tok host_env \<Rightarrow> bytes \<Rightarrow> pricing_status" where
  "decode_pricing env encoded =
     (case dec_price_sheet (cdc env) encoded of
        None \<Rightarrow> \<lparr> prs_products = [], prs_min_interval_ms = 0, prs_max_interval_ms = 0 \<rparr>
      | Some sheet \<Rightarrow>
          \<lparr> prs_products =
              map (\<lambda>p. \<lparr> pst_product_id = hex_encode env (pe_product_id p),
                         pst_pricing_scale = pe_pricing_scale p,
                         pst_mints = map (\<lambda>m. \<lparr> ms_mint_url = mo_mint_url m, ms_mint_unit = mo_mint_unit m,
                                                 ms_price_per_second = mo_price_per_second m,
                                                 ms_price_per_unit = mo_price_per_unit m \<rparr>) (pe_mint_options p) \<rparr>)
                (ps_products sheet),
            prs_min_interval_ms = ir_min_ms (ps_interval sheet),
            prs_max_interval_ms = ir_max_ms (ps_interval sheet) \<rparr>)"


subsection \<open>Peers\<close>

definition pricing_of :: "price \<Rightarrow> peer_pricing" where
  "pricing_of p = \<lparr> pp_per_second = per_second p, pp_per_unit = per_unit p \<rparr>"

definition session_entry ::
    "'tok host_env \<Rightarrow> (IpAddr \<Rightarrow> string) \<Rightarrow> host \<Rightarrow> Millis \<Rightarrow> peer_snapshot \<Rightarrow> peer_status" where
  "session_entry env ip_string h now s =
     (let hex = peer_to_hex env (snap_peer s)
      in \<lparr> st_pubkey = hex,
           st_ip = map_option ip_string (bt_get (peer_ip h) hex),
           st_state = phase_name (snap_phase s),
           st_delivered = snap_delivered s,
           st_received = snap_received s,
           st_our_price = pricing_of (own_price env),
           st_their_price = Pricing_default,
           st_their_balance = snap_balance s,
           st_our_balance = 0,
           st_metered_secs =
             (case snap_metering_start s of None \<Rightarrow> 0 | Some start \<Rightarrow> saturating_sub now start div 1000),
           st_idle_ms = (case bt_get (last_seen h) hex of None \<Rightarrow> 0 | Some t \<Rightarrow> saturating_sub now t),
           st_drift = snap_drift s \<rparr>)"

definition upstream_entry :: "'tok host_env \<Rightarrow> Millis \<Rightarrow> upstream_state \<Rightarrow> peer_status option \<Rightarrow> peer_status" where
  "upstream_entry env now u existing =
     (let up_idle = saturating_sub now (us_last_seen u);
          e = (case existing of
                 Some e \<Rightarrow> e
               | None \<Rightarrow>
                   \<lparr> st_pubkey = us_pubkey u, st_ip = Some (us_url u),
                     st_state = (if us_online u then ''Active'' else ''Cut-off''),
                     st_delivered = 0, st_received = 0,
                     st_our_price = pricing_of (own_price env), st_their_price = Pricing_default,
                     st_their_balance = 0, st_our_balance = 0, st_metered_secs = 0,
                     st_idle_ms = up_idle, st_drift = None \<rparr>)
      in e\<lparr> st_delivered := max (st_delivered e) (us_sent u),
            st_received := max (st_received e) (us_recv u),
            st_their_price := pricing_of (us_price u),
            st_our_balance := us_remaining_scaled u,
            st_metered_secs := max (st_metered_secs e) (us_metered_secs u),
            st_idle_ms := min (st_idle_ms e) up_idle,
            st_drift := (case st_drift e of Some d \<Rightarrow> Some d | None \<Rightarrow> us_drift u) \<rparr>)"

definition merge_upstream ::
    "'tok host_env \<Rightarrow> Millis \<Rightarrow> upstream_state \<Rightarrow> (string, peer_status) btree \<Rightarrow> (string, peer_status) btree" where
  "merge_upstream env now u by_pubkey =
     bt_insert (us_pubkey u) (upstream_entry env now u (bt_get by_pubkey (us_pubkey u))) by_pubkey"

definition file_entry ::
    "'tok host_env \<Rightarrow> (IpAddr \<Rightarrow> string) \<Rightarrow> host \<Rightarrow> Millis \<Rightarrow> peer_snapshot \<Rightarrow>
     (string, peer_status) btree \<Rightarrow> (string, peer_status) btree" where
  "file_entry env ip_string h now s by_pubkey =
     bt_insert (peer_to_hex env (snap_peer s)) (session_entry env ip_string h now s) by_pubkey"

definition session_entries ::
    "'tok host_env \<Rightarrow> (IpAddr \<Rightarrow> string) \<Rightarrow> host \<Rightarrow> Millis \<Rightarrow> (string, peer_status) btree" where
  "session_entries env ip_string h now = fold (file_entry env ip_string h now) (snapshot (core h)) bt_empty"

definition status :: "'tok host_env \<Rightarrow> (IpAddr \<Rightarrow> string) \<Rightarrow> host \<Rightarrow> Millis \<Rightarrow> node_status" where
  "status env ip_string h now =
     \<lparr> ns_pubkey = hex_encode env (own_key env),
       ns_unit = own_unit env,
       ns_peers = map snd (fold (merge_upstream env now) (map snd (upstreams h)) (session_entries env ip_string h now)),
       ns_pricing = decode_pricing env (own_price_sheet env) \<rparr>"


subsection \<open>One entry per peering\<close>

text \<open>A map of entries in which every entry is filed under its own key.\<close>

definition entries_ok :: "(string, peer_status) btree \<Rightarrow> bool" where
  "entries_ok m \<longleftrightarrow> bt_ok m \<and> (\<forall>k e. bt_get m k = Some e \<longrightarrow> st_pubkey e = k)"

lemma entries_ok_insert: "entries_ok m \<Longrightarrow> st_pubkey e = k \<Longrightarrow> entries_ok (bt_insert k e m)"
  by (simp add: entries_ok_def)

lemma entries_list:
  assumes "entries_ok m"
  shows "map st_pubkey (map snd m) = bt_keys m" and "distinct (bt_keys m)"
proof -
  have "st_pubkey (snd kv) = fst kv" if "kv \<in> set m" for kv
    using assms that bt_entry_get [of m "fst kv" "snd kv"] by (simp add: entries_ok_def)
  then show "map st_pubkey (map snd m) = bt_keys m" by (simp add: bt_keys_def)
  show "distinct (bt_keys m)" using assms by (simp add: entries_ok_def bt_ok_def strict_sorted_iff)
qed

lemma upstream_entry_keeps:
  "st_pubkey (upstream_entry env now u (Some e)) = st_pubkey e"
  "st_state (upstream_entry env now u (Some e)) = st_state e"
  "st_their_balance (upstream_entry env now u (Some e)) = st_their_balance e"
  "st_pubkey (upstream_entry env now u None) = us_pubkey u"
  by (simp_all add: upstream_entry_def Let_def)

lemma merge_upstream_ok:
  assumes "entries_ok m"
  shows "entries_ok (merge_upstream env now u m)"
    and "set (bt_keys (merge_upstream env now u m)) = insert (us_pubkey u) (set (bt_keys m))"
  using assms
  by (cases "bt_get m (us_pubkey u)")
    (auto simp: merge_upstream_def bt_keys_insert entries_ok_def upstream_entry_keeps)

lemma merge_upstreams_ok:
  assumes "entries_ok m"
  shows "entries_ok (fold (merge_upstream env now) us m)"
    and "set (bt_keys (fold (merge_upstream env now) us m)) = us_pubkey ` set us \<union> set (bt_keys m)"
  using assms by (induction us arbitrary: m) (simp_all add: merge_upstream_ok)

lemma merge_upstreams_keep:
  assumes "bt_get m k = Some e"
  shows "\<exists>e'. bt_get (fold (merge_upstream env now) us m) k = Some e' \<and>
    st_state e' = st_state e \<and> st_their_balance e' = st_their_balance e"
  using assms
proof (induction us arbitrary: m e)
  case (Cons u us)
  have "\<exists>e1. bt_get (merge_upstream env now u m) k = Some e1 \<and>
      st_state e1 = st_state e \<and> st_their_balance e1 = st_their_balance e"
    using Cons.prems by (auto simp: merge_upstream_def upstream_entry_keeps)
  then show ?case using Cons.IH by fastforce
qed simp

lemma session_entries_fold:
  assumes "entries_ok m"
  shows "entries_ok (fold (file_entry env f h now) ss m)"
    and "set (bt_keys (fold (file_entry env f h now) ss m)) = (\<lambda>s. peer_to_hex env (snap_peer s)) ` set ss \<union> set (bt_keys m)"
  using assms
  by (induction ss arbitrary: m) (simp_all add: file_entry_def entries_ok_insert session_entry_def Let_def bt_keys_insert)

lemma session_entries_get:
  assumes "hex_ok env" and "distinct (map snap_peer ss)" and "s \<in> set ss"
  shows "bt_get (fold (file_entry env f h now) ss m) (peer_to_hex env (snap_peer s)) = Some (session_entry env f h now s)"
  using assms(2,3)
proof (induction ss arbitrary: m)
  case (Cons t ss)
  show ?case
  proof (cases "s \<in> set ss")
    case False
    then have "s = t" using Cons.prems by simp
    have other: "bt_get (fold (file_entry env f h now) us m) (peer_to_hex env (snap_peer t)) = bt_get m (peer_to_hex env (snap_peer t))"
      if "snap_peer t \<notin> snap_peer ` set us" for us m
      using that by (induction us arbitrary: m) (auto simp: file_entry_def peer_to_hex_inject [OF assms(1)])
    from Cons.prems(1) have "snap_peer t \<notin> snap_peer ` set ss" by simp
    from other [OF this] show ?thesis by (simp add: \<open>s = t\<close>) (simp add: file_entry_def)
  qed (use Cons in simp)
qed simp

text \<open>
  The status has exactly one entry for every peering, whether we sell, buy or both: its keys are
  those of the session's peers and of the upstreams, without repetition, and the entry of a
  session peer carries the peer's phase and balance whatever the upstreams add to it.
\<close>

theorem status_one_entry_per_peering:
  assumes "hex_ok env" and "bt_ok (peers (core h))"
  shows "distinct (map st_pubkey (ns_peers (status env f h now))) \<and>
    set (map st_pubkey (ns_peers (status env f h now))) =
      peer_to_hex env ` set (bt_keys (peers (core h))) \<union> us_pubkey ` set (map snd (upstreams h)) \<and>
    (bt_get (peers (core h)) p = Some s \<longrightarrow>
       (\<exists>e \<in> set (ns_peers (status env f h now)). st_pubkey e = peer_to_hex env p \<and>
          st_state e = phase_name (phase s) \<and> st_their_balance e = balance s))"
proof -
  let ?base = "session_entries env f h now"
  let ?m = "fold (merge_upstream env now) (map snd (upstreams h)) ?base"
  have peers: "ns_peers (status env f h now) = map snd ?m" by (simp add: status_def)
  have empty: "entries_ok bt_empty" "bt_keys bt_empty = []"
    by (simp_all add: entries_ok_def) (simp add: bt_empty_def bt_keys_def)
  have snap: "map snap_peer (snapshot (core h)) = bt_keys (peers (core h))"
    by (auto simp: snapshot_def bt_keys_def snapshot_of_def Let_def split: prod.splits)
  have ok0: "entries_ok ?base" and keys0: "set (bt_keys ?base) = peer_to_hex env ` set (bt_keys (peers (core h)))"
    using session_entries_fold [OF empty(1), of env f h now "snapshot (core h)"]
    by (simp_all add: session_entries_def empty(2) image_image flip: snap)
  have ok: "entries_ok ?m" and keys: "set (bt_keys ?m) = us_pubkey ` set (map snd (upstreams h)) \<union> set (bt_keys ?base)"
    by (rule merge_upstreams_ok [OF ok0])+
  have "\<exists>e \<in> set (map snd ?m). st_pubkey e = peer_to_hex env p \<and>
      st_state e = phase_name (phase s) \<and> st_their_balance e = balance s"
    if p: "bt_get (peers (core h)) p = Some s"
  proof -
    let ?s = "snapshot_of p s"
    have s: "?s \<in> set (snapshot (core h))" "snap_peer ?s = p" "snap_phase ?s = phase s" "snap_balance ?s = balance s"
      using bt_get_entry [OF p] by (auto simp: snapshot_def snapshot_of_def Let_def image_iff split: prod.splits)
    have "distinct (map snap_peer (snapshot (core h)))"
      using assms(2) by (simp add: snap bt_ok_def strict_sorted_iff)
    from session_entries_get [OF assms(1) this s(1)]
    have "bt_get ?base (peer_to_hex env p) = Some (session_entry env f h now ?s)"
      by (simp add: session_entries_def s)
    from merge_upstreams_keep [OF this, of env now "map snd (upstreams h)"] obtain e where
      e: "bt_get ?m (peer_to_hex env p) = Some e" "st_state e = phase_name (phase s)" "st_their_balance e = balance s"
      by (auto simp: session_entry_def Let_def s)
    moreover have "st_pubkey e = peer_to_hex env p" using ok e(1) by (simp add: entries_ok_def)
    ultimately show ?thesis using bt_get_entry [OF e(1)] by force
  qed
  with entries_list [OF ok] keys keys0 show ?thesis
    by (metis Un_commute peers set_map)
qed

definition sample_upstream :: upstream_state where
  "sample_upstream =
     \<lparr> us_pubkey = sample_hex, us_url = ''u'', us_price = Price_default, us_remaining_scaled = 70, us_sent = 1,
       us_recv = 2, us_metered_secs = 3, us_drift = None, us_online = True, us_last_seen = 0 \<rparr>"

text \<open>A host that sells to a peer and buys from the same peer.\<close>

definition sample_host :: host where
  "sample_host = (Driver_new (BootstrapWallet_new []) Price_default)
     \<lparr> core := paid_session, upstreams := [(''u'', sample_upstream)] \<rparr>"

theorem status_one_entry_per_peering_witness:
  "set (map st_pubkey (ns_peers (status sample_env (\<lambda>_. []) sample_host 9))) = {sample_hex} \<and>
   (\<exists>e \<in> set (ns_peers (status sample_env (\<lambda>_. []) sample_host 9)).
      st_pubkey e = sample_hex \<and> st_state e = ''Active'' \<and> st_their_balance e = 5000)"
proof -
  have core: "core sample_host = paid_session" "upstreams sample_host = [(''u'', sample_upstream)]"
    by (simp_all add: sample_host_def)
  have p: "peers paid_session = [(sample_peer,
      PeerSession_new\<lparr> balance := 5000, phase := Active, last_counters := None, last_meter_at := 1 \<rparr>)]"
    by (simp add: paid_session_def Session_new_def arm_defs PeerSession_new_def saturating_add_def Let_def bt_empty_def set_peer_def)
  have "bt_ok (peers (core sample_host))" by (simp add: core p bt_ok_def bt_keys_def)
  from status_one_entry_per_peering [OF sample_env_hex this, of "\<lambda>_. []" 9 sample_peer
      "PeerSession_new\<lparr> balance := 5000, phase := Active, last_counters := None, last_meter_at := 1 \<rparr>"]
  show ?thesis
    by (simp add: core paid_session_get)
      (simp add: p bt_keys_def PeerSession_new_def sample_upstream_def flip: sample_hex_def)
qed

end
