(* ===== verification/Rust_Float.thy ===== *)
theory Rust_Float
  imports Complex_Main Prelude "HOL-Library.Log_Nat"
begin

section \<open>Doubles\<close>

text \<open>
  The doubles (\<^verbatim>\<open>f64\<close>) that prices per unit and renewal thresholds are compared in: a finite value is
  the rational number it stands for, and division and the conversion from an unsigned integer round to
  the nearest value with 53 bits of significand, ties to even. The quotients of 64-bit integers lie
  between \<open>2\<^sup>-\<^sup>6\<^sup>4\<close> and \<open>2\<^sup>6\<^sup>4\<close>, so neither overflow nor subnormal values occur in them, and the sign of zero
  is not observed.
\<close>

datatype f64 = Finite rat | Infinite bool | NaN

definition round_even :: "rat \<Rightarrow> int" where
  "round_even x =
     (let f = \<lfloor>x\<rfloor>; d = x - of_int f
      in if d < 1 / 2 then f else if 1 / 2 < d then f + 1 else if even f then f else f + 1)"

text \<open>The exponent of the leading bit of a positive fraction.\<close>

definition leading_bit :: "rat \<Rightarrow> int" where
  "leading_bit q =
     (let (n, d) = quotient_of q; k = bitlen n - bitlen d
      in if q < 2 powi k then k - 1 else k)"

definition round_f64 :: "rat \<Rightarrow> rat" where
  "round_f64 q =
     (if q \<le> 0 then 0
      else let e = leading_bit q - 52 in of_int (round_even (q / 2 powi e)) * 2 powi e)"

definition f64_of_u64 :: "u64 \<Rightarrow> f64" where
  "f64_of_u64 n = Finite (round_f64 (of_nat (unat n)))"

text \<open>Division of the values that occur: neither is negative.\<close>

fun f64_div :: "f64 \<Rightarrow> f64 \<Rightarrow> f64" where
  "f64_div (Finite a) (Finite b) =
     (if b \<noteq> 0 then Finite (round_f64 (a / b)) else if a = 0 then NaN else Infinite True)"
| "f64_div NaN _ = NaN"
| "f64_div _ NaN = NaN"
| "f64_div (Finite a) (Infinite _) = Finite 0"
| "f64_div (Infinite s) (Finite _) = Infinite s"
| "f64_div (Infinite _) (Infinite _) = NaN"

fun f64_less :: "f64 \<Rightarrow> f64 \<Rightarrow> bool" where
  "f64_less (Finite a) (Finite b) \<longleftrightarrow> a < b"
| "f64_less (Finite _) (Infinite s) \<longleftrightarrow> s"
| "f64_less (Infinite s) (Finite _) \<longleftrightarrow> \<not> s"
| "f64_less (Infinite s) (Infinite t) \<longleftrightarrow> \<not> s \<and> t"
| "f64_less NaN _ \<longleftrightarrow> False"
| "f64_less _ NaN \<longleftrightarrow> False"

fun f64_le :: "f64 \<Rightarrow> f64 \<Rightarrow> bool" where
  "f64_le (Finite a) (Finite b) \<longleftrightarrow> a \<le> b"
| "f64_le (Finite _) (Infinite s) \<longleftrightarrow> s"
| "f64_le (Infinite s) (Finite _) \<longleftrightarrow> \<not> s"
| "f64_le (Infinite s) (Infinite t) \<longleftrightarrow> \<not> s \<or> t"
| "f64_le NaN _ \<longleftrightarrow> False"
| "f64_le _ NaN \<longleftrightarrow> False"


subsection \<open>Rounding\<close>

lemma round_even_mono: "x \<le> y \<Longrightarrow> round_even x \<le> round_even y"
proof -
  assume xy: "x \<le> y"
  then have f: "\<lfloor>x\<rfloor> \<le> \<lfloor>y\<rfloor>" by (rule floor_mono)
  have near: "\<lfloor>z\<rfloor> \<le> round_even z" "round_even z \<le> \<lfloor>z\<rfloor> + 1" for z
    by (simp_all add: round_even_def Let_def)
  show ?thesis
  proof (cases "\<lfloor>x\<rfloor> = \<lfloor>y\<rfloor>")
    case True
    then show ?thesis using xy by (auto simp: round_even_def Let_def)
  next
    case False
    then have "\<lfloor>x\<rfloor> + 1 \<le> \<lfloor>y\<rfloor>" using f by simp
    then show ?thesis using near(2) [of x] near(1) [of y] by linarith
  qed
qed

lemma round_even_int [simp]: "round_even (of_int k) = k"
  by (simp add: round_even_def)

lemma leading_bit_bounds:
  assumes "0 < q"
  shows "2 powi leading_bit q \<le> q" and "q < 2 powi (leading_bit q + 1)"
proof -
  obtain n d where nd: "quotient_of q = (n, d)" by (cases "quotient_of q")
  have d: "0 < d" and q: "q = of_int n / of_int d"
    using quotient_of_denom_pos nd quotient_of_div by blast+
  then have n: "0 < n" using assms by (simp add: zero_less_divide_iff)
  define a b where "a = bitlen n" and "b = bitlen d"
  have bit: "(2 :: rat) powi (bitlen z - 1) \<le> of_int z \<and> (of_int z :: rat) < 2 powi (bitlen z)" if z: "0 < z" for z
  proof -
    have bp: "0 < bitlen z" using z bitlen_nonneg [of z] bitlen_eq_zero_iff [of z] by linarith
    from z have "(2 :: int) ^ nat (bitlen z - 1) \<le> z \<and> z < 2 ^ nat (bitlen z)"
      using bitlen_bounds by blast
    then have "(of_int (2 ^ nat (bitlen z - 1)) :: rat) \<le> of_int z \<and> (of_int z :: rat) < of_int (2 ^ nat (bitlen z))"
      by (simp only: of_int_le_iff of_int_less_iff)
    then show ?thesis using bp by (simp add: power_int_def)
  qed
  have nb: "2 powi (a - 1) \<le> (of_int n :: rat)" "(of_int n :: rat) < 2 powi a" using bit [OF n] by (simp_all add: a_def)
  have db: "2 powi (b - 1) \<le> (of_int d :: rat)" "(of_int d :: rat) < 2 powi b" using bit [OF d] by (simp_all add: b_def)
  have low: "2 powi (a - b - 1) \<le> q"
  proof -
    have "2 powi (a - b - 1) * of_int d \<le> (2 powi (a - b - 1) * 2 powi b :: rat)"
      using db by (intro mult_left_mono) simp_all
    also have "\<dots> = 2 powi (a - 1)" by (simp add: power_int_add [symmetric])
    also have "\<dots> \<le> of_int n" by (rule nb)
    finally show ?thesis using d q by (simp add: pos_le_divide_eq)
  qed
  have high: "q < 2 powi (a - b + 1)"
  proof -
    have "(of_int n :: rat) < 2 powi a" by (rule nb)
    also have "\<dots> = 2 powi (a - b + 1) * 2 powi (b - 1)" by (simp add: power_int_add [symmetric])
    also have "\<dots> \<le> 2 powi (a - b + 1) * of_int d" using db by (intro mult_left_mono) simp_all
    finally show ?thesis using d q by (simp add: pos_divide_less_eq)
  qed
  show "2 powi leading_bit q \<le> q" "q < 2 powi (leading_bit q + 1)"
    using low high by (auto simp: leading_bit_def nd a_def [symmetric] b_def [symmetric] Let_def not_less)
qed

lemma leading_bit_mono: "0 < p \<Longrightarrow> p \<le> q \<Longrightarrow> leading_bit p \<le> leading_bit q"
proof (rule ccontr)
  assume a: "0 < p" "p \<le> q" "\<not> leading_bit p \<le> leading_bit q"
  then have "leading_bit q + 1 \<le> leading_bit p" by simp
  then have "(2 :: rat) powi (leading_bit q + 1) \<le> 2 powi leading_bit p" by (intro power_int_increasing) simp_all
  then show False using a leading_bit_bounds [of p] leading_bit_bounds [of q] by linarith
qed

text \<open>A rounded value stays in the binade of its argument, or is the next power of two.\<close>

lemma round_f64_bounds:
  assumes "0 < q"
  shows "2 powi leading_bit q \<le> round_f64 q" and "round_f64 q \<le> 2 powi (leading_bit q + 1)"
proof -
  define e where "e = leading_bit q - 52"
  have pow: "(2 :: rat) powi (52 + e) = 2 ^ 52 * 2 powi e" "(2 :: rat) powi (53 + e) = 2 ^ 53 * 2 powi e"
    by (simp_all add: power_int_add)
  have "2 ^ 52 \<le> q / 2 powi e" "q / 2 powi e \<le> 2 ^ 53"
    using leading_bit_bounds [OF assms] pow
    by (simp_all add: e_def pos_le_divide_eq pos_divide_le_eq add.commute)
  then have "round_even (of_int (2 ^ 52)) \<le> round_even (q / 2 powi e)" "round_even (q / 2 powi e) \<le> round_even (of_int (2 ^ 53))"
    by (intro round_even_mono; simp)+
  then have "(of_int (2 ^ 52) :: rat) \<le> of_int (round_even (q / 2 powi e))"
    "(of_int (round_even (q / 2 powi e)) :: rat) \<le> of_int (2 ^ 53)"
    unfolding round_even_int by (simp_all only: of_int_le_iff)
  then have "2 ^ 52 * 2 powi e \<le> of_int (round_even (q / 2 powi e)) * (2 powi e :: rat)"
    "of_int (round_even (q / 2 powi e)) * (2 powi e :: rat) \<le> 2 ^ 53 * 2 powi e"
    by (intro mult_right_mono; simp)+
  then show "2 powi leading_bit q \<le> round_f64 q" "round_f64 q \<le> 2 powi (leading_bit q + 1)"
    using assms pow by (simp_all add: round_f64_def Let_def e_def [symmetric] add.commute) (simp_all add: e_def)
qed

lemma round_f64_nonneg: "0 \<le> round_f64 q"
proof (cases "q \<le> 0")
  case False
  then have "2 powi leading_bit q \<le> round_f64 q" by (simp add: round_f64_bounds)
  moreover have "(0 :: rat) < 2 powi leading_bit q" by simp
  ultimately show ?thesis by linarith
qed (simp add: round_f64_def)

lemma round_f64_pos: "0 < q \<Longrightarrow> 0 < round_f64 q"
  using round_f64_bounds(1) [of q] zero_less_power_int [of "2 :: rat" "leading_bit q"] by linarith

lemma round_f64_mono:
  assumes "p \<le> q"
  shows "round_f64 p \<le> round_f64 q"
proof (cases "p \<le> 0")
  case True
  then show ?thesis using round_f64_nonneg by (simp add: round_f64_def)
next
  case False
  then have p: "0 < p" "0 < q" using assms by simp_all
  show ?thesis
  proof (cases "leading_bit p = leading_bit q")
    case True
    define e where "e = leading_bit q - 52"
    have "round_even (p / 2 powi e) \<le> round_even (q / 2 powi e)"
      using assms by (intro round_even_mono divide_right_mono) simp_all
    then show ?thesis using p True
      by (simp add: round_f64_def Let_def e_def [symmetric] mult_right_mono)
  next
    case False
    then have "leading_bit p + 1 \<le> leading_bit q" using leading_bit_mono [OF p(1) assms] by simp
    then have "(2 :: rat) powi (leading_bit p + 1) \<le> 2 powi leading_bit q" by (intro power_int_increasing) simp_all
    then show ?thesis using round_f64_bounds [OF p(1)] round_f64_bounds [OF p(2)] by linarith
  qed
qed

lemma round_f64_0 [simp]: "round_f64 0 = 0"
  by (simp add: round_f64_def)

lemma leading_bit_1 [simp]: "leading_bit 1 = 0"
  by (simp add: leading_bit_def)

lemma round_f64_1 [simp]: "round_f64 1 = 1"
proof -
  have "round_even (1 / 2 powi (- 52)) = 2 ^ 52"
    using round_even_int [of "2 ^ 52"] by (simp add: power_int_minus)
  then show ?thesis by (simp add: round_f64_def power_int_minus)
qed

text \<open>The quotient of two integers is at least one as soon as the first is at least the second.\<close>

lemma f64_quotient_ge_one:
  assumes "0 < b" and "b \<le> a"
  shows "f64_le (Finite 1) (f64_div (f64_of_u64 a) (f64_of_u64 b))"
proof -
  let ?a = "round_f64 (of_nat (unat a))" and ?b = "round_f64 (of_nat (unat b))"
  have b: "0 < ?b" using assms(1) by (intro round_f64_pos) (simp add: word_less_nat_alt del: of_nat_unat)
  have "?b \<le> ?a" using assms(2) by (intro round_f64_mono) (simp add: word_le_nat_alt del: of_nat_unat)
  then have "1 \<le> ?a / ?b" using b by simp
  from round_f64_mono [OF this] show ?thesis using b by (simp add: f64_of_u64_def)
qed

lemma f64_le_trans: "f64_le a b \<Longrightarrow> f64_le b c \<Longrightarrow> f64_le a c"
  by (cases a; cases b; cases c) auto

end
