(* ===== verification/V1_Pricing.thy ===== *)
theory V1_Pricing
  imports Rust_Float
begin

section \<open>Buying from a v1 upstream: pricing\<close>

text \<open>
  \<^verbatim>\<open>crates/tollgate-net/src/v1_compat/pricing.rs\<close>: choosing among the pricing options an upstream
  advertises, checking a price against the budget and deciding whom to trust.
\<close>

record pricing_option =
  asset_type :: string
  price_per_step :: u64
  po_unit :: string
  po_mint_url :: string
  min_steps :: u64

datatype PricingError =
    NoCompatibleMint
  | PriceTooHigh f64 string f64
  | UnsupportedMetric string
  | InsufficientFunds u64 u64
  | PubkeyBlocked string
  | PubkeyNotAllowed string
  | TrustDenied string

definition compatible :: "string list \<Rightarrow> string \<Rightarrow> pricing_option \<Rightarrow> bool" where
  "compatible our_mints our_unit opt \<longleftrightarrow> po_mint_url opt \<in> set our_mints \<and> po_unit opt = our_unit"

text \<open>\<^verbatim>\<open>Iterator::min_by_key\<close>: the first of the elements with the least key.\<close>

fun min_by_price :: "pricing_option list \<Rightarrow> pricing_option option" where
  "min_by_price [] = None"
| "min_by_price (x # xs) =
     (case min_by_price xs of
        None \<Rightarrow> Some x
      | Some m \<Rightarrow> Some (if price_per_step m < price_per_step x then m else x))"

definition select_cheapest_compatible ::
    "pricing_option list \<Rightarrow> string list \<Rightarrow> string \<Rightarrow> PricingError + pricing_option" where
  "select_cheapest_compatible opts our_mints our_unit =
     (let c = filter (compatible our_mints our_unit) opts
      in if c = [] then Inl NoCompatibleMint
         else case min_by_price c of None \<Rightarrow> Inl NoCompatibleMint | Some opt \<Rightarrow> Inr opt)"

definition validate_budget :: "pricing_option \<Rightarrow> u64 \<Rightarrow> string \<Rightarrow> f64 \<Rightarrow> f64 \<Rightarrow> PricingError + unit" where
  "validate_budget opt step_size metric max_per_ms max_per_byte =
     (let price_per_unit = f64_div (f64_of_u64 (price_per_step opt)) (f64_of_u64 step_size);
          check = (\<lambda>max_price unit_name.
            if f64_less max_price price_per_unit then Inl (PriceTooHigh price_per_unit unit_name max_price) else Inr ())
      in if metric = ''milliseconds'' then check max_per_ms ''millisecond''
         else if metric = ''bytes'' then check max_per_byte ''byte''
         else Inl (UnsupportedMetric metric))"

definition pricing_allotment :: "u64 \<Rightarrow> u64 \<Rightarrow> u64" where
  "pricing_allotment steps step_size = steps * step_size"

definition affordable_steps :: "u64 \<Rightarrow> u64 \<Rightarrow> u64 \<Rightarrow> u64" where
  "affordable_steps bal price least =
     (if price = 0 then 0
      else let steps = bal div price in if steps < least then 0 else steps)"

definition validate_trust_policy ::
    "string \<Rightarrow> string list \<Rightarrow> string list \<Rightarrow> string \<Rightarrow> PricingError + unit" where
  "validate_trust_policy pubkey allowlist blocklist default_policy =
     (if pubkey \<in> set blocklist then Inl (PubkeyBlocked pubkey)
      else if allowlist \<noteq> [] then
        (if pubkey \<in> set allowlist then Inr () else Inl (PubkeyNotAllowed pubkey))
      else if default_policy = ''trust_all'' then Inr ()
      else if default_policy = ''trust_none'' then
        Inl (TrustDenied (''pubkey '' @ pubkey @ '' rejected by default trust_none policy''))
      else Inl (TrustDenied (''unknown default policy: '' @ default_policy)))"

definition purchase_steps :: "u64 \<Rightarrow> u64 \<Rightarrow> pricing_option \<Rightarrow> u64" where
  "purchase_steps preferred_allotment step_size opt =
     (let effective = (if step_size = 0 then 1 else step_size)
      in max (max (preferred_allotment div effective) 1) (min_steps opt))"

definition select_compatible_with_funds ::
    "pricing_option list \<Rightarrow> string list \<Rightarrow> string \<Rightarrow> u64 \<Rightarrow> u64 \<Rightarrow> u64 \<Rightarrow> PricingError + pricing_option" where
  "select_compatible_with_funds opts our_mints our_unit bal preferred step_size =
     (let c = filter (compatible our_mints our_unit) opts;
          cost = (\<lambda>opt. purchase_steps preferred step_size opt * price_per_step opt)
      in if c = [] then Inl NoCompatibleMint
         else case find (\<lambda>opt. bal \<ge> cost opt) c of
                Some opt \<Rightarrow> Inr opt
              | None \<Rightarrow>
                  (case min_by_price c of
                     Some cheapest \<Rightarrow> Inl (InsufficientFunds (cost cheapest) bal)
                   | None \<Rightarrow> Inl NoCompatibleMint))"


subsection \<open>The cheapest option\<close>

lemma min_by_price_None [simp]: "min_by_price xs = None \<longleftrightarrow> xs = []"
  by (cases xs) (auto split: option.split)

lemma min_by_price_Some:
  "min_by_price xs = Some m \<Longrightarrow> m \<in> set xs \<and> (\<forall>x \<in> set xs. price_per_step m \<le> price_per_step x)"
proof (induction xs arbitrary: m)
  case (Cons x xs)
  show ?case
  proof (cases "min_by_price xs")
    case None
    with Cons.prems show ?thesis by simp
  next
    case (Some m')
    with Cons.prems Cons.IH [OF Some] show ?thesis
      by (auto split: if_splits)
  qed
qed simp

text \<open>
  The selection is sound and complete: it succeeds exactly when some advertised option is at one
  of our mints in our unit, and then it returns such an option with the least price per step.
\<close>

theorem select_cheapest_correct:
  "(case select_cheapest_compatible opts our_mints our_unit of
      Inr opt \<Rightarrow> opt \<in> set opts \<and> compatible our_mints our_unit opt \<and>
        list_all (\<lambda>o'. price_per_step opt \<le> price_per_step o') (filter (compatible our_mints our_unit) opts)
    | Inl e \<Rightarrow> e = NoCompatibleMint \<and> filter (compatible our_mints our_unit) opts = [])"
proof (cases "min_by_price (filter (compatible our_mints our_unit) opts)")
  case None
  then show ?thesis by (simp add: select_cheapest_compatible_def)
next
  case (Some m)
  then have "filter (compatible our_mints our_unit) opts \<noteq> []" by auto
  then show ?thesis
    using min_by_price_Some [OF Some] Some
    by (simp add: select_cheapest_compatible_def Let_def list_all_iff)
qed

text \<open>The price of a unit grows with the price of a step and shrinks with the size of the step.\<close>

lemma f64_of_u64_le: "m \<le> n \<Longrightarrow> f64_le (f64_of_u64 m) (f64_of_u64 n)"
  by (simp add: f64_of_u64_def round_f64_mono word_le_nat_alt del: of_nat_unat)

lemma unit_price_mono:
  assumes "p \<le> p'" and "0 < s'" and "s' \<le> s"
  shows "f64_le (f64_div (f64_of_u64 p) (f64_of_u64 s)) (f64_div (f64_of_u64 p') (f64_of_u64 s'))"
proof -
  let ?r = "\<lambda>n :: u64. round_f64 (of_nat (unat n))"
  have s': "0 < ?r s'" using assms(2) by (intro round_f64_pos) (simp add: word_less_nat_alt del: of_nat_unat)
  have "?r p \<le> ?r p'" "?r s' \<le> ?r s"
    using assms f64_of_u64_le [of p p'] f64_of_u64_le [of s' s] by (simp_all add: f64_of_u64_def)
  then have "?r p / ?r s \<le> ?r p' / ?r s'"
    using s' round_f64_nonneg by (intro frac_le) auto
  then show ?thesis using s' \<open>?r s' \<le> ?r s\<close> by (simp add: f64_of_u64_def round_f64_mono)
qed

lemma f64_less_le: "\<not> f64_less a b \<Longrightarrow> f64_le c b \<Longrightarrow> \<not> f64_less a c"
  by (cases a; cases b; cases c) auto

text \<open>
  The budget is consistent: an offer that is no dearer per step and whose steps are no smaller than
  those of an accepted offer is accepted too.
\<close>

theorem budget_accepts_cheaper:
  assumes "validate_budget opt s' metric max_per_ms max_per_byte = Inr ()"
    and "price_per_step opt' \<le> price_per_step opt" and "0 < s'" and "s' \<le> s"
  shows "validate_budget opt' s metric max_per_ms max_per_byte = Inr ()"
  using assms(1) unit_price_mono [OF assms(2-4)] f64_less_le
  by (auto simp: validate_budget_def Let_def split: if_splits)

theorem budget_accepts_cheaper_witness:
  "validate_budget \<lparr> asset_type = ''cashu'', price_per_step = 0, po_unit = ''sat'', po_mint_url = ''m'', min_steps = 0 \<rparr> 2
     ''bytes'' (Finite 0) (Finite 0) = Inr ()"
proof (rule budget_accepts_cheaper)
  show "validate_budget \<lparr> asset_type = ''cashu'', price_per_step = 0, po_unit = ''sat'', po_mint_url = ''m'', min_steps = 0 \<rparr> 1
     ''bytes'' (Finite 0) (Finite 0) = Inr ()"
    by (simp add: validate_budget_def f64_of_u64_def)
qed simp_all

lemma zero_limit_refuses:
  assumes "0 < price_per_step opt" and "0 < step_size"
  shows "\<exists>e. validate_budget opt step_size metric (Finite 0) (Finite 0) = Inl e"
proof -
  let ?r = "\<lambda>n :: u64. round_f64 (of_nat (unat n))"
  have "0 < ?r (price_per_step opt)" "0 < ?r step_size"
    using assms by (auto intro!: round_f64_pos simp: word_less_nat_alt simp del: of_nat_unat)
  then have "f64_less (Finite 0) (f64_div (f64_of_u64 (price_per_step opt)) (f64_of_u64 step_size))"
    by (simp add: f64_of_u64_def round_f64_pos)
  then show ?thesis by (auto simp: validate_budget_def Let_def)
qed

text \<open>
  A budget of zero is a limit of zero: with both maxima at zero every offer that costs anything is
  refused, although the configuration documents zero as having no limit.
\<close>

theorem zero_budget_refuses:
  assumes "0 < price_per_step opt" and "0 < step_size"
  shows "\<exists>e. validate_budget opt step_size metric (Finite 0) (Finite 0) = Inl e"
  using assms by (rule zero_limit_refuses)

theorem zero_budget_refuses_witness:
  "\<exists>e. validate_budget \<lparr> asset_type = ''cashu'', price_per_step = 1, po_unit = ''sat'', po_mint_url = ''m'', min_steps = 0 \<rparr>
     60000 ''milliseconds'' (Finite 0) (Finite 0) = Inl e"
  by (rule zero_budget_refuses) simp_all

text \<open>
  What an option is bought for can be paid: if an option is selected, then it is compatible, and
  unless the product of steps and price exceeds 64 bits the balance covers at least the preferred
  allotment and the option's minimum at its price.
\<close>

theorem selected_option_affordable:
  assumes "select_compatible_with_funds opts our_mints our_unit bal preferred step_size = Inr opt"
    and "unat (purchase_steps preferred step_size opt) * unat (price_per_step opt) < 2 ^ 64"
  shows "opt \<in> set opts \<and> compatible our_mints our_unit opt \<and>
    unat (purchase_steps preferred step_size opt) * unat (price_per_step opt) \<le> unat bal \<and>
    unat (min_steps opt) \<le> unat (purchase_steps preferred step_size opt) \<and>
    unat preferred div (if step_size = 0 then 1 else unat step_size) \<le> unat (purchase_steps preferred step_size opt)"
proof -
  let ?n = "purchase_steps preferred step_size opt"
  have "find (\<lambda>o'. purchase_steps preferred step_size o' * price_per_step o' \<le> bal)
      (filter (compatible our_mints our_unit) opts) = Some opt"
    using assms(1)
    by (auto simp: select_compatible_with_funds_def Let_def split: if_splits option.splits)
  then have "opt \<in> set (filter (compatible our_mints our_unit) opts)" and "?n * price_per_step opt \<le> bal"
    by (auto simp: find_Some_iff simp del: set_filter)
  moreover have "unat (?n * price_per_step opt) = unat ?n * unat (price_per_step opt)"
    using assms(2) by (simp add: unat_word_ariths)
  moreover have "unat (min_steps opt) \<le> unat ?n"
    by (simp add: purchase_steps_def Let_def rust_num)
  moreover have "unat preferred div (if step_size = 0 then 1 else unat step_size) \<le> unat ?n"
    by (auto simp: purchase_steps_def Let_def rust_num unat_div le_max_iff_disj)
  ultimately show ?thesis by (simp add: word_le_nat_alt)
qed

definition sample_option :: pricing_option where
  "sample_option = \<lparr> asset_type = ''cashu'', price_per_step = 3, po_unit = ''sat'', po_mint_url = ''m'', min_steps = 2 \<rparr>"

theorem selected_option_affordable_witness:
  "select_compatible_with_funds [sample_option] [''m''] ''sat'' 100 50 10 = Inr sample_option \<and>
   unat (purchase_steps 50 10 sample_option) * unat (price_per_step sample_option) \<le> unat (100 :: u64)"
proof -
  have s: "purchase_steps 50 10 sample_option = 5"
    by (simp add: purchase_steps_def sample_option_def)
  have sel: "select_compatible_with_funds [sample_option] [''m''] ''sat'' 100 50 10 = Inr sample_option"
    by (simp add: select_compatible_with_funds_def s compatible_def) (simp add: sample_option_def)
  have "price_per_step sample_option = 3" by (simp add: sample_option_def)
  with sel selected_option_affordable [OF sel] show ?thesis by (simp add: s)
qed

text \<open>
  Where the product of steps and price exceeds 64 bits it wraps, and an option is selected that
  the balance does not nearly cover: here two steps of \<open>2 ^ 63\<close> for an empty wallet.
\<close>

theorem unaffordable_option_selected:
  "select_compatible_with_funds [sample_option\<lparr> price_per_step := 0x8000000000000000 \<rparr>] [''m''] ''sat'' 0 1 1 =
   Inr (sample_option\<lparr> price_per_step := 0x8000000000000000 \<rparr>)"
proof -
  let ?o = "sample_option\<lparr> price_per_step := 0x8000000000000000 \<rparr>"
  have "purchase_steps 1 1 ?o = 2" by (simp add: purchase_steps_def sample_option_def)
  moreover have "compatible [''m''] ''sat'' ?o" by (simp add: compatible_def sample_option_def)
  moreover have "(2 :: u64) * 0x8000000000000000 = 0" by simp
  ultimately show ?thesis by (simp add: select_compatible_with_funds_def)
qed

text \<open>
  The trust policy blocks first: a pubkey is accepted exactly when it is not on the block list
  and either is on the allow list or that list is empty and the default policy trusts all.
\<close>

theorem trust_policy_decides:
  "validate_trust_policy pubkey allowlist blocklist policy = Inr () \<longleftrightarrow>
     pubkey \<notin> set blocklist \<and> (pubkey \<in> set allowlist \<or> allowlist = [] \<and> policy = ''trust_all'')"
  by (auto simp: validate_trust_policy_def)

end
