(* ===== verification/V1_Events.thy ===== *)
theory V1_Events
  imports V1_Pricing Rust_Strings
begin

section \<open>The Nostr events of the v1 protocol\<close>

text \<open>
  \<^verbatim>\<open>crates/tollgate-net/src/v1_compat/nostr.rs\<close>: reading the tags of advertisements, session grants
  and notices. An event is its kind, its tags as lists of strings and its content; signing and
  the JSON form are those of the \<^verbatim>\<open>nostr\<close> crate, a parameter. \<open>nostr_ok\<close> states what is documented
  of it: an event read back from its JSON is the event, and a builder's kind, content and tags are
  kept by signing, except for \<^verbatim>\<open>p\<close> tags that name the author.
\<close>

record event_builder =
  ev_kind :: nat
  ev_tags :: "string list list"
  ev_content :: string

record nostr_event = event_builder +
  ev_pubkey :: string

record nostr_api =
  author :: string
  sign_with_keys :: "event_builder \<Rightarrow> nostr_event option"
  as_json :: "nostr_event \<Rightarrow> string"
  event_from_json :: "string \<Rightarrow> nostr_event option"

definition self_tagged :: "string \<Rightarrow> string list \<Rightarrow> bool" where
  "self_tagged me tag \<longleftrightarrow> take 2 tag = [''p'', me]"

definition nostr_ok :: "nostr_api \<Rightarrow> bool" where
  "nostr_ok api \<longleftrightarrow>
     (\<forall>e. event_from_json api (as_json api e) = Some e) \<and>
     (\<forall>b e. sign_with_keys api b = Some e \<longrightarrow>
        ev_kind e = ev_kind b \<and> ev_content e = ev_content b \<and>
        ev_tags e = filter (\<lambda>t. \<not> self_tagged (author api) t) (ev_tags b))"

datatype V1NostrError = WrongKind nat nat | EventParse | EventBuild

text \<open>The three \<^verbatim>\<open>from_json\<close> functions differ in the kind they expect.\<close>

definition ADVERTISEMENT_KIND :: nat where
  "ADVERTISEMENT_KIND = 10021"

definition SESSION_KIND :: nat where
  "SESSION_KIND = 1022"

definition NOTICE_KIND :: nat where
  "NOTICE_KIND = 21023"

definition event_of_kind :: "nostr_api \<Rightarrow> nat \<Rightarrow> string \<Rightarrow> V1NostrError + nostr_event" where
  "event_of_kind api expected json =
     (case event_from_json api json of
        None \<Rightarrow> Inl EventParse
      | Some e \<Rightarrow> if ev_kind e \<noteq> expected then Inl (WrongKind expected (ev_kind e)) else Inr e)"

definition Advertisement_from_json :: "nostr_api \<Rightarrow> string \<Rightarrow> V1NostrError + nostr_event" where
  "Advertisement_from_json api = event_of_kind api ADVERTISEMENT_KIND"

definition SessionEvent_from_json :: "nostr_api \<Rightarrow> string \<Rightarrow> V1NostrError + nostr_event" where
  "SessionEvent_from_json api = event_of_kind api SESSION_KIND"

definition NoticeEvent_from_json :: "nostr_api \<Rightarrow> string \<Rightarrow> V1NostrError + nostr_event" where
  "NoticeEvent_from_json api = event_of_kind api NOTICE_KIND"


subsection \<open>Tags\<close>

definition item :: "nat \<Rightarrow> string list \<Rightarrow> string option" where
  "item i tag = (if i < length tag then Some (tag ! i) else None)"

text \<open>The loop that every accessor runs: the first tag of that name, and its item at an index.\<close>

fun tag_item :: "string \<Rightarrow> nat \<Rightarrow> string list list \<Rightarrow> string option" where
  "tag_item name i [] = None"
| "tag_item name i (tag # ts) = (if item 0 tag = Some name then item i tag else tag_item name i ts)"

definition tag_value :: "nostr_event \<Rightarrow> string \<Rightarrow> string option" where
  "tag_value e name = tag_item name 1 (ev_tags e)"

definition adv_metric :: "nostr_event \<Rightarrow> string option" where
  "adv_metric e = tag_value e ''metric''"

definition adv_step_size :: "nostr_event \<Rightarrow> u64 option" where
  "adv_step_size e = Option.bind (tag_value e ''step_size'') parse_u64"

definition option_of_tag :: "string list \<Rightarrow> pricing_option" where
  "option_of_tag items =
     \<lparr> asset_type = items ! 1,
       price_per_step = (case parse_u64 (items ! 2) of None \<Rightarrow> 0 | Some n \<Rightarrow> n),
       po_unit = items ! 3,
       po_mint_url = items ! 4,
       min_steps = (case Option.bind (item 5 items) parse_u64 of None \<Rightarrow> 0 | Some n \<Rightarrow> n) \<rparr>"

definition pricing_options :: "nostr_event \<Rightarrow> pricing_option list" where
  "pricing_options e =
     map option_of_tag
       (filter (\<lambda>items. item 0 items = Some ''price_per_step'' \<and> 5 \<le> length items) (ev_tags e))"

definition adv_tips :: "nostr_event \<Rightarrow> u32 list" where
  "adv_tips e =
     concat (map (\<lambda>items. if item 0 items = Some ''tips'' then List.map_filter parse_u32 (drop 1 items) else [])
       (ev_tags e))"

definition session_allotment :: "nostr_event \<Rightarrow> u64 option" where
  "session_allotment e = Option.bind (tag_item ''allotment'' 1 (ev_tags e)) parse_u64"

definition session_metric :: "nostr_event \<Rightarrow> string option" where
  "session_metric e = tag_item ''metric'' 1 (ev_tags e)"

definition device_identifier :: "nostr_event \<Rightarrow> string option" where
  "device_identifier e = tag_item ''device-identifier'' 2 (ev_tags e)"

definition session_start_time :: "nostr_event \<Rightarrow> i64 option" where
  "session_start_time e = Option.bind (tag_item ''start-time'' 1 (ev_tags e)) parse_i64"

definition customer_pubkey :: "nostr_event \<Rightarrow> string option" where
  "customer_pubkey e = tag_item ''p'' 1 (ev_tags e)"

definition notice_level :: "nostr_event \<Rightarrow> string option" where
  "notice_level e = tag_item ''level'' 1 (ev_tags e)"

definition notice_code :: "nostr_event \<Rightarrow> string option" where
  "notice_code e = tag_item ''code'' 1 (ev_tags e)"

definition notice_message :: "nostr_event \<Rightarrow> string" where
  "notice_message e = ev_content e"

definition build_payment_event ::
    "nostr_api \<Rightarrow> string \<Rightarrow> string \<Rightarrow> string \<Rightarrow> V1NostrError + nostr_event" where
  "build_payment_event api tollgate_pubkey mac token =
     (case sign_with_keys api
             \<lparr> ev_kind = 21000,
               ev_tags = [[''p'', tollgate_pubkey], [''device-identifier'', ''mac'', mac], [''payment'', token]],
               ev_content = [] \<rparr> of
        None \<Rightarrow> Inl EventBuild
      | Some e \<Rightarrow> Inr e)"


subsection \<open>Signed and read back\<close>

text \<open>Tags that are no \<^verbatim>\<open>p\<close> tags are untouched by signing.\<close>

lemma not_self_tagged [simp]:
  "\<not> self_tagged me []" "\<not> self_tagged me [x]" "self_tagged me (x # y # ts) \<longleftrightarrow> x = ''p'' \<and> y = me"
  by (auto simp: self_tagged_def)

lemma sign_read:
  assumes "nostr_ok api" and "sign_with_keys api b = Some e"
  shows "event_of_kind api (ev_kind b) (as_json api e) = Inr e"
    and "ev_tags e = filter (\<lambda>t. \<not> self_tagged (author api) t) (ev_tags b)"
    and "ev_content e = ev_content b"
  using assms by (simp_all add: nostr_ok_def event_of_kind_def)

lemma item_Cons [simp]: "item 0 (x # xs) = Some x" "item (Suc i) (x # xs) = item i xs" "item i [] = None"
  by (simp_all add: item_def)

lemma item_numeral [simp]: "item (numeral n) (x # xs) = item (pred_numeral n) xs"
  by (simp add: item_def nth_Cons' numeral_eq_Suc)

lemma item_one [simp]: "item 1 (x # xs) = item 0 xs"
  by (simp add: item_def)


subsection \<open>An instance of the crate\<close>

text \<open>Events written as counted strings: an instance of \<open>nostr_ok\<close> that evaluates.\<close>

definition enc_count :: "nat \<Rightarrow> string" where
  "enc_count n = replicate n (CHR ''1'') @ ''0''"

definition dec_count :: "string \<Rightarrow> nat \<times> string" where
  "dec_count s = (length (takeWhile (\<lambda>c. c = CHR ''1'') s), drop 1 (dropWhile (\<lambda>c. c = CHR ''1'') s))"

definition enc_str :: "string \<Rightarrow> string" where
  "enc_str s = enc_count (length s) @ s"

definition dec_str :: "string \<Rightarrow> string \<times> string" where
  "dec_str s = (let (n, r) = dec_count s in (take n r, drop n r))"

primrec dec_many :: "(string \<Rightarrow> 'a \<times> string) \<Rightarrow> nat \<Rightarrow> string \<Rightarrow> 'a list \<times> string" where
  "dec_many g 0 s = ([], s)"
| "dec_many g (Suc n) s = (let (x, r) = g s; (xs, r') = dec_many g n r in (x # xs, r'))"

definition enc_list :: "('a \<Rightarrow> string) \<Rightarrow> 'a list \<Rightarrow> string" where
  "enc_list f xs = enc_count (length xs) @ concat (map f xs)"

definition dec_list :: "(string \<Rightarrow> 'a \<times> string) \<Rightarrow> string \<Rightarrow> 'a list \<times> string" where
  "dec_list g s = (let (n, r) = dec_count s in dec_many g n r)"

definition sample_nostr :: "string \<Rightarrow> nostr_api" where
  "sample_nostr me =
     \<lparr> author = me,
       sign_with_keys = (\<lambda>b. Some \<lparr> ev_kind = ev_kind b,
          ev_tags = filter (\<lambda>t. \<not> self_tagged me t) (ev_tags b), ev_content = ev_content b, ev_pubkey = me \<rparr>),
       as_json = (\<lambda>e. enc_count (ev_kind e) @ enc_list (enc_list enc_str) (ev_tags e) @
          enc_str (ev_content e) @ enc_str (ev_pubkey e)),
       event_from_json = (\<lambda>s. let (k, r1) = dec_count s; (ts, r2) = dec_list (dec_list dec_str) r1;
          (c, r3) = dec_str r2; (a, _) = dec_str r3
          in Some \<lparr> ev_kind = k, ev_tags = ts, ev_content = c, ev_pubkey = a \<rparr>) \<rparr>"

lemma dec_enc_count [simp]: "dec_count (enc_count n @ r) = (n, r)"
proof -
  have "takeWhile (\<lambda>c. c = CHR ''1'') (replicate n (CHR ''1'') @ CHR ''0'' # r) = replicate n (CHR ''1'')"
    "dropWhile (\<lambda>c. c = CHR ''1'') (replicate n (CHR ''1'') @ CHR ''0'' # r) = CHR ''0'' # r"
    by (induction n) simp_all
  then show ?thesis by (simp add: dec_count_def enc_count_def)
qed

lemma dec_enc_str [simp]: "dec_str (enc_str s @ r) = (s, r)"
  by (simp add: dec_str_def enc_str_def)

lemma dec_enc_list: "(\<And>x r. g (f x @ r) = (x, r)) \<Longrightarrow> dec_list g (enc_list f xs @ r) = (xs, r)"
proof -
  assume g: "\<And>x r. g (f x @ r) = (x, r)"
  have "dec_many g (length xs) (concat (map f xs) @ r) = (xs, r)"
    by (induction xs) (simp_all add: g)
  then show ?thesis by (simp add: dec_list_def enc_list_def)
qed

lemma sample_nostr_ok: "nostr_ok (sample_nostr me)"
proof -
  have end_str: "dec_str (enc_str s) = (s, [])" for s using dec_enc_str [of s "[]"] by simp
  show ?thesis
    by (auto simp: nostr_ok_def sample_nostr_def dec_enc_list end_str)
qed

end
