(* ===== verification/V1_Mint_Health.thy ===== *)
theory V1_Mint_Health
  imports BTreeMap
begin

section \<open>Which mints are reachable\<close>

text \<open>
  \<^verbatim>\<open>crates/tollgate-net/src/v1_compat/mint_health.rs\<close>: a mint that fails once is out until it has
  answered \<^verbatim>\<open>recovery_threshold\<close> probes in a row. The two hash maps are maps; the HTTP probe is
  the event of the machine.
\<close>

definition DEFAULT_RECOVERY_THRESHOLD :: u8 where
  "DEFAULT_RECOVERY_THRESHOLD = 3"

record mint_health =
  reachable :: "string \<rightharpoonup> bool"
  consecutive_successes :: "string \<rightharpoonup> u8"
  recovery_threshold :: u8

definition MintHealthTracker_new :: "string list \<Rightarrow> mint_health" where
  "MintHealthTracker_new mint_urls =
     \<lparr> reachable = map_of (map (\<lambda>u. (u, True)) mint_urls),
       consecutive_successes = map_of (map (\<lambda>u. (u, 0)) mint_urls),
       recovery_threshold = DEFAULT_RECOVERY_THRESHOLD \<rparr>"

definition is_reachable :: "mint_health \<Rightarrow> string \<Rightarrow> bool" where
  "is_reachable t u = (case reachable t u of None \<Rightarrow> False | Some b \<Rightarrow> b)"

definition mark_unreachable :: "string \<Rightarrow> mint_health \<Rightarrow> mint_health" where
  "mark_unreachable u t =
     t\<lparr> reachable := (reachable t)(u \<mapsto> False),
        consecutive_successes := (consecutive_successes t)(u \<mapsto> 0) \<rparr>"

definition mark_reachable :: "string \<Rightarrow> mint_health \<Rightarrow> mint_health" where
  "mark_reachable u t =
     (if is_reachable t u then t
      else let count = (case consecutive_successes t u of None \<Rightarrow> 0 | Some n \<Rightarrow> n) + 1;
               t1 = t\<lparr> consecutive_successes := (consecutive_successes t)(u \<mapsto> count) \<rparr>
           in if count \<ge> recovery_threshold t
              then t1\<lparr> reachable := (reachable t1)(u \<mapsto> True),
                       consecutive_successes := (consecutive_successes t1)(u \<mapsto> 0) \<rparr>
              else t1)"

definition probe :: "mint_health \<Rightarrow> string \<times> bool \<Rightarrow> mint_health \<times> unit list" where
  "probe t r = (case r of (u, ok) \<Rightarrow> ((if ok then mark_reachable u t else mark_unreachable u t), []))"

definition get_reachable_mints :: "mint_health \<Rightarrow> ('m \<Rightarrow> string) \<Rightarrow> 'm list \<Rightarrow> 'm list" where
  "get_reachable_mints t url_of mints = filter (\<lambda>m. is_reachable t (url_of m)) mints"

definition all_unreachable :: "mint_health \<Rightarrow> bool" where
  "all_unreachable t \<longleftrightarrow> reachable t = Map.empty \<or> True \<notin> ran (reachable t)"


subsection \<open>Recovery\<close>

definition successes :: "mint_health \<Rightarrow> string \<Rightarrow> u8" where
  "successes t u = (case consecutive_successes t u of None \<Rightarrow> 0 | Some n \<Rightarrow> n)"

lemma mark_reachable_eff:
  "is_reachable (mark_reachable u t) v =
     (if v = u then is_reachable t u \<or> recovery_threshold t \<le> successes t u + 1 else is_reachable t v)"
  "successes (mark_reachable u t) v =
     (if v = u \<and> \<not> is_reachable t u
      then (if recovery_threshold t \<le> successes t u + 1 then 0 else successes t u + 1) else successes t v)"
  "recovery_threshold (mark_reachable u t) = recovery_threshold t"
  by (auto simp: mark_reachable_def successes_def is_reachable_def Let_def split: option.splits)

lemma mark_unreachable_eff:
  "is_reachable (mark_unreachable u t) v = (v \<noteq> u \<and> is_reachable t v)"
  "successes (mark_unreachable u t) v = (if v = u then 0 else successes t v)"
  "recovery_threshold (mark_unreachable u t) = recovery_threshold t"
  by (auto simp: mark_unreachable_def successes_def is_reachable_def)

lemma out_run:
  assumes "\<not> is_reachable t u" and "unat (successes t u) + length rs < unat (recovery_threshold t)"
  shows "\<not> is_reachable (final probe t rs) u"
  using assms
proof (induction rs arbitrary: t)
  case (Cons r rs)
  obtain v ok where r: "r = (v, ok)" by (cases r)
  let ?t = "fst (probe t r)"
  have bound: "unat (successes t u) + 1 < unat (recovery_threshold t)" using Cons.prems(2) by simp
  then have "unat (successes t u + 1) = unat (successes t u) + 1"
    using unat_bound [of "recovery_threshold t"] by (simp add: unat_word_ariths)
  with bound have lt: "\<not> recovery_threshold t \<le> successes t u + 1" by (simp add: word_le_nat_alt)
  have "\<not> is_reachable ?t u" "unat (successes ?t u) \<le> unat (successes t u) + 1"
    "recovery_threshold ?t = recovery_threshold t"
    using Cons.prems(1) lt \<open>unat (successes t u + 1) = _\<close>
    by (auto simp: probe_def r mark_reachable_eff mark_unreachable_eff)
  then show ?case using Cons.IH [of ?t] Cons.prems(2) by (simp add: machine_simps del: run.simps)
qed simp

lemma in_run:
  assumes "list_all (\<lambda>(v, ok). v = u \<longrightarrow> ok) rs" and "is_reachable t u"
  shows "is_reachable (final probe t rs) u"
  using assms
proof (induction rs arbitrary: t)
  case (Cons r rs)
  obtain v ok where r: "r = (v, ok)" by (cases r)
  have "is_reachable (fst (probe t r)) u"
    using Cons.prems by (auto simp: probe_def r mark_reachable_eff mark_unreachable_eff)
  with Cons show ?case by (simp add: machine_simps del: run.simps)
qed simp

lemma recover_run:
  assumes "unat (recovery_threshold t) \<le> unat (successes t u) + n" and "\<not> is_reachable t u" and "0 < n"
    and "successes t u < recovery_threshold t"
  shows "is_reachable (final probe t (replicate n (u, True))) u"
  using assms
proof (induction n arbitrary: t)
  case (Suc n)
  let ?t = "fst (probe t (u, True))"
  have inc: "unat (successes t u + 1) = unat (successes t u) + 1"
    using Suc.prems(4) unat_bound [of "recovery_threshold t"] by (simp add: unat_word_ariths word_less_nat_alt)
  show ?case
  proof (cases "recovery_threshold t \<le> successes t u + 1")
    case True
    then have "is_reachable ?t u" using Suc.prems(2) by (simp add: probe_def mark_reachable_eff)
    then show ?thesis
      using in_run [of u "replicate n (u, True)" ?t] by (simp add: machine_simps list_all_iff del: run.simps)
  next
    case False
    then have t: "\<not> is_reachable ?t u" "successes ?t u = successes t u + 1"
      "recovery_threshold ?t = recovery_threshold t"
      using Suc.prems(2) by (simp_all add: probe_def mark_reachable_eff)
    with False have "0 < n" "successes ?t u < recovery_threshold ?t"
      using Suc.prems(1) inc by (auto simp: word_le_nat_alt word_less_nat_alt)
    with Suc.IH [of ?t] t Suc.prems(1) inc show ?thesis by (simp add: machine_simps del: run.simps)
  qed
qed simp

text \<open>
  A mint that failed is trusted again only after three good answers in a row, and then at once:
  whatever was probed before, after a failed probe any two further probes leave it out, and three
  successful ones bring it back.
\<close>

theorem recovery_needs_three:
  assumes "t = fst (probe t0 (u, False))" and "recovery_threshold t0 = DEFAULT_RECOVERY_THRESHOLD"
    and "length rs \<le> 2"
  shows "\<not> is_reachable (final probe t rs) u \<and> is_reachable (final probe t [(u, True), (u, True), (u, True)]) u"
proof
  have t: "\<not> is_reachable t u" "successes t u = 0" "recovery_threshold t = 3"
    using assms(2) by (simp_all add: assms(1) probe_def mark_unreachable_eff DEFAULT_RECOVERY_THRESHOLD_def)
  show "\<not> is_reachable (final probe t rs) u" using out_run [of t u rs] t assms(3) by simp
  show "is_reachable (final probe t [(u, True), (u, True), (u, True)]) u"
    using recover_run [of t u 3] t by (simp add: numeral_3_eq_3 del: run.simps)
qed

theorem recovery_needs_three_witness:
  "\<not> is_reachable (final probe (fst (probe (MintHealthTracker_new [''m'']) (''m'', False)))
      [(''m'', True), (''m'', True)]) ''m''"
  using recovery_needs_three [OF refl, of "MintHealthTracker_new [''m'']" "[(''m'', True), (''m'', True)]" "''m''"]
  by (simp add: MintHealthTracker_new_def del: run.simps)

end
