(* ===== verification/V1_Merchant.thy ===== *)
theory V1_Merchant
  imports V1_Events V1_Mint_Health
begin

section \<open>The v1 merchant\<close>

text \<open>
  \<^verbatim>\<open>crates/tollgate-net/src/v1_compat/merchant.rs\<close>: the events a v1 server sends (advertisements,
  session grants, notices), what a payment buys, and the sessions it is added to. The session store
  is a trait with no implementation in the repository and so a parameter; \<open>store_ok\<close> states that
  it stores.
\<close>

record accepted_mint =
  am_url :: string
  am_price_per_step :: u64
  am_unit :: string
  am_min_steps :: u64

record v1_config =
  metric :: string
  step_size :: u64
  accepted_mints_cfg :: "accepted_mint list"
  trust_proxy_headers :: bool
  health :: "mint_health option"

record customer_session =
  mac_address :: string
  start_time :: i64
  cs_metric :: string
  allotment :: u64

datatype AllotmentError = UnknownMint string | InsufficientSteps u64 u64


subsection \<open>Events\<close>

definition signed_json :: "nostr_api \<Rightarrow> event_builder \<Rightarrow> V1NostrError + string" where
  "signed_json api b =
     (case sign_with_keys api b of None \<Rightarrow> Inl EventBuild | Some e \<Rightarrow> Inr (as_json api e))"

definition reachable_mints :: "v1_config \<Rightarrow> accepted_mint list" where
  "reachable_mints config =
     (case health config of
        Some tracker \<Rightarrow> get_reachable_mints tracker am_url (accepted_mints_cfg config)
      | None \<Rightarrow> accepted_mints_cfg config)"

definition build_degraded_advertisement :: "nostr_api \<Rightarrow> v1_config \<Rightarrow> V1NostrError + string" where
  "build_degraded_advertisement api config =
     signed_json api
       \<lparr> ev_kind = 10021,
         ev_tags = [[''metric'', metric config], [''step_size'', show_u64 (step_size config)],
                    [''level'', ''warning''], [''code'', ''no-reachable-mints'']],
         ev_content = ''TollGate is in degraded mode. No reachable mints detected.'' \<rparr>"

definition price_tag :: "accepted_mint \<Rightarrow> string list" where
  "price_tag mint =
     [''price_per_step'', ''cashu'', show_u64 (am_price_per_step mint), am_unit mint, am_url mint,
      show_u64 (am_min_steps mint)]"

definition build_advertisement :: "nostr_api \<Rightarrow> v1_config \<Rightarrow> V1NostrError + string" where
  "build_advertisement api config =
     (let mints = reachable_mints config
      in if mints = [] then build_degraded_advertisement api config
         else signed_json api
           \<lparr> ev_kind = 10021,
             ev_tags = [[''metric'', metric config], [''step_size'', show_u64 (step_size config)]] @
                       map price_tag mints @
                       [[''tips'', ''1'', ''2'', ''3'', ''4''], [''step'', show_u64 (step_size config)]],
             ev_content = [] \<rparr>)"

definition build_session_event ::
    "nostr_api \<Rightarrow> customer_session \<Rightarrow> string \<Rightarrow> u64 \<Rightarrow> string \<Rightarrow> V1NostrError + string" where
  "build_session_event api s customer amount_sat token_type =
     signed_json api
       \<lparr> ev_kind = 1022,
         ev_tags =
           [[''p'', customer],
            [''allotment'', show_u64 (allotment s)],
            [''metric'', cs_metric s],
            [''device-identifier'', ''mac'', mac_address s],
            [''start-time'', show_i64 (start_time s)],
            [''amount_sat'', show_u64 amount_sat],
            [''token_type'', token_type]] @
           (if amount_sat = 0 then []
            else [[''effective_rate'', show_u64 (allotment s div 1000 div amount_sat)]]),
         ev_content = [] \<rparr>"

definition build_notice_event ::
    "nostr_api \<Rightarrow> string \<Rightarrow> string \<Rightarrow> string \<Rightarrow> string option \<Rightarrow> V1NostrError + string" where
  "build_notice_event api level code message customer =
     signed_json api
       \<lparr> ev_kind = 21023,
         ev_tags = [[''level'', level], [''code'', code]] @
                   (case customer of Some ident \<Rightarrow> if ident \<noteq> [] then [[''p'', ident]] else [] | None \<Rightarrow> []),
         ev_content = message \<rparr>"


subsection \<open>Allotments\<close>

definition calculate_allotment :: "u64 \<Rightarrow> string \<Rightarrow> v1_config \<Rightarrow> AllotmentError + u64" where
  "calculate_allotment amount_sats mint_url config =
     (case find (\<lambda>m. am_url m = mint_url) (accepted_mints_cfg config) of
        None \<Rightarrow> Inl (UnknownMint mint_url)
      | Some mint \<Rightarrow>
          if am_price_per_step mint = 0 then Inr (step_size config)
          else let steps = amount_sats div am_price_per_step mint
               in if steps < am_min_steps mint then Inl (InsufficientSteps steps (am_min_steps mint))
                  else Inr (steps * step_size config))"

record 's session_store =
  store_get :: "'s \<Rightarrow> string \<Rightarrow> string + customer_session option"
  store_insert :: "'s \<Rightarrow> customer_session \<Rightarrow> (string + unit) \<times> 's"
  store_update :: "'s \<Rightarrow> string \<Rightarrow> customer_session \<Rightarrow> (string + unit) \<times> 's"

definition add_allotment ::
    "'s session_store \<Rightarrow> 's \<Rightarrow> string \<Rightarrow> string \<Rightarrow> u64 \<Rightarrow> i64 \<Rightarrow> (string + customer_session) \<times> 's" where
  "add_allotment ops st mac metr amount now =
     (case store_get ops st mac of
        Inl err \<Rightarrow> (Inl err, st)
      | Inr (Some s) \<Rightarrow>
          (let s1 = s\<lparr> allotment := allotment s + amount, start_time := now \<rparr>
           in case store_update ops st mac s1 of
                (Inl err, st1) \<Rightarrow> (Inl err, st1)
              | (Inr _, st1) \<Rightarrow> (Inr s1, st1))
      | Inr None \<Rightarrow>
          (let s = \<lparr> mac_address = mac, start_time = now, cs_metric = metr, allotment = amount \<rparr>
           in case store_insert ops st s of
                (Inl err, st1) \<Rightarrow> (Inl err, st1)
              | (Inr _, st1) \<Rightarrow> (Inr s, st1)))"


subsection \<open>What is advertised is what is read\<close>

lemma signed_jsonE:
  assumes "signed_json api b = Inr json" and "nostr_ok api"
  obtains e where "event_of_kind api (ev_kind b) json = Inr e"
    "ev_tags e = filter (\<lambda>t. \<not> self_tagged (author api) t) (ev_tags b)" "ev_content e = ev_content b"
  using assms sign_read [OF assms(2)] by (auto simp: signed_json_def split: option.splits)

lemma price_tags_kept:
  "filter (\<lambda>t. \<not> self_tagged me t) (map price_tag ms) = map price_tag ms"
  "filter (\<lambda>items. item 0 items = Some ''price_per_step'' \<and> 5 \<le> length items) (map price_tag ms) = map price_tag ms"
  by (induction ms) (simp_all add: price_tag_def)

lemma price_tags_no_tips:
  "concat (map (\<lambda>items. if item 0 items = Some ''tips'' then List.map_filter parse_u32 (drop 1 items) else [])
     (map price_tag ms)) = []"
  by (induction ms) (simp_all add: price_tag_def)

definition option_of_mint :: "accepted_mint \<Rightarrow> pricing_option" where
  "option_of_mint m =
     \<lparr> asset_type = ''cashu'', price_per_step = am_price_per_step m, po_unit = am_unit m,
       po_mint_url = am_url m, min_steps = am_min_steps m \<rparr>"

lemma option_of_price_tag [simp]: "option_of_tag (price_tag m) = option_of_mint m"
  by (simp add: option_of_tag_def price_tag_def option_of_mint_def)

lemma advertisement_read:
  assumes "nostr_ok api" and "build_advertisement api config = Inr json"
  shows "\<exists>e. Advertisement_from_json api json = Inr e \<and>
    adv_metric e = Some (metric config) \<and> adv_step_size e = Some (step_size config) \<and>
    pricing_options e = map option_of_mint (reachable_mints config) \<and>
    (if reachable_mints config = [] then tag_value e ''code'' = Some ''no-reachable-mints''
     else adv_tips e = [1, 2, 3, 4])"
proof (cases "reachable_mints config = []")
  case True
  then have "build_degraded_advertisement api config = Inr json"
    using assms(2) by (simp add: build_advertisement_def)
  then obtain e where "event_of_kind api 10021 json = Inr e"
    "ev_tags e = [[''metric'', metric config], [''step_size'', show_u64 (step_size config)],
                  [''level'', ''warning''], [''code'', ''no-reachable-mints'']]"
    using assms(1) unfolding build_degraded_advertisement_def by (elim signed_jsonE) simp_all
  then show ?thesis using True
    by (simp add: Advertisement_from_json_def ADVERTISEMENT_KIND_def adv_metric_def adv_step_size_def
        tag_value_def pricing_options_def)
next
  case False
  let ?ts = "[[''metric'', metric config], [''step_size'', show_u64 (step_size config)]] @
             map price_tag (reachable_mints config) @
             [[''tips'', ''1'', ''2'', ''3'', ''4''], [''step'', show_u64 (step_size config)]]"
  from False have "signed_json api \<lparr> ev_kind = 10021, ev_tags = ?ts, ev_content = [] \<rparr> = Inr json"
    using assms(2) by (simp add: build_advertisement_def Let_def)
  then obtain e where e: "event_of_kind api 10021 json = Inr e" "ev_tags e = ?ts"
    using assms(1) by (elim signed_jsonE) (simp_all add: price_tags_kept)
  have "parse_u32 ''1'' = Some 1" "parse_u32 ''2'' = Some 2" "parse_u32 ''3'' = Some 3" "parse_u32 ''4'' = Some 4"
    by (simp_all add: parse_u32_def parse_nat_def digit_value_def char_nat_def)
  then have "adv_tips e = [1, 2, 3, 4]"
    using price_tags_no_tips [of "reachable_mints config"]
    by (simp add: adv_tips_def e(2) List.map_filter_simps del: map_map)
  moreover have "pricing_options e = map option_of_mint (reachable_mints config)"
    by (simp add: pricing_options_def e(2) price_tags_kept del: filter_map)
  ultimately show ?thesis using e False
    by (simp add: Advertisement_from_json_def ADVERTISEMENT_KIND_def adv_metric_def adv_step_size_def tag_value_def)
qed

text \<open>
  C19. An advertisement that was built is read back by a client as what the server accepts: one
  pricing option for every reachable mint, in order, with the configured prices and minimum steps, and the
  configured metric and step size. With no mint reachable it has no option and says why.
\<close>

theorem advertisement_roundtrip:
  assumes "nostr_ok api" and "build_advertisement api config = Inr json"
  shows "\<exists>e. Advertisement_from_json api json = Inr e \<and>
    adv_metric e = Some (metric config) \<and> adv_step_size e = Some (step_size config) \<and>
    pricing_options e = map option_of_mint (reachable_mints config) \<and>
    (if reachable_mints config = [] then tag_value e ''code'' = Some ''no-reachable-mints''
     else adv_tips e = [1, 2, 3, 4])"
  using assms by (rule advertisement_read)

definition sample_mint_terms :: accepted_mint where
  "sample_mint_terms = \<lparr> am_url = ''https://a'', am_price_per_step = 2, am_unit = ''sat'', am_min_steps = 3 \<rparr>"

definition sample_config :: v1_config where
  "sample_config =
     \<lparr> metric = ''milliseconds'', step_size = 60000,
       accepted_mints_cfg = [sample_mint_terms, sample_mint_terms\<lparr> am_url := ''https://b'' \<rparr>],
       trust_proxy_headers = False,
       health = Some (mark_unreachable ''https://b'' (MintHealthTracker_new [''https://a'', ''https://b''])) \<rparr>"

theorem advertisement_roundtrip_witness:
  "\<exists>json e. build_advertisement (sample_nostr ''k'') sample_config = Inr json \<and>
     Advertisement_from_json (sample_nostr ''k'') json = Inr e \<and>
     pricing_options e = [\<lparr> asset_type = ''cashu'', price_per_step = 2, po_unit = ''sat'',
                            po_mint_url = ''https://a'', min_steps = 3 \<rparr>]"
proof -
  have m: "reachable_mints sample_config = [sample_mint_terms]"
    by (simp add: reachable_mints_def sample_config_def get_reachable_mints_def is_reachable_def
        mark_unreachable_def MintHealthTracker_new_def sample_mint_terms_def)
  obtain json where b: "build_advertisement (sample_nostr ''k'') sample_config = Inr json"
    by (simp add: build_advertisement_def m signed_json_def sample_nostr_def)
  from advertisement_roundtrip [OF sample_nostr_ok b] b show ?thesis
    by (auto simp: m option_of_mint_def sample_mint_terms_def)
qed


subsection \<open>What a payment buys\<close>

text \<open>
  A payment at an accepted mint buys the whole steps it pays for: when the mint's price is
  positive and the allotment fits 64 bits, it is that number of steps times the step size, at
  least the mint's minimum, never worth more than was paid; and no payment is refused that covers the minimum.
\<close>

theorem payment_buys_whole_steps:
  assumes "find (\<lambda>m. am_url m = url) (accepted_mints_cfg config) = Some m" and "am_price_per_step m \<noteq> 0"
    and "unat amount div unat (am_price_per_step m) * unat (step_size config) < 2 ^ 64"
  shows "case calculate_allotment amount url config of
      Inr a \<Rightarrow> (\<exists>steps. unat a = steps * unat (step_size config) \<and> unat (am_min_steps m) \<le> steps \<and>
                steps * unat (am_price_per_step m) \<le> unat amount \<and>
                unat amount < (steps + 1) * unat (am_price_per_step m))
    | Inl e \<Rightarrow> e = InsufficientSteps (amount div am_price_per_step m) (am_min_steps m) \<and>
                unat amount < unat (am_min_steps m) * unat (am_price_per_step m)"
proof -
  let ?p = "unat (am_price_per_step m)" let ?n = "unat amount div unat (am_price_per_step m)"
  have p: "0 < ?p" using assms(2) by (simp add: unat_gt_0)
  have steps: "unat (amount div am_price_per_step m) = ?n" by (simp add: unat_div)
  have "?n * ?p \<le> unat amount" by simp
  moreover have "unat amount < (?n + 1) * ?p" using p dividend_less_div_times [of ?p "unat amount"] by simp
  moreover have "unat (amount div am_price_per_step m * step_size config) = ?n * unat (step_size config)"
    using assms(3) steps unat_mult_lem [of "amount div am_price_per_step m" "step_size config"] by simp
  moreover have "unat amount < unat (am_min_steps m) * ?p" if "?n < unat (am_min_steps m)"
    using that p by (simp add: less_mult_imp_div_less div_less_iff_less_mult)
  ultimately show ?thesis
    using assms(1,2) by (auto simp: calculate_allotment_def Let_def word_less_nat_alt steps)
qed

theorem payment_buys_whole_steps_witness:
  "calculate_allotment 9 ''https://a'' sample_config = Inr 240000 \<and>
   (\<exists>steps. unat (240000 :: u64) = steps * 60000 \<and> 3 \<le> steps \<and> steps * 2 \<le> 9 \<and> 9 < (steps + 1) * (2 :: nat))"
proof -
  have f: "find (\<lambda>m. am_url m = ''https://a'') (accepted_mints_cfg sample_config) = Some sample_mint_terms"
    by (simp add: sample_config_def sample_mint_terms_def)
  have "calculate_allotment 9 ''https://a'' sample_config = Inr 240000"
    unfolding calculate_allotment_def f by (simp add: sample_mint_terms_def sample_config_def)
  with payment_buys_whole_steps [OF f, of 9] show ?thesis
    by (simp add: sample_mint_terms_def sample_config_def)
qed

text \<open>
  A grant is read back as it was made: allotment, metric, device, start time and the customer,
  unless the customer is the server itself, whose \<^verbatim>\<open>p\<close> tag is dropped on signing.
\<close>

theorem session_grant_roundtrip:
  assumes "nostr_ok api" and "build_session_event api s customer amount_sat token_type = Inr json"
  shows "\<exists>e. SessionEvent_from_json api json = Inr e \<and>
    session_allotment e = Some (allotment s) \<and> session_metric e = Some (cs_metric s) \<and>
    device_identifier e = Some (mac_address s) \<and> session_start_time e = Some (start_time s) \<and>
    customer_pubkey e = (if customer = author api then None else Some customer)"
proof -
  from assms obtain e where "event_of_kind api 1022 json = Inr e"
    "ev_tags e = (if customer = author api then [] else [[''p'', customer]]) @
       [[''allotment'', show_u64 (allotment s)], [''metric'', cs_metric s],
        [''device-identifier'', ''mac'', mac_address s], [''start-time'', show_i64 (start_time s)],
        [''amount_sat'', show_u64 amount_sat], [''token_type'', token_type]] @
       (if amount_sat = 0 then [] else [[''effective_rate'', show_u64 (allotment s div 1000 div amount_sat)]])"
    unfolding build_session_event_def by (elim signed_jsonE) simp_all
  then show ?thesis
    by (simp add: SessionEvent_from_json_def SESSION_KIND_def session_allotment_def session_metric_def
        device_identifier_def session_start_time_def customer_pubkey_def)
qed

theorem session_grant_roundtrip_witness:
  "\<exists>json e. build_session_event (sample_nostr ''k'')
       \<lparr> mac_address = ''m'', start_time = - 5, cs_metric = ''bytes'', allotment = 7 \<rparr> ''c'' 0 ''cashu'' = Inr json \<and>
     SessionEvent_from_json (sample_nostr ''k'') json = Inr e \<and>
     session_allotment e = Some 7 \<and> session_start_time e = Some (- 5) \<and> customer_pubkey e = Some ''c''"
proof -
  let ?s = "\<lparr> mac_address = ''m'', start_time = - 5, cs_metric = ''bytes'', allotment = 7 \<rparr>"
  obtain json where b: "build_session_event (sample_nostr ''k'') ?s ''c'' 0 ''cashu'' = Inr json"
    by (simp add: build_session_event_def signed_json_def sample_nostr_def)
  from session_grant_roundtrip [OF sample_nostr_ok b] b show ?thesis by (auto simp: sample_nostr_def)
qed


subsection \<open>Sessions add up\<close>

text \<open>What is relied on of a session store: no operation fails, and a session stored is found again.\<close>

definition store_ok :: "'s session_store \<Rightarrow> bool" where
  "store_ok ops \<longleftrightarrow>
     (\<forall>st m. \<exists>r. store_get ops st m = Inr r) \<and>
     (\<forall>st s. \<exists>st1. store_insert ops st s = (Inr (), st1) \<and> store_get ops st1 (mac_address s) = Inr (Some s) \<and>
        (\<forall>m. m \<noteq> mac_address s \<longrightarrow> store_get ops st1 m = store_get ops st m)) \<and>
     (\<forall>st m s. \<exists>st1. store_update ops st m s = (Inr (), st1) \<and> store_get ops st1 m = Inr (Some s) \<and>
        (\<forall>k. k \<noteq> m \<longrightarrow> store_get ops st1 k = store_get ops st k))"

definition merchant_step ::
    "'s session_store \<Rightarrow> 's \<Rightarrow> string \<times> string \<times> u64 \<times> i64 \<Rightarrow> 's \<times> unit list" where
  "merchant_step ops st r = (case r of (mac, metr, amount, now) \<Rightarrow> (snd (add_allotment ops st mac metr amount now), []))"

definition bought :: "string \<Rightarrow> (string \<times> string \<times> u64 \<times> i64) list \<Rightarrow> u64" where
  "bought mac rs = sum_list (map (\<lambda>(m, _, amount, _). if m = mac then amount else 0) rs)"

lemma bought_none: "mac \<notin> fst ` set rs \<Longrightarrow> bought mac rs = 0"
  by (induction rs) (auto simp: bought_def)

lemma bought_snoc: "bought mac (rs @ [(m, metr, amount, now)]) = bought mac rs + (if m = mac then amount else 0)"
  by (simp add: bought_def)

lemma add_allotment_other:
  assumes "store_ok ops" and "mac \<noteq> m"
  shows "store_get ops (snd (add_allotment ops st m metr amount now)) mac = store_get ops st mac"
proof -
  obtain r where r: "store_get ops st m = Inr r" using assms(1) unfolding store_ok_def by metis
  let ?n = "\<lparr> mac_address = m, start_time = now, cs_metric = metr, allotment = amount \<rparr>"
  obtain st1 where i: "store_insert ops st ?n = (Inr (), st1)" "store_get ops st1 mac = store_get ops st mac"
    using assms unfolding store_ok_def by (metis customer_session.select_convs(1))
  show ?thesis
  proof (cases r)
    case None
    with r i show ?thesis by (simp add: add_allotment_def)
  next
    case (Some s)
    obtain st2 where "store_update ops st m (s\<lparr> allotment := allotment s + amount, start_time := now \<rparr>) = (Inr (), st2)"
      "store_get ops st2 mac = store_get ops st mac"
      using assms unfolding store_ok_def by metis
    with r Some show ?thesis by (simp add: add_allotment_def Let_def)
  qed
qed

lemma add_allotment_same:
  assumes "store_ok ops"
  shows "\<exists>s. store_get ops (snd (add_allotment ops st mac metr amount now)) mac = Inr (Some s) \<and>
    fst (add_allotment ops st mac metr amount now) = Inr s \<and> start_time s = now \<and>
    allotment s = (case store_get ops st mac of Inr (Some s0) \<Rightarrow> allotment s0 | _ \<Rightarrow> 0) + amount"
proof -
  obtain r where r: "store_get ops st mac = Inr r" using assms unfolding store_ok_def by metis
  let ?n = "\<lparr> mac_address = mac, start_time = now, cs_metric = metr, allotment = amount \<rparr>"
  obtain st1 where i: "store_insert ops st ?n = (Inr (), st1)" "store_get ops st1 mac = Inr (Some ?n)"
    using assms unfolding store_ok_def by (metis customer_session.select_convs(1))
  show ?thesis
  proof (cases r)
    case None
    with r i show ?thesis by (simp add: add_allotment_def)
  next
    case (Some s)
    obtain st2 where "store_update ops st mac (s\<lparr> allotment := allotment s + amount, start_time := now \<rparr>) = (Inr (), st2)"
      "store_get ops st2 mac = Inr (Some (s\<lparr> allotment := allotment s + amount, start_time := now \<rparr>))"
      using assms unfolding store_ok_def by metis
    with r Some show ?thesis by (simp add: add_allotment_def Let_def)
  qed
qed

text \<open>
  Allotments add up: after any sequence of purchases by any devices, the session of a device
  that had none holds the sum of exactly its own purchases, modulo 64 bits, and a device that bought nothing has no session.
\<close>

theorem allotments_accumulate:
  assumes "store_ok ops" and "store_get ops st mac = Inr None"
  shows "case store_get ops (final (merchant_step ops) st rs) mac of
      Inr (Some s) \<Rightarrow> allotment s = bought mac rs \<and> mac \<in> fst ` set rs
    | Inr None \<Rightarrow> mac \<notin> fst ` set rs
    | Inl _ \<Rightarrow> False"
proof (induction rs rule: rev_induct)
  case Nil
  then show ?case using assms(2) by simp
next
  case (snoc r rs)
  obtain m metr amount now where r: "r = (m, metr, amount, now)" by (cases r) auto
  let ?st = "final (merchant_step ops) st rs"
  have step: "final (merchant_step ops) st (rs @ [r]) = snd (add_allotment ops ?st m metr amount now)"
    by (simp add: machine_simps merchant_step_def r del: run.simps) (simp add: merchant_step_def)
  show ?case
  proof (cases "m = mac")
    case True
    from add_allotment_same [OF assms(1), of ?st mac metr amount now] snoc.IH show ?thesis
      unfolding step by (auto simp: True r bought_snoc bought_none split: sum.splits option.splits)
  next
    case False
    with add_allotment_other [OF assms(1), of mac m ?st metr amount now] snoc.IH show ?thesis
      unfolding step by (simp add: r bought_snoc split: sum.splits option.splits)
  qed
qed

definition map_store :: "(string \<rightharpoonup> customer_session) session_store" where
  "map_store =
     \<lparr> store_get = (\<lambda>st m. Inr (st m)),
       store_insert = (\<lambda>st s. (Inr (), st(mac_address s \<mapsto> s))),
       store_update = (\<lambda>st m s. (Inr (), st(m \<mapsto> s))) \<rparr>"

theorem allotments_accumulate_witness:
  "\<exists>s. store_get map_store (final (merchant_step map_store) Map.empty
        [(''a'', ''bytes'', 5, 1), (''b'', ''bytes'', 9, 2), (''a'', ''bytes'', 7, 3)]) ''a'' = Inr (Some s) \<and>
     allotment s = 12"
proof -
  have "store_ok map_store" by (simp add: store_ok_def map_store_def)
  from allotments_accumulate [OF this, of Map.empty "''a''"
      "[(''a'', ''bytes'', 5, 1), (''b'', ''bytes'', 9, 2), (''a'', ''bytes'', 7, 3)]"]
  show ?thesis
    by (simp add: bought_def map_store_def del: run.simps split: sum.splits option.splits)
qed

end
