(* ===== verification/V1_Quotes.thy ===== *)
theory V1_Quotes
  imports BTreeMap
begin

section \<open>Lightning quotes\<close>

text \<open>
  \<^verbatim>\<open>crates/tollgate-net/src/v1_compat/ln_quotes.rs\<close>: the in-memory quote store, the monitor that
  polls a quote until it is paid and then grants access, and the janitor that removes stale
  quotes. A monitor is a task that other tasks run between: its program counter says at which
  await it stands (\<open>Polling\<close> is the sleep), and every step from one await to the next is one
  operation. The mint's status, the minting and the grant are answers of the \<^verbatim>\<open>QuoteProcessor\<close>
  trait and so arguments of the steps. The hash map is iterated in key order; no result depends
  on the order. Times are signed 64-bit seconds.
\<close>

datatype QuoteState = Unpaid | Paid | Issued

record quote =
  quote_id :: string
  q_mac_address :: string
  q_mint_url :: string
  amount :: u64
  expiry :: i64
  q_allotment :: u64
  created_at :: i64
  completed_at :: "i64 option"
  session_granted :: bool
  processing :: bool
  invoice :: string
  cached_state :: "QuoteState option"
  cached_state_at :: "i64 option"

type_synonym quotes = "(string, quote) btree"


subsection \<open>The store\<close>

definition quote_insert :: "quote \<Rightarrow> quotes \<Rightarrow> quotes" where
  "quote_insert r m = bt_insert (quote_id r) r m"

definition quote_get :: "quotes \<Rightarrow> string \<Rightarrow> quote option" where
  "quote_get m q = bt_get m q"

definition get_for_mac :: "quotes \<Rightarrow> string \<Rightarrow> string \<Rightarrow> quote option" where
  "get_for_mac m q mac =
     (case bt_get m q of
        Some r \<Rightarrow> if q_mac_address r = mac then Some r else None
      | None \<Rightarrow> None)"

definition quote_update :: "string \<Rightarrow> quote \<Rightarrow> quotes \<Rightarrow> quotes" where
  "quote_update q r m = bt_insert q r m"

definition quote_remove :: "string \<Rightarrow> quotes \<Rightarrow> quotes" where
  "quote_remove q m = bt_remove q m"

definition is_stale :: "i64 \<Rightarrow> i64 \<Rightarrow> quote \<Rightarrow> bool" where
  "is_stale max_age_secs now r \<longleftrightarrow>
     \<not> processing r \<and> \<not> session_granted r \<and> sint (now - created_at r) > sint max_age_secs \<or>
     session_granted r \<and>
       (case completed_at r of Some c \<Rightarrow> sint (now - c) > 600 | None \<Rightarrow> False) \<or>
     sint (expiry r) > 0 \<and> sint now > sint (expiry r + 300)"

definition list_stale :: "i64 \<Rightarrow> i64 \<Rightarrow> quotes \<Rightarrow> quote list" where
  "list_stale max_age_secs now m = filter (is_stale max_age_secs now) (map snd m)"

definition list_paid_unprocessed :: "quotes \<Rightarrow> quote list" where
  "list_paid_unprocessed m =
     filter (\<lambda>r. \<not> processing r \<and> \<not> session_granted r \<and>
       (cached_state r = Some Paid \<or> cached_state r = Some Issued)) (map snd m)"

definition janitor_sweep :: "i64 \<Rightarrow> quotes \<Rightarrow> quotes" where
  "janitor_sweep now m = fold (\<lambda>r. quote_remove (quote_id r)) (list_stale 1800 now m) m"


subsection \<open>The monitor\<close>

datatype monitor = Polling | Checking quote | Minting quote i64 | Granting quote i64 | Exited

text \<open>Woken from its sleep: the lifetime, the store and the flags.\<close>

definition monitor_poll :: "string \<Rightarrow> bool \<Rightarrow> quotes \<Rightarrow> monitor" where
  "monitor_poll q lifetime_over m =
     (if lifetime_over then Exited
      else case quote_get m q of
             None \<Rightarrow> Exited
           | Some r \<Rightarrow>
               if session_granted r then Exited
               else if processing r then Polling
               else Checking r)"

text \<open>The mint answered the status request made with the record \<open>r\<close>.\<close>

definition monitor_status :: "string \<Rightarrow> quote \<Rightarrow> QuoteState option \<Rightarrow> i64 \<Rightarrow> quotes \<Rightarrow> quotes \<times> monitor" where
  "monitor_status q r answer now m =
     (case answer of
        None \<Rightarrow> (m, Polling)
      | Some s \<Rightarrow>
          (let r1 = r\<lparr> cached_state := Some s, cached_state_at := Some now \<rparr>
           in if s \<noteq> Paid \<and> s \<noteq> Issued then (quote_update q r1 m, Polling)
              else let r2 = r1\<lparr> processing := True \<rparr>
                   in (quote_update q r2 m, if s = Paid then Minting r2 now else Granting r2 now)))"

definition monitor_minted :: "string \<Rightarrow> quote \<Rightarrow> i64 \<Rightarrow> bool \<Rightarrow> quotes \<Rightarrow> quotes \<times> monitor" where
  "monitor_minted q r now ok m =
     (if ok then (m, Granting r now)
      else (quote_update q (r\<lparr> processing := False \<rparr>) m, Polling))"

definition monitor_granted :: "string \<Rightarrow> quote \<Rightarrow> i64 \<Rightarrow> u64 option \<Rightarrow> quotes \<Rightarrow> quotes \<times> monitor" where
  "monitor_granted q r now answer m =
     (case answer of
        None \<Rightarrow> (quote_update q (r\<lparr> processing := False \<rparr>) m, Polling)
      | Some a \<Rightarrow>
          (quote_update q (r\<lparr> session_granted := True, completed_at := Some now, q_allotment := a,
                              cached_state := Some Issued \<rparr>) m, Exited))"

datatype quote_event =
    Wake bool
  | Status "QuoteState option" i64
  | Minted bool
  | Grant "u64 option"
  | Sweep i64

datatype quote_output = Tokens_minted string | Access_granted string u64

text \<open>The loop, one step per answer; an answer that the monitor does not wait for changes nothing.\<close>

definition monitor_step ::
    "string \<Rightarrow> quotes \<times> monitor \<Rightarrow> quote_event \<Rightarrow> (quotes \<times> monitor) \<times> quote_output list" where
  "monitor_step q st ev =
     (let (m, mon) = st
      in case (ev, mon) of
           (Sweep now, _) \<Rightarrow> ((janitor_sweep now m, mon), [])
         | (Wake over, Polling) \<Rightarrow> ((m, monitor_poll q over m), [])
         | (Status answer now, Checking r) \<Rightarrow> (monitor_status q r answer now m, [])
         | (Minted ok, Minting r now) \<Rightarrow>
             (monitor_minted q r now ok m, if ok then [Tokens_minted q] else [])
         | (Grant answer, Granting r now) \<Rightarrow>
             (monitor_granted q r now answer m,
              case answer of Some a \<Rightarrow> [Access_granted q a] | None \<Rightarrow> [])
         | _ \<Rightarrow> (st, []))"


lemmas monitor_defs = monitor_step_def monitor_poll_def monitor_status_def monitor_minted_def monitor_granted_def
  quote_get_def quote_update_def Let_def


subsection \<open>A monitor grants once\<close>

definition is_grant :: "quote_output \<Rightarrow> bool" where
  "is_grant out = (case out of Access_granted _ _ \<Rightarrow> True | Tokens_minted _ \<Rightarrow> False)"

interpretation monitor: settling_machine "monitor_step q" "\<lambda>_. True" "\<lambda>st. snd st = Exited"
    is_grant "\<lambda>_ outs. outs = [] \<or> (\<exists>a. outs = [Access_granted q a])" for q
proof (unfold_locales, goal_cases)
  case (2 st e)
  then show ?case by (cases st) (auto simp: monitor_step_def split: quote_event.splits)
next
  case (3 st e)
  obtain m mon where st: "st = (m, mon)" by (cases st)
  show ?case
    using 3 unfolding st
    by (cases e; cases mon)
      (auto simp: monitor_defs is_grant_def split: option.split)
qed auto

text \<open>
  C20. However often the monitor of a quote is woken, whatever the mint answers and whenever the
  janitor sweeps, it grants access at most once, and only when it ends: while it still runs it has granted nothing.
\<close>

theorem monitor_grants_once:
  assumes "snd st \<noteq> Exited"
  shows "if snd (final (monitor_step q) st es) = Exited
         then length (filter is_grant (outputs (monitor_step q) st es)) \<le> 1
         else filter is_grant (outputs (monitor_step q) st es) = []"
  using monitor.settles_once [of st q es] assms by auto

definition sample_quote :: quote where
  "sample_quote =
     \<lparr> quote_id = ''q'', q_mac_address = ''m'', q_mint_url = ''u'', amount = 8, expiry = 2000, q_allotment = 0,
       created_at = 1000, completed_at = None, session_granted = False, processing = False, invoice = [],
       cached_state = None, cached_state_at = None \<rparr>"

definition sample_quotes :: quotes where
  "sample_quotes = quote_insert sample_quote bt_empty"

theorem monitor_grants_once_witness:
  "snd (final (monitor_step ''q'') (sample_quotes, Polling)
      [Wake False, Status (Some Paid) 1010, Minted True, Grant (Some 5), Wake False, Grant (Some 5)]) = Exited \<and>
   outputs (monitor_step ''q'') (sample_quotes, Polling)
      [Wake False, Status (Some Paid) 1010, Minted True, Grant (Some 5), Wake False, Grant (Some 5)] =
     [Tokens_minted ''q'', Access_granted ''q'' 5] \<and>
   length (filter is_grant (outputs (monitor_step ''q'') (sample_quotes, Polling)
      [Wake False, Status (Some Paid) 1010, Minted True, Grant (Some 5), Wake False, Grant (Some 5)])) \<le> 1"
proof -
  let ?es = "[Wake False, Status (Some Paid) 1010, Minted True, Grant (Some 5), Wake False, Grant (Some 5)]"
  have "snd (final (monitor_step ''q'') (sample_quotes, Polling) ?es) = Exited \<and>
      outputs (monitor_step ''q'') (sample_quotes, Polling) ?es = [Tokens_minted ''q'', Access_granted ''q'' 5]"
    by (simp add: monitor_defs sample_quotes_def quote_insert_def sample_quote_def)
  with monitor_grants_once [of "(sample_quotes, Polling)" "''q''" ?es] show ?thesis by simp
qed


subsection \<open>What a failure leaves\<close>

text \<open>
  A failed minting or grant is retried: the record is left unprocessed and not granted, and
  the next time the monitor wakes within its lifetime it asks for the status again, with that record.
\<close>

theorem monitor_retries:
  assumes "mon = Minting r now \<and> ev = Minted False \<or> mon = Granting r now \<and> ev = Grant None"
    and "\<not> session_granted r"
  shows "final (monitor_step q) (m, mon) [ev, Wake False] =
           (quote_update q (r\<lparr> processing := False \<rparr>) m, Checking (r\<lparr> processing := False \<rparr>)) \<and>
         outputs (monitor_step q) (m, mon) [ev, Wake False] = []"
  using assms
  by (auto simp: monitor_defs)

theorem monitor_retries_witness:
  "snd (final (monitor_step ''q'') (sample_quotes, Granting sample_quote 1010) [Grant None, Wake False]) =
   Checking sample_quote"
  using monitor_retries [of "Granting sample_quote 1010" sample_quote 1010 "Grant None" "''q''" sample_quotes]
  by (simp add: sample_quote_def del: run.simps)


subsection \<open>The janitor\<close>

definition keyed :: "quotes \<Rightarrow> bool" where
  "keyed m \<longleftrightarrow> bt_ok m \<and> list_all (\<lambda>(k, r). quote_id r = k) m"

lemma remove_all_get:
  "bt_get (fold (\<lambda>r. quote_remove (quote_id r)) rs m) k = (if k \<in> quote_id ` set rs then None else bt_get m k)"
  by (induction rs arbitrary: m) (auto simp: quote_remove_def)

text \<open>
  A sweep removes the stale quotes and no other: the ones never granted that nobody is processing
  after half an hour, the granted ones ten minutes after completion, and every one five minutes
  after the invoice expired.
\<close>

theorem janitor_exact:
  assumes "keyed m"
  shows "bt_get (janitor_sweep now m) k =
    (case bt_get m k of Some r \<Rightarrow> if is_stale 1800 now r then None else Some r | None \<Rightarrow> None)"
proof (cases "bt_get m k")
  case None
  then show ?thesis by (simp add: janitor_sweep_def remove_all_get)
next
  case (Some r)
  have ids: "quote_id r' = k'" if "(k', r') \<in> set m" for k' r'
    using assms that by (auto simp: keyed_def list_all_iff)
  have "k \<in> quote_id ` set (list_stale 1800 now m) \<longleftrightarrow> is_stale 1800 now r"
  proof
    assume "k \<in> quote_id ` set (list_stale 1800 now m)"
    then obtain k' r' where "(k', r') \<in> set m" "is_stale 1800 now r'" "k = quote_id r'"
      by (auto simp: list_stale_def)
    then show "is_stale 1800 now r"
      using ids bt_entry_get [of m k' r'] assms Some by (auto simp: keyed_def)
  next
    assume "is_stale 1800 now r"
    with bt_get_entry [OF Some] ids show "k \<in> quote_id ` set (list_stale 1800 now m)"
      by (force simp: list_stale_def)
  qed
  with Some show ?thesis by (simp add: janitor_sweep_def remove_all_get)
qed

theorem janitor_exact_witness:
  "bt_get (janitor_sweep 2301 sample_quotes) ''q'' = None \<and>
   bt_get (janitor_sweep 2300 sample_quotes) ''q'' = Some sample_quote"
proof -
  have k: "keyed sample_quotes"
    by (simp add: keyed_def sample_quotes_def quote_insert_def sample_quote_def bt_empty_def bt_ok_def bt_keys_def)
  have g: "bt_get sample_quotes ''q'' = Some sample_quote"
    by (simp add: sample_quotes_def quote_insert_def sample_quote_def)
  have "is_stale 1800 2301 sample_quote" "\<not> is_stale 1800 2300 sample_quote"
    by (simp_all add: is_stale_def sample_quote_def)
  with janitor_exact [OF k, of 2301 "''q''"] janitor_exact [OF k, of 2300 "''q''"] g show ?thesis by simp
qed


subsection \<open>Two tasks on one quote\<close>

text \<open>Two tasks that process the same quote, over one store; the first component says whose step it is.\<close>

definition pair_step ::
    "string \<Rightarrow> quotes \<times> monitor \<times> monitor \<Rightarrow> bool \<times> quote_event \<Rightarrow>
     (quotes \<times> monitor \<times> monitor) \<times> quote_output list" where
  "pair_step q st ev =
     (case (st, ev) of
        ((m, a, b), (first, e)) \<Rightarrow>
          if first then (case monitor_step q (m, a) e of ((m1, a1), out) \<Rightarrow> ((m1, a1, b), out))
          else (case monitor_step q (m, b) e of ((m1, b1), out) \<Rightarrow> ((m1, a, b1), out)))"

text \<open>
  The in-flight flag does not exclude a second task: it is read before the status request and
  set after it, so two tasks that poll one quote at the same time both mint and both grant.
\<close>

theorem concurrent_monitors_grant_twice:
  "outputs (pair_step ''q'') (sample_quotes, Polling, Polling)
     [(True, Wake False), (False, Wake False),
      (True, Status (Some Paid) 1010), (False, Status (Some Paid) 1010),
      (True, Minted True), (False, Minted True), (True, Grant (Some 5)), (False, Grant (Some 5))] =
   [Tokens_minted ''q'', Tokens_minted ''q'', Access_granted ''q'' 5, Access_granted ''q'' 5]"
  by (simp add: pair_step_def monitor_defs sample_quotes_def quote_insert_def sample_quote_def)

text \<open>
  The janitor removes a quote that is being processed once its invoice has been expired for
  five minutes, and the monitor's next update puts the removed record back.
\<close>

theorem janitor_interrupts_processing:
  "let st0 = (sample_quotes, Polling);
       st1 = final (monitor_step ''q'') st0 [Wake False, Status (Some Paid) 1010, Sweep 2301];
       st2 = final (monitor_step ''q'') st1 [Minted True, Grant (Some 5)]
   in bt_get (fst st1) ''q'' = None \<and>
      map_option session_granted (bt_get (fst st2) ''q'') = Some True"
  by (simp add: monitor_defs sample_quotes_def quote_insert_def sample_quote_def
      janitor_sweep_def list_stale_def is_stale_def quote_remove_def bt_empty_def bt_remove_def)

end
