(* ===== verification/Rust_Text.thy ===== *)
theory Rust_Text
  imports Rust_Strings
begin

section \<open>Searching and splitting text\<close>

text \<open>
  The pattern functions of the standard library's \<^verbatim>\<open>str\<close> that the parsers of command output use:
  prefixes, suffixes, substrings, splitting, replacing and padding.
\<close>

definition starts_with :: "string \<Rightarrow> string \<Rightarrow> bool" where
  "starts_with p s \<longleftrightarrow> take (length p) s = p"

definition strip_prefix :: "string \<Rightarrow> string \<Rightarrow> string option" where
  "strip_prefix p s = (if starts_with p s then Some (drop (length p) s) else None)"

definition strip_suffix :: "string \<Rightarrow> string \<Rightarrow> string option" where
  "strip_suffix p s = map_option rev (strip_prefix (rev p) (rev s))"

fun contains_str :: "string \<Rightarrow> string \<Rightarrow> bool" where
  "contains_str p [] \<longleftrightarrow> p = []"
| "contains_str p (c # s) \<longleftrightarrow> starts_with p (c # s) \<or> contains_str p s"

text \<open>Splitting at every occurrence of a non-empty pattern, from the left.\<close>

function split_acc :: "string \<Rightarrow> string \<Rightarrow> string \<Rightarrow> string list" where
  "split_acc p acc [] = [rev acc]"
| "split_acc p acc (c # s) =
     (if p \<noteq> [] \<and> starts_with p (c # s) then rev acc # split_acc p [] (drop (length p - 1) s)
      else split_acc p (c # acc) s)"
  by pat_completeness auto
termination by (relation "measure (\<lambda>(_, _, s). length s)") auto

definition split_str :: "string \<Rightarrow> string \<Rightarrow> string list" where
  "split_str p s = split_acc p [] s"

abbreviation split_char :: "char \<Rightarrow> string \<Rightarrow> string list" where
  "split_char c s \<equiv> split_str [c] s"

function split_whitespace :: "string \<Rightarrow> string list" where
  "split_whitespace s =
     (let t = trim_start s
      in if t = [] then []
         else takeWhile (\<lambda>c. \<not> is_whitespace c) t # split_whitespace (dropWhile (\<lambda>c. \<not> is_whitespace c) t))"
  by pat_completeness auto
termination
proof (relation "measure length")
  fix s t :: string
  assume t: "t = trim_start s" and "t \<noteq> []"
  then obtain c r where c: "t = c # r" "\<not> is_whitespace c"
    by (metis hd_dropWhile list.exhaust list.sel(1) trim_start_def)
  then have "length (dropWhile (\<lambda>c. \<not> is_whitespace c) t) \<le> length r"
    by (simp add: length_dropWhile_le)
  also have "\<dots> < length t" by (simp add: c)
  also have "length t \<le> length s" by (simp add: t trim_start_def length_dropWhile_le)
  finally show "(dropWhile (\<lambda>c. \<not> is_whitespace c) t, s) \<in> measure length" by simp
qed simp

declare split_whitespace.simps [simp del]

definition replace_char :: "char \<Rightarrow> string \<Rightarrow> string \<Rightarrow> string" where
  "replace_char c r s = concat (map (\<lambda>x. if x = c then r else [x]) s)"

text \<open>The \<^verbatim>\<open>n\<close>th piece of an iterator, from zero.\<close>

definition nth_opt :: "nat \<Rightarrow> 'a list \<Rightarrow> 'a option" where
  "nth_opt i xs = (if i < length xs then Some (xs ! i) else None)"

text \<open>\<^verbatim>\<open>Iterator::find_map\<close>: the first result of a partial function.\<close>

fun find_map :: "('a \<Rightarrow> 'b option) \<Rightarrow> 'a list \<Rightarrow> 'b option" where
  "find_map f [] = None"
| "find_map f (x # xs) = (case f x of Some y \<Rightarrow> Some y | None \<Rightarrow> find_map f xs)"

definition pad_left :: "nat \<Rightarrow> char \<Rightarrow> string \<Rightarrow> string" where
  "pad_left n c s = replicate (n - length s) c @ s"

text \<open>The lower-case hexadecimal digits of \<^verbatim>\<open>{:02x}\<close>.\<close>

definition hex_digit :: "nat \<Rightarrow> char" where
  "hex_digit n = char_of (if n < 10 then 48 + n else 87 + n)"

definition hex_byte :: "u8 \<Rightarrow> string" where
  "hex_byte b = [hex_digit (unat b div 16), hex_digit (unat b mod 16)]"

definition parse_i32 :: "string \<Rightarrow> 32 word option" where
  "parse_i32 s =
     (if s \<noteq> [] \<and> hd s = CHR ''-''
      then (case parse_nat (tl s) of
              None \<Rightarrow> None
            | Some n \<Rightarrow> if n \<le> 2 ^ 31 then Some (- of_nat n) else None)
      else (case parse_nat (case s of c # r \<Rightarrow> if c = CHR ''+'' then r else s | [] \<Rightarrow> []) of
              None \<Rightarrow> None
            | Some n \<Rightarrow> if n < 2 ^ 31 then Some (of_nat n) else None))"


subsection \<open>Prefixes\<close>

lemma starts_with_append [simp]: "starts_with p (p @ s)"
  by (simp add: starts_with_def)

lemma starts_with_iff: "starts_with p s \<longleftrightarrow> (\<exists>r. s = p @ r)"
  by (metis append_take_drop_id append_eq_conv_conj starts_with_def)

lemma strip_prefix_append [simp]: "strip_prefix p (p @ s) = Some s"
  by (simp add: strip_prefix_def)

lemma strip_prefix_Some: "strip_prefix p s = Some r \<longleftrightarrow> s = p @ r"
  by (auto simp: strip_prefix_def starts_with_iff)

lemma strip_suffix_Some: "strip_suffix p s = Some r \<longleftrightarrow> s = r @ p"
proof
  assume "strip_suffix p s = Some r"
  then have "rev s = rev p @ rev r" by (auto simp: strip_suffix_def strip_prefix_Some)
  then show "s = r @ p" by (metis rev_append rev_rev_ident)
qed (simp add: strip_suffix_def strip_prefix_def)


subsection \<open>Splitting\<close>

lemma split_acc_none:
  "c \<notin> set s \<Longrightarrow> split_acc [c] acc s = [rev acc @ s]"
  by (induction "[c]" acc s rule: split_acc.induct) (auto simp: starts_with_def)

lemma split_acc_char:
  "c \<notin> set l \<Longrightarrow> split_acc [c] acc (l @ c # s) = (rev acc @ l) # split_acc [c] [] s"
  by (induction l arbitrary: acc) (auto simp: starts_with_def)

lemma split_char_none [simp]: "c \<notin> set s \<Longrightarrow> split_char c s = [s]"
  by (simp add: split_str_def split_acc_none)

lemma split_char_first: "c \<notin> set l \<Longrightarrow> split_char c (l @ c # s) = l # split_char c s"
  by (simp add: split_str_def split_acc_char)

text \<open>No piece holds the separator, and joining the pieces again gives the text.\<close>

lemma split_char_pieces: "p \<in> set (split_char c s) \<Longrightarrow> c \<notin> set p"
proof -
  have *: "c \<notin> set acc \<Longrightarrow> p \<in> set (split_acc [c] acc s) \<Longrightarrow> c \<notin> set p" for acc
    by (induction "[c]" acc s rule: split_acc.induct) (auto simp: starts_with_def split: if_splits)
  show "p \<in> set (split_char c s) \<Longrightarrow> c \<notin> set p" using * [of "[]"] by (simp add: split_str_def)
qed

lemma split_str_nonempty [simp]: "split_str p s \<noteq> []"
proof -
  have "split_acc p acc s \<noteq> []" for acc
    by (induction p acc s rule: split_acc.induct) auto
  then show ?thesis by (simp add: split_str_def)
qed


text \<open>A text that lacks a character of the pattern is one piece; a piece ends at the pattern.\<close>

lemma starts_with_absent: "c \<in> set p \<Longrightarrow> c \<notin> set s \<Longrightarrow> \<not> starts_with p s"
  by (auto simp: starts_with_iff)

lemma contains_str_iff: "contains_str p s \<longleftrightarrow> (\<exists>a b. s = a @ p @ b)"
proof (induction s)
  case (Cons c s)
  have "(\<exists>a b. c # s = a @ p @ b) \<longleftrightarrow> (\<exists>b. c # s = p @ b) \<or> (\<exists>a b. s = a @ p @ b)"
    by (metis append_Cons append_Nil list.inject list.exhaust)
  then show ?case using Cons by (simp add: starts_with_iff)
qed auto

lemma contains_str_absent: "c \<in> set p \<Longrightarrow> c \<notin> set s \<Longrightarrow> \<not> contains_str p s"
  by (auto simp: contains_str_iff)

lemma contains_str_here [simp]: "contains_str p (a @ p @ b)"
  by (auto simp: contains_str_iff)

lemma split_str_absent:
  assumes "c \<in> set p" "c \<notin> set s"
  shows "split_str p s = [s]"
proof -
  have "split_acc p acc s = [rev acc @ s]" for acc
    using assms
  proof (induction s arbitrary: acc)
    case (Cons d s)
    then have "\<not> starts_with p (d # s)" using starts_with_absent [of c p "d # s"] by simp
    with Cons show ?case by simp
  qed simp
  then show ?thesis by (simp add: split_str_def)
qed

lemma split_str_first:
  assumes "p \<noteq> []" "hd p \<notin> set l"
  shows "split_str p (l @ p @ s) = l # split_str p s"
proof -
  obtain c q where p: "p = c # q" using assms(1) by (cases p) auto
  have "split_acc p acc (l @ p @ s) = (rev acc @ l) # split_acc p [] s" for acc
    using assms(2) by (induction l arbitrary: acc) (auto simp: p starts_with_def)
  then show ?thesis by (simp add: split_str_def)
qed


subsection \<open>Trimming\<close>

definition trimmed :: "string \<Rightarrow> bool" where
  "trimmed s \<longleftrightarrow> s = [] \<or> \<not> is_whitespace (hd s) \<and> \<not> is_whitespace (last s)"

lemma dropWhile_pad: "list_all P a \<Longrightarrow> s = [] \<or> \<not> P (hd s) \<Longrightarrow> dropWhile P (a @ s) = s"
  by (induction a) (auto simp: dropWhile_eq_self_iff)

lemma trim_pad:
  assumes "list_all is_whitespace a" "list_all is_whitespace b" "trimmed s"
  shows "trim (a @ s @ b) = s"
proof (cases "s = []")
  case True
  have "dropWhile is_whitespace (a @ b) = []" using assms(1,2) by (simp add: list_all_iff)
  then show ?thesis using True by (simp add: trim_def trim_start_def del: dropWhile_eq_Nil_conv dropWhile_append)
next
  case False
  then have "dropWhile is_whitespace (a @ s @ b) = s @ b"
    "dropWhile is_whitespace (rev b @ rev s) = rev s"
    using assms dropWhile_pad [of is_whitespace a "s @ b"] dropWhile_pad [of is_whitespace "rev b" "rev s"]
    by (auto simp: trimmed_def list_all_iff hd_append hd_rev)
  then show ?thesis by (simp add: trim_def trim_start_def)
qed

lemmas trim_simps = trim_pad [of "[]", simplified] trim_pad [of _ "[]", simplified] trim_pad [of "[]" "[]", simplified]

lemma trim_strip_cr: "trim (strip_cr s) = trim s"
proof -
  have dw: "dropWhile is_whitespace (x @ [carriage_return]) =
      (if list_all is_whitespace x then [] else dropWhile is_whitespace x @ [carriage_return])" for x
    using whitespace_newline by (auto simp: dropWhile_append list_all_iff)
  have "trim (x @ [carriage_return]) = trim x" for x
  proof (cases "list_all is_whitespace x")
    case True
    then have "dropWhile is_whitespace x = []" by (simp add: list_all_iff)
    then show ?thesis using True dw [of x] by (simp add: trim_def trim_start_def del: dropWhile_eq_Nil_conv)
  next
    case False
    then show ?thesis using whitespace_newline dw [of x] by (simp add: trim_def trim_start_def)
  qed
  moreover have "s \<noteq> [] \<Longrightarrow> last s = carriage_return \<Longrightarrow> s = butlast s @ [carriage_return]"
    by (metis append_butlast_last_id)
  ultimately show ?thesis by (metis strip_cr_def)
qed


subsection \<open>Numbers of 32 bits\<close>

definition show_i32 :: "32 word \<Rightarrow> string" where
  "show_i32 w =
     (if sint w < 0 then CHR ''-'' # show_nat (nat (- sint w)) else show_nat (nat (sint w)))"

lemma show_nat_sign:
  "(case show_nat n of c # r \<Rightarrow> if c = CHR ''+'' then r else show_nat n | [] \<Rightarrow> []) = show_nat n"
  "hd (show_nat n) \<noteq> CHR ''-''"
proof -
  obtain c r where s: "show_nat n = c # r" and "digit_value c \<noteq> None" by (rule show_nat_digit)
  then have "c \<noteq> CHR ''+''" "c \<noteq> CHR ''-''" using digit_value_sign by auto
  then show "(case show_nat n of c # r \<Rightarrow> if c = CHR ''+'' then r else show_nat n | [] \<Rightarrow> []) = show_nat n"
    "hd (show_nat n) \<noteq> CHR ''-''" by (simp_all add: s)
qed

lemma parse_show_nat: "parse_nat (show_nat n) = Some n"
  by (simp add: parse_nat_def decimal_show)

lemma parse_show_i32 [simp]: "parse_i32 (show_i32 w) = Some w"
proof -
  have r: "- (2 ^ 31) \<le> sint w" "sint w < 2 ^ 31" using sint_ge [of w] sint_lt [of w] by simp_all
  show ?thesis
  proof (cases "sint w < 0")
    case True
    then have "nat (- sint w) \<le> 2 ^ 31" using r(1) by (simp add: nat_le_iff)
    moreover have "- of_nat (nat (- sint w)) = w" using True by (simp add: word_of_int_minus flip: of_int_minus)
    ultimately show ?thesis using True
      by (simp add: parse_i32_def show_i32_def parse_nat_def decimal_show)
  next
    case False
    have "nat (sint w) < 2 ^ 31" using r(2) False by (simp add: nat_less_iff)
    moreover have "(of_nat (nat (sint w)) :: 32 word) = w" using False by simp
    ultimately show ?thesis using False
      by (simp add: parse_i32_def show_i32_def show_nat_sign parse_show_nat del: of_nat_nat)
  qed
qed

lemma parse_show_u32 [simp]: "parse_u32 (show_nat (unat w)) = Some (w :: 32 word)"
  using unat_bound [of w] by (simp add: parse_u32_def show_nat_sign parse_show_nat)

lemma show_nat_digits: "list_all (\<lambda>c. digit_value c \<noteq> None) (show_nat n)"
proof (induction n rule: show_nat.induct)
  case (1 n)
  then show ?case by (subst show_nat.simps) (simp add: digit_value_digit)
qed

lemma digit_not_whitespace: "digit_value c \<noteq> None \<Longrightarrow> \<not> is_whitespace c"
  by (auto simp: digit_value_def is_whitespace_def split: if_splits)

lemma show_nat_word: "is_word (show_nat n)"
  using show_nat_digits [of n] digit_not_whitespace by (auto simp: is_word_def list_all_iff)

lemma show_i32_word: "is_word (show_i32 w)"
  using show_nat_word by (auto simp: show_i32_def is_word_def is_whitespace_def char_nat_def)


subsection \<open>Words\<close>

lemma split_whitespace_empty [simp]: "split_whitespace [] = []"
  by (simp add: split_whitespace.simps trim_start_def)

lemma split_whitespace_word:
  assumes "is_word w" and "is_whitespace b"
  shows "split_whitespace (w @ b # s) = w # split_whitespace (b # s)"
proof -
  have w: "\<And>c. c \<in> set w \<Longrightarrow> \<not> is_whitespace c" "w \<noteq> []"
    using assms(1) by (auto simp: is_word_def list_all_iff)
  then have "trim_start (w @ b # s) = w @ b # s" by (cases w) (auto simp: trim_start_def)
  then show ?thesis using w assms(2)
    by (subst split_whitespace.simps) (simp add: Let_def takeWhile_all dropWhile_all)
qed

lemma split_whitespace_last:
  assumes "is_word w"
  shows "split_whitespace w = [w]"
proof -
  have w: "\<And>c. c \<in> set w \<Longrightarrow> \<not> is_whitespace c" "w \<noteq> []"
    using assms by (auto simp: is_word_def list_all_iff)
  then have "trim_start w = w" by (cases w) (auto simp: trim_start_def)
  moreover have "takeWhile (\<lambda>c. \<not> is_whitespace c) w = w" "dropWhile (\<lambda>c. \<not> is_whitespace c) w = []"
    using w(1) by (simp_all add: takeWhile_eq_all_conv)
  ultimately show ?thesis using w(2)
    by (subst split_whitespace.simps) (simp add: Let_def del: dropWhile_eq_Nil_conv)
qed

lemma split_whitespace_blank: "is_whitespace b \<Longrightarrow> split_whitespace (b # s) = split_whitespace s"
  by (subst (1 2) split_whitespace.simps) (simp add: trim_start_def)

lemma split_whitespace_words:
  "list_all is_word ws \<Longrightarrow> is_word w \<Longrightarrow>
   split_whitespace (concat (map (\<lambda>v. v @ '' '') ws) @ w) = ws @ [w]"
  by (induction ws)
    (simp_all add: split_whitespace_word split_whitespace_blank split_whitespace_last is_whitespace_def char_nat_def)

lemma word_trimmed: "is_word w \<Longrightarrow> trimmed w"
  by (auto simp: is_word_def trimmed_def list_all_iff)


subsection \<open>Hexadecimal digits read back\<close>

definition hex_value :: "char \<Rightarrow> nat" where
  "hex_value c = (if char_nat c < 58 then char_nat c - 48 else char_nat c - 87)"

fun unhex :: "string \<Rightarrow> bytes" where
  "unhex (c # d # s) = of_nat (hex_value c * 16 + hex_value d) # unhex s"
| "unhex _ = []"

lemma hex_value_digit: "n < 16 \<Longrightarrow> hex_value (hex_digit n) = n"
  by (auto simp: hex_value_def hex_digit_def char_nat_def)

lemma byte_digits: "unat (b :: u8) div 16 < 16" "unat (b :: u8) mod 16 < 16"
  using unat_bound [of b] by (simp_all add: less_mult_imp_div_less)

lemma unhex_bytes: "unhex (concat (map hex_byte bs)) = bs"
proof (induction bs)
  case (Cons b bs)
  have "unat b div 16 * 16 + unat b mod 16 = unat b" by simp
  then have "(of_nat (unat b div 16 * 16 + unat b mod 16) :: u8) = b" by simp
  then show ?case using Cons.IH
    by (simp add: hex_byte_def hex_value_digit [OF byte_digits(1)] hex_value_digit [OF byte_digits(2)]
      del: div_mult_mod_eq)
qed simp

lemma hex_digit_plain:
  assumes "n < 16"
  shows "hex_digit n \<noteq> CHR ''='' \<and> hex_digit n \<noteq> newline \<and> \<not> is_whitespace (hex_digit n)"
proof -
  have d: "of_char (hex_digit n) = (if n < 10 then 48 + n else 87 + n)" using assms by (simp add: hex_digit_def)
  then have "of_char (hex_digit n) \<noteq> (61 :: nat)" "of_char (hex_digit n) \<noteq> (10 :: nat)" by (simp_all split: if_splits)
  moreover have "of_char (CHR ''='') = (61 :: nat)" "of_char newline = (10 :: nat)"
    by (simp_all add: newline_def)
  moreover have "\<not> is_whitespace (hex_digit n)" by (simp add: is_whitespace_def char_nat_def d)
  ultimately show ?thesis by metis
qed

lemma hex_bytes_plain:
  "c \<in> set (concat (map hex_byte bs)) \<Longrightarrow> c \<noteq> CHR ''='' \<and> c \<noteq> newline \<and> \<not> is_whitespace c"
  using hex_digit_plain byte_digits by (auto simp: hex_byte_def)

end
