(* ===== verification/Rust_Files.thy ===== *)
theory Rust_Files
  imports Rust_Text
begin

section \<open>Files\<close>

text \<open>
  The parent of a path: what is left of its last component. The answers of the file system are
  the errors of its calls, if any, and how much of the line reached the file.
\<close>

definition path_parent :: "string \<Rightarrow> string option" where
  "path_parent path =
     (let p = trim_end_matches (CHR ''/'') path
      in if p = [] then None
         else let up = rev (dropWhile (\<lambda>c. c \<noteq> CHR ''/'') (rev p));
                  dir = trim_end_matches (CHR ''/'') up
              in Some (if dir = [] then take 1 up else dir))"

record fs_answers =
  mkdir_error :: "string option"
  open_error :: "string option"
  written :: nat
  write_error :: "string option"
  flush_error :: "string option"

type_synonym files = "string \<Rightarrow> string option"

definition file_append :: "files \<Rightarrow> string \<Rightarrow> string \<Rightarrow> files" where
  "file_append files path s = files(path \<mapsto> (case files path of None \<Rightarrow> [] | Some c \<Rightarrow> c) @ s)"

definition file_write :: "files \<Rightarrow> string \<Rightarrow> string \<Rightarrow> files" where
  "file_write files path s = files(path \<mapsto> s)"

text \<open>\<^verbatim>\<open>create_dir_all\<close> on the parent of a path, if it has one: its error.\<close>

definition parent_error :: "fs_answers \<Rightarrow> string \<Rightarrow> string option" where
  "parent_error fs path =
     (case path_parent path of
        None \<Rightarrow> None
      | Some parent \<Rightarrow> if parent = [] then None else mkdir_error fs)"

end
