(* ===== verification/V1_Recovery.thy ===== *)
theory V1_Recovery
  imports Rust_Files
begin

section \<open>Recovery of tokens after a failed upstream payment\<close>

text \<open>
  \<^verbatim>\<open>crates/tollgate-net/src/v1_compat/recovery.rs\<close>: a token that an upstream did not take is first
  received back into the wallet and otherwise appended, in hexadecimal and with a time stamp, to a
  file. The conversion of Unix seconds to a calendar date is written out in the source and is
  modelled on 64-bit words; what the wallet and the file system answer is an argument.
\<close>


subsection \<open>The calendar\<close>

definition is_leap_year :: "u64 \<Rightarrow> bool" where
  "is_leap_year year \<longleftrightarrow> (year mod 4 = 0 \<and> year mod 100 \<noteq> 0) \<or> year mod 400 = 0"

definition days_in_year :: "u64 \<Rightarrow> u64" where
  "days_in_year year = (if is_leap_year year then 366 else 365)"

function year_loop :: "u64 \<Rightarrow> u64 \<Rightarrow> u64 \<times> u64" where
  "year_loop days year =
     (if days < days_in_year year then (year, days)
      else year_loop (days - days_in_year year) (year + 1))"
  by pat_completeness auto
termination
  by (relation "measure (\<lambda>(days, _). unat days)")
    (auto simp: days_in_year_def unat_sub not_less word_le_nat_alt split: if_splits)

declare year_loop.simps [simp del]

definition days_to_year_and_day :: "u64 \<Rightarrow> u64 \<times> u64" where
  "days_to_year_and_day days = year_loop days 1970"

definition month_days :: "bool \<Rightarrow> u64 list" where
  "month_days leap =
     (if leap then [31, 29, 31, 30, 31, 30, 31, 31, 30, 31, 30, 31]
      else [31, 28, 31, 30, 31, 30, 31, 31, 30, 31, 30, 31])"

fun month_loop :: "u64 \<Rightarrow> u64 list \<Rightarrow> u64 \<Rightarrow> u64 \<times> u64" where
  "month_loop i [] remaining = (12, 31)"
| "month_loop i (mdays # ms) remaining =
     (if remaining < mdays then (i + 1, remaining + 1) else month_loop (i + 1) ms (remaining - mdays))"

definition day_of_year_to_month_day :: "u64 \<Rightarrow> bool \<Rightarrow> u64 \<times> u64" where
  "day_of_year_to_month_day day_of_year leap = month_loop 0 (month_days leap) day_of_year"

definition unix_to_calendar :: "u64 \<Rightarrow> u64 \<times> u64 \<times> u64 \<times> u64 \<times> u64 \<times> u64" where
  "unix_to_calendar secs =
     (let days = secs div 86400;
          remainder = secs mod 86400;
          hour = remainder div 3600;
          minute = remainder mod 3600 div 60;
          second = remainder mod 60;
          (year, day_of_year) = days_to_year_and_day days;
          (month, day) = day_of_year_to_month_day day_of_year (is_leap_year year)
      in (year, month, day, hour, minute, second))"

definition zero_padded :: "nat \<Rightarrow> u64 \<Rightarrow> string" where
  "zero_padded width w = pad_left width (CHR ''0'') (show_u64 w)"

definition format_rfc3339 :: "u64 \<Rightarrow> string" where
  "format_rfc3339 secs =
     (let (year, month, day, hour, minute, second) = unix_to_calendar secs
      in zero_padded 4 year @ ''-'' @ zero_padded 2 month @ ''-'' @ zero_padded 2 day @ ''T'' @
         zero_padded 2 hour @ '':'' @ zero_padded 2 minute @ '':'' @ zero_padded 2 second @ ''Z'')"


subsection \<open>The entry of a token\<close>

definition hex_encode :: "bytes \<Rightarrow> string" where
  "hex_encode bs = concat (map hex_byte bs)"

definition recovery_line :: "u64 \<Rightarrow> bytes \<Rightarrow> string \<Rightarrow> string \<Rightarrow> string" where
  "recovery_line now token mint_url error =
     format_rfc3339 now @ '' | mint='' @ mint_url @ '' | error='' @ error @ '' | token='' @
     hex_encode token @ [newline]"

definition write_recovery_entry ::
  "fs_answers \<Rightarrow> u64 \<Rightarrow> string \<Rightarrow> bytes \<Rightarrow> string \<Rightarrow> string \<Rightarrow> files \<Rightarrow> files \<times> (string + unit)" where
  "write_recovery_entry fs now path token mint_url error files =
     (let line = recovery_line now token mint_url error
      in case parent_error fs path of
           Some e \<Rightarrow> (files, Inl e)
         | None \<Rightarrow>
             (case open_error fs of
                Some e \<Rightarrow> (files, Inl e)
              | None \<Rightarrow>
                  (case write_error fs of
                     Some e \<Rightarrow> (file_append files path (take (written fs) line), Inl e)
                   | None \<Rightarrow>
                       (file_append files path line,
                        case flush_error fs of Some e \<Rightarrow> Inl e | None \<Rightarrow> Inr ()))))"

datatype RecoveryResult = AutoRecovered u64 | SavedToFile string | RecoveryFailed string

definition recover_failed_token ::
  "(bytes \<Rightarrow> string + u64) \<Rightarrow> fs_answers \<Rightarrow> u64 \<Rightarrow> bytes \<Rightarrow> string \<Rightarrow> string \<Rightarrow> string \<Rightarrow> files \<Rightarrow>
   files \<times> RecoveryResult" where
  "recover_failed_token receive_token fs now token mint_url error recovery_file files =
     (case receive_token token of
        Inr amount \<Rightarrow> (files, AutoRecovered amount)
      | Inl _ \<Rightarrow>
          (case write_recovery_entry fs now recovery_file token mint_url error files of
             (files', Inr _) \<Rightarrow> (files', SavedToFile recovery_file)
           | (files', Inl io_err) \<Rightarrow>
               (files', RecoveryFailed
                  (''Recovery failed: auto-reclaim rejected, file write failed: '' @ io_err))))"


subsection \<open>A reference calendar\<close>

text \<open>
  The proleptic Gregorian calendar in closed form: the days from the first of January 1970 to that
  of a year, and the days from the first of January to the first of a month.
\<close>

definition year_start :: "nat \<Rightarrow> int" where
  "year_start y =
     365 * (int y - 1970) + (int y - 1) div 4 - (int y - 1) div 100 + (int y - 1) div 400 - 477"

definition leap :: "nat \<Rightarrow> bool" where
  "leap y \<longleftrightarrow> 4 dvd y \<and> (100 dvd y \<longrightarrow> 400 dvd y)"

definition month_start :: "bool \<Rightarrow> nat \<Rightarrow> nat" where
  "month_start l m = (367 * m - 362) div 12 - (if m \<le> 2 then 0 else if l then 1 else 2)"

definition month_length :: "bool \<Rightarrow> nat \<Rightarrow> nat" where
  "month_length l m = (if m = 2 then if l then 29 else 28 else if m \<in> {4, 6, 9, 11} then 30 else 31)"

lemma unat_inc: "unat (w :: 'a::len word) + 1 < 2 ^ LENGTH('a) \<Longrightarrow> unat (w + 1) = Suc (unat w)"
  by (subst unat_plus_simple [THEN iffD1]) (auto simp: no_olen_add_nat)

lemma unat_u64_mod: "unat ((a :: u64) mod b) = unat a mod unat b"
  by (simp add: unat_mod)

lemma century_dvd:
  fixes y :: nat
  shows "400 dvd y \<Longrightarrow> 100 dvd y" and "100 dvd y \<Longrightarrow> 4 dvd y"
  using dvd_trans [of 100 400 y] dvd_trans [of 4 100 y] by simp_all

lemma is_leap_year_leap: "is_leap_year year = leap (unat year)"
  using century_dvd [of "unat year"]
  by (auto simp: is_leap_year_def leap_def word_unat_eq_iff unat_u64_mod mod_eq_0_iff_dvd)

lemma year_arith:
  fixes t :: int
  shows "p' = p + a \<Longrightarrow> q' = q + b \<Longrightarrow> r' = r + c \<Longrightarrow>
    365 * (t + 1) + p' - q' + r' - 477 = 365 * t + p - q + r - 477 + 365 + a - b + c"
  by simp

lemma leap_arith:
  fixes s :: int
  shows "(c \<Longrightarrow> b) \<Longrightarrow> (b \<Longrightarrow> a) \<Longrightarrow>
    s + 365 + (if a then 1 else 0) - (if b then 1 else 0) + (if c then 1 else 0) =
    s + (if a \<and> (b \<longrightarrow> c) then 366 else 365)"
  by auto

lemma year_start_Suc:
  assumes "0 < y"
  shows "year_start (Suc y) = year_start y + (if leap y then 366 else 365)"
proof -
  obtain n where n: "y = Suc n" using assms by (cases y) auto
  have count: "int (Suc n) div int k = int n div int k + (if k dvd Suc n then 1 else 0)" for k :: nat
    unfolding zdiv_int [symmetric] by (simp add: div_Suc dvd_eq_mod_eq_0)
  have shift: "int (Suc (Suc n)) - 1970 = int (Suc n) - 1970 + 1" "int (Suc m) - 1 = int m" for m by simp_all
  have step: "year_start (Suc y) = year_start y + 365 + (if 4 dvd y then 1 else 0) - (if 100 dvd y then 1 else 0) +
      (if 400 dvd y then 1 else 0)"
    unfolding year_start_def n shift
    by (rule year_arith; rule count [of 4, unfolded of_nat_numeral] count [of 100, unfolded of_nat_numeral]
      count [of 400, unfolded of_nat_numeral])
  show ?thesis unfolding step leap_def by (rule leap_arith) (rule century_dvd, assumption)+
qed

lemma unat_days_in_year: "unat (days_in_year year) = (if leap (unat year) then 366 else 365)"
  by (simp add: days_in_year_def is_leap_year_leap)

text \<open>The loop over the years keeps the day it stands for and ends inside a year.\<close>

lemma year_loop_correct:
  assumes "unat year + unat days < 2 ^ 64" and "0 < unat year" and "year_loop days year = (y, d)"
  shows "year_start (unat y) + int (unat d) = year_start (unat year) + int (unat days) \<and>
    unat d < (if leap (unat y) then 366 else 365) \<and> unat year \<le> unat y"
  using assms
proof (induction days year rule: year_loop.induct)
  case (1 days year)
  show ?case
  proof (cases "days < days_in_year year")
    case True
    then show ?thesis using 1(4) unat_days_in_year [of year]
      by (simp add: year_loop.simps word_less_nat_alt split: if_splits)
  next
    case False
    then have le: "unat (days_in_year year) \<le> unat days" by (simp add: word_le_nat_alt not_less)
    have suc: "unat (year + 1) = Suc (unat year)"
      using 1(2) le unat_days_in_year [of year] by (intro unat_inc) (auto split: if_splits)
    have days: "unat (days - days_in_year year) = unat days - unat (days_in_year year)"
      using le by (simp add: unat_sub word_le_nat_alt)
    have "year_loop (days - days_in_year year) (year + 1) = (y, d)"
      using 1(4) False by (simp add: year_loop.simps [of days])
    moreover have "unat (year + 1) + unat (days - days_in_year year) < 2 ^ 64"
      using 1(2) le suc days unat_days_in_year [of year] by (simp split: if_splits)
    ultimately show ?thesis
      using 1(1) [OF False] year_start_Suc [OF 1(3)] le unat_days_in_year [of year]
      by (auto simp: suc days of_nat_diff split: if_splits)
  qed
qed

lemma days_to_year_and_day_correct:
  assumes "days_to_year_and_day days = (y, d)" and "unat days < 2 ^ 63"
  shows "year_start (unat y) + int (unat d) = int (unat days)"
    and "unat d < (if leap (unat y) then 366 else 365)" and "1970 \<le> unat y"
proof -
  have "year_start 1970 = 0" by (simp add: year_start_def)
  then show "year_start (unat y) + int (unat d) = int (unat days)"
    "unat d < (if leap (unat y) then 366 else 365)" "1970 \<le> unat y"
    using year_loop_correct [of 1970 days y d] assms by (auto simp: days_to_year_and_day_def)
qed

lemma month_loop_correct:
  assumes "unat r < sum_list (map unat ms)" and "unat i + length ms < 2 ^ 63"
    and "\<And>m. m \<in> set ms \<Longrightarrow> unat m < 2 ^ 63" and "month_loop i ms r = (mo, d)"
  shows "\<exists>k < length ms. unat mo = unat i + k + 1 \<and> 1 \<le> unat d \<and> unat d \<le> unat (ms ! k) \<and>
    unat r + 1 = sum_list (map unat (take k ms)) + unat d"
  using assms
proof (induction i ms r rule: month_loop.induct)
  case (2 i m ms r)
  have suc: "unat (i + 1) = Suc (unat i)"
    using 2(3) by (intro unat_inc) auto
  show ?case
  proof (cases "r < m")
    case True
    then have "unat r < 2 ^ 63" using 2(4) [of m] by (simp add: word_less_nat_alt)
    then have "unat (r + 1) = Suc (unat r)" by (intro unat_inc) auto
    then show ?thesis using 2(5) True suc by (intro exI [of _ 0]) (auto simp: word_less_nat_alt)
  next
    case False
    then have r: "unat (r - m) = unat r - unat m" and le: "unat m \<le> unat r"
      by (simp_all add: unat_sub word_le_nat_alt not_less)
    obtain k where k: "k < length ms" "unat mo = unat (i + 1) + k + 1" "1 \<le> unat d"
      "unat d \<le> unat (ms ! k)" "unat (r - m) + 1 = sum_list (map unat (take k ms)) + unat d"
      using 2(1) [OF False] 2(2-5) False r suc le less_diff_conv2 [OF le] by (auto simp: add.commute)
    then show ?thesis using suc r le by (intro exI [of _ "Suc k"]) auto
  qed
qed simp

lemma month_table:
  assumes "k < 12"
  shows "sum_list (map unat (take k (month_days l))) = month_start l (k + 1)"
    and "unat (month_days l ! k) = month_length l (k + 1)"
proof -
  have "k = 0 \<or> k = 1 \<or> k = 2 \<or> k = 3 \<or> k = 4 \<or> k = 5 \<or> k = 6 \<or> k = 7 \<or> k = 8 \<or> k = 9 \<or> k = 10 \<or> k = 11"
    using assms by presburger
  then show "sum_list (map unat (take k (month_days l))) = month_start l (k + 1)"
    "unat (month_days l ! k) = month_length l (k + 1)"
    by (auto simp: month_days_def month_start_def month_length_def)
qed

lemma day_of_year_correct:
  assumes "unat r < (if l then 366 else 365)" and "day_of_year_to_month_day r l = (mo, d)"
  shows "1 \<le> unat mo" "unat mo \<le> 12" "1 \<le> unat d" "unat d \<le> month_length l (unat mo)"
    "unat r + 1 = month_start l (unat mo) + unat d"
proof -
  have "sum_list (map unat (month_days l)) = (if l then 366 else 365)" "length (month_days l) = 12"
    by (auto simp: month_days_def)
  moreover have "unat m < 2 ^ 63" if "m \<in> set (month_days l)" for m
    using that by (auto simp: month_days_def split: if_splits)
  ultimately obtain k where k: "k < 12" "unat mo = k + 1" "1 \<le> unat d" "unat d \<le> unat (month_days l ! k)"
    "unat r + 1 = sum_list (map unat (take k (month_days l))) + unat d"
    using month_loop_correct [of r "month_days l" 0 mo d] assms
    by (auto simp: day_of_year_to_month_day_def)
  then show "1 \<le> unat mo" "unat mo \<le> 12" "1 \<le> unat d" "unat d \<le> month_length l (unat mo)"
    "unat r + 1 = month_start l (unat mo) + unat d"
    by (simp_all add: month_table)
qed

lemma clock_arith:
  fixes n :: nat
  shows "q * 86400 + r = n \<Longrightarrow> a * 3600 + b = r \<Longrightarrow> c * 60 + d = b \<Longrightarrow> ((q * 24 + a) * 60 + c) * 60 + d = n"
  by simp

lemma clock_split:
  fixes n :: nat
  shows "((n div 86400 * 24 + n mod 86400 div 3600) * 60 + n mod 86400 mod 3600 div 60) * 60 + n mod 86400 mod 60 = n"
proof (rule clock_arith)
  have "n mod 86400 mod 3600 mod 60 = n mod 86400 mod 60" by (rule mod_mod_cancel) simp
  then show "n mod 86400 mod 3600 div 60 * 60 + n mod 86400 mod 60 = n mod 86400 mod 3600"
    using div_mult_mod_eq [of "n mod 86400 mod 3600" 60] by (simp only:)
qed (rule div_mult_mod_eq)+

text \<open>
  C33. For every number of seconds since 1970 that a clock of 64 bits can show, the conversion
  terminates with a valid date and time of day of the Gregorian calendar, and that date and time,
  read back with the closed form of the calendar, is the number of seconds.
\<close>

theorem unix_to_calendar_correct:
  assumes "unix_to_calendar secs = (y, mo, d, h, mi, s)"
  shows "1 \<le> unat mo \<and> unat mo \<le> 12 \<and> 1 \<le> unat d \<and> unat d \<le> month_length (leap (unat y)) (unat mo) \<and>
    unat h < 24 \<and> unat mi < 60 \<and> unat s < 60 \<and>
    int (unat secs) =
      (((year_start (unat y) + int (month_start (leap (unat y)) (unat mo)) + int (unat d) - 1) * 24 +
        int (unat h)) * 60 + int (unat mi)) * 60 + int (unat s)"
proof -
  let ?n = "unat secs"
  obtain doy where yd: "days_to_year_and_day (secs div 86400) = (y, doy)"
    and md: "day_of_year_to_month_day doy (leap (unat y)) = (mo, d)"
    and hms: "h = secs mod 86400 div 3600" "mi = secs mod 86400 mod 3600 div 60" "s = secs mod 86400 mod 60"
    using assms by (auto simp: unix_to_calendar_def Let_def is_leap_year_leap split: prod.splits)
  have n: "?n < 2 ^ 64" using unat_bound [of secs] by simp
  have days: "unat (secs div 86400) = ?n div 86400" by (simp add: unat_div)
  then have small: "unat (secs div 86400) < 2 ^ 63" using n by simp
  note y = days_to_year_and_day_correct [OF yd small]
  note m = day_of_year_correct [OF y(2) md]
  have t: "unat h = ?n mod 86400 div 3600" "unat mi = ?n mod 86400 mod 3600 div 60"
    "unat s = ?n mod 86400 mod 60"
    by (simp_all add: hms unat_div unat_mod)
  have clock: "unat h < 24 \<and> unat mi < 60 \<and> unat s < 60 \<and>
      ((?n div 86400 * 24 + unat h) * 60 + unat mi) * 60 + unat s = ?n"
    unfolding t clock_split by (simp add: less_mult_imp_div_less)
  have "int (?n div 86400) = year_start (unat y) + int (month_start (leap (unat y)) (unat mo)) + int (unat d) - 1"
    using y(1) m(5) days by linarith
  moreover have "int ?n = ((int (?n div 86400) * 24 + int (unat h)) * 60 + int (unat mi)) * 60 + int (unat s)"
    using arg_cong [OF clock [THEN conjunct2, THEN conjunct2, THEN conjunct2], of int]
    by (simp only: of_nat_add of_nat_mult of_nat_numeral)
  ultimately show ?thesis using m clock by metis
qed

text \<open>The leap day of 2000, a second before midnight.\<close>

theorem unix_to_calendar_correct_witness:
  "unix_to_calendar 951868799 = (2000, 2, 29, 23, 59, 59) \<and> month_length (leap 2000) 2 = 29 \<and>
   (((year_start 2000 + int (month_start (leap 2000) 2) + 29 - 1) * 24 + 23) * 60 + 59) * 60 + 59 = (951868799 :: int)"
proof -
  have "unix_to_calendar 951868799 = (2000, 2, 29, 23, 59, 59)"
    by (simp add: unix_to_calendar_def days_to_year_and_day_def year_loop.simps days_in_year_def
      is_leap_year_def day_of_year_to_month_day_def month_days_def Let_def)
  from this unix_to_calendar_correct [OF this] show ?thesis by (simp add: month_length_def leap_def)
qed


subsection \<open>Reading an entry back\<close>

text \<open>
  The token of an entry is what follows its last equals sign, and two digits make a byte.
\<close>

definition entry_token :: "string \<Rightarrow> bytes" where
  "entry_token line = unhex (rev (takeWhile (\<lambda>c. c \<noteq> CHR ''='') (rev line)))"

lemma hex_encode_plain: "c \<in> set (hex_encode bs) \<Longrightarrow> c \<noteq> CHR ''='' \<and> c \<noteq> newline"
  using hex_bytes_plain by (auto simp: hex_encode_def)

lemma entry_token_line: "entry_token (butlast (recovery_line now token mint_url error)) = token"
proof -
  have "takeWhile (\<lambda>c. c \<noteq> CHR ''='') (rev (hex_encode token) @ CHR ''='' # r) = rev (hex_encode token)" for r
    using hex_encode_plain by (subst takeWhile_all) auto
  then show ?thesis
    by (simp add: entry_token_def recovery_line_def butlast_append hex_encode_def unhex_bytes)
qed

text \<open>
  Recovery never loses a token silently: either the wallet received it, or the recovery file
  holds what it held before followed by an entry from which the very token can be read, or the
  result is a failure that names the error; no other file is touched.
\<close>

theorem recovery_keeps_token:
  assumes "recover_failed_token receive_token fs now token mint_url error path files = (files', result)"
  shows "(case result of
      AutoRecovered amount \<Rightarrow> receive_token token = Inr amount \<and> files' = files
    | SavedToFile p \<Rightarrow> p = path \<and> (\<exists>e line. receive_token token = Inl e \<and>
        files' path = Some (case_option [] (\<lambda>c. c) (files path) @ line) \<and>
        last line = newline \<and> entry_token (butlast line) = token)
    | RecoveryFailed msg \<Rightarrow> (\<exists>e. receive_token token = Inl e) \<and>
        (mkdir_error fs \<noteq> None \<or> open_error fs \<noteq> None \<or> write_error fs \<noteq> None \<or> flush_error fs \<noteq> None)) \<and>
    (\<forall>p. p \<noteq> path \<longrightarrow> files' p = files p)"
  using assms entry_token_line [of now token mint_url error]
  by (auto simp: recover_failed_token_def write_recovery_entry_def parent_error_def file_append_def Let_def
    recovery_line_def split: sum.splits option.splits if_splits)

theorem recovery_keeps_token_witness:
  "\<exists>files'. recover_failed_token (\<lambda>_. Inl ''spent'') \<lparr> mkdir_error = None, open_error = None, written = 0,
      write_error = None, flush_error = None \<rparr> 0 [1, 255] ''m'' ''e'' ''/r'' (\<lambda>_. None) = (files', SavedToFile ''/r'') \<and>
    (\<exists>line. files' ''/r'' = Some line \<and> entry_token (butlast line) = [1, 255])"
proof -
  let ?fs = "\<lparr> mkdir_error = None, open_error = None, written = 0, write_error = None, flush_error = None \<rparr>"
  obtain files' where r: "recover_failed_token (\<lambda>_. Inl ''spent'') ?fs 0 [1, 255] ''m'' ''e'' ''/r'' (\<lambda>_. None) =
      (files', SavedToFile ''/r'')"
    by (simp add: recover_failed_token_def write_recovery_entry_def parent_error_def Let_def path_parent_def trim_end_matches_def)
  from r recovery_keeps_token [OF r] show ?thesis by auto
qed

end
