(* ===== verification/Uci_Ops.thy ===== *)
theory Uci_Ops
  imports Rust_Text
begin

section \<open>Configuration operations and their shell commands\<close>

text \<open>
  \<^verbatim>\<open>crates/tollgate-net/src/openwrt/uci_ops.rs\<close>: operations on the router's configuration, their
  rendering to shell commands, the execution of the commands and the builder. What a command
  answers is a parameter, a function of the command and the state of the router. A reading of
  commands by the lexical rules of the POSIX shell states what the quoting is for.
\<close>

definition quote_char :: char where
  "quote_char = CHR 0x27"

definition backslash :: char where
  "backslash = CHR 0x5C"

definition sh_quote :: "string \<Rightarrow> string" where
  "sh_quote value =
     [quote_char] @ replace_char quote_char [quote_char, backslash, quote_char, quote_char] value @ [quote_char]"

datatype UciOpError = InvalidIdentifier string | ShellFailed string | UbusError string

fun UciOpError_fmt :: "UciOpError \<Rightarrow> string" where
  "UciOpError_fmt (InvalidIdentifier s) = ''invalid identifier: '' @ s"
| "UciOpError_fmt (ShellFailed s) = ''shell command failed: '' @ s"
| "UciOpError_fmt (UbusError s) = ''ubus error: '' @ s"

definition identifier_char :: "char \<Rightarrow> bool" where
  "identifier_char c \<longleftrightarrow>
     (let n = char_nat c
      in (97 \<le> n \<and> n \<le> 122) \<or> (65 \<le> n \<and> n \<le> 90) \<or> (48 \<le> n \<and> n \<le> 57) \<or>
         c = CHR ''_'' \<or> c = CHR ''-'' \<or> c = CHR ''.'' \<or> c = CHR ''@'' \<or> c = CHR ''['' \<or> c = CHR '']'')"

text \<open>The first character of a text, with the bytes that continue it.\<close>

fun first_char :: "string \<Rightarrow> string" where
  "first_char [] = []"
| "first_char (c # s) = c # takeWhile (\<lambda>d. 128 \<le> char_nat d \<and> char_nat d < 192) s"

definition validate_identifier :: "string \<Rightarrow> UciOpError + unit" where
  "validate_identifier name =
     (if name = [] then Inl (InvalidIdentifier ''empty identifier'')
      else case dropWhile identifier_char name of
        [] \<Rightarrow> Inr ()
      | bad \<Rightarrow> Inl (InvalidIdentifier
          (''invalid character '' @ [quote_char] @ first_char bad @ [quote_char] @ '' in identifier'')))"

datatype OpValue = Single string | Listed "string list"

datatype ServiceAction = Start | Stop | Restart | Enable | Disable

datatype UciOp =
    Set string string "(string \<times> OpValue) list"
  | Add string string string "(string \<times> OpValue) list"
  | Delete string string "string option"
  | AddList string string string string
  | Commit string
  | Shell string
  | Service string ServiceAction
  | Comment string

fun ServiceAction_fmt :: "ServiceAction \<Rightarrow> string" where
  "ServiceAction_fmt Start = ''start''"
| "ServiceAction_fmt Stop = ''stop''"
| "ServiceAction_fmt Restart = ''restart''"
| "ServiceAction_fmt Enable = ''enable''"
| "ServiceAction_fmt Disable = ''disable''"


subsection \<open>Rendering\<close>

definition set_cmd :: "string \<Rightarrow> string \<Rightarrow> string \<Rightarrow> string \<Rightarrow> string" where
  "set_cmd config section key v = ''uci set '' @ config @ ''.'' @ section @ ''.'' @ key @ ''='' @ sh_quote v"

definition add_list_cmd :: "string \<Rightarrow> string \<Rightarrow> string \<Rightarrow> string \<Rightarrow> string" where
  "add_list_cmd config section key v =
     ''uci add_list '' @ config @ ''.'' @ section @ ''.'' @ key @ ''='' @ sh_quote v"

fun render_set :: "string \<Rightarrow> string \<Rightarrow> string \<times> OpValue \<Rightarrow> string list" where
  "render_set config section (key, Single v) = [set_cmd config section key v]"
| "render_set config section (key, Listed items) =
     (''uci delete '' @ config @ ''.'' @ section @ ''.'' @ key @ '' 2>/dev/null || true'') #
     map (add_list_cmd config section key) items"

fun render_add :: "string \<Rightarrow> string \<Rightarrow> string \<times> OpValue \<Rightarrow> string list" where
  "render_add config section_ref (key, Single v) = [set_cmd config section_ref key v]"
| "render_add config section_ref (key, Listed items) = map (add_list_cmd config section_ref key) items"

fun render_op :: "UciOp \<Rightarrow> string list" where
  "render_op (Set config section values) = concat (map (render_set config section) values)"
| "render_op (Add config type_name name values) =
     (if name = [] then ''uci add '' @ config @ '' '' @ type_name
      else ''uci set '' @ config @ ''.'' @ name @ ''='' @ sh_quote type_name) #
     concat (map (\<lambda>kv.
       let section_ref = (if name = [] then ''@'' @ type_name @ ''[-1]'' else name)
       in render_add config section_ref kv) values)"
| "render_op (Delete config section option) =
     (case option of
        Some opt \<Rightarrow> [''uci delete '' @ config @ ''.'' @ section @ ''.'' @ opt]
      | None \<Rightarrow> [''uci delete '' @ config @ ''.'' @ section])"
| "render_op (AddList config section option value) = [add_list_cmd config section option value]"
| "render_op (Commit config) = [''uci commit '' @ config]"
| "render_op (Shell command) = [command]"
| "render_op (Service name action) = [''/etc/init.d/'' @ name @ '' '' @ ServiceAction_fmt action]"
| "render_op (Comment text) = [''# '' @ text]"

definition render_shell :: "UciOp list \<Rightarrow> string list" where
  "render_shell ops = concat (map render_op ops)"


subsection \<open>Execution\<close>

text \<open>
  A command ends with its exit status and error output, or cannot be started. Each operation
  renders its commands again to know how many of the whole list are its own.
\<close>

datatype command_output = Exited bool string | NotStarted string

type_synonym 'w shell = "string \<Rightarrow> 'w \<Rightarrow> 'w \<times> command_output"

definition note_failure :: "string \<Rightarrow> command_output \<Rightarrow> UciOpError + unit \<Rightarrow> UciOpError + unit" where
  "note_failure cmd output op_result =
     (case output of
        Exited True _ \<Rightarrow> op_result
      | Exited False stderr \<Rightarrow>
          (case op_result of Inr _ \<Rightarrow> Inl (ShellFailed (cmd @ '': '' @ stderr)) | Inl e \<Rightarrow> Inl e)
      | NotStarted e \<Rightarrow>
          (case op_result of Inr _ \<Rightarrow> Inl (ShellFailed (cmd @ '': '' @ e)) | Inl e' \<Rightarrow> Inl e'))"

fun execute_op ::
  "'w shell \<Rightarrow> string list \<Rightarrow> string list \<Rightarrow> nat \<Rightarrow> UciOpError + unit \<Rightarrow> 'w \<Rightarrow> nat \<times> (UciOpError + unit) \<times> 'w" where
  "execute_op sh cmds [] cmd_idx op_result w = (cmd_idx, op_result, w)"
| "execute_op sh cmds (_ # op_cmds) cmd_idx op_result w =
     (if cmd_idx \<ge> length cmds then (cmd_idx, op_result, w)
      else let cmd = cmds ! cmd_idx
           in if starts_with ''# '' cmd then execute_op sh cmds op_cmds (cmd_idx + 1) op_result w
              else let (w', output) = sh cmd w
                   in execute_op sh cmds op_cmds (cmd_idx + 1) (note_failure cmd output op_result) w')"

fun execute_ops ::
  "'w shell \<Rightarrow> string list \<Rightarrow> UciOp list \<Rightarrow> nat \<Rightarrow> 'w \<Rightarrow> (UciOpError + unit) list \<times> 'w" where
  "execute_ops sh cmds [] cmd_idx w = ([], w)"
| "execute_ops sh cmds (op # ops) cmd_idx w =
     (let (cmd_idx', op_result, w') = execute_op sh cmds (render_shell [op]) cmd_idx (Inr ()) w;
          (results, w'') = execute_ops sh cmds ops cmd_idx' w'
      in (op_result # results, w''))"

definition execute_shell :: "'w shell \<Rightarrow> UciOp list \<Rightarrow> 'w \<Rightarrow> (UciOpError + unit) list \<times> 'w" where
  "execute_shell sh ops w = execute_ops sh (render_shell ops) ops 0 w"


subsection \<open>The builder\<close>

type_synonym UciOpBuilder = "UciOp list"

definition UciOpBuilder_new :: UciOpBuilder where
  "UciOpBuilder_new = []"

definition builder_set :: "string \<Rightarrow> string \<Rightarrow> (string \<times> string) list \<Rightarrow> UciOpBuilder \<Rightarrow> UciOpBuilder" where
  "builder_set config section values ops = ops @ [Set config section (map (\<lambda>(k, v). (k, Single v)) values)]"

definition builder_add ::
  "string \<Rightarrow> string \<Rightarrow> string \<Rightarrow> (string \<times> string) list \<Rightarrow> UciOpBuilder \<Rightarrow> UciOpBuilder" where
  "builder_add config type_name name values ops =
     ops @ [Add config type_name name (map (\<lambda>(k, v). (k, Single v)) values)]"

definition builder_delete :: "string \<Rightarrow> string \<Rightarrow> UciOpBuilder \<Rightarrow> UciOpBuilder" where
  "builder_delete config section ops = ops @ [Delete config section None]"

definition builder_delete_option :: "string \<Rightarrow> string \<Rightarrow> string \<Rightarrow> UciOpBuilder \<Rightarrow> UciOpBuilder" where
  "builder_delete_option config section option ops = ops @ [Delete config section (Some option)]"

definition builder_add_list :: "string \<Rightarrow> string \<Rightarrow> string \<Rightarrow> string \<Rightarrow> UciOpBuilder \<Rightarrow> UciOpBuilder" where
  "builder_add_list config section option value ops = ops @ [AddList config section option value]"

definition builder_commit :: "string \<Rightarrow> UciOpBuilder \<Rightarrow> UciOpBuilder" where
  "builder_commit config ops = ops @ [Commit config]"

definition builder_shell :: "string \<Rightarrow> UciOpBuilder \<Rightarrow> UciOpBuilder" where
  "builder_shell command ops = ops @ [Shell command]"

definition builder_service :: "string \<Rightarrow> ServiceAction \<Rightarrow> UciOpBuilder \<Rightarrow> UciOpBuilder" where
  "builder_service name action ops = ops @ [Service name action]"

definition builder_comment :: "string \<Rightarrow> UciOpBuilder \<Rightarrow> UciOpBuilder" where
  "builder_comment text ops = ops @ [Comment text]"

definition build :: "UciOpBuilder \<Rightarrow> UciOp list" where
  "build ops = ops"


subsection \<open>Reading a command as the shell does\<close>

text \<open>
  The words of a simple command. Blanks separate words; between single quotes every character
  stands for itself; a backslash outside quotes makes the next character stand for itself; a
  character that is not certainly literal (a dollar sign, a semicolon, a double quote, and so on)
  gives no reading. Brackets are literal: a pattern that matches no file is left as it is.
\<close>

datatype lex_state = Between | InWord string | Escaped string | Quoted string

definition plain_char :: "char \<Rightarrow> bool" where
  "plain_char c \<longleftrightarrow> identifier_char c \<or> c = CHR ''='' \<or> c = CHR ''/''"

fun sh_lex :: "lex_state \<Rightarrow> string \<Rightarrow> string list option" where
  "sh_lex Between [] = Some []"
| "sh_lex (InWord w) [] = Some [rev w]"
| "sh_lex (Escaped w) [] = None"
| "sh_lex (Quoted w) [] = None"
| "sh_lex Between (c # s) =
     (if c = CHR '' '' then sh_lex Between s
      else if c = quote_char then sh_lex (Quoted []) s
      else if c = backslash then sh_lex (Escaped []) s
      else if plain_char c then sh_lex (InWord [c]) s else None)"
| "sh_lex (InWord w) (c # s) =
     (if c = CHR '' '' then map_option ((#) (rev w)) (sh_lex Between s)
      else if c = quote_char then sh_lex (Quoted w) s
      else if c = backslash then sh_lex (Escaped w) s
      else if plain_char c then sh_lex (InWord (c # w)) s else None)"
| "sh_lex (Escaped w) (c # s) = (if c = newline then sh_lex (InWord w) s else sh_lex (InWord (c # w)) s)"
| "sh_lex (Quoted w) (c # s) = (if c = quote_char then sh_lex (InWord w) s else sh_lex (Quoted (c # w)) s)"

definition sh_words :: "string \<Rightarrow> string list option" where
  "sh_words cmd = sh_lex Between cmd"

lemma special_chars [simp]:
  "\<not> plain_char (CHR '' '')" "\<not> plain_char quote_char" "\<not> plain_char backslash"
  "quote_char \<noteq> CHR '' ''" "backslash \<noteq> CHR '' ''" "quote_char \<noteq> backslash" "backslash \<noteq> quote_char"
  "quote_char \<noteq> newline"
  by (simp_all add: plain_char_def identifier_char_def quote_char_def backslash_def newline_def char_nat_def Let_def)

lemma lex_plain:
  "list_all plain_char p \<Longrightarrow> sh_lex (InWord w) (p @ s) = sh_lex (InWord (rev p @ w)) s"
proof (induction p arbitrary: w)
  case (Cons c p)
  then have "c \<noteq> CHR '' ''" "c \<noteq> quote_char" "c \<noteq> backslash" by auto
  with Cons show ?case by simp
qed simp

lemma lex_quoted:
  "sh_lex (Quoted w) (replace_char quote_char [quote_char, backslash, quote_char, quote_char] v @ s) =
   sh_lex (Quoted (rev v @ w)) s"
  by (induction v arbitrary: w) (simp_all add: replace_char_def)

lemma lex_sh_quote: "sh_lex (InWord w) (sh_quote v @ s) = sh_lex (InWord (rev v @ w)) s"
  by (simp add: sh_quote_def lex_quoted)

text \<open>
  What the commands of an operation are meant to be: their words, and whether a failure is
  tolerated. The names in an operation are identifiers when validation accepts them; the values are
  any text.
\<close>

definition is_identifier :: "string \<Rightarrow> bool" where
  "is_identifier name \<longleftrightarrow> validate_identifier name = Inr ()"

definition target :: "string \<Rightarrow> string \<Rightarrow> string \<Rightarrow> string" where
  "target config section key = config @ ''.'' @ section @ ''.'' @ key"

fun value_argv :: "bool \<Rightarrow> string \<Rightarrow> string \<Rightarrow> string \<times> OpValue \<Rightarrow> (bool \<times> string list) list" where
  "value_argv clear config section (key, Single v) = [(False, [''uci'', ''set'', target config section key @ ''='' @ v])]"
| "value_argv clear config section (key, Listed items) =
     (if clear then [(True, [''uci'', ''delete'', target config section key])] else []) @
     map (\<lambda>v. (False, [''uci'', ''add_list'', target config section key @ ''='' @ v])) items"

fun op_argv :: "UciOp \<Rightarrow> (bool \<times> string list) list" where
  "op_argv (Set config section values) = concat (map (value_argv True config section) values)"
| "op_argv (Add config type_name name values) =
     (if name = []
      then (False, [''uci'', ''add'', config, type_name]) #
           concat (map (value_argv False config (''@'' @ type_name @ ''[-1]'')) values)
      else (False, [''uci'', ''set'', config @ ''.'' @ name @ ''='' @ type_name]) #
           concat (map (value_argv False config name) values))"
| "op_argv (Delete config section None) = [(False, [''uci'', ''delete'', config @ ''.'' @ section])]"
| "op_argv (Delete config section (Some opt)) = [(False, [''uci'', ''delete'', target config section opt])]"
| "op_argv (AddList config section opt v) = [(False, [''uci'', ''add_list'', target config section opt @ ''='' @ v])]"
| "op_argv (Commit config) = [(False, [''uci'', ''commit'', config])]"
| "op_argv (Service name action) = [(False, [''/etc/init.d/'' @ name, ServiceAction_fmt action])]"
| "op_argv _ = []"

fun structured :: "UciOp \<Rightarrow> bool" where
  "structured (Set config section values) \<longleftrightarrow>
     is_identifier config \<and> is_identifier section \<and> list_all (is_identifier \<circ> fst) values"
| "structured (Add config type_name name values) \<longleftrightarrow>
     is_identifier config \<and> (if name = [] then is_identifier type_name else is_identifier name) \<and>
     list_all (is_identifier \<circ> fst) values"
| "structured (Delete config section opt) \<longleftrightarrow>
     is_identifier config \<and> is_identifier section \<and> list_all is_identifier (case_option [] (\<lambda>x. [x]) opt)"
| "structured (AddList config section opt v) \<longleftrightarrow> is_identifier config \<and> is_identifier section \<and> is_identifier opt"
| "structured (Commit config) \<longleftrightarrow> is_identifier config"
| "structured (Service name action) \<longleftrightarrow> is_identifier name"
| "structured _ \<longleftrightarrow> False"

definition read_command :: "string \<Rightarrow> bool \<times> string list option" where
  "read_command cmd =
     (case strip_suffix '' 2>/dev/null || true'' cmd of
        Some c \<Rightarrow> (True, sh_words c)
      | None \<Rightarrow> (False, sh_words cmd))"

lemma is_identifier_iff: "is_identifier name \<longleftrightarrow> name \<noteq> [] \<and> list_all identifier_char name"
proof -
  have "dropWhile identifier_char name = [] \<longleftrightarrow> list_all identifier_char name" by (simp add: list_all_iff)
  then show ?thesis
    by (cases "dropWhile identifier_char name") (auto simp: is_identifier_def validate_identifier_def simp del: dropWhile_eq_Nil_conv)
qed

lemma identifier_plain: "is_identifier name \<Longrightarrow> list_all plain_char name \<and> name \<noteq> []"
  by (auto simp: is_identifier_iff plain_char_def list_all_iff)

lemma plain_chars [simp]:
  "plain_char (CHR ''.'')" "plain_char (CHR ''='')" "plain_char (CHR ''/'')" "plain_char (CHR ''@'')"
  "plain_char (CHR ''['')" "plain_char (CHR '']'')" "plain_char (CHR ''-'')" "plain_char (CHR ''1'')"
  by (simp_all add: plain_char_def identifier_char_def Let_def char_nat_def)

lemma plain_letters [simp]:
  "plain_char (CHR ''u'')" "plain_char (CHR ''c'')" "plain_char (CHR ''i'')" "plain_char (CHR ''s'')" "plain_char (CHR ''e'')" "plain_char (CHR ''t'')"
  "plain_char (CHR ''a'')" "plain_char (CHR ''d'')" "plain_char (CHR ''l'')" "plain_char (CHR ''m'')" "plain_char (CHR ''o'')" "plain_char (CHR ''n'')" "plain_char (CHR ''b'')" "plain_char (CHR ''r'')" "plain_char (CHR ''p'')" "plain_char (CHR ''_'')"
  "list_all plain_char (ServiceAction_fmt a)"
  by (cases a; simp add: plain_char_def identifier_char_def Let_def char_nat_def)+

lemma lex_start:
  "list_all plain_char p \<Longrightarrow> p \<noteq> [] \<Longrightarrow> sh_lex Between (p @ s) = sh_lex (InWord (rev p)) s"
proof -
  assume p: "list_all plain_char p" "p \<noteq> []"
  then obtain c r where c: "p = c # r" "plain_char c" "list_all plain_char r" by (cases p) auto
  then have "c \<noteq> CHR '' ''" "c \<noteq> quote_char" "c \<noteq> backslash" by auto
  then show ?thesis using c lex_plain [of r "[c]" s] by simp
qed

lemma lex_word:
  "list_all plain_char p \<Longrightarrow> p \<noteq> [] \<Longrightarrow> sh_lex Between (p @ '' '' @ s) = map_option ((#) p) (sh_lex Between s)"
  by (simp add: lex_start)

lemma lex_last: "list_all plain_char p \<Longrightarrow> p \<noteq> [] \<Longrightarrow> sh_lex Between p = Some [p]"
  using lex_start [of p "[]"] by simp

lemma lex_assignment:
  "list_all plain_char p \<Longrightarrow> p \<noteq> [] \<Longrightarrow> sh_lex Between (p @ sh_quote v) = Some [p @ v]"
  using lex_sh_quote [of "rev p" v "[]"] by (simp add: lex_start)

lemma lex_uci: "sh_lex Between (CHR ''u'' # CHR ''c'' # CHR ''i'' # CHR '' '' # s) = map_option ((#) ''uci'') (sh_lex Between s)"
  by (simp add: plain_char_def identifier_char_def char_nat_def quote_char_def backslash_def)

lemma read_plain: "CHR ''|'' \<notin> set c \<Longrightarrow> read_command c = (False, sh_words c)"
  by (auto simp: read_command_def strip_suffix_Some split: option.split)

lemma read_quoted: "read_command (p @ sh_quote v) = (False, sh_words (p @ sh_quote v))"
proof -
  have "p @ sh_quote v \<noteq> r @ '' 2>/dev/null || true''" for r
    using arg_cong [of _ _ last] by (force simp: sh_quote_def quote_char_def)
  then show ?thesis by (simp add: read_command_def strip_suffix_Some split: option.split)
qed

lemma read_tolerated: "read_command (c @ '' 2>/dev/null || true'') = (True, sh_words c)"
  using strip_suffix_Some [of "'' 2>/dev/null || true''" "c @ '' 2>/dev/null || true''" c] by (simp add: read_command_def)

lemma plain_no_bar: "list_all plain_char p \<Longrightarrow> CHR ''|'' \<notin> set p"
  by (auto simp: list_all_iff plain_char_def identifier_char_def Let_def char_nat_def)

text \<open>The two shapes of a command of three words, the second after a verb.\<close>

lemma read_uci:
  assumes "list_all plain_char verb" "verb \<noteq> []" "list_all plain_char p" "p \<noteq> []"
  shows "read_command (''uci '' @ verb @ '' '' @ p @ sh_quote v) = (False, Some [''uci'', verb, p @ v])"
    and "read_command (''uci '' @ verb @ '' '' @ p) = (False, Some [''uci'', verb, p])"
    and "read_command ((''uci '' @ verb @ '' '' @ p) @ '' 2>/dev/null || true'') = (True, Some [''uci'', verb, p])"
proof -
  have w: "sh_words (''uci '' @ verb @ '' '' @ s) = map_option (\<lambda>ws. ''uci'' # verb # ws) (sh_lex Between s)" for s
    using lex_word [of verb s] assms(1,2) by (simp add: sh_words_def lex_uci option.map_comp comp_def del: sh_lex.simps)
  show "read_command (''uci '' @ verb @ '' '' @ p @ sh_quote v) = (False, Some [''uci'', verb, p @ v])"
    using read_quoted [of "''uci '' @ verb @ '' '' @ p" v] w [of "p @ sh_quote v"] lex_assignment [OF assms(3,4), of v]
    by simp
  have "CHR ''|'' \<notin> set (''uci '' @ verb @ '' '' @ p)" using plain_no_bar assms(1,3) by simp
  from read_plain [OF this] show "read_command (''uci '' @ verb @ '' '' @ p) = (False, Some [''uci'', verb, p])"
    using w [of p] lex_last [OF assms(3,4)] by simp
  show "read_command ((''uci '' @ verb @ '' '' @ p) @ '' 2>/dev/null || true'') = (True, Some [''uci'', verb, p])"
    unfolding read_tolerated using w [of p] lex_last [OF assms(3,4)] by simp
qed

lemma target_plain:
  "is_identifier c \<Longrightarrow> is_identifier t \<Longrightarrow> is_identifier k \<Longrightarrow> list_all plain_char (target c t k) \<and> target c t k \<noteq> []"
  using identifier_plain by (simp add: target_def)

lemma set_cmd_read:
  "list_all plain_char (target c t k) \<Longrightarrow>
   read_command (set_cmd c t k v) = (False, Some [''uci'', ''set'', target c t k @ ''='' @ v])"
  using read_uci(1) [of "''set''" "target c t k @ ''=''" v] by (simp add: set_cmd_def target_def)

lemma add_list_cmd_read:
  "list_all plain_char (target c t k) \<Longrightarrow>
   read_command (add_list_cmd c t k v) = (False, Some [''uci'', ''add_list'', target c t k @ ''='' @ v])"
  using read_uci(1) [of "''add_list''" "target c t k @ ''=''" v] by (simp add: add_list_cmd_def target_def)

lemma render_set_read:
  assumes "list_all plain_char (target c t (fst kv))"
  shows "map read_command (render_set c t kv) = map (\<lambda>(tol, ws). (tol, Some ws)) (value_argv True c t kv)"
  using assms read_uci(3) [of "''delete''" "target c t (fst kv)"]
  by (cases "(c, t, kv)" rule: render_set.cases)
    (simp_all add: set_cmd_read add_list_cmd_read, simp add: target_def)

lemma render_add_read:
  assumes "list_all plain_char (target c t (fst kv))"
  shows "map read_command (render_add c t kv) = map (\<lambda>(tol, ws). (tol, Some ws)) (value_argv False c t kv)"
  using assms by (cases "(c, t, kv)" rule: render_add.cases) (simp_all add: set_cmd_read add_list_cmd_read)

lemma map_concat_cong:
  "(\<And>x. x \<in> set xs \<Longrightarrow> map f (g x) = map h (k x)) \<Longrightarrow> map f (concat (map g xs)) = map h (concat (map k xs))"
  by (induction xs) auto

lemma read_add:
  assumes "structured (Add c ty n kvs)"
  shows "map read_command (render_op (Add c ty n kvs)) = map (\<lambda>(tol, ws). (tol, Some ws)) (op_argv (Add c ty n kvs))"
proof -
  have p: "list_all plain_char c" "c \<noteq> []" using assms identifier_plain [of c] by auto
  have "list_all plain_char (target c r (fst kv))" if "list_all plain_char r" "kv \<in> set kvs" for r kv
    using assms p that identifier_plain [of "fst kv"] by (auto simp: target_def list_all_iff)
  then have "map read_command (concat (map (render_add c r) kvs)) =
      map (\<lambda>(tol, ws). (tol, Some ws)) (concat (map (value_argv False c r) kvs))"
    if "list_all plain_char r" for r
    using that by (intro map_concat_cong render_add_read)
  moreover have "read_command (''uci add '' @ c @ '' '' @ ty) = (False, Some [''uci'', ''add'', c, ty])"
    if "is_identifier ty"
  proof -
    have "CHR ''|'' \<notin> set (''uci add '' @ c @ '' '' @ ty)"
      using plain_no_bar p identifier_plain [OF that] by simp
    moreover have "sh_lex Between (''add '' @ c @ '' '' @ ty) = Some [''add'', c, ty]"
      using lex_word [of "''add''" "c @ '' '' @ ty"] lex_word [of c ty] lex_last [of ty] p identifier_plain [OF that]
      by (simp del: sh_lex.simps)
    ultimately show ?thesis by (simp add: read_plain sh_words_def lex_uci del: sh_lex.simps)
  qed
  moreover have "read_command (''uci set '' @ c @ ''.'' @ n @ ''='' @ sh_quote ty) =
      (False, Some [''uci'', ''set'', c @ ''.'' @ n @ ''='' @ ty])" if "is_identifier n"
    using read_uci(1) [of "''set''" "c @ ''.'' @ n @ ''=''" ty] p identifier_plain [OF that] by simp
  ultimately show ?thesis using assms identifier_plain by simp
qed

lemma render_op_read:
  assumes "structured op"
  shows "map read_command (render_op op) = map (\<lambda>(tol, ws). (tol, Some ws)) (op_argv op)"
proof (cases op)
  case (Set c t kvs)
  then show ?thesis using assms target_plain
    by (auto simp: list_all_iff intro!: map_concat_cong render_set_read)
next
  case (Add c ty n kvs)
  then show ?thesis using assms read_add by simp
next
  case (Delete c t opt)
  then show ?thesis
    using assms read_uci(2) [of "''delete''" "c @ ''.'' @ t"] read_uci(2) [of "''delete''" "target c t (the opt)"]
      identifier_plain [of c] identifier_plain [of t] target_plain [of c t "the opt"]
    by (cases opt) (simp_all, simp add: target_def)
next
  case (AddList c t k v)
  then show ?thesis using assms target_plain by (simp add: add_list_cmd_read)
next
  case (Commit c)
  then show ?thesis using assms read_uci(2) [of "''commit''" c] identifier_plain [of c] by simp
next
  case (Service n a)
  then have p: "list_all plain_char n" using assms identifier_plain by simp
  have "CHR ''|'' \<notin> set (''/etc/init.d/'' @ n @ '' '' @ ServiceAction_fmt a)"
    using plain_no_bar [of n] plain_no_bar [of "ServiceAction_fmt a"] p by simp
  moreover have "sh_lex Between ((''/etc/init.d/'' @ n) @ '' '' @ ServiceAction_fmt a) =
      Some [''/etc/init.d/'' @ n, ServiceAction_fmt a]"
    using p lex_last [of "ServiceAction_fmt a"] by (subst lex_word) (cases a; auto)+
  ultimately show ?thesis using Service by (simp add: read_plain sh_words_def del: sh_lex.simps)
qed (use assms in simp_all)

text \<open>
  C26. Quoting leaves no room for injection: when the names of the operations pass validation, the
  shell reads every rendered command as exactly the intended words, whatever the values are, and only
  the deletion before a list is set has its failure tolerated.
\<close>

theorem rendered_commands_read_back:
  assumes "list_all structured ops"
  shows "map read_command (render_shell ops) =
    map (\<lambda>(tolerated, ws). (tolerated, Some ws)) (concat (map op_argv ops))"
  unfolding render_shell_def using assms render_op_read
  by (intro map_concat_cong) (auto simp: list_all_iff)

theorem rendered_commands_read_back_witness:
  "map read_command (render_shell [Set ''wireless'' ''radio0'' [(''ssid'', Single [CHR ''a'', CHR 0x27, CHR '';''])],
     Commit ''wireless'']) =
   [(False, Some [''uci'', ''set'', ''wireless.radio0.ssid='' @ [CHR ''a'', CHR 0x27, CHR '';'']]),
    (False, Some [''uci'', ''commit'', ''wireless''])]"
proof -
  have "list_all structured [Set ''wireless'' ''radio0'' [(''ssid'', Single [CHR ''a'', CHR 0x27, CHR '';''])],
      Commit ''wireless'']"
    by (simp add: is_identifier_def validate_identifier_def identifier_char_def char_nat_def Let_def)
  from rendered_commands_read_back [OF this] show ?thesis by (simp add: target_def)
qed


subsection \<open>One result for every operation\<close>

text \<open>
  What both transports promise: the operations run one after the other, each gives one result, and
  the state threads through. A client may then split and join lists of operations.
\<close>

locale op_executor =
  fixes exec :: "'op list \<Rightarrow> 's \<Rightarrow> 'r list \<times> 's"
    and one :: "'op \<Rightarrow> 's \<Rightarrow> 'r \<times> 's"
  assumes exec_Nil: "exec [] s = ([], s)"
    and exec_Cons: "exec (op # ops) s = (let (r, s') = one op s; (rs, s'') = exec ops s' in (r # rs, s''))"
begin

lemma exec_length: "length (fst (exec ops s)) = length ops"
  by (induction ops arbitrary: s) (simp_all add: exec_Nil exec_Cons case_prod_beta Let_def)

lemma exec_append:
  "exec (xs @ ys) s = (let (rs, s') = exec xs s; (rs', s'') = exec ys s' in (rs @ rs', s''))"
  by (induction xs arbitrary: s) (simp_all add: exec_Nil exec_Cons case_prod_beta Let_def)

end

text \<open>
  The reference: the operations one after the other, each with its own commands, the first
  failure kept and every command run.
\<close>

definition run_command :: "'w shell \<Rightarrow> string \<Rightarrow> (UciOpError + unit) \<times> 'w \<Rightarrow> (UciOpError + unit) \<times> 'w" where
  "run_command sh cmd rw =
     (if starts_with ''# '' cmd then rw
      else let (w', output) = sh cmd (snd rw) in (note_failure cmd output (fst rw), w'))"

fun run_ops :: "'w shell \<Rightarrow> UciOp list \<Rightarrow> 'w \<Rightarrow> (UciOpError + unit) list \<times> 'w" where
  "run_ops sh [] w = ([], w)"
| "run_ops sh (op # ops) w =
     (let (r, w') = fold (run_command sh) (render_op op) (Inr (), w); (rs, w'') = run_ops sh ops w'
      in (r # rs, w''))"

lemma execute_op_own:
  "execute_op sh (pre @ own @ post) own (length pre) r w =
   (length pre + length own, fold (run_command sh) own (r, w))"
proof (induction own arbitrary: pre r w)
  case (Cons c own)
  show ?case
    using Cons.IH [of "pre @ [c]" r w] Cons.IH [of "pre @ [c]" "note_failure c (snd (sh c w)) r" "fst (sh c w)"]
    by (simp add: run_command_def Let_def case_prod_beta nth_append)
qed simp

lemma execute_ops_run:
  "execute_ops sh (pre @ render_shell ops) ops (length pre) w = run_ops sh ops w"
proof (induction ops arbitrary: pre w)
  case (Cons op ops)
  have "execute_op sh (pre @ render_shell (op # ops)) (render_op op) (length pre) (Inr ()) w =
      (length pre + length (render_op op), fold (run_command sh) (render_op op) (Inr (), w))"
    using execute_op_own [of sh pre "render_op op" "render_shell ops"] by (simp add: render_shell_def)
  then show ?case
    using Cons.IH [of "pre @ render_op op"] by (simp add: render_shell_def case_prod_beta Let_def)
qed simp

lemma execute_shell_run: "execute_shell sh ops w = run_ops sh ops w"
  using execute_ops_run [of sh "[]"] by (simp add: execute_shell_def)

interpretation shell_ops: op_executor "run_ops sh" "\<lambda>op w. fold (run_command sh) (render_op op) (Inr (), w)" for sh
  by unfold_locales (simp_all add: Let_def case_prod_beta)

text \<open>
  Execution attributes every command to its operation: the run that counts commands in one
  list gives the same results and the same effects as running the operations one by one, with one
  result per operation, its first failure, and no command skipped because another failed.
\<close>

theorem execute_shell_per_op:
  "execute_shell sh ops w = run_ops sh ops w \<and> length (fst (execute_shell sh ops w)) = length ops"
  by (simp add: execute_shell_run shell_ops.exec_length)

end
