(* ===== verification/Json.thy ===== *)
theory Json
  imports BTreeMap Rust_Text
begin

section \<open>JSON values\<close>

text \<open>
  The values of \<^verbatim>\<open>serde_json\<close> and the accessors the components use. The workspace builds it without
  \<^verbatim>\<open>preserve_order\<close>, so an object is an ordered map. A number is an integer or stays opaque.
\<close>

datatype json =
    JNull
  | JBool bool
  | JInt int
  | JFloat string
  | JString string
  | JArray "json list"
  | JObject "(string, json) btree"

fun json_get :: "string \<Rightarrow> json \<Rightarrow> json option" where
  "json_get k (JObject m) = bt_get m k"
| "json_get k _ = None"

fun as_str :: "json \<Rightarrow> string option" where
  "as_str (JString s) = Some s"
| "as_str _ = None"

fun as_i64 :: "json \<Rightarrow> int option" where
  "as_i64 (JInt n) = (if - (2 ^ 63) \<le> n \<and> n < 2 ^ 63 then Some n else None)"
| "as_i64 _ = None"

fun as_u64 :: "json \<Rightarrow> u64 option" where
  "as_u64 (JInt n) = (if 0 \<le> n \<and> n < 2 ^ 64 then Some (of_int n) else None)"
| "as_u64 _ = None"

fun as_object :: "json \<Rightarrow> (string, json) btree option" where
  "as_object (JObject m) = Some m"
| "as_object _ = None"

fun as_array :: "json \<Rightarrow> json list option" where
  "as_array (JArray xs) = Some xs"
| "as_array _ = None"

text \<open>An object written out field by field, as the \<^verbatim>\<open>json!\<close> macro builds it.\<close>

definition json_object :: "(string \<times> json) list \<Rightarrow> json" where
  "json_object kvs = JObject (fold (\<lambda>(k, v). bt_insert k v) kvs bt_empty)"

definition show_int :: "int \<Rightarrow> string" where
  "show_int n = (if n < 0 then CHR ''-'' # show_nat (nat (- n)) else show_nat (nat n))"

lemma bt_get_fold_insert:
  "bt_get (fold (\<lambda>(k, v). bt_insert k v) kvs m) k = (case map_of (rev kvs) k of Some v \<Rightarrow> Some v | None \<Rightarrow> bt_get m k)"
proof (induction kvs arbitrary: m)
  case (Cons kv kvs)
  have "bt_get (bt_insert (fst kv) (snd kv) m) k = (if k = fst kv then Some (snd kv) else bt_get m k)" for m
    by (rule bt.get_put)
  with Cons show ?case by (auto simp: case_prod_beta map_add_def split: option.split)
qed simp

text \<open>The last field of a name is the one that is read.\<close>

lemma json_get_object: "json_get k (json_object kvs) = map_of (rev kvs) k"
  by (simp add: json_object_def bt_get_fold_insert bt_empty_def split: option.split)

end
