(* ===== verification/Ubus_Client.thy ===== *)
theory Ubus_Client
  imports Uci_Ops Json
begin

section \<open>The ubus transport\<close>

text \<open>
  \<^verbatim>\<open>crates/tollgate-net/src/openwrt/ubus_client.rs\<close>: a JSON-RPC client of the router and the second
  transport of the configuration operations. The HTTP exchange, with the decoding of the reply into the
  envelope, is a parameter: a function of the request and the state of the router.
\<close>

datatype UbusError =
    AuthFailed string
  | CallFailed int string
  | Http string
  | Connection string

fun UbusError_fmt :: "UbusError \<Rightarrow> string" where
  "UbusError_fmt (AuthFailed s) = ''authentication failed: '' @ s"
| "UbusError_fmt (CallFailed code message) = ''call failed with code '' @ show_int code @ '': '' @ message"
| "UbusError_fmt (Http s) = ''HTTP error: '' @ s"
| "UbusError_fmt (Connection s) = ''connection error: '' @ s"

record JsonRpcRequest =
  req_jsonrpc :: string
  req_id :: u64
  req_method :: string
  req_params :: json

record JsonRpcResponse =
  resp_result :: "json option"
  resp_error :: "json option"

record RadioInfo =
  radio_name :: string
  radio_band :: string
  radio_channel :: string

record ubus_client =
  ubus_url :: string
  ubus_token :: "string option"
  id_counter :: u64

type_synonym 'w transport = "string \<Rightarrow> JsonRpcRequest \<Rightarrow> 'w \<Rightarrow> (string + JsonRpcResponse) \<times> 'w"
type_synonym ('a, 'w) ubus_result = "(UbusError + 'a) \<times> ubus_client \<times> 'w"

definition UbusClient_new :: "string \<Rightarrow> u16 \<Rightarrow> ubus_client" where
  "UbusClient_new host port =
     \<lparr> ubus_url = ''http://'' @ host @ '':'' @ show_nat (unat port) @ ''/ubus'', ubus_token = None, id_counter = 0 \<rparr>"


subsection \<open>Calls\<close>

definition rpc_error :: "json \<Rightarrow> UbusError" where
  "rpc_error error =
     CallFailed (case Option.bind (json_get ''code'' error) as_i64 of Some c \<Rightarrow> c | None \<Rightarrow> -1)
       (case Option.bind (json_get ''message'' error) as_str of Some m \<Rightarrow> m | None \<Rightarrow> ''unknown error'')"

definition ubus_status :: "json list \<Rightarrow> UbusError + json" where
  "ubus_status result_arr =
     (if result_arr = [] then Inl (Connection ''empty result array'')
      else let status_code = (case as_i64 (result_arr ! 0) of Some c \<Rightarrow> c | None \<Rightarrow> -1)
           in if status_code \<noteq> 0
              then Inl (CallFailed status_code
                (case Option.bind (Option.bind (nth_opt 1 result_arr) (json_get ''message'')) as_str of
                   Some m \<Rightarrow> m
                 | None \<Rightarrow> ''unknown ubus error''))
              else Inr (case nth_opt 1 result_arr of Some v \<Rightarrow> v | None \<Rightarrow> JObject bt_empty))"

definition read_response :: "JsonRpcResponse \<Rightarrow> UbusError + json" where
  "read_response r =
     (case resp_error r of
        Some error \<Rightarrow> Inl (rpc_error error)
      | None \<Rightarrow>
          (case resp_result r of
             None \<Rightarrow> Inl (Connection ''missing result in JSON-RPC response'')
           | Some result \<Rightarrow>
               (case as_array result of
                  None \<Rightarrow> Inl (Connection ''result is not an array'')
                | Some arr \<Rightarrow> ubus_status arr)))"

definition rpc_call_raw :: "'w transport \<Rightarrow> json \<Rightarrow> ubus_client \<times> 'w \<Rightarrow> (json, 'w) ubus_result" where
  "rpc_call_raw http params cw =
     (let (c, w) = cw;
          request = \<lparr> req_jsonrpc = ''2.0'', req_id = id_counter c + 1, req_method = ''call'', req_params = params \<rparr>;
          c' = c\<lparr> id_counter := id_counter c + 1 \<rparr>;
          (response, w') = http (ubus_url c) request w
      in (case response of Inl e \<Rightarrow> Inl (Http e) | Inr r \<Rightarrow> read_response r, c', w'))"

definition not_authenticated :: string where
  "not_authenticated =
     ''not authenticated '' @ [CHR 0xE2, CHR 0x80, CHR 0x94] @ '' call login() first''"

definition rpc_call ::
  "'w transport \<Rightarrow> string \<Rightarrow> string \<Rightarrow> json \<Rightarrow> ubus_client \<times> 'w \<Rightarrow> (json, 'w) ubus_result" where
  "rpc_call http ubus_obj method params cw =
     (case ubus_token (fst cw) of
        None \<Rightarrow> (Inl (Connection not_authenticated), cw)
      | Some token \<Rightarrow>
          rpc_call_raw http (JArray [JString token, JString ubus_obj, JString method, params]) cw)"

text \<open>
  A login reply holds the session; the text of a decoding error is a parameter.
\<close>

fun login_session :: "json \<Rightarrow> string option" where
  "login_session (JObject m) = Option.bind (bt_get m ''ubus_rpc_session'') as_str"
| "login_session (JArray [JString s]) = Some s"
| "login_session _ = None"

definition login ::
  "'w transport \<Rightarrow> (json \<Rightarrow> string) \<Rightarrow> string \<Rightarrow> string \<Rightarrow> ubus_client \<times> 'w \<Rightarrow> (unit, 'w) ubus_result" where
  "login http parse_error username password cw =
     (case rpc_call_raw http (JArray [JString username, JString password]) cw of
        (Inl e, cw') \<Rightarrow> (Inl e, cw')
      | (Inr response, c', w') \<Rightarrow>
          (case login_session response of
             None \<Rightarrow> (Inl (AuthFailed (''failed to parse login response: '' @ parse_error response)), c', w')
           | Some session \<Rightarrow> (Inr (), c'\<lparr> ubus_token := Some session \<rparr>, w')))"

definition map_ok :: "('a \<Rightarrow> UbusError + 'b) \<Rightarrow> ('a, 'w) ubus_result \<Rightarrow> ('b, 'w) ubus_result" where
  "map_ok f r = (case r of (Inl e, cw) \<Rightarrow> (Inl e, cw) | (Inr v, cw) \<Rightarrow> (f v, cw))"

definition uci_get :: "'w transport \<Rightarrow> string \<Rightarrow> string \<Rightarrow> ubus_client \<times> 'w \<Rightarrow> (json, 'w) ubus_result" where
  "uci_get http config section =
     rpc_call http ''uci'' ''get'' (json_object [(''config'', JString config), (''section'', JString section)])"

definition uci_set :: "'w transport \<Rightarrow> string \<Rightarrow> string \<Rightarrow> json \<Rightarrow> ubus_client \<times> 'w \<Rightarrow> (unit, 'w) ubus_result" where
  "uci_set http config section values cw =
     map_ok (\<lambda>_. Inr ()) (rpc_call http ''uci'' ''set''
       (json_object [(''config'', JString config), (''section'', JString section), (''values'', values)]) cw)"

definition uci_add :: "'w transport \<Rightarrow> string \<Rightarrow> string \<Rightarrow> json \<Rightarrow> ubus_client \<times> 'w \<Rightarrow> (string, 'w) ubus_result" where
  "uci_add http config type_name values cw =
     map_ok (\<lambda>result.
         case Option.bind (json_get ''section'' result) as_str of
           Some s \<Rightarrow> Inr s
         | None \<Rightarrow> Inl (Connection (''missing '' @ [quote_char] @ ''section'' @ [quote_char] @ '' in uci.add response'')))
       (rpc_call http ''uci'' ''add''
         (json_object [(''config'', JString config), (''type'', JString type_name), (''values'', values)]) cw)"

definition delete_params :: "string \<Rightarrow> string \<Rightarrow> string option \<Rightarrow> json" where
  "delete_params config section option =
     json_object ([(''config'', JString config), (''section'', JString section)] @
       (case option of None \<Rightarrow> [] | Some opt \<Rightarrow> [(''option'', JString opt)]))"

definition uci_delete ::
  "'w transport \<Rightarrow> string \<Rightarrow> string \<Rightarrow> string option \<Rightarrow> ubus_client \<times> 'w \<Rightarrow> (unit, 'w) ubus_result" where
  "uci_delete http config section option cw =
     map_ok (\<lambda>_. Inr ()) (rpc_call http ''uci'' ''delete'' (delete_params config section option) cw)"

definition uci_commit :: "'w transport \<Rightarrow> string \<Rightarrow> ubus_client \<times> 'w \<Rightarrow> (unit, 'w) ubus_result" where
  "uci_commit http config cw =
     map_ok (\<lambda>_. Inr ()) (rpc_call http ''uci'' ''commit'' (json_object [(''config'', JString config)]) cw)"

definition service_action :: "'w transport \<Rightarrow> string \<Rightarrow> string \<Rightarrow> ubus_client \<times> 'w \<Rightarrow> (unit, 'w) ubus_result" where
  "service_action http name action cw =
     map_ok (\<lambda>_. Inr ()) (rpc_call http (''rc.'' @ action) action (json_object [(''name'', JString name)]) cw)"

definition board :: "'w transport \<Rightarrow> ubus_client \<times> 'w \<Rightarrow> (json, 'w) ubus_result" where
  "board http = rpc_call http ''system'' ''board'' (json_object [])"


subsection \<open>Radios\<close>

definition is_radio :: "string \<Rightarrow> json \<Rightarrow> bool" where
  "is_radio name section \<longleftrightarrow>
     starts_with ''radio'' name \<or> Option.bind (json_get ''.type'' section) as_str = Some ''wifi-device''"

definition radio_info :: "string \<Rightarrow> json \<Rightarrow> RadioInfo" where
  "radio_info name section =
     (let band = (case json_get ''band'' section of Some v \<Rightarrow> Some v | None \<Rightarrow> json_get ''hwmode'' section)
      in \<lparr> radio_name = name,
           radio_band = (case Option.bind band as_str of Some b \<Rightarrow> b | None \<Rightarrow> ''unknown''),
           radio_channel = (case Option.bind (json_get ''channel'' section) as_str of Some c \<Rightarrow> c | None \<Rightarrow> ''auto'') \<rparr>)"

definition radios_of :: "(string, json) btree \<Rightarrow> RadioInfo list" where
  "radios_of obj = map (\<lambda>(name, section). radio_info name section) (filter (\<lambda>(name, section). is_radio name section) obj)"

definition discover_radios :: "'w transport \<Rightarrow> ubus_client \<times> 'w \<Rightarrow> (RadioInfo list, 'w) ubus_result" where
  "discover_radios http cw =
     map_ok (\<lambda>wireless.
         case as_object wireless of
           None \<Rightarrow> Inl (Connection ''wireless config is not an object'')
         | Some obj \<Rightarrow> Inr (radios_of obj))
       (uci_get http ''wireless'' '''' cw)"

definition find_radio_for_band ::
  "'w transport \<Rightarrow> string \<Rightarrow> ubus_client \<times> 'w \<Rightarrow> (string option, 'w) ubus_result" where
  "find_radio_for_band http band cw =
     map_ok (\<lambda>radios.
         Inr (map_option radio_name
           (List.find (\<lambda>r. to_ascii_lowercase (radio_band r) = to_ascii_lowercase band) radios)))
       (discover_radios http cw)"


subsection \<open>Operations over ubus\<close>

fun json_value :: "OpValue \<Rightarrow> json" where
  "json_value (Single v) = JString v"
| "json_value (Listed items) = JArray (map JString items)"

definition json_values :: "(string \<times> OpValue) list \<Rightarrow> json" where
  "json_values values = json_object (map (\<lambda>(k, v). (k, json_value v)) values)"

definition map_err :: "('a, 'w) ubus_result \<Rightarrow> (UciOpError + unit) \<times> ubus_client \<times> 'w" where
  "map_err r = (case r of (Inl e, cw) \<Rightarrow> (Inl (UbusError (UbusError_fmt e)), cw) | (Inr _, cw) \<Rightarrow> (Inr (), cw))"

fun ubus_op :: "'w transport \<Rightarrow> UciOp \<Rightarrow> ubus_client \<times> 'w \<Rightarrow> (UciOpError + unit) \<times> ubus_client \<times> 'w" where
  "ubus_op http (Set config section values) cw = map_err (uci_set http config section (json_values values) cw)"
| "ubus_op http (Add config type_name name values) cw = map_err (uci_add http config type_name (json_values values) cw)"
| "ubus_op http (Delete config section option) cw = map_err (uci_delete http config section option cw)"
| "ubus_op http (AddList config section option value) cw =
     map_err (uci_set http config section (json_object [(option, JArray [JString value])]) cw)"
| "ubus_op http (Commit config) cw = map_err (uci_commit http config cw)"
| "ubus_op http (Service name action) cw = map_err (service_action http name (ServiceAction_fmt action) cw)"
| "ubus_op http (Shell command) cw = (Inr (), cw)"
| "ubus_op http (Comment text) cw = (Inr (), cw)"

fun execute_ubus ::
  "'w transport \<Rightarrow> UciOp list \<Rightarrow> ubus_client \<times> 'w \<Rightarrow> (UciOpError + unit) list \<times> ubus_client \<times> 'w" where
  "execute_ubus http [] cw = ([], cw)"
| "execute_ubus http (op # ops) cw =
     (let (result, cw') = ubus_op http op cw; (results, cw'') = execute_ubus http ops cw'
      in (result # results, cw''))"

interpretation ubus_ops: op_executor "execute_ubus http" "ubus_op http" for http
  by unfold_locales (simp_all add: Let_def case_prod_beta)

lemmas ubus_calls = uci_get_def uci_set_def uci_add_def uci_delete_def uci_commit_def service_action_def board_def


subsection \<open>What is sent\<close>

text \<open>
  The call of an operation: object, method and parameters. The wrapper logs the requests of a
  transport.
\<close>

fun op_call :: "UciOp \<Rightarrow> (string \<times> string \<times> json) option" where
  "op_call (Set config section values) = Some (''uci'', ''set'',
     json_object [(''config'', JString config), (''section'', JString section), (''values'', json_values values)])"
| "op_call (Add config type_name name values) = Some (''uci'', ''add'',
     json_object [(''config'', JString config), (''type'', JString type_name), (''values'', json_values values)])"
| "op_call (Delete config section option) = Some (''uci'', ''delete'', delete_params config section option)"
| "op_call (AddList config section option value) = Some (''uci'', ''set'',
     json_object [(''config'', JString config), (''section'', JString section),
       (''values'', json_object [(option, JArray [JString value])])])"
| "op_call (Commit config) = Some (''uci'', ''commit'', json_object [(''config'', JString config)])"
| "op_call (Service name action) = Some (''rc.'' @ ServiceAction_fmt action, ServiceAction_fmt action,
     json_object [(''name'', JString name)])"
| "op_call _ = None"

definition logged :: "'w transport \<Rightarrow> ('w \<times> JsonRpcRequest list) transport" where
  "logged http url request wl = (let (r, w') = http url request (fst wl) in (r, w', snd wl @ [request]))"

definition call_request :: "string \<Rightarrow> u64 \<Rightarrow> string \<times> string \<times> json \<Rightarrow> JsonRpcRequest" where
  "call_request token n call =
     (case call of (obj, method, params) \<Rightarrow>
        \<lparr> req_jsonrpc = ''2.0'', req_id = n, req_method = ''call'',
          req_params = JArray [JString token, JString obj, JString method, params] \<rparr>)"

fun numbered :: "string \<Rightarrow> u64 \<Rightarrow> (string \<times> string \<times> json) list \<Rightarrow> JsonRpcRequest list" where
  "numbered token n [] = []"
| "numbered token n (call # calls) = call_request token (n + 1) call # numbered token (n + 1) calls"

lemma map_ok_state [simp]: "snd (map_ok f r) = snd r"
  by (simp add: map_ok_def split: prod.split sum.split)

lemma map_err_state [simp]: "snd (map_err r) = snd r"
  by (simp add: map_err_def split: prod.split sum.split)

lemma rpc_call_logged:
  assumes "ubus_token c = Some token"
  shows "\<exists>w'. snd (rpc_call (logged http) obj method params (c, w, log)) =
    (c\<lparr> id_counter := id_counter c + 1 \<rparr>, w', log @ [call_request token (id_counter c + 1) (obj, method, params)])"
  using assms by (simp add: rpc_call_def rpc_call_raw_def logged_def call_request_def Let_def split: prod.split)

lemma ubus_op_logged:
  assumes "ubus_token c = Some token"
  shows "\<exists>w'. snd (ubus_op (logged http) op (c, w, log)) =
    (case op_call op of
       None \<Rightarrow> (c, w', log)
     | Some call \<Rightarrow> (c\<lparr> id_counter := id_counter c + 1 \<rparr>, w', log @ [call_request token (id_counter c + 1) call]))"
  by (cases op) (simp_all add: ubus_calls rpc_call_logged [OF assms])

lemma execute_ubus_logged:
  assumes "ubus_token c = Some token"
  shows "\<exists>c' w'. snd (execute_ubus (logged http) ops (c, w, log)) =
    (c', w', log @ numbered token (id_counter c) (List.map_filter op_call ops)) \<and> ubus_token c' = Some token"
  using assms
proof (induction ops arbitrary: c w log)
  case (Cons op ops)
  obtain w' where w': "snd (ubus_op (logged http) op (c, w, log)) =
      (case op_call op of
         None \<Rightarrow> (c, w', log)
       | Some call \<Rightarrow> (c\<lparr> id_counter := id_counter c + 1 \<rparr>, w', log @ [call_request token (id_counter c + 1) call]))"
    using ubus_op_logged [OF Cons.prems] by metis
  show ?case
    using w' Cons.IH [of c w' log] Cons.prems
      Cons.IH [of "c\<lparr> id_counter := id_counter c + 1 \<rparr>" w' "log @ [call_request token (id_counter c + 1) (the (op_call op))]"]
    by (auto simp: case_prod_beta Let_def List.map_filter_simps split: option.splits)
qed (simp add: List.map_filter_simps)

text \<open>
  Over ubus every operation except raw commands and comments is sent as exactly one request,
  in the order of the list and whatever the router answers to the earlier ones; the requests carry the
  session token and consecutive identifiers, and there is one result per operation.
\<close>

theorem execute_ubus_requests:
  assumes "ubus_token c = Some token"
  shows "snd (snd (snd (execute_ubus (logged http) ops (c, w, [])))) =
      numbered token (id_counter c) (List.map_filter op_call ops) \<and>
    length (fst (execute_ubus (logged http) ops (c, w, []))) = length ops"
  using execute_ubus_logged [OF assms, of http ops w "[]"] by (auto simp: ubus_ops.exec_length)

theorem execute_ubus_requests_witness:
  "snd (snd (snd (execute_ubus (logged (\<lambda>_ _ w. (Inl ''refused'', w)))
     [Comment ''x'', Commit ''a'', Commit ''b''] (\<lparr> ubus_url = [], ubus_token = Some ''t'', id_counter = 7 \<rparr>, (), [])))) =
   [call_request ''t'' 8 (''uci'', ''commit'', json_object [(''config'', JString ''a'')]),
    call_request ''t'' 9 (''uci'', ''commit'', json_object [(''config'', JString ''b'')])]"
  using execute_ubus_requests [of "\<lparr> ubus_url = [], ubus_token = Some ''t'', id_counter = 7 \<rparr>" "''t''"
    "\<lambda>_ _ w. (Inl ''refused'', w)" "[Comment ''x'', Commit ''a'', Commit ''b'']" "()"]
  by (simp add: List.map_filter_simps)

text \<open>
  A client that is not logged in sends nothing: no operation changes the router or the client,
  and every operation that needs the router fails with the same error.
\<close>

theorem unauthenticated_sends_nothing:
  assumes "ubus_token c = None"
  shows "execute_ubus http ops (c, w) =
    (map (\<lambda>op. if op_call op = None then Inr ()
               else Inl (UbusError (''connection error: '' @ not_authenticated))) ops, c, w)"
proof (induction ops)
  case (Cons op ops)
  have "ubus_op http op (c, w) =
      (if op_call op = None then Inr () else Inl (UbusError (''connection error: '' @ not_authenticated)), c, w)"
    using assms by (cases op) (simp_all add: ubus_calls rpc_call_def map_ok_def map_err_def)
  then show ?case using Cons by simp
qed simp

theorem unauthenticated_sends_nothing_witness:
  "execute_ubus (\<lambda>_ _ w. (Inl ''refused'', w + 1)) [Comment ''x'', Commit ''a''] (UbusClient_new ''h'' 80, 0 :: nat) =
   ([Inr (), Inl (UbusError (''connection error: '' @ not_authenticated))], UbusClient_new ''h'' 80, 0)"
proof -
  have "ubus_token (UbusClient_new ''h'' 80) = None" by (simp add: UbusClient_new_def)
  then show ?thesis by (subst unauthenticated_sends_nothing) simp_all
qed

text \<open>
  A call succeeds exactly when the reply has no error and its result is an array that starts with
  the status zero; the value is the second element or the empty object.
\<close>

theorem call_succeeds_iff:
  "read_response r = Inr v \<longleftrightarrow>
   resp_error r = None \<and> (\<exists>rest. resp_result r = Some (JArray (JInt 0 # rest)) \<and>
     v = (case rest of [] \<Rightarrow> JObject bt_empty | x # _ \<Rightarrow> x))"
proof -
  have status: "as_i64 j = Some 0 \<longleftrightarrow> j = JInt 0" for j by (cases j) auto
  have "ubus_status arr = Inr v \<longleftrightarrow>
      (\<exists>rest. arr = JInt 0 # rest \<and> v = (case rest of [] \<Rightarrow> JObject bt_empty | x # _ \<Rightarrow> x))" for arr
    using status [of "arr ! 0"]
    by (cases arr; cases "tl arr") (auto simp: ubus_status_def nth_opt_def Let_def split: option.splits if_splits)
  moreover have "as_array result = Some arr \<longleftrightarrow> result = JArray arr" for result arr by (cases result) auto
  ultimately show ?thesis by (auto simp: read_response_def split: option.splits)
qed

text \<open>
  The name of a section is not part of what ubus sends for an addition, while the shell names
  the section: the two transports of the same operation differ.
\<close>

theorem ubus_add_drops_name:
  "ubus_op http (Add config type_name name values) cw = ubus_op http (Add config type_name name' values) cw"
  by simp

end
