(* ===== verification/Wifi_Scanner.thy ===== *)
theory Wifi_Scanner
  imports Uci_Ops
begin

section \<open>Scanning for wireless networks\<close>

text \<open>
  \<^verbatim>\<open>crates/tollgate-net/src/openwrt/wifi_scanner.rs\<close>: the radios of the router, the scan of a radio with
  retries, the parser of its output, the detection of the encryption and the choice of a radio.
  The executor of commands is a parameter, a function of the command and the state of the router;
  \<^verbatim>\<open>SystemCommandExecutor\<close> is modelled over what the operating system reports of a process.
\<close>

type_synonym i32 = "32 word"

datatype WifiScanError =
    InvalidRadio string
  | CommandFailed string
  | Timeout u64
  | RetriesExhausted string nat string
  | NoRadios

fun WifiScanError_fmt :: "WifiScanError \<Rightarrow> string" where
  "WifiScanError_fmt (InvalidRadio s) = ''invalid radio identifier: '' @ s"
| "WifiScanError_fmt (CommandFailed s) = ''command failed: '' @ s"
| "WifiScanError_fmt (Timeout secs) = ''command timed out after '' @ show_u64 secs @ ''s''"
| "WifiScanError_fmt (RetriesExhausted radio attempts last_error) =
     ''scan failed after '' @ show_nat attempts @ '' attempts for radio '' @ radio @ '': '' @ last_error"
| "WifiScanError_fmt NoRadios = ''no radios found''"

datatype EncryptionType = Open | Wep | Psk | Psk2 | Psk2Ccmp | Sae | SaeMixed | Wpa2Eap | Unknown string

fun EncryptionType_fmt :: "EncryptionType \<Rightarrow> string" where
  "EncryptionType_fmt Open = ''none''"
| "EncryptionType_fmt Wep = ''wep''"
| "EncryptionType_fmt Psk = ''psk''"
| "EncryptionType_fmt Psk2 = ''psk2''"
| "EncryptionType_fmt Psk2Ccmp = ''psk2-ccmp''"
| "EncryptionType_fmt Sae = ''sae''"
| "EncryptionType_fmt SaeMixed = ''sae-mixed''"
| "EncryptionType_fmt Wpa2Eap = ''wpa2-eap''"
| "EncryptionType_fmt (Unknown s) = ''unknown('' @ s @ '')''"

fun to_uci_value :: "EncryptionType \<Rightarrow> string" where
  "to_uci_value Open = ''none''"
| "to_uci_value Wep = ''wep''"
| "to_uci_value Psk = ''psk''"
| "to_uci_value Psk2 = ''psk2''"
| "to_uci_value Psk2Ccmp = ''psk2''"
| "to_uci_value (Unknown _) = ''psk2''"
| "to_uci_value Sae = ''sae''"
| "to_uci_value SaeMixed = ''sae-mixed''"
| "to_uci_value Wpa2Eap = ''wpa2-eap''"

record ScanResult =
  bssid :: string
  ssid :: string
  signal_dbm :: i32
  encryption :: EncryptionType
  channel :: u32
  on_radio :: string

definition clamp_i32 :: "i32 \<Rightarrow> i32 \<Rightarrow> i32 \<Rightarrow> i32" where
  "clamp_i32 x lo hi = (if sint x < sint lo then lo else if sint hi < sint x then hi else x)"

definition quality :: "ScanResult \<Rightarrow> u32" where
  "quality r = (let clamped = clamp_i32 (signal_dbm r) (- 90) (- 30); normalized = clamped + 90 in normalized * 100 div 60)"

record CommandOutput =
  exit_code :: int
  stdout :: string
  stderr :: string

definition success :: "CommandOutput \<Rightarrow> bool" where
  "success out \<longleftrightarrow> exit_code out = 0"

type_synonym 'w executor = "string \<Rightarrow> string list \<Rightarrow> 'w \<Rightarrow> (WifiScanError + CommandOutput) \<times> 'w"

text \<open>A process ends, with an exit code unless a signal ended it, cannot be started, or is killed.\<close>

datatype process_outcome = Finished "int option" string string | SpawnFailed string | Killed

fun join :: "string \<Rightarrow> string list \<Rightarrow> string" where
  "join sep [] = []"
| "join sep [x] = x"
| "join sep (x # y # xs) = x @ sep @ join sep (y # xs)"

definition SystemCommandExecutor_execute ::
  "u64 \<Rightarrow> (string \<Rightarrow> string list \<Rightarrow> 'w \<Rightarrow> process_outcome \<times> 'w) \<Rightarrow> 'w executor" where
  "SystemCommandExecutor_execute timeout spawn program args w =
     (case spawn program args w of
        (Finished code out err, w') \<Rightarrow>
          (Inr \<lparr> exit_code = (case code of Some c \<Rightarrow> c | None \<Rightarrow> - 1), stdout = out, stderr = err \<rparr>, w')
      | (SpawnFailed e, w') \<Rightarrow> (Inl (CommandFailed (program @ '' '' @ join '' '' args @ '': '' @ e)), w')
      | (Killed, w') \<Rightarrow> (Inl (Timeout timeout), w'))"


subsection \<open>Reading the output of a scan\<close>

definition detect_encryption :: "string \<Rightarrow> EncryptionType" where
  "detect_encryption enc_str =
     (let lower = to_ascii_lowercase enc_str; has = (\<lambda>p. contains_str p lower)
      in if has ''none'' \<or> has ''open'' then Open
         else if has ''wep'' then Wep
         else if has ''sae'' \<and> (has ''mixed'' \<or> has ''wpa2'' \<or> has ''wpa3'') then SaeMixed
         else if has ''sae'' then Sae
         else if has ''eap'' \<or> has ''802.1x'' then Wpa2Eap
         else if has ''wpa2'' \<and> has ''psk'' then if has ''ccmp'' then Psk2Ccmp else Psk2
         else if has ''wpa'' \<and> has ''psk'' then Psk
         else if has ''wpa2'' then Psk2
         else if has ''wpa'' then Psk
         else if enc_str = [] then Open
         else Unknown enc_str)"

record scan_state =
  results :: "ScanResult list"
  current_bssid :: string
  current_ssid :: string
  current_signal :: i32
  current_encryption :: EncryptionType
  current_channel :: u32

definition push_current :: "string \<Rightarrow> scan_state \<Rightarrow> scan_state" where
  "push_current radio st =
     (if current_ssid st \<noteq> [] \<and> current_bssid st \<noteq> []
      then st\<lparr> results := results st @
        [\<lparr> bssid = current_bssid st, ssid = current_ssid st, signal_dbm = current_signal st,
           encryption = current_encryption st, channel = current_channel st, on_radio = radio \<rparr>] \<rparr>
      else st)"

definition cell_line :: "string \<Rightarrow> string \<Rightarrow> scan_state \<Rightarrow> scan_state" where
  "cell_line radio line st =
     (push_current radio st)
       \<lparr> current_bssid := (case nth_opt 1 (split_str ''Address:'' line) of Some addr \<Rightarrow> trim addr | None \<Rightarrow> []),
         current_ssid := [], current_signal := - 100, current_encryption := Open, current_channel := 0 \<rparr>"

definition unquoted :: "string \<Rightarrow> string" where
  "unquoted essid =
     (case Option.bind (strip_prefix [CHR 0x22] essid) (strip_suffix [CHR 0x22]) of Some s \<Rightarrow> s | None \<Rightarrow> essid)"

definition essid_field :: "string \<Rightarrow> scan_state \<Rightarrow> scan_state" where
  "essid_field line st =
     (case strip_prefix ''ESSID:'' line of
        Some essid \<Rightarrow> st\<lparr> current_ssid := unquoted (trim essid) \<rparr>
      | None \<Rightarrow> st)"

definition signal_field :: "string \<Rightarrow> scan_state \<Rightarrow> scan_state" where
  "signal_field line st =
     (if contains_str ''Signal:'' line
      then (case nth_opt 1 (split_str ''Signal:'' line) of
              Some signal_part \<Rightarrow>
                (case parse_i32 (trim (hd (split_str ''dBm'' (trim signal_part)))) of
                   Some signal \<Rightarrow> st\<lparr> current_signal := signal \<rparr>
                 | None \<Rightarrow> st)
            | None \<Rightarrow> st)
      else st)"

definition encryption_field :: "string \<Rightarrow> scan_state \<Rightarrow> scan_state" where
  "encryption_field line st =
     (case strip_prefix ''Encryption:'' line of
        Some enc \<Rightarrow> st\<lparr> current_encryption := detect_encryption (trim enc) \<rparr>
      | None \<Rightarrow> st)"

definition channel_field :: "string \<Rightarrow> scan_state \<Rightarrow> scan_state" where
  "channel_field line st =
     (if contains_str ''Channel:'' line
      then (case nth_opt 1 (split_str ''Channel:'' line) of
              Some ch_part \<Rightarrow>
                (case parse_u32 (trim ch_part) of
                   Some ch \<Rightarrow> st\<lparr> current_channel := ch \<rparr>
                 | None \<Rightarrow> st)
            | None \<Rightarrow> st)
      else st)"

definition scan_line :: "string \<Rightarrow> string \<Rightarrow> scan_state \<Rightarrow> scan_state" where
  "scan_line radio raw st =
     (let line = trim raw
      in if starts_with ''Cell'' line then cell_line radio line st
         else channel_field line (encryption_field line (signal_field line (essid_field line st))))"

definition scan_start :: scan_state where
  "scan_start = \<lparr> results = [], current_bssid = [], current_ssid = [], current_signal = - 100,
     current_encryption = Open, current_channel = 0 \<rparr>"

definition sort_by_signal :: "ScanResult list \<Rightarrow> ScanResult list" where
  "sort_by_signal rs = sort_key (\<lambda>r. - sint (signal_dbm r)) rs"

definition parse_iwinfo_output :: "string \<Rightarrow> string \<Rightarrow> ScanResult list" where
  "parse_iwinfo_output output radio =
     sort_by_signal (results (push_current radio (fold (scan_line radio) (rust_lines output) scan_start)))"


subsection \<open>Scans\<close>

definition radio_of_line :: "string \<Rightarrow> string option" where
  "radio_of_line raw =
     (case strip_prefix ''wireless.'' (trim raw) of
        None \<Rightarrow> None
      | Some rest \<Rightarrow>
          if contains_str ''=wifi-device'' rest
          then let name = hd (split_char (CHR ''='') rest)
               in if validate_identifier name = Inr () then Some name else None
          else None)"

definition get_radios :: "'w executor \<Rightarrow> 'w \<Rightarrow> (WifiScanError + string list) \<times> 'w" where
  "get_radios execute w =
     (case execute ''uci'' [''show'', ''wireless''] w of
        (Inl e, w') \<Rightarrow> (Inl (CommandFailed (''uci show wireless: '' @ WifiScanError_fmt e)), w')
      | (Inr output, w') \<Rightarrow>
          if \<not> success output then (Inl (CommandFailed (''uci show wireless: '' @ trim (stderr output))), w')
          else (Inr (remdups_adj (sort (List.map_filter radio_of_line (rust_lines (stdout output))))), w'))"

text \<open>
  The attempts of a scan. The state of the router also sees the pauses between them, in
  milliseconds.
\<close>

definition backoff_delay :: "nat \<Rightarrow> u64" where
  "backoff_delay attempt = 1000 * 2 ^ (attempt - 1)"

fun scan_attempts ::
  "'w executor \<Rightarrow> (u64 \<Rightarrow> 'w \<Rightarrow> 'w) \<Rightarrow> string \<Rightarrow> nat \<Rightarrow> nat \<Rightarrow> nat \<Rightarrow> string \<Rightarrow> 'w \<Rightarrow>
   (WifiScanError + ScanResult list) \<times> 'w" where
  "scan_attempts execute sleep radio max_retries attempt 0 last_error w =
     (Inl (RetriesExhausted radio max_retries last_error), w)"
| "scan_attempts execute sleep radio max_retries attempt (Suc left) last_error w =
     (let w1 = (if attempt > 0 then sleep (backoff_delay attempt) w else w)
      in case execute ''iwinfo'' [radio, ''scan''] w1 of
           (Inr output, w2) \<Rightarrow>
             if success output then (Inr (parse_iwinfo_output (stdout output) radio), w2)
             else scan_attempts execute sleep radio max_retries (Suc attempt) left
                    (''exit code '' @ (if exit_code output < 0 then ''-'' else []) @
                       show_nat (nat \<bar>exit_code output\<bar>) @ '': '' @ trim (stderr output)) w2
         | (Inl e, w2) \<Rightarrow>
             scan_attempts execute sleep radio max_retries (Suc attempt) left (WifiScanError_fmt e) w2)"

definition scan_radio ::
  "'w executor \<Rightarrow> (u64 \<Rightarrow> 'w \<Rightarrow> 'w) \<Rightarrow> nat \<Rightarrow> string \<Rightarrow> 'w \<Rightarrow> (WifiScanError + ScanResult list) \<times> 'w" where
  "scan_radio execute sleep max_retries radio w =
     (case validate_identifier radio of
        Inl e \<Rightarrow> (Inl (InvalidRadio (UciOpError_fmt e)), w)
      | Inr _ \<Rightarrow> scan_attempts execute sleep radio max_retries 0 max_retries [] w)"

fun scan_each ::
  "'w executor \<Rightarrow> (u64 \<Rightarrow> 'w \<Rightarrow> 'w) \<Rightarrow> nat \<Rightarrow> string list \<Rightarrow> 'w \<Rightarrow> ScanResult list \<times> 'w" where
  "scan_each execute sleep max_retries [] w = ([], w)"
| "scan_each execute sleep max_retries (radio # radios) w =
     (let (r, w') = scan_radio execute sleep max_retries radio w;
          (rs, w'') = scan_each execute sleep max_retries radios w'
      in ((case r of Inr found \<Rightarrow> found | Inl _ \<Rightarrow> []) @ rs, w''))"

definition scan_all_radios ::
  "'w executor \<Rightarrow> (u64 \<Rightarrow> 'w \<Rightarrow> 'w) \<Rightarrow> nat \<Rightarrow> 'w \<Rightarrow> (WifiScanError + ScanResult list) \<times> 'w" where
  "scan_all_radios execute sleep max_retries w =
     (case get_radios execute w of
        (Inl e, w') \<Rightarrow> (Inl e, w')
      | (Inr radios, w') \<Rightarrow>
          if radios = [] then (Inl NoRadios, w')
          else let (all_results, w'') = scan_each execute sleep max_retries radios w'
               in (Inr (sort_by_signal all_results), w''))"

text \<open>The last of the entries with the largest key, as \<^verbatim>\<open>Iterator::max_by_key\<close> returns it.\<close>

fun max_by_key :: "('a \<Rightarrow> int) \<Rightarrow> 'a list \<Rightarrow> 'a option" where
  "max_by_key f [] = None"
| "max_by_key f (x # xs) =
     (case max_by_key f xs of None \<Rightarrow> Some x | Some y \<Rightarrow> Some (if f y < f x then x else y))"

definition find_best_radio_for_ssid ::
  "'w executor \<Rightarrow> (u64 \<Rightarrow> 'w \<Rightarrow> 'w) \<Rightarrow> nat \<Rightarrow> string \<Rightarrow> 'w \<Rightarrow> (WifiScanError + string option) \<times> 'w" where
  "find_best_radio_for_ssid execute sleep max_retries name w =
     (case scan_all_radios execute sleep max_retries w of
        (Inl e, w') \<Rightarrow> (Inl e, w')
      | (Inr rs, w') \<Rightarrow>
          (Inr (map_option on_radio (max_by_key (\<lambda>r. sint (signal_dbm r)) (filter (\<lambda>r. ssid r = name) rs))), w'))"


subsection \<open>The printed form of a scan\<close>

text \<open>
  A cell as \<^verbatim>\<open>iwinfo\<close> prints it, on five lines, and what a scan result should hold of it.
\<close>

record cell =
  cell_number :: nat
  cell_bssid :: string
  cell_ssid :: string
  cell_channel :: u32
  cell_signal :: i32
  cell_encryption :: string

definition indent :: string where
  "indent = replicate 10 (CHR '' '')"

definition cell_lines :: "cell \<Rightarrow> string list" where
  "cell_lines c =
     [''Cell '' @ show_nat (cell_number c) @ '' - Address: '' @ cell_bssid c,
      indent @ ''ESSID: '' @ [CHR 0x22] @ cell_ssid c @ [CHR 0x22],
      indent @ ''Mode: Master  Channel: '' @ show_nat (unat (cell_channel c)),
      indent @ ''Signal: '' @ show_i32 (cell_signal c) @ '' dBm  Quality: 60/70'',
      indent @ ''Encryption: '' @ cell_encryption c]"

definition print_scan :: "cell list \<Rightarrow> string" where
  "print_scan cells = concat (map (\<lambda>l. l @ [newline]) (concat (map cell_lines cells)))"

definition cell_ok :: "cell \<Rightarrow> bool" where
  "cell_ok c \<longleftrightarrow>
     is_word (cell_bssid c) \<and> CHR ''s'' \<notin> set (cell_bssid c) \<and> newline \<notin> set (cell_ssid c) \<and>
     trimmed (cell_encryption c) \<and> cell_encryption c \<noteq> [] \<and> newline \<notin> set (cell_encryption c) \<and>
     \<not> contains_str ''Signal:'' (cell_encryption c) \<and> \<not> contains_str ''Channel:'' (cell_encryption c)"

definition cell_result :: "string \<Rightarrow> cell \<Rightarrow> ScanResult" where
  "cell_result radio c =
     \<lparr> bssid = cell_bssid c, ssid = cell_ssid c, signal_dbm = cell_signal c,
       encryption = detect_encryption (cell_encryption c), channel = cell_channel c, on_radio = radio \<rparr>"

lemma indent_blank: "list_all is_whitespace indent"
  by (simp add: indent_def list_all_iff is_whitespace_def char_nat_def)

lemma trim_indent: "trimmed s \<Longrightarrow> trim (indent @ s) = s"
  using indent_blank by (simp add: trim_simps)

lemma blank_char [simp]: "is_whitespace (CHR '' '')"
  by (simp add: is_whitespace_def char_nat_def)

lemma trim_blank: "trimmed s \<Longrightarrow> trim (CHR '' '' # s) = s"
  using trim_pad [of "'' ''" "[]" s] by simp

lemma digit_absent:
  assumes "digit_value c = None"
  shows "c \<notin> set (show_nat n)"
  using show_nat_digits [of n] assms by (auto simp: list_all_iff)

lemma word_ends: "is_word w \<Longrightarrow> w \<noteq> [] \<and> \<not> is_whitespace (hd w) \<and> \<not> is_whitespace (last w)"
  by (auto simp: is_word_def list_all_iff)

lemma scan_cell:
  assumes "is_word b" "CHR ''s'' \<notin> set b"
  shows "scan_line radio (''Cell '' @ show_nat n @ '' - Address: '' @ b) st =
    (push_current radio st)\<lparr> current_bssid := b, current_ssid := [], current_signal := - 100,
      current_encryption := Open, current_channel := 0 \<rparr>"
proof -
  let ?l = "''Cell '' @ show_nat n @ '' - Address: '' @ b"
  have "trimmed ?l" using word_ends [OF assms(1)] by (simp add: trimmed_def is_whitespace_def char_nat_def)
  then have t: "trim ?l = ?l" by (rule trim_simps)
  have "split_str ''Address:'' ((''Cell '' @ show_nat n @ '' - '') @ ''Address:'' @ '' '' @ b) =
      (''Cell '' @ show_nat n @ '' - '') # split_str ''Address:'' ('' '' @ b)"
    by (rule split_str_first) (simp_all add: digit_absent digit_value_def char_nat_def)
  moreover have "split_str ''Address:'' ('' '' @ b) = ['' '' @ b]"
    by (rule split_str_absent [of "CHR ''s''"]) (use assms(2) in simp_all)
  ultimately have "nth_opt 1 (split_str ''Address:'' ?l) = Some ('' '' @ b)" by (simp add: nth_opt_def)
  then show ?thesis unfolding scan_line_def t
    using trim_blank [OF word_trimmed [OF assms(1)]] by (simp add: cell_line_def Let_def starts_with_def)
qed

lemma signal_shape: "\<exists>sig. signal_field line st = st\<lparr> current_signal := sig \<rparr>"
proof -
  have "\<exists>sig. st = st\<lparr> current_signal := sig \<rparr>" by (rule exI [of _ "current_signal st"]) simp
  then show ?thesis by (auto simp: signal_field_def split: option.split)
qed

lemma channel_shape: "\<exists>ch. channel_field line st = st\<lparr> current_channel := ch \<rparr>"
proof -
  have "\<exists>ch. st = st\<lparr> current_channel := ch \<rparr>" by (rule exI [of _ "current_channel st"]) simp
  then show ?thesis by (auto simp: channel_field_def split: option.split)
qed

lemma scan_field_line:
  assumes "trimmed line" "\<not> starts_with ''Cell'' line"
  shows "scan_line radio (indent @ line) st =
    channel_field line (encryption_field line (signal_field line (essid_field line st)))"
  using assms by (simp add: scan_line_def trim_indent)

lemmas literal_simps = trimmed_def is_whitespace_def char_nat_def starts_with_def strip_prefix_def

lemma scan_essid:
  "\<exists>sig ch. scan_line radio (indent @ ''ESSID: '' @ [CHR 0x22] @ name @ [CHR 0x22]) st =
     st\<lparr> current_ssid := name, current_signal := sig, current_channel := ch \<rparr>"
proof -
  let ?q = "CHR 0x22 # name @ [CHR 0x22]" and ?l = "''ESSID: '' @ [CHR 0x22] @ name @ [CHR 0x22]"
  have "trim (CHR '' '' # ?q) = ?q" by (rule trim_blank) (simp add: literal_simps)
  moreover have "strip_suffix [CHR 0x22] (name @ [CHR 0x22]) = Some name" by (simp add: strip_suffix_Some)
  ultimately have e: "essid_field ?l st = st\<lparr> current_ssid := name \<rparr>"
    by (simp add: essid_field_def unquoted_def strip_prefix_def starts_with_def)
  have n: "encryption_field ?l st' = st'" for st' by (simp add: encryption_field_def strip_prefix_def starts_with_def)
  have "scan_line radio (indent @ ?l) st = channel_field ?l (signal_field ?l (st\<lparr> current_ssid := name \<rparr>))"
    by (subst scan_field_line) (simp_all only: n e, simp_all add: literal_simps)
  moreover obtain sig where "signal_field ?l (st\<lparr> current_ssid := name \<rparr>) = st\<lparr> current_ssid := name, current_signal := sig \<rparr>"
    using signal_shape by blast
  ultimately show ?thesis using channel_shape by metis
qed

lemma scan_mode:
  "scan_line radio (indent @ ''Mode: Master  Channel: '' @ show_nat (unat ch)) st = st\<lparr> current_channel := ch \<rparr>"
proof -
  let ?d = "show_nat (unat ch)"
  let ?l = "''Mode: Master  Channel: '' @ ?d"
  have "\<not> contains_str ''Signal:'' ?l"
    by (rule contains_str_absent [of "CHR ''S''"]) (simp_all add: digit_absent digit_value_def char_nat_def)
  then have f: "essid_field ?l st = st" "signal_field ?l st = st" "encryption_field ?l st = st"
    by (simp_all add: essid_field_def signal_field_def encryption_field_def strip_prefix_def starts_with_def)
  have "split_str ''Channel:'' (''Mode: Master  '' @ ''Channel:'' @ '' '' @ ?d) =
      ''Mode: Master  '' # split_str ''Channel:'' ('' '' @ ?d)"
    by (rule split_str_first) simp_all
  moreover have "split_str ''Channel:'' ('' '' @ ?d) = ['' '' @ ?d]"
    by (rule split_str_absent [of "CHR ''C''"]) (simp_all add: digit_absent digit_value_def char_nat_def)
  ultimately have "nth_opt 1 (split_str ''Channel:'' ?l) = Some ('' '' @ ?d)" by (simp add: nth_opt_def)
  moreover have "contains_str ''Channel:'' ?l"
    using contains_str_here [of "''Channel:''" "''Mode: Master  ''" "'' '' @ ?d"] by simp
  ultimately have "channel_field ?l st = st\<lparr> current_channel := ch \<rparr>"
    using trim_blank [OF word_trimmed [OF show_nat_word]] by (simp add: channel_field_def)
  moreover have "trimmed ?l" using word_ends [OF show_nat_word, of "unat ch"] by (simp add: literal_simps)
  ultimately show ?thesis by (subst scan_field_line) (simp_all only: f, simp_all add: starts_with_def)
qed

lemma show_i32_absent:
  assumes "digit_value c = None" "c \<noteq> CHR ''-''"
  shows "c \<notin> set (show_i32 w)"
  using digit_absent [OF assms(1)] assms(2) by (simp add: show_i32_def)

lemma scan_signal:
  "scan_line radio (indent @ ''Signal: '' @ show_i32 sig @ '' dBm  Quality: 60/70'') st = st\<lparr> current_signal := sig \<rparr>"
proof -
  let ?d = "show_i32 sig" and ?u = "'' dBm  Quality: 60/70''"
  let ?l = "''Signal: '' @ ?d @ ?u"
  have "\<not> contains_str ''Channel:'' ?l"
    by (rule contains_str_absent [of "CHR ''C''"]) (simp_all add: show_i32_absent digit_value_def char_nat_def)
  then have f: "essid_field ?l st = st" "encryption_field ?l st' = st'" "channel_field ?l st' = st'" for st'
    by (simp_all add: essid_field_def channel_field_def encryption_field_def strip_prefix_def starts_with_def)
  have "split_str ''Signal:'' ([] @ ''Signal:'' @ '' '' @ ?d @ ?u) = [] # split_str ''Signal:'' ('' '' @ ?d @ ?u)"
    by (rule split_str_first) simp_all
  moreover have "split_str ''Signal:'' ('' '' @ ?d @ ?u) = ['' '' @ ?d @ ?u]"
    by (rule split_str_absent [of "CHR ''S''"]) (simp_all add: show_i32_absent digit_value_def char_nat_def)
  ultimately have piece: "nth_opt 1 (split_str ''Signal:'' ?l) = Some (CHR '' '' # ?d @ ?u)" by (simp add: nth_opt_def)
  have "trimmed (?d @ ?u)" using word_ends [OF show_i32_word, of sig] by (simp add: literal_simps)
  then have t: "trim (CHR '' '' # ?d @ ?u) = ?d @ ?u" by (rule trim_blank)
  have "split_str ''dBm'' ((?d @ '' '') @ ''dBm'' @ ''  Quality: 60/70'') =
      (?d @ '' '') # split_str ''dBm'' ''  Quality: 60/70''"
    by (rule split_str_first) (simp_all add: show_i32_absent digit_value_def char_nat_def)
  moreover have "trim (?d @ '' '') = ?d"
    using trim_pad [of "[]" "'' ''" ?d] word_trimmed [OF show_i32_word] by simp
  ultimately have "parse_i32 (trim (hd (split_str ''dBm'' (?d @ ?u)))) = Some sig" by simp
  moreover have "contains_str ''Signal:'' ?l" using contains_str_here [of "''Signal:''" "[]" "'' '' @ ?d @ ?u"] by simp
  ultimately have "signal_field ?l st = st\<lparr> current_signal := sig \<rparr>"
    unfolding signal_field_def piece option.case t by (simp only: if_True option.case)
  then show ?thesis by (subst scan_field_line) (simp_all only: f, simp_all add: literal_simps)
qed

lemma scan_encryption:
  assumes "trimmed e" "e \<noteq> []" "\<not> contains_str ''Signal:'' e" "\<not> contains_str ''Channel:'' e"
  shows "scan_line radio (indent @ ''Encryption: '' @ e) st = st\<lparr> current_encryption := detect_encryption e \<rparr>"
proof -
  let ?l = "''Encryption: '' @ e"
  have "\<not> contains_str ''Channel:'' ?l" "\<not> contains_str ''Signal:'' ?l"
    using assms(3,4) by (simp_all add: starts_with_def)
  then have f: "essid_field ?l st = st" "signal_field ?l st = st" "channel_field ?l st' = st'" for st'
    by (simp_all add: essid_field_def channel_field_def signal_field_def strip_prefix_def starts_with_def)
  have "encryption_field ?l st = st\<lparr> current_encryption := detect_encryption e \<rparr>"
    using trim_blank [OF assms(1)] by (simp add: encryption_field_def strip_prefix_def starts_with_def)
  moreover have "trimmed ?l" using assms(1,2) by (simp add: literal_simps)
  ultimately show ?thesis by (subst scan_field_line) (simp_all only: f, simp_all add: starts_with_def)
qed

text \<open>After the five lines of a cell the current fields are those of the cell.\<close>

definition loaded :: "cell \<Rightarrow> scan_state \<Rightarrow> scan_state" where
  "loaded c st = st\<lparr> current_bssid := cell_bssid c, current_ssid := cell_ssid c, current_signal := cell_signal c,
     current_encryption := detect_encryption (cell_encryption c), current_channel := cell_channel c \<rparr>"

lemma scan_cell_lines:
  assumes "cell_ok c"
  shows "fold (scan_line radio) (cell_lines c) st = loaded c (push_current radio st)"
proof -
  let ?st = "(push_current radio st)\<lparr> current_bssid := cell_bssid c, current_ssid := [], current_signal := - 100,
      current_encryption := Open, current_channel := 0 \<rparr>"
  obtain sig ch where "scan_line radio (indent @ ''ESSID: '' @ [CHR 0x22] @ cell_ssid c @ [CHR 0x22]) ?st =
      ?st\<lparr> current_ssid := cell_ssid c, current_signal := sig, current_channel := ch \<rparr>"
    using scan_essid by blast
  then show ?thesis using assms
    by (simp add: cell_lines_def cell_ok_def scan_cell [simplified] scan_mode [simplified] scan_signal [simplified]
      scan_encryption [simplified] loaded_def)
qed

lemma push_loaded:
  "results (push_current radio (loaded c st)) =
   results st @ (if cell_bssid c \<noteq> [] \<and> cell_ssid c \<noteq> [] then [cell_result radio c] else [])"
  by (simp add: push_current_def loaded_def cell_result_def)

lemma scan_cells:
  assumes "list_all cell_ok cells"
  shows "results (push_current radio (fold (scan_line radio) (concat (map cell_lines cells)) st)) =
    results (push_current radio st) @ map (cell_result radio) (filter (\<lambda>c. cell_ssid c \<noteq> []) cells)"
  using assms
proof (induction cells arbitrary: st)
  case (Cons c cells)
  then have "cell_bssid c \<noteq> []" by (simp add: cell_ok_def is_word_def)
  with Cons show ?case by (simp add: scan_cell_lines push_loaded)
qed simp

lemma cell_lines_newline: "cell_ok c \<Longrightarrow> l \<in> set (cell_lines c) \<Longrightarrow> newline \<notin> set l"
  using word_newline [of "cell_bssid c"] word_newline [OF show_nat_word] word_newline [OF show_i32_word]
  by (auto simp: cell_lines_def cell_ok_def indent_def newline_def)

lemma rust_lines_print:
  "(\<And>l. l \<in> set ls \<Longrightarrow> newline \<notin> set l) \<Longrightarrow> rust_lines (concat (map (\<lambda>l. l @ [newline]) ls)) = map strip_cr ls"
  by (induction ls) (simp_all add: rust_lines_write, simp add: rust_lines.simps)

lemma scan_line_cr: "scan_line radio (strip_cr l) = scan_line radio l"
  by (rule ext) (simp add: scan_line_def trim_strip_cr)

text \<open>
  The parser reads what \<^verbatim>\<open>iwinfo\<close> prints: from the printed form of any list of cells it returns
  exactly the cells that are not hidden, each with its address, name, channel, signal and detected
  encryption, strongest first, whatever characters the names hold.
\<close>

theorem parse_printed_scan:
  assumes "list_all cell_ok cells"
  shows "parse_iwinfo_output (print_scan cells) radio =
    sort_by_signal (map (cell_result radio) (filter (\<lambda>c. cell_ssid c \<noteq> []) cells))"
proof -
  have "newline \<notin> set l" if "l \<in> set (concat (map cell_lines cells))" for l
    using that assms cell_lines_newline by (auto simp: list_all_iff)
  then have "rust_lines (print_scan cells) = map strip_cr (concat (map cell_lines cells))"
    unfolding print_scan_def by (rule rust_lines_print)
  then show ?thesis
    using scan_cells [OF assms, of radio scan_start]
    by (simp add: parse_iwinfo_output_def fold_map comp_def scan_line_cr push_current_def scan_start_def del: map_concat)
qed

theorem parse_printed_scan_witness:
  "parse_iwinfo_output (print_scan
     [\<lparr> cell_number = 1, cell_bssid = ''02:AB'', cell_ssid = ''Signal: 1 dBm'', cell_channel = 6, cell_signal = - 45,
        cell_encryption = ''none'' \<rparr>]) ''radio0'' =
   [\<lparr> bssid = ''02:AB'', ssid = ''Signal: 1 dBm'', signal_dbm = - 45, encryption = Open, channel = 6, on_radio = ''radio0'' \<rparr>]"
proof -
  let ?c = "\<lparr> cell_number = 1, cell_bssid = ''02:AB'', cell_ssid = ''Signal: 1 dBm'', cell_channel = 6, cell_signal = - 45,
        cell_encryption = ''none'' \<rparr>"
  have "list_all cell_ok [?c]"
    by (simp add: cell_ok_def is_word_def is_whitespace_def char_nat_def newline_def trimmed_def starts_with_def)
  from parse_printed_scan [OF this, of "''radio0''"] show ?thesis
    by (simp add: sort_by_signal_def cell_result_def detect_encryption_def Let_def to_ascii_lowercase_def char_nat_def
      starts_with_def)
qed


subsection \<open>What a scan returns\<close>

definition result_ok :: "string \<Rightarrow> ScanResult \<Rightarrow> bool" where
  "result_ok radio r \<longleftrightarrow> ssid r \<noteq> [] \<and> bssid r \<noteq> [] \<and> on_radio r = radio"

lemma results_fields [simp]:
  "results (essid_field l st) = results st" "results (signal_field l st) = results st"
  "results (encryption_field l st) = results st" "results (channel_field l st) = results st"
  by (simp_all add: essid_field_def signal_field_def encryption_field_def channel_field_def split: option.split)

lemma push_current_ok:
  "list_all (result_ok radio) (results st) \<Longrightarrow> list_all (result_ok radio) (results (push_current radio st))"
  by (simp add: push_current_def result_ok_def)

lemma scan_lines_ok:
  "list_all (result_ok radio) (results st) \<Longrightarrow> list_all (result_ok radio) (results (fold (scan_line radio) ls st))"
  by (induction ls arbitrary: st) (simp_all add: scan_line_def cell_line_def Let_def push_current_ok)

lemma parse_ok: "r \<in> set (parse_iwinfo_output out radio) \<Longrightarrow> result_ok radio r"
  using push_current_ok [OF scan_lines_ok, of radio scan_start "rust_lines out"]
  by (auto simp: parse_iwinfo_output_def sort_by_signal_def scan_start_def list_all_iff)

lemma scan_attempts_ok:
  "scan_attempts execute sleep radio n a l e w = (Inr rs, w') \<Longrightarrow> r \<in> set rs \<Longrightarrow> result_ok radio r"
  by (induction execute sleep radio n a l e w rule: scan_attempts.induct)
    (auto simp: Let_def parse_ok split: prod.splits sum.splits if_splits)

lemma scan_each_ok:
  "r \<in> set (fst (scan_each execute sleep n radios w)) \<Longrightarrow> \<exists>radio \<in> set radios. is_identifier radio \<and> result_ok radio r"
proof (induction radios arbitrary: w)
  case (Cons radio radios)
  obtain q w' where q: "scan_radio execute sleep n radio w = (q, w')" by force
  have "is_identifier radio \<and> result_ok radio r" if "q = Inr rs" "r \<in> set rs" for rs
    using q that scan_attempts_ok by (auto simp: scan_radio_def is_identifier_def split: sum.splits)
  then show ?case using Cons by (auto simp: q case_prod_beta Let_def split: sum.splits)
qed simp

text \<open>
  Every network a scan of all radios returns is named, has an address, and was seen by a radio
  whose name is safe in a command; the list is sorted by signal, strongest first.
\<close>

theorem scan_all_sound:
  assumes "scan_all_radios execute sleep n w = (Inr rs, w')"
  shows "sorted_wrt (\<lambda>a b. sint (signal_dbm b) \<le> sint (signal_dbm a)) rs \<and>
    (\<forall>r \<in> set rs. ssid r \<noteq> [] \<and> bssid r \<noteq> [] \<and> validate_identifier (on_radio r) = Inr ())"
proof -
  obtain radios w'' where rs: "rs = sort_by_signal (fst (scan_each execute sleep n radios w''))"
    using assms by (auto simp: scan_all_radios_def case_prod_beta split: sum.splits if_splits prod.splits)
  have "sorted (map (\<lambda>r. - sint (signal_dbm r)) rs)" by (simp add: rs sort_by_signal_def)
  then have "sorted_wrt (\<lambda>a b. sint (signal_dbm b) \<le> sint (signal_dbm a)) rs" by (simp add: sorted_map)
  moreover have "ssid r \<noteq> [] \<and> bssid r \<noteq> [] \<and> validate_identifier (on_radio r) = Inr ()" if "r \<in> set rs" for r
    using that scan_each_ok [of r execute sleep n radios w'']
    by (auto simp: rs sort_by_signal_def result_ok_def is_identifier_def)
  ultimately show ?thesis by blast
qed

text \<open>A router with one radio that sees one network.\<close>

definition sample_executor :: "unit executor" where
  "sample_executor program args w =
     (Inr \<lparr> exit_code = 0,
        stdout = (if program = ''uci'' then ''wireless.radio0=wifi-device''
                  else ''Cell 1 Address: a'' @ [newline] @ ''ESSID: x''),
        stderr = [] \<rparr>, w)"

lemmas literal_text = trim_def trim_start_def is_whitespace_def char_nat_def starts_with_def strip_prefix_def
  split_str_def nth_opt_def newline_def carriage_return_def

lemma sample_radios: "get_radios sample_executor () = (Inr [''radio0''], ())"
proof -
  have "rust_lines ''wireless.radio0=wifi-device'' = [''wireless.radio0=wifi-device'']"
    by (subst rust_lines.simps) (simp add: newline_def)
  moreover have "radio_of_line ''wireless.radio0=wifi-device'' = Some ''radio0''"
    by (simp add: radio_of_line_def literal_text validate_identifier_def identifier_char_def)
  ultimately show ?thesis
    by (simp add: get_radios_def sample_executor_def success_def List.map_filter_simps)
qed

lemma sample_lines: "rust_lines (''Cell 1 Address: a'' @ [newline] @ ''ESSID: x'') = [''Cell 1 Address: a'', ''ESSID: x'']"
proof -
  have "rust_lines ''ESSID: x'' = [''ESSID: x'']" by (subst rust_lines.simps) (simp add: newline_def)
  then show ?thesis
    using rust_lines_write [of "''Cell 1 Address: a''" "''ESSID: x''"]
    by (simp add: newline_def strip_cr_def carriage_return_def)
qed

lemma sample_scan_parsed:
  "parse_iwinfo_output (''Cell 1 Address: a'' @ [newline] @ ''ESSID: x'') radio =
   [\<lparr> bssid = ''a'', ssid = ''x'', signal_dbm = - 100, encryption = Open, channel = 0, on_radio = radio \<rparr>]"
  unfolding parse_iwinfo_output_def sample_lines
  by (simp add: scan_line_def cell_line_def essid_field_def signal_field_def encryption_field_def channel_field_def
    unquoted_def scan_start_def push_current_def sort_by_signal_def literal_text Let_def)

theorem scan_all_sound_witness:
  "\<exists>r. scan_all_radios sample_executor (\<lambda>_ w. w) 3 () = (Inr [r], ()) \<and> ssid r = ''x'' \<and>
     validate_identifier (on_radio r) = Inr ()"
proof -
  let ?r = "\<lparr> bssid = ''a'', ssid = ''x'', signal_dbm = - 100, encryption = Open, channel = 0, on_radio = ''radio0'' \<rparr>"
  have "validate_identifier ''radio0'' = Inr ()"
    by (simp add: validate_identifier_def identifier_char_def char_nat_def Let_def)
  then have "scan_radio sample_executor (\<lambda>_ w. w) 3 ''radio0'' () = (Inr [?r], ())"
    using sample_scan_parsed [of "''radio0''"]
    by (simp add: scan_radio_def sample_executor_def success_def numeral_3_eq_3 Let_def)
  then have s: "scan_all_radios sample_executor (\<lambda>_ w. w) 3 () = (Inr [?r], ())"
    by (simp add: scan_all_radios_def sample_radios sort_by_signal_def)
  from s scan_all_sound [OF s] show ?thesis by (intro exI [of _ ?r]) simp
qed

lemma max_by_key_None: "max_by_key f xs = None \<longleftrightarrow> xs = []"
  by (cases xs) (auto split: option.split)

lemma max_by_key_Some:
  "max_by_key f xs = Some x \<Longrightarrow> x \<in> set xs \<and> (\<forall>y \<in> set xs. f y \<le> f x)"
proof (induction xs arbitrary: x)
  case (Cons a xs)
  then show ?case by (cases "max_by_key f xs") (fastforce simp: max_by_key_None split: if_splits)+
qed simp

text \<open>
  The radio chosen for a network is one that sees it, at the strongest signal of all; there is
  none exactly when no radio sees it.
\<close>

theorem best_radio_strongest:
  assumes "scan_all_radios execute sleep n w = (Inr rs, w')"
  shows "\<exists>best. find_best_radio_for_ssid execute sleep n name w = (Inr best, w') \<and>
    (case best of
       None \<Rightarrow> name \<notin> ssid ` set rs
     | Some radio \<Rightarrow> \<exists>r \<in> set rs. ssid r = name \<and> on_radio r = radio \<and>
         (\<forall>q \<in> set rs. ssid q = name \<longrightarrow> sint (signal_dbm q) \<le> sint (signal_dbm r)))"
proof (cases "max_by_key (\<lambda>r. sint (signal_dbm r)) (filter (\<lambda>r. ssid r = name) rs)")
  case None
  then have "name \<notin> ssid ` set rs" by (auto simp: max_by_key_None filter_empty_conv)
  then show ?thesis using assms None by (simp add: find_best_radio_for_ssid_def)
next
  case (Some r)
  then show ?thesis using assms max_by_key_Some [OF Some] by (auto simp: find_best_radio_for_ssid_def)
qed


subsection \<open>Retries\<close>

text \<open>An executor that answers from a list, and the pauses it sees.\<close>

type_synonym script = "(WifiScanError + CommandOutput) list \<times> u64 list"

fun scripted :: "string \<Rightarrow> string list \<Rightarrow> script \<Rightarrow> (WifiScanError + CommandOutput) \<times> script" where
  "scripted program args (a # as, naps) = (a, as, naps)"
| "scripted program args ([], naps) = (Inl (CommandFailed []), [], naps)"

definition nap :: "u64 \<Rightarrow> script \<Rightarrow> script" where
  "nap d s = (fst s, snd s @ [d])"

definition answered :: "WifiScanError + CommandOutput \<Rightarrow> bool" where
  "answered a \<longleftrightarrow> (case a of Inr out \<Rightarrow> success out | Inl _ \<Rightarrow> False)"

definition naps_before :: "nat \<Rightarrow> nat \<Rightarrow> u64 list" where
  "naps_before a k = map backoff_delay (filter (\<lambda>i. 0 < i) [a ..< a + k])"

lemma naps_before_Suc:
  "naps_before a (Suc k) = (if 0 < a then [backoff_delay a] else []) @ naps_before (Suc a) k"
proof -
  have "[a ..< a + Suc k] = a # [Suc a ..< Suc a + k]" by (simp add: upt_conv_Cons)
  then show ?thesis unfolding naps_before_def by (simp only:) simp
qed

lemma scan_attempt_fails:
  "\<not> answered x \<Longrightarrow> \<exists>e'. scan_attempts scripted nap radio n a (Suc l) e (x # xs, naps) =
    scan_attempts scripted nap radio n (Suc a) l e' (xs, naps @ (if 0 < a then [backoff_delay a] else []))"
  by (auto simp: nap_def answered_def Let_def split: sum.splits)

lemma scan_attempts_first:
  assumes "k < l" "k < length as" "as ! k = Inr out" "success out" "\<And>i. i < k \<Longrightarrow> \<not> answered (as ! i)"
  shows "scan_attempts scripted nap radio n a l e (as, naps) =
    (Inr (parse_iwinfo_output (stdout out) radio), drop (Suc k) as, naps @ naps_before a (Suc k))"
  using assms
proof (induction l arbitrary: k a e as naps)
  case (Suc l)
  obtain x xs where as: "as = x # xs" using Suc.prems(2) by (cases as) auto
  show ?case
  proof (cases k)
    case 0
    then show ?thesis using Suc.prems(3,4) by (simp add: as naps_before_def nap_def Let_def)
  next
    case (Suc j)
    have "\<not> answered x" using Suc.prems(5) [of 0] Suc as by simp
    from scan_attempt_fails [OF this] obtain e' where
      "scan_attempts scripted nap radio n a (Suc l) e (as, naps) =
       scan_attempts scripted nap radio n (Suc a) l e' (xs, naps @ (if 0 < a then [backoff_delay a] else []))"
      unfolding as by blast
    moreover have "\<not> answered (xs ! i)" if "i < j" for i using Suc.prems(5) [of "Suc i"] Suc as that by simp
    ultimately show ?thesis
      using Suc.IH [of j xs] Suc.prems Suc by (simp add: as naps_before_Suc [of a "Suc j"] del: scan_attempts.simps)
  qed
qed simp

lemma scan_attempts_none:
  assumes "l \<le> length as" "\<And>i. i < l \<Longrightarrow> \<not> answered (as ! i)"
  shows "\<exists>e'. scan_attempts scripted nap radio n a l e (as, naps) =
    (Inl (RetriesExhausted radio n e'), drop l as, naps @ naps_before a l)"
  using assms
proof (induction l arbitrary: a e as naps)
  case (Suc l)
  obtain x xs where as: "as = x # xs" using Suc.prems(1) by (cases as) auto
  have "\<not> answered x" using Suc.prems(2) [of 0] as by simp
  from scan_attempt_fails [OF this] obtain e' where
    "scan_attempts scripted nap radio n a (Suc l) e (as, naps) =
     scan_attempts scripted nap radio n (Suc a) l e' (xs, naps @ (if 0 < a then [backoff_delay a] else []))"
    unfolding as by blast
  moreover have "\<not> answered (xs ! i)" if "i < l" for i using Suc.prems(2) [of "Suc i"] as that by simp
  ultimately show ?case
    using Suc.IH [of xs "Suc a" e' "naps @ (if 0 < a then [backoff_delay a] else [])"] Suc.prems(1)
    by (simp add: as naps_before_Suc del: scan_attempts.simps)
qed (simp add: naps_before_def)

text \<open>
  A scan of a radio returns the networks of its first successful attempt and makes no further
  one; if the allowed attempts all fail it makes exactly that many and reports exhaustion. Between
  attempts it pauses one second, then two, then four, doubling each time.
\<close>

theorem scan_retries_with_backoff:
  assumes "validate_identifier radio = Inr ()" and "n \<le> length as"
  shows "(\<forall>k out. k < n \<and> as ! k = Inr out \<and> success out \<and> (\<forall>i < k. \<not> answered (as ! i)) \<longrightarrow>
      scan_radio scripted nap n radio (as, []) =
        (Inr (parse_iwinfo_output (stdout out) radio), drop (Suc k) as, map (\<lambda>i. 1000 * 2 ^ i) [0 ..< k])) \<and>
    ((\<forall>i < n. \<not> answered (as ! i)) \<longrightarrow>
      (\<exists>e. scan_radio scripted nap n radio (as, []) =
        (Inl (RetriesExhausted radio n e), drop n as, map (\<lambda>i. 1000 * 2 ^ i) [0 ..< n - 1])))"
proof -
  have naps: "naps_before 0 m = map (\<lambda>i. 1000 * 2 ^ i) [0 ..< m - 1]" for m
  proof (cases m)
    case (Suc k)
    have "filter (\<lambda>i. 0 < i) [0 ..< Suc k] = [Suc 0 ..< Suc k]" by (simp add: upt_conv_Cons del: upt_Suc)
    then show ?thesis by (simp add: Suc naps_before_def backoff_delay_def map_Suc_upt [symmetric] comp_def del: upt_Suc map_Suc_upt)
  qed (simp add: naps_before_def)
  have scan: "scan_radio scripted nap n radio (as, []) = scan_attempts scripted nap radio n 0 n [] (as, [])"
    using assms(1) by (simp add: scan_radio_def)
  show ?thesis
    unfolding scan using scan_attempts_first [of _ n as _ radio n 0 "[]" "[]"] scan_attempts_none [of n as radio n 0 "[]" "[]"]
      assms(2)
    by (auto simp: naps)
qed

theorem scan_retries_with_backoff_witness:
  "scan_radio scripted nap 3 ''radio0''
     ([Inl NoRadios, Inr \<lparr> exit_code = 1, stdout = [], stderr = [] \<rparr>, Inr \<lparr> exit_code = 0, stdout = [], stderr = [] \<rparr>], []) =
   (Inr (parse_iwinfo_output [] ''radio0''), [], [1000, 2000])"
proof -
  let ?as = "[Inl NoRadios, Inr \<lparr> exit_code = 1, stdout = [], stderr = [] \<rparr>, Inr \<lparr> exit_code = 0, stdout = [], stderr = [] \<rparr>]"
  have "validate_identifier ''radio0'' = Inr ()"
    by (simp add: validate_identifier_def identifier_char_def char_nat_def Let_def)
  moreover have "\<not> answered (?as ! i)" if "i < 2" for i
    using that by (auto simp: less_2_cases_iff answered_def success_def)
  ultimately show ?thesis
    using scan_retries_with_backoff [of "''radio0''" 3 ?as, THEN conjunct1, rule_format, of 2 "\<lparr> exit_code = 0, stdout = [], stderr = [] \<rparr>"]
    by (simp add: success_def upt_conv_Cons)
qed


subsection \<open>Signal quality\<close>

lemma quality_value: "unat (quality r) = nat (max (- 90) (min (- 30) (sint (signal_dbm r))) + 90) * 100 div 60"
proof -
  let ?c = "clamp_i32 (signal_dbm r) (- 90) (- 30)"
  have c: "sint ?c = max (- 90) (min (- 30) (sint (signal_dbm r)))" by (auto simp: clamp_i32_def)
  have w: "?c + 90 = word_of_int (sint ?c + 90)" by simp
  have "uint (?c + 90) = (sint ?c + 90) mod 2 ^ 32" unfolding w uint_word_of_int by simp
  then have u: "unat (?c + 90) = nat (sint ?c + 90)" using c by (simp add: unat_eq_nat_uint)
  have "unat (n * 100) = unat n * 100" if "unat n \<le> 60" for n :: u32
    using that unat_mult_lem [of n 100] by simp
  from this [of "?c + 90"] have "unat ((?c + 90) * 100) = nat (sint ?c + 90) * 100" using u c by linarith
  then show ?thesis unfolding quality_def Let_def unat_div c by simp
qed

text \<open>
  The quality of a network is a percentage and never falls when its signal rises.
\<close>

theorem quality_percentage:
  "unat (quality r) \<le> 100 \<and> (sint (signal_dbm r) \<le> sint (signal_dbm q) \<longrightarrow> quality r \<le> quality q)"
  by (auto simp: quality_value word_le_nat_alt intro!: div_le_mono mult_right_mono nat_mono)

end
