(* ===== verification/Wifi_Connector.thy ===== *)
theory Wifi_Connector
  imports Wifi_Scanner
begin

section \<open>Connecting to wireless networks\<close>

text \<open>
  \<^verbatim>\<open>crates/tollgate-net/src/openwrt/wifi_connector.rs\<close>: the station sections of the wireless configuration,
  the wait for an address, the verification of the connection, the switch of upstreams and its
  fallback. The router is a parameter: its shell, its executor of commands, its clock (in
  milliseconds) and what a pause does to it. The wait ends when the clock says so, so it is a partial
  function and its return is a theorem.
\<close>

datatype WifiConnectError =
    InvalidParameter string
  | UciFailed string
  | ConnectCommandFailed string
  | DhcpTimeout string nat
  | VerificationFailed string
  | ScanError WifiScanError

record 'w router =
  shell :: "'w shell"
  execute :: "'w executor"
  clock :: "'w \<Rightarrow> nat"
  sleep :: "nat \<Rightarrow> 'w \<Rightarrow> 'w"


subsection \<open>Operations\<close>

definition build_sta_uci_ops :: "string \<Rightarrow> string \<Rightarrow> string \<Rightarrow> string \<Rightarrow> EncryptionType \<Rightarrow> UciOp list" where
  "build_sta_uci_ops sta_name radio essid password enc =
     (let values = [(''device'', radio), (''mode'', ''sta''), (''ssid'', essid), (''network'', ''wwan'')] @
            (if enc = Open then [(''encryption'', ''none'')]
             else [(''encryption'', to_uci_value enc), (''key'', password)])
      in build (builder_add ''wireless'' ''wifi-iface'' sta_name values
           (builder_comment (''STA for '' @ essid @ '' on '' @ radio) UciOpBuilder_new)))"

definition build_wwan_ops :: "UciOp list" where
  "build_wwan_ops =
     build (builder_commit ''firewall'' (builder_commit ''network''
       (builder_add_list ''firewall'' ''@zone[1]'' ''network'' ''wwan''
         (builder_add ''network'' ''interface'' ''wwan'' [(''proto'', ''dhcp''), (''metric'', ''50'')]
           (builder_comment ''Ensure WWAN network interface'' UciOpBuilder_new)))))"

text \<open>The scripts of the source, with the quotes written as characters.\<close>

definition dquote :: char where
  "dquote = CHR 0x22"

definition disconnect_script :: string where
  "disconnect_script =
     ''for s in $(uci show wireless | grep wifi-iface | grep '' @ [dquote] @ ''mode='' @ [quote_char] @ ''sta'' @
     [quote_char, dquote] @ '' | cut -d. -f2 | cut -d= -f1); do uci delete wireless.$s 2>/dev/null || true; done''"

definition build_disconnect_ops :: "UciOp list" where
  "build_disconnect_ops =
     build (builder_commit ''wireless'' (builder_shell disconnect_script
       (builder_comment ''Disconnect all STAs'' UciOpBuilder_new)))"

definition arrow :: string where
  "arrow = [CHR 0xE2, CHR 0x86, CHR 0x92]"

definition build_switch_ops ::
  "string \<Rightarrow> string \<Rightarrow> string \<Rightarrow> string \<Rightarrow> string \<Rightarrow> EncryptionType \<Rightarrow> UciOp list" where
  "build_switch_ops from_radio from_ssid to_radio to_ssid to_password to_encryption =
     (let from_sta = ''sta_'' @ from_radio; to_sta = ''sta_'' @ to_radio
      in [Comment (''Switch upstream: '' @ from_ssid @ '' '' @ arrow @ '' '' @ to_ssid),
          Delete ''wireless'' from_sta None] @
         build_sta_uci_ops to_sta to_radio to_ssid to_password to_encryption)"

definition cleanup_prefix :: string where
  "cleanup_prefix =
     ''for s in $(uci show wireless | grep -B1 '' @ [dquote] @ ''ssid='' @ [quote_char]"

definition cleanup_suffix :: string where
  "cleanup_suffix =
     [quote_char, dquote] @
     '' | grep wifi-iface | cut -d. -f2 | cut -d= -f1); do uci delete wireless.$s 2>/dev/null || true; done''"

definition cleanup_command :: "string \<Rightarrow> string" where
  "cleanup_command essid =
     (let escaped_ssid = replace_char quote_char [quote_char, backslash, quote_char, quote_char] essid
      in cleanup_prefix @ escaped_ssid @ cleanup_suffix)"

definition cleanup_stale_stas_for_ssid :: "'w router \<Rightarrow> string \<Rightarrow> 'w \<Rightarrow> 'w" where
  "cleanup_stale_stas_for_ssid r essid w =
     snd (execute_shell (shell r) [Shell (cleanup_command essid), Commit ''wireless''] w)"

definition cleanup_script :: string where
  "cleanup_script =
     ''for ssid in $(uci show wireless | grep '' @ [dquote] @ ''mode='' @ [quote_char] @ ''sta'' @ [quote_char, dquote] @
     '' -A5 | grep '' @ [dquote] @ ''ssid='' @ [dquote] @ '' | sed '' @ [dquote] @ ''s/.*ssid='' @ [quote_char, backslash] @
     ''([^'' @ [quote_char] @ '']*'' @ [backslash] @ '')'' @ [quote_char] @ ''.*/'' @ [backslash] @ ''1/'' @ [dquote] @
     '' | sort | uniq -d); do sections=$(uci show wireless | grep '' @ [dquote] @ ''ssid='' @ [quote_char] @ ''$ssid'' @
     [quote_char, dquote] @ '' -B5 | grep wifi-iface | cut -d. -f2 | cut -d= -f1); count=0; for s in $sections; do '' @
     ''count=$((count + 1)); if [ $count -gt 1 ]; then uci delete wireless.$s 2>/dev/null || true; fi; done; done''"

definition build_cleanup_ops :: "UciOp list" where
  "build_cleanup_ops =
     build (builder_commit ''wireless'' (builder_shell cleanup_script
       (builder_comment ''Cleanup stale STA sections'' UciOpBuilder_new)))"

definition reload_ops :: "UciOp list" where
  "reload_ops = build (builder_shell ''wifi reload'' (builder_commit ''wireless'' UciOpBuilder_new))"

definition fallback_ops :: "string \<Rightarrow> string \<Rightarrow> UciOp list" where
  "fallback_ops radio essid =
     build (builder_shell ''wifi reload'' (builder_commit ''wireless''
       (builder_add ''wireless'' ''wifi-iface'' (''sta_'' @ radio)
         [(''device'', radio), (''mode'', ''sta''), (''ssid'', essid), (''network'', ''wwan'')]
         (builder_comment (''Fallback to '' @ essid) UciOpBuilder_new))))"


subsection \<open>The state of the connection\<close>

text \<open>The first interface that is listed before a line naming its type as a station.\<close>

fun sta_of_lines :: "string \<Rightarrow> string list \<Rightarrow> string option" where
  "sta_of_lines current_iface [] = None"
| "sta_of_lines current_iface (raw # lines) =
     (let line = trim raw;
          current = (case strip_prefix ''Interface '' line of Some iface \<Rightarrow> iface | None \<Rightarrow> current_iface)
      in if (contains_str ''type managed'' line \<or> contains_str ''type STA'' line) \<and> current \<noteq> []
         then Some current else sta_of_lines current lines)"

definition default_interface :: "string \<Rightarrow> string" where
  "default_interface radio =
     (case strip_prefix ''radio'' radio of Some num \<Rightarrow> ''wlan'' @ num | None \<Rightarrow> ''wlan0'')"

definition find_sta_interface :: "'w router \<Rightarrow> string \<Rightarrow> 'w \<Rightarrow> (WifiConnectError + string) \<times> 'w" where
  "find_sta_interface r radio w =
     (case execute r ''iw'' [''dev''] w of
        (Inl e, w') \<Rightarrow> (Inl (ConnectCommandFailed (''iw dev: '' @ WifiScanError_fmt e)), w')
      | (Inr output, w') \<Rightarrow>
          (Inr (case (if success output then sta_of_lines [] (rust_lines (stdout output)) else None) of
                  Some iface \<Rightarrow> iface
                | None \<Rightarrow> default_interface radio), w'))"

text \<open>
  The address on the first \<^verbatim>\<open>inet\<close> line that has one; the parser of addresses is a parameter.
\<close>

fun inet_of_lines :: "(string \<Rightarrow> 'ip option) \<Rightarrow> string list \<Rightarrow> 'ip option" where
  "inet_of_lines parse_ip [] = None"
| "inet_of_lines parse_ip (raw # lines) =
     (case strip_prefix ''inet '' (trim raw) of
        None \<Rightarrow> inet_of_lines parse_ip lines
      | Some inet_part \<Rightarrow>
          (case parse_ip (hd (split_char (CHR ''/'') inet_part)) of
             Some addr \<Rightarrow> Some addr
           | None \<Rightarrow> inet_of_lines parse_ip lines))"

definition poll_sta_ip :: "(string \<Rightarrow> 'ip option) \<Rightarrow> 'w router \<Rightarrow> string \<Rightarrow> 'w \<Rightarrow> 'ip option \<times> 'w" where
  "poll_sta_ip parse_ip r iface w =
     (case execute r ''ip'' [''addr'', ''show'', iface] w of
        (Inr output, w') \<Rightarrow>
          (if success output then inet_of_lines parse_ip (rust_lines (stdout output)) else None, w')
      | (Inl _, w') \<Rightarrow> (None, w'))"

definition request_lease :: "'w router \<Rightarrow> string \<Rightarrow> 'w \<Rightarrow> 'w" where
  "request_lease r iface w = sleep r 1000 (snd (execute r ''udhcpc'' [''-i'', iface, ''-n'', ''-q''] w))"

partial_function (option) wait_loop ::
  "(string \<Rightarrow> 'ip option) \<Rightarrow> 'w router \<Rightarrow> string \<Rightarrow> nat \<Rightarrow> nat \<Rightarrow> 'w \<Rightarrow> ((WifiConnectError + 'ip) \<times> 'w) option" where
  "wait_loop parse_ip r iface timeout start w =
     (if clock r w - start < timeout
      then case poll_sta_ip parse_ip r iface w of
             (Some addr, w') \<Rightarrow> Some (Inr addr, w')
           | (None, w') \<Rightarrow> wait_loop parse_ip r iface timeout start (request_lease r iface w')
      else Some (Inl (DhcpTimeout iface timeout), w))"

definition wait_for_sta_ip ::
  "(string \<Rightarrow> 'ip option) \<Rightarrow> 'w router \<Rightarrow> string \<Rightarrow> nat \<Rightarrow> 'w \<Rightarrow> ((WifiConnectError + 'ip) \<times> 'w) option" where
  "wait_for_sta_ip parse_ip r iface timeout w = wait_loop parse_ip r iface timeout (clock r w) w"

definition verify_connection :: "'w router \<Rightarrow> string \<Rightarrow> string \<Rightarrow> 'w \<Rightarrow> (WifiConnectError + unit) \<times> 'w" where
  "verify_connection r iface expected_ssid w =
     (case execute r ''iwgetid'' [''-r'', iface] w of
        (Inl e, w') \<Rightarrow> (Inl (ConnectCommandFailed (''iwgetid: '' @ WifiScanError_fmt e)), w')
      | (Inr output, w') \<Rightarrow>
          if \<not> success output \<and> trim (stdout output) \<noteq> [] then (Inl (VerificationFailed ''iwgetid failed''), w')
          else let connected_ssid = trim (stdout output)
               in if connected_ssid \<noteq> expected_ssid
                  then (Inl (VerificationFailed (''connected to '' @ [quote_char] @ connected_ssid @ [quote_char] @
                          '' but expected '' @ [quote_char] @ expected_ssid @ [quote_char])), w')
                  else (Inr (), w'))"


subsection \<open>Connecting, switching, disconnecting\<close>

definition connect ::
  "(string \<Rightarrow> 'ip option) \<Rightarrow> 'w router \<Rightarrow> nat \<Rightarrow> string \<Rightarrow> string \<Rightarrow> string \<Rightarrow> EncryptionType \<Rightarrow> 'w \<Rightarrow>
   ((WifiConnectError + string) \<times> 'w) option" where
  "connect parse_ip r timeout radio essid password enc w =
     (let w1 = cleanup_stale_stas_for_ssid r essid w;
          w2 = snd (execute_shell (shell r) (build_sta_uci_ops (''sta_'' @ radio) radio essid password enc) w1);
          w3 = snd (execute_shell (shell r) reload_ops w2);
          w4 = snd (execute_shell (shell r) (build (builder_shell ''ifup wwan'' UciOpBuilder_new)) w3)
      in case find_sta_interface r radio w4 of
           (Inl e, w5) \<Rightarrow> Some (Inl e, w5)
         | (Inr iface, w5) \<Rightarrow>
             (case wait_for_sta_ip parse_ip r iface timeout w5 of
                None \<Rightarrow> None
              | Some (Inl e, w6) \<Rightarrow> Some (Inl e, w6)
              | Some (Inr _, w6) \<Rightarrow>
                  (case verify_connection r iface essid w6 of
                     (Inl e, w7) \<Rightarrow> Some (Inl e, w7)
                   | (Inr _, w7) \<Rightarrow> Some (Inr iface, w7))))"

definition wifi_disconnect :: "'w router \<Rightarrow> 'w \<Rightarrow> 'w" where
  "wifi_disconnect r w =
     snd (execute_shell (shell r) reload_ops (snd (execute_shell (shell r) build_disconnect_ops w)))"

definition ensure_wwan_setup :: "'w router \<Rightarrow> 'w \<Rightarrow> 'w" where
  "ensure_wwan_setup r w = snd (execute_shell (shell r) build_wwan_ops w)"

definition cleanup_stale_stas :: "'w router \<Rightarrow> 'w \<Rightarrow> 'w" where
  "cleanup_stale_stas r w =
     (if build_cleanup_ops = [] then w else snd (execute_shell (shell r) build_cleanup_ops w))"

definition fallback_to :: "'w router \<Rightarrow> string \<Rightarrow> string \<Rightarrow> 'w \<Rightarrow> 'w" where
  "fallback_to r radio essid w = snd (execute_shell (shell r) (fallback_ops radio essid) w)"

definition switch_upstream ::
  "(string \<Rightarrow> 'ip option) \<Rightarrow> 'w router \<Rightarrow> nat \<Rightarrow> string \<Rightarrow> string \<Rightarrow> string \<Rightarrow> string \<Rightarrow> string \<Rightarrow> EncryptionType \<Rightarrow> 'w \<Rightarrow>
   ((WifiConnectError + unit) \<times> 'w) option" where
  "switch_upstream parse_ip r timeout from_radio from_ssid to_radio to_ssid to_password to_encryption w =
     (let w1 = snd (execute_shell (shell r)
                 (build_switch_ops from_radio from_ssid to_radio to_ssid to_password to_encryption) w);
          w2 = snd (execute_shell (shell r) reload_ops w1)
      in case find_sta_interface r to_radio w2 of
           (Inl e, w3) \<Rightarrow> Some (Inl e, w3)
         | (Inr iface, w3) \<Rightarrow>
             (case wait_for_sta_ip parse_ip r iface timeout w3 of
                None \<Rightarrow> None
              | Some (Inr _, w4) \<Rightarrow>
                  (case verify_connection r iface to_ssid w4 of
                     (Inl e, w5) \<Rightarrow> Some (Inl e, fallback_to r from_radio from_ssid w5)
                   | (Inr _, w5) \<Rightarrow> Some (Inr (), w5))
              | Some (Inl e, w4) \<Rightarrow> Some (Inl e, fallback_to r from_radio from_ssid w4)))"


subsection \<open>The wait ends\<close>

text \<open>
  A router whose clock never goes back while a command runs and advances by at least the pause
  during a pause.
\<close>

definition clock_runs :: "'w router \<Rightarrow> bool" where
  "clock_runs r \<longleftrightarrow>
     (\<forall>p args w. clock r w \<le> clock r (snd (execute r p args w))) \<and> (\<forall>d w. clock r w + d \<le> clock r (sleep r d w))"

lemma request_lease_clock: "clock_runs r \<Longrightarrow> clock r w + 1000 \<le> clock r (request_lease r iface w)"
  unfolding clock_runs_def request_lease_def by (meson add_le_mono1 order.trans)

lemma poll_clock: "clock_runs r \<Longrightarrow> clock r w \<le> clock r (snd (poll_sta_ip parse_ip r iface w))"
proof -
  assume "clock_runs r"
  then have "clock r w \<le> clock r (snd (execute r ''ip'' [''addr'', ''show'', iface] w))" by (simp add: clock_runs_def)
  then show ?thesis by (auto simp: poll_sta_ip_def split: prod.split sum.split)
qed

lemma wait_loop_returns:
  assumes "clock_runs r" "start \<le> clock r w"
  shows "\<exists>res w'. wait_loop parse_ip r iface timeout start w = Some (res, w')"
  using assms(2)
proof (induction "start + timeout - clock r w" arbitrary: w rule: less_induct)
  case less
  obtain a w' where p: "poll_sta_ip parse_ip r iface w = (a, w')" by force
  have "clock r w + 1000 \<le> clock r (request_lease r iface w')"
    using poll_clock [OF assms(1), of w parse_ip iface] request_lease_clock [OF assms(1), of w' iface] p by simp
  then show ?case
    using less(1) [of "request_lease r iface w'"] less(2)
    by (subst wait_loop.simps) (auto simp: p split: option.split)
qed

text \<open>
  C34. The wait for an address ends: whenever the clock of the router runs, it returns, with an
  address or with the timeout.
\<close>

theorem wait_for_sta_ip_returns:
  assumes "clock_runs r"
  shows "\<exists>res w'. wait_for_sta_ip parse_ip r iface timeout w = Some (res, w')"
  unfolding wait_for_sta_ip_def by (rule wait_loop_returns [OF assms]) simp

text \<open>A router without an address on any interface, whose clock is its state.\<close>

definition sample_router :: "nat router" where
  "sample_router =
     \<lparr> shell = (\<lambda>_ w. (w, Exited True [])), execute = (\<lambda>_ _ w. (Inr \<lparr> exit_code = 1, stdout = [], stderr = [] \<rparr>, w)),
       clock = (\<lambda>w. w), sleep = (\<lambda>d w. w + d) \<rparr>"

theorem wait_for_sta_ip_returns_witness:
  "\<exists>res w'. wait_for_sta_ip (\<lambda>_. None :: unit option) sample_router ''wlan0'' 30000 5 = Some (res, w')"
  by (rule wait_for_sta_ip_returns) (simp add: clock_runs_def sample_router_def)


subsection \<open>What a connection promises\<close>

lemma verify_ok:
  "verify_connection r iface name w = (Inr u, w') \<Longrightarrow>
   \<exists>out. execute r ''iwgetid'' [''-r'', iface] w = (Inr out, w') \<and> trim (stdout out) = name"
  by (auto simp: verify_connection_def Let_def split: prod.splits sum.splits if_splits)

text \<open>A router whose interface has an address and is connected to a network named \<open>n\<close>.\<close>

definition answering_router :: "nat router" where
  "answering_router =
     sample_router\<lparr> execute := (\<lambda>program _ w.
       (Inr \<lparr> exit_code = 0,
          stdout = (if program = ''ip'' then ''inet 10.0.0.2/24'' else if program = ''iwgetid'' then ''n'' else []),
          stderr = [] \<rparr>, w)) \<rparr>"

lemma quiet_shell:
  assumes "\<And>c v. fst (sh c v) = v"
  shows "snd (execute_shell sh ops w) = w"
proof -
  have "snd (fold (run_command sh) cs rw) = snd rw" for cs rw
    using assms by (induction cs arbitrary: rw) (simp_all add: run_command_def case_prod_beta Let_def)
  then have "snd (run_ops sh ops w) = w" by (induction ops arbitrary: w) (simp_all add: case_prod_beta Let_def)
  then show ?thesis by (simp add: execute_shell_run)
qed

lemma sample_connect:
  "connect (\<lambda>_. Some ()) answering_router 30000 ''radio0'' ''n'' ''p'' Psk2 0 = Some (Inr ''wlan0'', 0)"
proof -
  have "rust_lines ''inet 10.0.0.2/24'' = [''inet 10.0.0.2/24'']" "rust_lines [] = []"
    by (subst rust_lines.simps, simp add: newline_def)+
  then have "find_sta_interface answering_router ''radio0'' w = (Inr ''wlan0'', w)"
    "poll_sta_ip (\<lambda>_. Some ()) answering_router ''wlan0'' w = (Some (), w)"
    "verify_connection answering_router ''wlan0'' ''n'' w = (Inr (), w)" for w
    by (simp_all add: find_sta_interface_def poll_sta_ip_def verify_connection_def answering_router_def success_def
      default_interface_def literal_text)
  moreover from this have "wait_for_sta_ip (\<lambda>_. Some ()) answering_router ''wlan0'' 30000 w = Some (Inr (), w)" for w
    unfolding wait_for_sta_ip_def by (subst wait_loop.simps) simp
  moreover have "snd (execute_shell (shell answering_router) ops w) = w" for ops w
    by (rule quiet_shell) (simp add: answering_router_def sample_router_def)
  ultimately show ?thesis by (simp add: connect_def Let_def cleanup_stale_stas_for_ssid_def)
qed

text \<open>
  A connection that is reported is the one that was asked for: the last command run asked the
  returned interface for its network, and the answer was the requested name.
\<close>

theorem connect_verified:
  assumes "connect parse_ip r timeout radio name password enc w = Some (Inr iface, w')"
  shows "\<exists>before out. execute r ''iwgetid'' [''-r'', iface] before = (Inr out, w') \<and> trim (stdout out) = name"
proof -
  obtain before where "verify_connection r iface name before = (Inr (), w')"
    using assms by (auto simp: connect_def Let_def split: prod.splits sum.splits option.splits)
  from verify_ok [OF this] show ?thesis by blast
qed

theorem connect_verified_witness:
  "\<exists>before out. execute answering_router ''iwgetid'' [''-r'', ''wlan0''] before = (Inr out, 0) \<and> trim (stdout out) = ''n''"
  by (rule connect_verified [OF sample_connect])

text \<open>
  A switch of upstreams either verified the new network, or put the old one back before it
  reported the error, or could not list the interfaces, and then returned at once.
\<close>

theorem switch_outcomes:
  assumes "switch_upstream parse_ip r timeout from_radio from_name to_radio to_name password enc w = Some (res, w')"
  shows "case res of
      Inr _ \<Rightarrow> \<exists>iface before out. execute r ''iwgetid'' [''-r'', iface] before = (Inr out, w') \<and> trim (stdout out) = to_name
    | Inl e \<Rightarrow> (\<exists>before. w' = fallback_to r from_radio from_name before) \<or>
        (\<exists>before e'. execute r ''iw'' [''dev''] before = (Inl e', w') \<and>
           e = ConnectCommandFailed (''iw dev: '' @ WifiScanError_fmt e'))"
proof -
  have find: "find_sta_interface r radio v = (Inl e, v') \<Longrightarrow>
      \<exists>e'. execute r ''iw'' [''dev''] v = (Inl e', v') \<and> e = ConnectCommandFailed (''iw dev: '' @ WifiScanError_fmt e')"
    for radio v v' e by (auto simp: find_sta_interface_def split: prod.splits sum.splits)
  let ?w = "snd (execute_shell (shell r) reload_ops (snd (execute_shell (shell r)
    (build_switch_ops from_radio from_name to_radio to_name password enc) w)))"
  obtain q v where q: "find_sta_interface r to_radio ?w = (q, v)" by force
  show ?thesis
  proof (cases q)
    case (Inl e)
    have "res = Inl e" "w' = v" using assms q Inl by (simp_all add: switch_upstream_def Let_def)
    then show ?thesis unfolding sum.case \<open>res = Inl e\<close> using find [of to_radio ?w e v] q Inl by blast
  next
    case (Inr iface)
    have "(\<exists>before. res = Inr () \<and> verify_connection r iface to_name before = (Inr (), w')) \<or>
        (\<exists>e before. res = Inl e \<and> w' = fallback_to r from_radio from_name before)"
      using assms q Inr by (auto simp: switch_upstream_def Let_def split: prod.splits sum.splits option.splits)
    then show ?thesis using verify_ok [of r iface to_name _ "()" w'] by fastforce
  qed
qed

text \<open>The old network is put back on a router that never gets an address.\<close>

theorem switch_outcomes_witness:
  "\<exists>e w'. switch_upstream (\<lambda>_. None :: unit option) sample_router 0 ''radio0'' ''old'' ''radio1'' ''new'' ''p'' Psk2 0 =
     Some (Inl e, w') \<and> (\<exists>before. w' = fallback_to sample_router ''radio0'' ''old'' before)"
proof -
  have "find_sta_interface sample_router ''radio1'' w = (Inr ''wlan1'', w)" for w
    by (simp add: find_sta_interface_def sample_router_def success_def default_interface_def literal_text)
  moreover have "wait_for_sta_ip (\<lambda>_. None :: unit option) sample_router ''wlan1'' 0 w = Some (Inl (DhcpTimeout ''wlan1'' 0), w)" for w
    unfolding wait_for_sta_ip_def by (subst wait_loop.simps) simp
  ultimately obtain w' where r:
    "switch_upstream (\<lambda>_. None :: unit option) sample_router 0 ''radio0'' ''old'' ''radio1'' ''new'' ''p'' Psk2 0 =
     Some (Inl (DhcpTimeout ''wlan1'' 0), w')"
    by (simp add: switch_upstream_def Let_def)
  from r switch_outcomes [OF r] show ?thesis by auto
qed

text \<open>
  When the list of interfaces cannot be read, a switch ends with the old station section deleted and
  without a fallback, although the documentation promises one for every failed connection.
\<close>

theorem switch_without_fallback:
  assumes "\<And>w. execute r ''iw'' [''dev''] w = (Inl e, w)"
  shows "switch_upstream parse_ip r timeout from_radio from_name to_radio to_name password enc w =
    Some (Inl (ConnectCommandFailed (''iw dev: '' @ WifiScanError_fmt e)),
      snd (execute_shell (shell r) reload_ops
        (snd (execute_shell (shell r) (build_switch_ops from_radio from_name to_radio to_name password enc) w))))"
  using assms by (simp add: switch_upstream_def find_sta_interface_def Let_def)


subsection \<open>Quoting of network names\<close>

definition sta_settings :: "string \<Rightarrow> string \<Rightarrow> string \<Rightarrow> EncryptionType \<Rightarrow> (string \<times> string) list" where
  "sta_settings radio name password enc =
     [([], ''wifi-iface''), (''.device'', radio), (''.mode'', ''sta''), (''.ssid'', name), (''.network'', ''wwan'')] @
     (if enc = Open then [(''.encryption'', ''none'')]
      else [(''.encryption'', to_uci_value enc), (''.key'', password)])"

lemma ident_letters:
  "identifier_char (Char a b c d e f g h) = (let n = char_nat (Char a b c d e f g h)
      in (97 \<le> n \<and> n \<le> 122) \<or> (65 \<le> n \<and> n \<le> 90) \<or> (48 \<le> n \<and> n \<le> 57) \<or>
         Char a b c d e f g h \<in> {CHR ''_'', CHR ''-'', CHR ''.'', CHR ''@'', CHR ''['', CHR '']''})"
  by (simp add: identifier_char_def Let_def)

lemma sta_identifiers:
  "is_identifier ''wireless''" "is_identifier ''wifi-iface''" "is_identifier ''device''" "is_identifier ''mode''"
  "is_identifier ''ssid''" "is_identifier ''network''" "is_identifier ''encryption''" "is_identifier ''key''"
  "is_identifier radio \<Longrightarrow> is_identifier (''sta_'' @ radio)"
  by (simp_all add: is_identifier_iff ident_letters char_nat_def Let_def)

text \<open>
  The commands that configure a station set exactly its radio, mode, name, network,
  encryption and, unless the network is open, its key; no name or password changes what the shell
  reads.
\<close>

theorem sta_commands_exact:
  assumes "validate_identifier radio = Inr ()"
  shows "map read_command (filter (\<lambda>c. \<not> starts_with ''# '' c)
      (render_shell (build_sta_uci_ops (''sta_'' @ radio) radio name password enc))) =
    map (\<lambda>(k, v). (False, Some [''uci'', ''set'', ''wireless.sta_'' @ radio @ k @ ''='' @ v]))
      (sta_settings radio name password enc)"
proof -
  let ?kvs = "[(''device'', radio), (''mode'', ''sta''), (''ssid'', name), (''network'', ''wwan'')] @
    (if enc = Open then [(''encryption'', ''none'')] else [(''encryption'', to_uci_value enc), (''key'', password)])"
  let ?add = "Add ''wireless'' ''wifi-iface'' (''sta_'' @ radio) (map (\<lambda>(k, v). (k, Single v)) ?kvs)"
  have "structured ?add"
    using sta_identifiers assms by (simp add: is_identifier_def)
  then have "map read_command (render_op ?add) = map (\<lambda>(tol, ws). (tol, Some ws)) (op_argv ?add)"
    by (rule render_op_read)
  moreover have "filter (\<lambda>c. \<not> starts_with ''# '' c) (render_op ?add) = render_op ?add"
    by (simp add: set_cmd_def starts_with_def)
  moreover have "render_shell (build_sta_uci_ops (''sta_'' @ radio) radio name password enc) =
      (''# STA for '' @ name @ '' on '' @ radio) # render_op ?add"
    by (simp add: build_sta_uci_ops_def render_shell_def build_def builder_add_def builder_comment_def
      UciOpBuilder_new_def Let_def)
  ultimately show ?thesis by (simp add: sta_settings_def target_def starts_with_def del: render_op.simps)
qed

theorem sta_commands_exact_witness:
  "map read_command (filter (\<lambda>c. \<not> starts_with ''# '' c)
     (render_shell (build_sta_uci_ops (''sta_'' @ ''radio0'') ''radio0'' ''$(reboot)'' [] Open))) =
   map (\<lambda>(k, v). (False, Some [''uci'', ''set'', ''wireless.sta_'' @ ''radio0'' @ k @ ''='' @ v]))
     (sta_settings ''radio0'' ''$(reboot)'' [] Open)"
  by (rule sta_commands_exact) (simp add: validate_identifier_def identifier_char_def char_nat_def Let_def)

text \<open>
  How the shell reads a text up to some point: bare, in single quotes, in double quotes, or after a
  backslash. In double quotes a dollar sign still starts an expansion.
\<close>

datatype quoting = Bare | BareEscape | InSingle | InDouble | DoubleEscape

fun quoting_after :: "quoting \<Rightarrow> string \<Rightarrow> quoting" where
  "quoting_after q [] = q"
| "quoting_after Bare (c # s) =
     quoting_after (if c = quote_char then InSingle else if c = dquote then InDouble
       else if c = backslash then BareEscape else Bare) s"
| "quoting_after BareEscape (c # s) = quoting_after Bare s"
| "quoting_after InSingle (c # s) = quoting_after (if c = quote_char then Bare else InSingle) s"
| "quoting_after InDouble (c # s) =
     quoting_after (if c = dquote then Bare else if c = backslash then DoubleEscape else InDouble) s"
| "quoting_after DoubleEscape (c # s) = quoting_after InDouble s"

text \<open>
  The cleanup before a connection writes the network name into a double-quoted part of its
  command: a name without single quotes stands there unchanged, so a dollar sign in the name of a
  scanned network starts an expansion by the shell.
\<close>

theorem cleanup_expands_ssid:
  assumes "quote_char \<notin> set name"
  shows "cleanup_command name = cleanup_prefix @ name @ cleanup_suffix \<and> quoting_after Bare cleanup_prefix = InDouble"
proof -
  have "replace_char quote_char q name = name" for q
    using assms by (induction name) (auto simp: replace_char_def)
  moreover have "quoting_after Bare cleanup_prefix = InDouble"
    by (simp add: cleanup_prefix_def quote_char_def dquote_def backslash_def)
  ultimately show ?thesis by (simp add: cleanup_command_def Let_def)
qed

theorem cleanup_expands_ssid_witness:
  "cleanup_command ''$(reboot)'' = cleanup_prefix @ ''$(reboot)'' @ cleanup_suffix \<and>
   quoting_after Bare cleanup_prefix = InDouble"
  by (rule cleanup_expands_ssid) (simp add: quote_char_def)

end
