(* ===== verification/Throttle.thy ===== *)
theory Throttle
  imports Prelude
begin

section \<open>Throttling\<close>

text \<open>
  Several parts of the program limit how often they act by remembering when they last did: the network
  monitor its events, the usage tracker its renewal requests, the v1 client its payments. What they share
  is stated once: the times of what a throttled machine emits are at least its gap apart.
\<close>

definition spaced :: "nat \<Rightarrow> nat list \<Rightarrow> bool" where
  "spaced d ts \<longleftrightarrow> sorted_wrt (\<lambda>a b. d \<le> b - a) ts"

lemma spaced_Nil [simp]: "spaced d []"
  by (simp add: spaced_def)

lemma spaced_snoc: "spaced d (ts @ [t]) \<longleftrightarrow> spaced d ts \<and> (\<forall>x \<in> set ts. d \<le> t - x)"
  by (auto simp: spaced_def sorted_wrt_append)

lemma spaced_last:
  assumes "spaced d ts" "ts \<noteq> []" "d \<le> t - last ts"
  shows "\<forall>x \<in> set ts. d \<le> t - x"
proof
  fix x assume "x \<in> set ts"
  then obtain ys where ys: "ts = ys @ [last ts]" using assms(2) by (metis append_butlast_last_id)
  show "d \<le> t - x"
  proof (cases "x = last ts")
    case False
    with \<open>x \<in> set ts\<close> ys have "x \<in> set ys" by (metis Un_iff empty_iff empty_set list.set(2) insertE set_append)
    then have "d \<le> last ts - x" using assms(1) spaced_snoc [of d ys "last ts"] ys by metis
    then show ?thesis using assms(3) by linarith
  qed (use assms(3) in simp)
qed

lemma spaced_step:
  assumes "spaced d ts" and "ts \<noteq> [] \<Longrightarrow> d \<le> t - last ts"
  shows "spaced d (ts @ [t])"
proof (cases "ts = []")
  case False
  from spaced_last [OF assms(1) this assms(2) [OF this]] assms(1) show ?thesis by (simp only: spaced_snoc)
qed (simp add: spaced_def)

definition stamped :: "('s \<Rightarrow> nat option) \<Rightarrow> ('o \<Rightarrow> nat) \<Rightarrow> nat \<Rightarrow> 's \<Rightarrow> 'o list \<Rightarrow> bool" where
  "stamped stamp at gap s out \<longleftrightarrow>
     spaced gap (map at out) \<and> (out \<noteq> [] \<longrightarrow> stamp s = Some (at (last out)))"

text \<open>
  The interface: a step either emits nothing and keeps the stamp, or emits one output at a time that is
  at least the gap after the stamp, which becomes that time.
\<close>

locale throttled_machine =
  fixes step :: "('s, 'e, 'o) machine"
    and stamp :: "'s \<Rightarrow> nat option"
    and at :: "'o \<Rightarrow> nat"
    and gap :: nat
  assumes throttled_step:
    "snd (step s e) = [] \<and> stamp (fst (step s e)) = stamp s \<or>
     (\<exists>x. snd (step s e) = [x] \<and> stamp (fst (step s e)) = Some (at x) \<and> (\<forall>t. stamp s = Some t \<longrightarrow> gap \<le> at x - t))"
begin

lemma stamped_step:
  assumes "stamped stamp at gap s out"
  shows "stamped stamp at gap (fst (step s e)) (out @ snd (step s e))"
  using throttled_step [of s e]
proof (elim disjE exE conjE)
  fix x assume x: "snd (step s e) = [x]" "stamp (fst (step s e)) = Some (at x)" "\<forall>t. stamp s = Some t \<longrightarrow> gap \<le> at x - t"
  have "spaced gap (map at out @ [at x])"
    using assms x(3) by (intro spaced_step) (auto simp: stamped_def last_map)
  then show ?thesis using x by (simp add: stamped_def)
qed (use assms in \<open>auto simp: stamped_def\<close>)

end

sublocale throttled_machine \<subseteq> traced_machine step "stamped stamp at gap"
  by unfold_locales (rule stamped_step)

context throttled_machine
begin

lemma outputs_spaced: "spaced gap (map at (outputs step s es))"
  using tinv_run [of s "[]" es] by (simp add: stamped_def)

end

end
