(* ===== verification/Network_Monitor.thy ===== *)
theory Network_Monitor
  imports Rust_Text Throttle
begin

section \<open>The network monitor\<close>

text \<open>
  \<^verbatim>\<open>crates/tollgate-net/src/openwrt/network_monitor.rs\<close>: kernel messages about links and addresses become
  network events, filtered by interface and throttled by kind. What the kernel answers to a dump of links,
  addresses or routes is an argument, a list whose failed items are \<open>None\<close>; the arithmetic of
  network prefixes is that of the \<^verbatim>\<open>ipnetwork\<close> crate, a parameter.
\<close>

unbundle bit_operations_syntax

record InterfaceInfo =
  info_name :: string
  mac_address :: "string option"
  ip_addresses :: "IpAddr list"
  is_up :: bool
  is_loopback :: bool

datatype NetworkEvent =
    InterfaceUp string "IpAddr option" InterfaceInfo
  | InterfaceDown string
  | AddressAdded string IpAddr "IpAddr option"
  | AddressDeleted string IpAddr

record NetworkMonitorConfig =
  ignore_interfaces :: "string list"
  only_interfaces :: "string list"
  throttle_duration :: nat

definition NetworkMonitorConfig_default :: NetworkMonitorConfig where
  "NetworkMonitorConfig_default = \<lparr> ignore_interfaces = [''lo''], only_interfaces = [], throttle_duration = 2000 \<rparr>"

datatype NetworkMonitorError = ConnectionFailed string | QueryFailed string | Stopped

datatype EventType = UpEvent | DownEvent | AddedEvent | DeletedEvent

type_synonym ThrottleKey = "string \<times> EventType"
type_synonym throttle = "ThrottleKey \<Rightarrow> nat option"


subsection \<open>Kernel messages\<close>

datatype LinkAttribute = IfName string | LinkAddress bytes | OtherLink

record LinkMessage =
  link_index :: u32
  flag_up :: bool
  flag_running :: bool
  flag_loopback :: bool
  link_attributes :: "LinkAttribute list"

datatype AddressAttribute = Address IpAddr | OtherAddress

record AddressMessage =
  addr_index :: u32
  prefix_len :: u8
  addr_attributes :: "AddressAttribute list"

datatype AddressFamily = Inet | Inet6 | OtherFamily

datatype RouteAddress = RouteInet u32 | RouteInet6 "128 word" | RouteOther

datatype RouteAttribute = Oif u32 | Gateway RouteAddress | OtherRoute

record RouteMessage =
  address_family :: AddressFamily
  destination_prefix_length :: u8
  route_attributes :: "RouteAttribute list"

record kernel =
  links :: "LinkMessage option list"
  addresses :: "u32 \<Rightarrow> AddressMessage option list"
  routes :: "RouteMessage option list"

definition link_name :: "LinkMessage \<Rightarrow> string option" where
  "link_name msg = find_map (\<lambda>a. case a of IfName name \<Rightarrow> Some name | _ \<Rightarrow> None) (link_attributes msg)"

definition link_is_up :: "LinkMessage \<Rightarrow> bool" where
  "link_is_up msg \<longleftrightarrow> flag_up msg \<and> flag_running msg"

definition link_is_loopback :: "LinkMessage \<Rightarrow> bool" where
  "link_is_loopback msg = flag_loopback msg"

definition link_mac_address :: "LinkMessage \<Rightarrow> string option" where
  "link_mac_address msg =
     find_map (\<lambda>a. case a of
       LinkAddress bs \<Rightarrow>
         if length bs = 6
         then Some (hex_byte (bs ! 0) @ concat (map (\<lambda>b. '':'' @ hex_byte b) (tl bs)))
         else None
     | _ \<Rightarrow> None) (link_attributes msg)"

definition address_msg_to_ip :: "AddressMessage \<Rightarrow> IpAddr option" where
  "address_msg_to_ip msg = find_map (\<lambda>a. case a of Address ip \<Rightarrow> Some ip | _ \<Rightarrow> None) (addr_attributes msg)"

fun resolve_link_name :: "LinkMessage option list \<Rightarrow> u32 \<Rightarrow> string option" where
  "resolve_link_name [] idx = None"
| "resolve_link_name (item # rest) idx =
     (case item of
        Some link \<Rightarrow> if link_index link = idx then link_name link else resolve_link_name rest idx
      | None \<Rightarrow> resolve_link_name rest idx)"

fun find_link_index :: "LinkMessage option list \<Rightarrow> string \<Rightarrow> u32 option" where
  "find_link_index [] iface = None"
| "find_link_index (item # rest) iface =
     (case item of
        Some link \<Rightarrow> if link_name link = Some iface then Some (link_index link) else find_link_index rest iface
      | None \<Rightarrow> find_link_index rest iface)"

definition route_oif :: "RouteMessage \<Rightarrow> u32 option" where
  "route_oif route = find_map (\<lambda>a. case a of Oif idx \<Rightarrow> Some idx | _ \<Rightarrow> None) (route_attributes route)"

definition is_default_route :: "RouteMessage \<Rightarrow> bool" where
  "is_default_route route \<longleftrightarrow>
     (address_family route = Inet \<or> address_family route = Inet6) \<and> destination_prefix_length route = 0"

fun gateway_of_attributes :: "RouteAttribute list \<Rightarrow> IpAddr option" where
  "gateway_of_attributes [] = None"
| "gateway_of_attributes (Gateway gw # rest) =
     (case gw of RouteInet v4 \<Rightarrow> Some (V4 v4) | RouteInet6 v6 \<Rightarrow> Some (V6 v6) | RouteOther \<Rightarrow> None)"
| "gateway_of_attributes (_ # rest) = gateway_of_attributes rest"

definition extract_gateway_from_route :: "RouteMessage \<Rightarrow> IpAddr option" where
  "extract_gateway_from_route route = gateway_of_attributes (route_attributes route)"

definition parse_address_message :: "kernel \<Rightarrow> AddressMessage \<Rightarrow> (string \<times> IpAddr) option" where
  "parse_address_message k msg =
     (case address_msg_to_ip msg of
        None \<Rightarrow> None
      | Some addr \<Rightarrow>
          (case resolve_link_name (links k) (addr_index msg) of
             None \<Rightarrow> None
           | Some name \<Rightarrow> Some (name, addr)))"

definition query_interface_addresses :: "kernel \<Rightarrow> u32 \<Rightarrow> IpAddr list" where
  "query_interface_addresses k idx =
     List.map_filter (\<lambda>item. case item of Some msg \<Rightarrow> address_msg_to_ip msg | None \<Rightarrow> None) (addresses k idx)"


subsection \<open>The gateway of an interface\<close>

fun find_default_route_gateway :: "RouteMessage option list \<Rightarrow> u32 option \<Rightarrow> IpAddr option" where
  "find_default_route_gateway [] idx = None"
| "find_default_route_gateway (item # rest) idx =
     (case item of
        None \<Rightarrow> find_default_route_gateway rest idx
      | Some route \<Rightarrow>
          if \<not> is_default_route route then find_default_route_gateway rest idx
          else if (case idx of Some i \<Rightarrow> route_oif route \<noteq> Some i | None \<Rightarrow> False)
          then find_default_route_gateway rest idx
          else extract_gateway_from_route route)"

fun find_global_default_gateway :: "RouteMessage option list \<Rightarrow> u32 \<Rightarrow> IpAddr option" where
  "find_global_default_gateway [] idx = None"
| "find_global_default_gateway (item # rest) idx =
     (case item of
        None \<Rightarrow> find_global_default_gateway rest idx
      | Some route \<Rightarrow>
          if \<not> is_default_route route then find_global_default_gateway rest idx
          else if route_oif route = Some idx then extract_gateway_from_route route
          else find_global_default_gateway rest idx)"

text \<open>The octets of an address and the address of four octets.\<close>

definition octet :: "nat \<Rightarrow> u32 \<Rightarrow> u8" where
  "octet i w = ucast (drop_bit (24 - 8 * i) w)"

definition from_octets :: "u8 \<Rightarrow> u8 \<Rightarrow> u8 \<Rightarrow> u8 \<Rightarrow> u32" where
  "from_octets a b c d = push_bit 24 (ucast a) OR push_bit 16 (ucast b) OR push_bit 8 (ucast c) OR ucast d"

definition heuristic_candidate :: "u32 \<Rightarrow> u32" where
  "heuristic_candidate network =
     from_octets (octet 0 network) (octet 1 network) (octet 2 network) (saturating_add (octet 3 network) 1)"

type_synonym ipnetwork = "u32 \<Rightarrow> u8 \<Rightarrow> u32 option"

fun ip_heuristic_gateway :: "ipnetwork \<Rightarrow> AddressMessage option list \<Rightarrow> IpAddr option" where
  "ip_heuristic_gateway net [] = None"
| "ip_heuristic_gateway net (item # rest) =
     (case item of
        None \<Rightarrow> ip_heuristic_gateway net rest
      | Some msg \<Rightarrow>
          (case address_msg_to_ip msg of
             None \<Rightarrow> None
           | Some (V4 v4) \<Rightarrow>
               (case net v4 (prefix_len msg) of
                  None \<Rightarrow> None
                | Some network \<Rightarrow> Some (V4 (heuristic_candidate network)))
           | Some (V6 _) \<Rightarrow> ip_heuristic_gateway net rest))"

definition infer_gateway :: "ipnetwork \<Rightarrow> kernel \<Rightarrow> u32 \<Rightarrow> IpAddr option" where
  "infer_gateway net k idx =
     (case find_default_route_gateway (routes k) (Some idx) of
        Some gw \<Rightarrow> Some gw
      | None \<Rightarrow>
          (case find_global_default_gateway (routes k) idx of
             Some gw \<Rightarrow> Some gw
           | None \<Rightarrow> ip_heuristic_gateway net (addresses k idx)))"

definition get_gateway_for_interface :: "ipnetwork \<Rightarrow> kernel \<Rightarrow> string \<Rightarrow> IpAddr option" where
  "get_gateway_for_interface net k iface =
     (case find_link_index (links k) iface of None \<Rightarrow> None | Some idx \<Rightarrow> infer_gateway net k idx)"


subsection \<open>Filters and handlers\<close>

definition should_process_interface :: "NetworkMonitorConfig \<Rightarrow> string \<Rightarrow> bool" where
  "should_process_interface config name \<longleftrightarrow>
     (if name \<in> set (ignore_interfaces config) then False
      else if only_interfaces config \<noteq> [] \<and> name \<notin> set (only_interfaces config) then False
      else True)"

definition should_emit :: "NetworkMonitorConfig \<Rightarrow> string \<Rightarrow> EventType \<Rightarrow> nat \<Rightarrow> throttle \<Rightarrow> bool \<times> throttle" where
  "should_emit config interface event_type now t =
     (case t (interface, event_type) of
        Some earlier \<Rightarrow>
          if now - earlier < throttle_duration config then (False, t) else (True, t((interface, event_type) \<mapsto> now))
      | None \<Rightarrow> (True, t((interface, event_type) \<mapsto> now)))"

definition emit ::
  "NetworkMonitorConfig \<Rightarrow> string \<Rightarrow> EventType \<Rightarrow> nat \<Rightarrow> NetworkEvent \<Rightarrow> throttle \<Rightarrow> throttle \<times> NetworkEvent list" where
  "emit config interface event_type now event t =
     (let (send, t') = should_emit config interface event_type now t in (t', if send then [event] else []))"

definition handle_new_link ::
  "ipnetwork \<Rightarrow> NetworkMonitorConfig \<Rightarrow> kernel \<Rightarrow> nat \<Rightarrow> LinkMessage \<Rightarrow> throttle \<Rightarrow> throttle \<times> NetworkEvent list" where
  "handle_new_link net config k now msg t =
     (case link_name msg of
        None \<Rightarrow> (t, [])
      | Some name \<Rightarrow>
          if \<not> should_process_interface config name then (t, [])
          else if \<not> link_is_up msg \<or> link_is_loopback msg then (t, [])
          else let info = \<lparr> info_name = name, mac_address = link_mac_address msg,
                     ip_addresses = query_interface_addresses k (link_index msg), is_up = True, is_loopback = False \<rparr>;
                   gateway_ip = infer_gateway net k (link_index msg)
               in emit config name UpEvent now (InterfaceUp name gateway_ip info) t)"

definition handle_del_link ::
  "NetworkMonitorConfig \<Rightarrow> nat \<Rightarrow> LinkMessage \<Rightarrow> throttle \<Rightarrow> throttle \<times> NetworkEvent list" where
  "handle_del_link config now msg t =
     (case link_name msg of
        None \<Rightarrow> (t, [])
      | Some name \<Rightarrow>
          if \<not> should_process_interface config name then (t, [])
          else emit config name DownEvent now (InterfaceDown name) t)"

definition handle_new_address ::
  "ipnetwork \<Rightarrow> NetworkMonitorConfig \<Rightarrow> kernel \<Rightarrow> nat \<Rightarrow> AddressMessage \<Rightarrow> throttle \<Rightarrow> throttle \<times> NetworkEvent list" where
  "handle_new_address net config k now msg t =
     (case parse_address_message k msg of
        None \<Rightarrow> (t, [])
      | Some (iface_name, addr) \<Rightarrow>
          if \<not> should_process_interface config iface_name then (t, [])
          else let gateway_ip = infer_gateway net k (addr_index msg)
               in emit config iface_name AddedEvent now (AddressAdded iface_name addr gateway_ip) t)"

definition handle_del_address ::
  "NetworkMonitorConfig \<Rightarrow> kernel \<Rightarrow> nat \<Rightarrow> AddressMessage \<Rightarrow> throttle \<Rightarrow> throttle \<times> NetworkEvent list" where
  "handle_del_address config k now msg t =
     (case parse_address_message k msg of
        None \<Rightarrow> (t, [])
      | Some (iface_name, addr) \<Rightarrow>
          if \<not> should_process_interface config iface_name then (t, [])
          else emit config iface_name DeletedEvent now (AddressDeleted iface_name addr) t)"

datatype netlink_message =
    NewLink LinkMessage | DelLink LinkMessage | NewAddress AddressMessage | DelAddress AddressMessage | OtherMessage

fun process_netlink_message ::
  "ipnetwork \<Rightarrow> NetworkMonitorConfig \<Rightarrow> kernel \<Rightarrow> nat \<Rightarrow> netlink_message \<Rightarrow> throttle \<Rightarrow> throttle \<times> NetworkEvent list" where
  "process_netlink_message net config k now (NewLink msg) t = handle_new_link net config k now msg t"
| "process_netlink_message net config k now (DelLink msg) t = handle_del_link config now msg t"
| "process_netlink_message net config k now (NewAddress msg) t = handle_new_address net config k now msg t"
| "process_netlink_message net config k now (DelAddress msg) t = handle_del_address config k now msg t"
| "process_netlink_message net config k now OtherMessage t = (t, [])"

definition interface_info :: "NetworkMonitorConfig \<Rightarrow> kernel \<Rightarrow> LinkMessage option \<Rightarrow> InterfaceInfo option" where
  "interface_info config k item =
     (case item of
        None \<Rightarrow> None
      | Some msg \<Rightarrow>
          (case link_name msg of
             None \<Rightarrow> None
           | Some name \<Rightarrow>
               if \<not> should_process_interface config name then None
               else Some \<lparr> info_name = name, mac_address = link_mac_address msg,
                      ip_addresses = query_interface_addresses k (link_index msg),
                      is_up = link_is_up msg, is_loopback = link_is_loopback msg \<rparr>))"

definition get_current_interfaces :: "NetworkMonitorConfig \<Rightarrow> kernel \<Rightarrow> InterfaceInfo list" where
  "get_current_interfaces config k = List.map_filter (interface_info config k) (links k)"

definition emit_initial_scan :: "NetworkMonitorConfig \<Rightarrow> kernel \<Rightarrow> NetworkEvent list" where
  "emit_initial_scan config k =
     map (\<lambda>info. InterfaceUp (info_name info) None info)
       (filter (\<lambda>info. is_up info \<and> \<not> is_loopback info) (get_current_interfaces config k))"


subsection \<open>The connection\<close>

text \<open>
  What a connection yields: messages, with the kernel and the time they are processed at, a
  cancellation, or the end of the stream. A list that runs out leaves the monitor waiting.
\<close>

datatype stream_item = Cancelled | Message kernel nat netlink_message | StreamEnd

datatype run_result = Waiting | Returned "NetworkMonitorError option"

fun message_loop ::
  "ipnetwork \<Rightarrow> NetworkMonitorConfig \<Rightarrow> stream_item list \<Rightarrow> throttle \<Rightarrow> throttle \<times> NetworkEvent list \<times> run_result" where
  "message_loop net config [] t = (t, [], Waiting)"
| "message_loop net config (Cancelled # rest) t = (t, [], Returned None)"
| "message_loop net config (StreamEnd # rest) t = (t, [], Returned (Some (ConnectionFailed ''netlink stream ended'')))"
| "message_loop net config (Message k now msg # rest) t =
     (let (t', out) = process_netlink_message net config k now msg t;
          (t'', outs, r) = message_loop net config rest t'
      in (t'', out @ outs, r))"

record connection =
  connected :: "string + kernel"
  stream :: "stream_item list"

definition run_once ::
  "ipnetwork \<Rightarrow> NetworkMonitorConfig \<Rightarrow> connection \<Rightarrow> throttle \<Rightarrow> throttle \<times> NetworkEvent list \<times> run_result" where
  "run_once net config c t =
     (case connected c of
        Inl e \<Rightarrow> (t, [], Returned (Some (ConnectionFailed e)))
      | Inr k \<Rightarrow>
          let (t', outs, r) = message_loop net config (stream c) t
          in (t', emit_initial_scan config k @ outs, r))"

text \<open>
  The attempts to connect, each with whether the monitor was cancelled before it, and whether it was
  cancelled during the pause after a failed one.
\<close>

fun monitor_start ::
  "ipnetwork \<Rightarrow> NetworkMonitorConfig \<Rightarrow> (bool \<times> connection \<times> bool) list \<Rightarrow> throttle \<Rightarrow> throttle \<times> NetworkEvent list \<times> run_result" where
  "monitor_start net config [] t = (t, [], Waiting)"
| "monitor_start net config ((before, c, during) # rest) t =
     (if before then (t, [], Returned None)
      else let (t', outs, r) = run_once net config c t
           in case r of
                Waiting \<Rightarrow> (t', outs, Waiting)
              | Returned None \<Rightarrow> (t', outs, Returned None)
              | Returned (Some Stopped) \<Rightarrow> (t', outs, Returned None)
              | Returned (Some e) \<Rightarrow>
                  if during then (t', outs, Returned None)
                  else let (t'', outs', r') = monitor_start net config rest t' in (t'', outs @ outs', r'))"


subsection \<open>Throttling\<close>

text \<open>
  The monitor as a machine: an event is a message with the kernel and the time at which it is processed,
  and its outputs carry that time. \<open>emitted_at\<close> lists when a kind of event was emitted for an interface.
\<close>

fun event_key :: "NetworkEvent \<Rightarrow> ThrottleKey" where
  "event_key (InterfaceUp name _ _) = (name, UpEvent)"
| "event_key (InterfaceDown name) = (name, DownEvent)"
| "event_key (AddressAdded name _ _) = (name, AddedEvent)"
| "event_key (AddressDeleted name _) = (name, DeletedEvent)"

definition netlink_step ::
  "ipnetwork \<Rightarrow> NetworkMonitorConfig \<Rightarrow> (throttle, kernel \<times> nat \<times> netlink_message, nat \<times> NetworkEvent) machine" where
  "netlink_step net config t e =
     (case e of (k, now, msg) \<Rightarrow>
        let (t', out) = process_netlink_message net config k now msg t in (t', map (Pair now) out))"

definition emitted_at :: "ThrottleKey \<Rightarrow> (nat \<times> NetworkEvent) list \<Rightarrow> nat list" where
  "emitted_at key out = map fst (filter (\<lambda>x. event_key (snd x) = key) out)"

definition throttle_inv :: "NetworkMonitorConfig \<Rightarrow> throttle \<Rightarrow> (nat \<times> NetworkEvent) list \<Rightarrow> bool" where
  "throttle_inv config t out \<longleftrightarrow>
     (\<forall>key. spaced (throttle_duration config) (emitted_at key out) \<and>
        t key = (if emitted_at key out = [] then None else Some (last (emitted_at key out))))"

lemma emit_cases:
  "emit config name ty now ev t = (t, []) \<or>
   (emit config name ty now ev t = (t((name, ty) \<mapsto> now), [ev]) \<and>
    (case t (name, ty) of None \<Rightarrow> True | Some before \<Rightarrow> throttle_duration config \<le> now - before))"
  by (auto simp: emit_def should_emit_def split: option.split)

text \<open>Every step does nothing or emits one event, for an interface that passes the filters.\<close>

definition emit_event :: "NetworkMonitorConfig \<Rightarrow> nat \<Rightarrow> NetworkEvent \<Rightarrow> throttle \<Rightarrow> throttle \<times> NetworkEvent list" where
  "emit_event config now ev t = emit config (fst (event_key ev)) (snd (event_key ev)) now ev t"

lemma emit_event:
  "emit config name UpEvent now (InterfaceUp name g i) t = emit_event config now (InterfaceUp name g i) t"
  "emit config name DownEvent now (InterfaceDown name) t = emit_event config now (InterfaceDown name) t"
  "emit config name AddedEvent now (AddressAdded name a g) t = emit_event config now (AddressAdded name a g) t"
  "emit config name DeletedEvent now (AddressDeleted name a) t = emit_event config now (AddressDeleted name a) t"
  by (simp_all add: emit_event_def)

lemma process_emits:
  "process_netlink_message net config k now msg t = (t, []) \<or>
   (\<exists>ev. process_netlink_message net config k now msg t = emit_event config now ev t \<and>
      should_process_interface config (fst (event_key ev)))"
proof (cases msg)
  case (NewLink m)
  then show ?thesis
    by (cases "link_name m") (auto simp: handle_new_link_def Let_def emit_event intro: exI conjI [OF refl])
next
  case (DelLink m)
  then show ?thesis
    by (cases "link_name m") (auto simp: handle_del_link_def emit_event intro: exI conjI [OF refl])
next
  case (NewAddress m)
  then show ?thesis
    by (cases "parse_address_message k m") (auto simp: handle_new_address_def Let_def emit_event, metis event_key.simps(3) fst_conv)
next
  case (DelAddress m)
  then show ?thesis
    by (cases "parse_address_message k m") (auto simp: handle_del_address_def emit_event, metis event_key.simps(4) fst_conv)
qed simp

lemma process_cases:
  obtains "process_netlink_message net config k now msg t = (t, [])"
  | ev where "process_netlink_message net config k now msg t = (t(event_key ev \<mapsto> now), [ev])"
      "should_process_interface config (fst (event_key ev))"
      "case t (event_key ev) of None \<Rightarrow> True | Some before \<Rightarrow> throttle_duration config \<le> now - before"
  using process_emits [of net config k now msg t] emit_cases [of config _ _ now _ t]
  unfolding emit_event_def by (metis prod.collapse)

lemma throttle_inv_step:
  assumes "throttle_inv config t out"
  shows "throttle_inv config (fst (netlink_step net config t e)) (out @ snd (netlink_step net config t e))"
proof -
  obtain k now msg where e: "e = (k, now, msg)" by (cases e)
  show ?thesis
  proof (cases rule: process_cases [of net config k now msg t])
    case 1
    then show ?thesis using assms by (simp add: netlink_step_def e)
  next
    case (2 ev)
    let ?key = "event_key ev"
    have key: "spaced (throttle_duration config) (emitted_at ?key out)"
      "t ?key = (if emitted_at ?key out = [] then None else Some (last (emitted_at ?key out)))"
      using assms unfolding throttle_inv_def by metis+
    then have "spaced (throttle_duration config) (emitted_at ?key out @ [now])"
      using 2(3) by (intro spaced_step) simp_all
    moreover have "emitted_at key (out @ [(now, ev)]) = emitted_at key out @ (if key = ?key then [now] else [])" for key
      by (simp add: emitted_at_def)
    ultimately show ?thesis using assms 2(1)
      by (auto simp: netlink_step_def e throttle_inv_def simp del: split_paired_All)
  qed
qed

interpretation net_throttle: traced_machine "netlink_step net config" "throttle_inv config" for net config
  by unfold_locales (rule throttle_inv_step)

text \<open>
  Throttling spaces the events: over any sequence of kernel messages, two events of the same
  kind for the same interface are at least the throttle interval apart.
\<close>

theorem events_are_spaced:
  "sorted_wrt (\<lambda>a b. throttle_duration config \<le> b - a)
     (emitted_at key (outputs (netlink_step net config) (\<lambda>_. None) es))"
proof -
  have "throttle_inv config (\<lambda>_. None) []" by (simp add: throttle_inv_def emitted_at_def spaced_def)
  from net_throttle.tinv_run [OF this, of net es] show ?thesis
    by (simp add: throttle_inv_def spaced_def del: split_paired_All)
qed

lemma in_map_filter: "y \<in> set (List.map_filter f xs) \<longleftrightarrow> (\<exists>x \<in> set xs. f x = Some y)"
  by (force simp: List.map_filter_def)

lemma interface_info_passes:
  "interface_info config k item = Some info \<Longrightarrow> should_process_interface config (info_name info)"
  by (auto simp: interface_info_def split: option.splits if_splits)

text \<open>
  No event is ever emitted for an interface that is ignored, or that is missing from a
  non-empty list of allowed interfaces, not even by the scan at the start of a connection.
\<close>

theorem events_pass_filter:
  assumes "(now, ev) \<in> set (outputs (netlink_step net config) t es) \<or> ev \<in> set (emit_initial_scan config k)"
  shows "fst (event_key ev) \<notin> set (ignore_interfaces config) \<and>
    (only_interfaces config = [] \<or> fst (event_key ev) \<in> set (only_interfaces config))"
proof -
  have step: "should_process_interface config (fst (event_key ev))" if "(now, ev) \<in> set (snd (netlink_step net config t e))" for t e
  proof -
    obtain k' now' msg where "e = (k', now', msg)" by (cases e)
    then show ?thesis using that
      by (cases rule: process_cases [of net config k' now' msg t]) (auto simp: netlink_step_def)
  qed
  have "should_process_interface config (fst (event_key ev))"
    if "(now, ev) \<in> set (outputs (netlink_step net config) t es)" for t
    using that
  proof (induction es arbitrary: t)
    case (Cons e es)
    then show ?case using step [of t e] by (auto simp: machine_simps simp del: run.simps)
  qed simp
  moreover have "should_process_interface config (fst (event_key ev))" if "ev \<in> set (emit_initial_scan config k)"
    using that by (auto simp: emit_initial_scan_def get_current_interfaces_def in_map_filter dest!: interface_info_passes)
  ultimately have "should_process_interface config (fst (event_key ev))" using assms by blast
  then show ?thesis by (auto simp: should_process_interface_def split: if_splits)
qed

text \<open>A link that is up, in the kernel's list of links.\<close>

definition sample_link :: LinkMessage where
  "sample_link = \<lparr> link_index = 2, flag_up = True, flag_running = True, flag_loopback = False,
     link_attributes = [IfName ''wlan0''] \<rparr>"

definition sample_kernel :: kernel where
  "sample_kernel = \<lparr> links = [Some sample_link], addresses = (\<lambda>_. []), routes = [] \<rparr>"

theorem events_pass_filter_witness:
  "\<exists>ev. ev \<in> set (emit_initial_scan NetworkMonitorConfig_default sample_kernel) \<and>
     fst (event_key ev) = ''wlan0'' \<and> ''wlan0'' \<notin> set (ignore_interfaces NetworkMonitorConfig_default)"
proof -
  obtain info where "emit_initial_scan NetworkMonitorConfig_default sample_kernel = [InterfaceUp ''wlan0'' None info]"
    by (simp add: emit_initial_scan_def get_current_interfaces_def sample_kernel_def sample_link_def interface_info_def
      link_name_def link_is_up_def link_is_loopback_def should_process_interface_def NetworkMonitorConfig_default_def
      List.map_filter_simps)
  then have "InterfaceUp ''wlan0'' None info \<in> set (emit_initial_scan NetworkMonitorConfig_default sample_kernel)" by simp
  then show ?thesis using events_pass_filter [OF disjI2, of "InterfaceUp ''wlan0'' None info"] by fastforce
qed

text \<open>
  Only the removal of a link reports it as down. A link that loses its carrier or is taken down is
  announced by the kernel as a changed link without the running flag, and such a message changes
  nothing, although \<^verbatim>\<open>InterfaceDown\<close> is documented for exactly these cases.
\<close>

theorem carrier_loss_unreported:
  "\<not> link_is_up msg \<Longrightarrow> process_netlink_message net config k now (NewLink msg) t = (t, [])"
  by (simp add: handle_new_link_def split: option.split)


subsection \<open>Gateways\<close>

text \<open>
  The second method of finding a gateway is the first one: for an interface, the search over the
  global default routes returns exactly what the search over the interface's default routes returns, so the
  gateway is that of the first default route through the interface or else the guess from its address.
\<close>

theorem global_search_redundant:
  "find_global_default_gateway rs idx = find_default_route_gateway rs (Some idx) \<and>
   infer_gateway net k idx =
     (case find_default_route_gateway (routes k) (Some idx) of
        Some gw \<Rightarrow> Some gw
      | None \<Rightarrow> ip_heuristic_gateway net (addresses k idx))"
proof -
  have same: "find_global_default_gateway xs idx = find_default_route_gateway xs (Some idx)" for xs
    by (induction xs) (auto split: option.split)
  then show ?thesis by (simp add: infer_gateway_def split: option.split)
qed

text \<open>
  What the \<^verbatim>\<open>ipnetwork\<close> crate documents of a network: prefixes above 32 are refused and the network
  address keeps the leading bits.
\<close>

definition ipnetwork_ok :: "ipnetwork \<Rightarrow> bool" where
  "ipnetwork_ok net \<longleftrightarrow>
     (\<forall>v p. net v p = (if unat p \<le> 32 then Some (v AND NOT (mask (32 - unat p))) else None))"

lemma from_octets_bit:
  "bit (from_octets (octet 0 w) (octet 1 w) (octet 2 w) d) n \<longleftrightarrow> (if n < 8 then bit d n else bit w n)"
proof -
  have "bit (octet i w) m \<longleftrightarrow> m < 8 \<and> bit w (24 - 8 * i + m)" for i m
    by (auto simp: octet_def bit_simps)
  then show ?thesis
    using bit_imp_le_length [of w n] bit_imp_le_length [of d n]
    by (cases "n < 24") (auto simp: from_octets_def bit_simps possible_bit_def not_less)
qed

lemma heuristic_candidate_eq:
  assumes "\<not> bit network 0"
  shows "heuristic_candidate network = network OR 1"
proof -
  have low: "octet 3 network AND 1 = 0"
    using assms by (intro bit_word_eqI) (auto simp: octet_def bit_simps, metis neq0_conv)
  then have "octet 3 network \<noteq> 255" by auto
  then have "unat (octet 3 network) \<noteq> 255" by (simp add: word_unat_eq_iff)
  then have "saturating_add (octet 3 network) 1 = octet 3 network + 1"
    using unat_bound [of "octet 3 network"] by (simp add: saturating_add_def)
  also have "\<dots> = octet 3 network OR 1" using low by (rule disjunctive_add_eq_or)
  finally have "heuristic_candidate network = from_octets (octet 0 network) (octet 1 network) (octet 2 network) (octet 3 network OR 1)"
    by (simp add: heuristic_candidate_def)
  moreover have "bit (octet 3 network OR 1) n \<longleftrightarrow> n < 8 \<and> (bit network n \<or> n = 0)" for n
    by (auto simp: octet_def bit_or_iff bit_1_iff bit_ucast_iff bit_drop_bit_eq)
  moreover have "bit (network OR 1) n \<longleftrightarrow> bit network n \<or> n = 0" for n
    by (auto simp: bit_or_iff bit_1_iff)
  ultimately show ?thesis
    by (intro bit_word_eqI) (simp add: from_octets_bit [simplified])
qed

text \<open>
  The guess from an address lies in the address's own network: for an IPv4 address with a prefix
  of at most 31 bits it is the network address with its lowest bit set, and it has the same network.
\<close>

theorem heuristic_gateway_in_network:
  assumes "ipnetwork_ok net" and "address_msg_to_ip msg = Some (V4 v4)" and "unat (prefix_len msg) \<le> 31"
  shows "\<exists>network gw. net v4 (prefix_len msg) = Some network \<and>
    ip_heuristic_gateway net (Some msg # rest) = Some (V4 gw) \<and>
    gw = network OR 1 \<and> net gw (prefix_len msg) = Some network"
proof -
  let ?m = "NOT (mask (32 - unat (prefix_len msg))) :: u32" and ?n = "v4 AND NOT (mask (32 - unat (prefix_len msg)))"
  have net: "net v (prefix_len msg) = Some (v AND ?m)" for v using assms(1,3) by (simp add: ipnetwork_ok_def)
  have m: "\<not> bit ?m 0" using assms(3) by (simp add: bit_simps)
  then have "heuristic_candidate ?n = ?n OR 1" by (intro heuristic_candidate_eq) (simp add: bit_simps)
  moreover have "(?n OR 1) AND ?m = ?n"
    using m by (intro bit_word_eqI) (auto simp: bit_simps)
  ultimately show ?thesis using assms(2) by (simp add: net)
qed

theorem heuristic_gateway_in_network_witness:
  "ip_heuristic_gateway (\<lambda>v p. if unat p \<le> 32 then Some (v AND NOT (mask (32 - unat p))) else None)
     [Some \<lparr> addr_index = 2, prefix_len = 24, addr_attributes = [Address (V4 0xC0A80164)] \<rparr>] = Some (V4 0xC0A80101)"
proof -
  let ?net = "\<lambda>(v :: u32) (p :: u8). if unat p \<le> 32 then Some (v AND NOT (mask (32 - unat p))) else None"
  let ?msg = "\<lparr> addr_index = 2, prefix_len = 24, addr_attributes = [Address (V4 0xC0A80164)] \<rparr>"
  have "ipnetwork_ok ?net" "address_msg_to_ip ?msg = Some (V4 0xC0A80164)" "unat (prefix_len ?msg) \<le> 31"
    by (simp_all add: ipnetwork_ok_def address_msg_to_ip_def)
  from heuristic_gateway_in_network [OF this, of "[]"] show ?thesis by (simp add: mask_eq_exp_minus_1)
qed

end
