(* ===== verification/Config.thy ===== *)
theory Config
  imports Product_Id Wire_Message Pricing Rust_Files Rust_Float BTreeMap
begin

section \<open>Configuration and identity\<close>

text \<open>
  \<^verbatim>\<open>crates/tollgate-net/src/config.rs\<close>: the configuration with its defaults, where it is looked for, the
  price sheet built from it, and the node's key, which is generated once and kept in a file. The YAML
  parser, the key operations and hexadecimal strings are those of crates and are parameters.
\<close>

definition DEFAULT_MIN_INTERVAL_MS :: u32 where
  "DEFAULT_MIN_INTERVAL_MS = 5000"

definition DEFAULT_MAX_INTERVAL_MS :: u32 where
  "DEFAULT_MAX_INTERVAL_MS = 60000"

datatype FirewallMode = Enforcing | SetsOnly

definition installs_forward_chain :: "FirewallMode \<Rightarrow> bool" where
  "installs_forward_chain m \<longleftrightarrow> m = Enforcing"

record ProductConfig =
  pc_pricing_scale :: u32
  pc_price_per_second :: i64
  pc_price_per_unit :: i64
  pc_bounds :: price_bounds

record UpstreamConfig =
  up_peer :: string
  up_mint :: string
  up_amount :: u64
  up_topup :: u64
  up_interval_secs :: u64
  up_meter_iface :: "string option"
  up_meter_upstream :: bool

definition UpstreamConfig_default :: UpstreamConfig where
  "UpstreamConfig_default =
     \<lparr> up_peer = [], up_mint = [], up_amount = 8, up_topup = 8, up_interval_secs = 5, up_meter_iface = None,
       up_meter_upstream = False \<rparr>"

record V1AcceptedMint =
  am_url :: string
  am_price_per_step :: u64
  am_unit :: string
  am_min_steps :: u64

definition V1AcceptedMint_default :: V1AcceptedMint where
  "V1AcceptedMint_default = \<lparr> am_url = [], am_price_per_step = 1, am_unit = ''sat'', am_min_steps = 1 \<rparr>"

record V1CompatConfig =
  vc_metric :: string
  vc_step_size :: u64
  vc_accepted_mints :: "V1AcceptedMint list"
  vc_nostr_secret_key :: "string option"
  vc_trust_proxy_headers :: bool
  vc_wallet_seed :: "string option"

definition V1CompatConfig_default :: V1CompatConfig where
  "V1CompatConfig_default =
     \<lparr> vc_metric = [], vc_step_size = 0, vc_accepted_mints = [], vc_nostr_secret_key = None,
       vc_trust_proxy_headers = False, vc_wallet_seed = None \<rparr>"

text \<open>Neither dynamic pricing nor the overrides per peer are read anywhere: they are kept and shown.\<close>

record DynamicPricingConfig =
  dp_enabled :: bool
  dp_strategy :: string
  dp_metric_weights :: "(string, f64) btree"
  dp_active_peer_multiplier :: "f64 option"
  dp_max_active_peers :: "u32 option"

definition DynamicPricingConfig_default :: DynamicPricingConfig where
  "DynamicPricingConfig_default =
     \<lparr> dp_enabled = False, dp_strategy = [], dp_metric_weights = bt_empty, dp_active_peer_multiplier = None,
       dp_max_active_peers = None \<rparr>"

record PeerOverride =
  po_price_multiplier :: "f64 option"
  po_blocked :: bool

record config =
  secret_key_file :: "string option"
  listen :: string
  mints :: "string list"
  products :: "ProductConfig list"
  firewall :: FirewallMode
  unit_name :: string
  control_socket :: string
  metering_interval_secs :: u64
  upstreams :: "UpstreamConfig list"
  v1_compat :: V1CompatConfig
  dynamic_pricing :: DynamicPricingConfig
  peer_overrides :: "(string, PeerOverride) btree"

definition Config_default :: config where
  "Config_default =
     \<lparr> secret_key_file = None, listen = ''127.0.0.1:4747'', mints = [], products = [], firewall = Enforcing,
       unit_name = ''bytes'', control_socket = ''/tmp/tollgate.sock'', metering_interval_secs = 5, upstreams = [],
       v1_compat = V1CompatConfig_default, dynamic_pricing = DynamicPricingConfig_default,
       peer_overrides = bt_empty \<rparr>"


subsection \<open>Loading\<close>

definition search_paths :: "string option \<Rightarrow> (string \<Rightarrow> bool) \<Rightarrow> string option" where
  "search_paths config_dir exists_path =
     List.find exists_path
       ([''tollgate.yaml''] @ (case config_dir of Some dir \<Rightarrow> [dir @ ''/tollgate/tollgate.yaml''] | None \<Rightarrow> []) @
        [''/etc/tollgate/tollgate.yaml''])"

datatype load_error = ReadingConfig string | ParsingConfig string

definition Config_load ::
  "(string \<Rightarrow> config option) \<Rightarrow> string option \<Rightarrow> files \<Rightarrow> string option \<Rightarrow> load_error + config" where
  "Config_load from_yaml config_dir files explicit =
     (case (case explicit of Some p \<Rightarrow> Some p | None \<Rightarrow> search_paths config_dir (\<lambda>p. files p \<noteq> None)) of
        None \<Rightarrow> Inr Config_default
      | Some p \<Rightarrow>
          (case files p of
             None \<Rightarrow> Inl (ReadingConfig p)
           | Some text \<Rightarrow> (case from_yaml text of None \<Rightarrow> Inl (ParsingConfig p) | Some cfg \<Rightarrow> Inr cfg)))"


subsection \<open>Prices\<close>

definition product_prices :: "config \<Rightarrow> ProductConfig \<Rightarrow> mint_price list" where
  "product_prices cfg p =
     map (\<lambda>url. \<lparr> mint_url = url, price_per_second = pc_price_per_second p, price_per_unit = pc_price_per_unit p,
                 mint_unit = ''sat'' \<rparr>) (mints cfg)"

definition product_scale :: "ProductConfig \<Rightarrow> u32" where
  "product_scale p = (if pc_pricing_scale p = 0 then DEFAULT_PRICING_SCALE else pc_pricing_scale p)"

fun ProductId_bytes :: "ProductId \<Rightarrow> bytes" where
  "ProductId_bytes (ProductId bs) = bs"

definition product_offer ::
  "(bytes \<Rightarrow> bytes) \<Rightarrow> (mint_price list \<Rightarrow> mint_price list) \<Rightarrow> config \<Rightarrow> ProductConfig \<Rightarrow> product_entry" where
  "product_offer sha256 srt cfg p =
     (let scale = product_scale p;
          prices = product_prices cfg p;
          extensions = [];
          pid = product_id sha256 srt scale prices extensions;
          mint_options = map (\<lambda>mp. MintOption_new (option_id sha256 (mint_url mp) (mint_unit mp)) (mint_url mp)
                                     (price_per_second mp) (price_per_unit mp) (mint_unit mp)) prices
      in ProductEntry_new (ProductId_bytes pid) extensions scale mint_options)"

definition build_price_sheet ::
  "(bytes \<Rightarrow> bytes) \<Rightarrow> (mint_price list \<Rightarrow> mint_price list) \<Rightarrow> config \<Rightarrow> price_sheet" where
  "build_price_sheet sha256 srt cfg =
     PriceSheet_new (map (product_offer sha256 srt cfg) (products cfg))
       (IntervalRange_new DEFAULT_MIN_INTERVAL_MS DEFAULT_MAX_INTERVAL_MS)"

text \<open>The price the session machine charges, chosen in \<^verbatim>\<open>main.rs\<close>.\<close>

definition node_price :: "config \<Rightarrow> price" where
  "node_price cfg =
     (case products cfg of
        [] \<Rightarrow> Price_default
      | p # _ \<Rightarrow> \<lparr> per_second = pc_price_per_second p, per_unit = pc_price_per_unit p \<rparr>)"


subsection \<open>The key of the node\<close>

record 'k key_api =
  from_slice :: "bytes \<Rightarrow> 'k option"
  secret_bytes :: "'k \<Rightarrow> bytes"
  public_of :: "'k \<Rightarrow> bytes"
  to_hex :: "bytes \<Rightarrow> string"
  from_hex :: "string \<Rightarrow> bytes option"

datatype identity_error = ReadingKey | DecodingHex | InvalidKey | WritingKey string

definition write_key_file :: "fs_answers \<Rightarrow> string \<Rightarrow> string \<Rightarrow> files \<Rightarrow> files \<times> (string + unit)" where
  "write_key_file fs path hex_key files =
     (case parent_error fs path of
        Some e \<Rightarrow> (files, Inl e)
      | None \<Rightarrow>
          (case open_error fs of
             Some e \<Rightarrow> (files, Inl e)
           | None \<Rightarrow>
               let text = hex_key @ [newline]
               in case write_error fs of
                    Some e \<Rightarrow> (file_write files path (take (written fs) text), Inl e)
                  | None \<Rightarrow> (file_write files path text, Inr ())))"

text \<open>\<open>fresh\<close> is the key the random generator would give.\<close>

definition load_or_generate ::
  "'k key_api \<Rightarrow> fs_answers \<Rightarrow> 'k \<Rightarrow> config \<Rightarrow> files \<Rightarrow> files \<times> (identity_error + 'k)" where
  "load_or_generate api fs fresh cfg files =
     (case secret_key_file cfg of
        None \<Rightarrow> (files, Inr fresh)
      | Some path \<Rightarrow>
          (case files path of
             Some hex_key \<Rightarrow>
               (files,
                case from_hex api (trim hex_key) of
                  None \<Rightarrow> Inl DecodingHex
                | Some bs \<Rightarrow> (case from_slice api bs of None \<Rightarrow> Inl InvalidKey | Some k \<Rightarrow> Inr k))
           | None \<Rightarrow>
               (case write_key_file fs path (to_hex api (secret_bytes api fresh)) files of
                  (files', Inl e) \<Rightarrow> (files', Inl (WritingKey e))
                | (files', Inr _) \<Rightarrow> (files', Inr fresh))))"

definition pubkey_hex :: "'k key_api \<Rightarrow> 'k \<Rightarrow> string" where
  "pubkey_hex api k = to_hex api (public_of api k)"


subsection \<open>What the configuration promises\<close>

text \<open>
  The price sheet offers every configured product once, at every accepted mint exactly once
  and in order, at the product's own rates, with a scale that is never zero and with the identifiers that
  the product and option rules give.
\<close>

theorem price_sheet_complete:
  "map (map mo_mint_url \<circ> pe_mint_options) (ps_products (build_price_sheet sha256 srt cfg)) =
     map (\<lambda>_. mints cfg) (products cfg) \<and>
   list_all2 (\<lambda>p e. pe_pricing_scale e \<noteq> 0 \<and>
       ProductId (pe_product_id e) = product_id sha256 srt (pe_pricing_scale e) (product_prices cfg p) (pe_extensions e) \<and>
       list_all (\<lambda>m. mo_price_per_second m = pc_price_per_second p \<and> mo_price_per_unit m = pc_price_per_unit p \<and>
         mo_option_id m = option_id sha256 (mo_mint_url m) (mo_mint_unit m)) (pe_mint_options e))
     (products cfg) (ps_products (build_price_sheet sha256 srt cfg))"
proof -
  have "DEFAULT_PRICING_SCALE \<noteq> 0" by (simp add: DEFAULT_PRICING_SCALE_def)
  then have "product_scale p \<noteq> 0" for p by (simp add: product_scale_def)
  moreover have "ProductId (ProductId_bytes i) = i" for i by (cases i) simp
  ultimately show ?thesis
    by (simp add: build_price_sheet_def PriceSheet_new_def product_offer_def ProductEntry_new_def MintOption_new_def
      product_prices_def Let_def comp_def list_all2_conv_all_nth list_all_iff)
qed

text \<open>
  What the crates document of keys and hexadecimal strings: a key read back from its bytes is
  the key, decoding undoes encoding, and an encoding has no white space.
\<close>

definition key_api_ok :: "'k key_api \<Rightarrow> bool" where
  "key_api_ok api \<longleftrightarrow>
     (\<forall>k. from_slice api (secret_bytes api k) = Some k) \<and> (\<forall>bs. from_hex api (to_hex api bs) = Some bs) \<and>
     (\<forall>k. is_word (to_hex api (secret_bytes api k)))"

text \<open>
  A node keeps its identity: once a key file is configured and a start has succeeded, every
  later start with the files left by it returns the same key, whatever the generator would give and
  without touching the files.
\<close>

theorem identity_survives_restart:
  assumes "key_api_ok api" and "secret_key_file cfg = Some path"
    and "load_or_generate api fs fresh cfg files = (files', Inr k)"
  shows "load_or_generate api fs' fresh' cfg files' = (files', Inr k)"
proof (cases "files path")
  case None
  have w: "trimmed (to_hex api (secret_bytes api fresh))" using assms(1) word_trimmed by (simp add: key_api_ok_def)
  have "trim (to_hex api (secret_bytes api fresh) @ [newline]) = to_hex api (secret_bytes api fresh)"
    using trim_pad [of "[]" "[newline]", OF _ _ w] whitespace_newline by simp
  moreover have "files' path = Some (to_hex api (secret_bytes api fresh) @ [newline])" "k = fresh"
    using assms(2,3) None
    by (auto simp: load_or_generate_def write_key_file_def file_write_def Let_def split: option.splits)
  ultimately show ?thesis using assms(1,2) by (simp add: load_or_generate_def key_api_ok_def)
next
  case (Some hex_key)
  then show ?thesis using assms(2,3) by (auto simp: load_or_generate_def split: option.splits)
qed

text \<open>Keys that are their bytes, written with the digits of the program's own encoder.\<close>

definition sample_keys :: "u8 key_api" where
  "sample_keys =
     \<lparr> from_slice = (\<lambda>bs. case bs of [b] \<Rightarrow> Some b | _ \<Rightarrow> None), secret_bytes = (\<lambda>k. [k]), public_of = (\<lambda>k. [k]),
       to_hex = (\<lambda>bs. concat (map hex_byte bs)), from_hex = (\<lambda>s. Some (unhex s)) \<rparr>"

definition no_errors :: fs_answers where
  "no_errors = \<lparr> mkdir_error = None, open_error = None, written = 0, write_error = None, flush_error = None \<rparr>"

theorem identity_survives_restart_witness:
  "\<exists>files'. load_or_generate sample_keys no_errors 7 (Config_default\<lparr> secret_key_file := Some ''k'' \<rparr>) (\<lambda>_. None) =
       (files', Inr 7) \<and>
     load_or_generate sample_keys no_errors 9 (Config_default\<lparr> secret_key_file := Some ''k'' \<rparr>) files' = (files', Inr 7)"
proof -
  let ?cfg = "Config_default\<lparr> secret_key_file := Some ''k'' \<rparr>"
  have "is_word (concat (map hex_byte [k]))" for k
    using hex_bytes_plain [of _ "[k]"] by (auto simp: is_word_def list_all_iff hex_byte_def)
  then have api: "key_api_ok sample_keys"
    using unhex_bytes by (simp add: key_api_ok_def sample_keys_def)
  obtain files' where r: "load_or_generate sample_keys no_errors 7 ?cfg (\<lambda>_. None) = (files', Inr 7)"
    by (simp add: load_or_generate_def write_key_file_def parent_error_def path_parent_def trim_end_matches_def Let_def
      no_errors_def)
  from r identity_survives_restart [OF api _ r, of "''k''" no_errors 9] show ?thesis by simp
qed

end
