(* ===== verification/Upstream_Client.thy ===== *)
theory Upstream_Client
  imports Config Framing Sample_Codec
begin

section \<open>The buying client\<close>

text \<open>
  \<^verbatim>\<open>crates/tollgate-net/src/client.rs\<close>: detecting a peer, paying it, and the loop that stays online by
  polling for metering reports and topping up. The HTTP exchange, the wallet that builds tokens, the
  meters and the resolution of host names are parameters, functions of the state of the world.
\<close>

definition PRICING_SCALE :: u64 where
  "PRICING_SCALE = 1000"

datatype client_error =
    PostFailed string
  | BadFraming FrameError
  | FramingFailed FrameError
  | NoAnnounce
  | NoAck
  | BuildingToken string
  | BootstrapRejected string

record 'w client_env =
  c_cdc :: codec
  c_hex :: "bytes \<Rightarrow> string"
  c_post :: "string \<Rightarrow> bytes \<Rightarrow> 'w \<Rightarrow> (string + bytes) \<times> 'w"
  c_token :: "string \<Rightarrow> u64 \<Rightarrow> 'w \<Rightarrow> (string + bytes) \<times> 'w"
  c_resolve :: "string \<Rightarrow> IpAddr option"
  c_read_upstream :: "IpAddr \<Rightarrow> 'w \<Rightarrow> u64"
  c_read_iface :: "string \<Rightarrow> 'w \<Rightarrow> u64"
  c_ensure_counter :: "IpAddr \<Rightarrow> 'w \<Rightarrow> 'w"

text \<open>Who pays whom: the peer's origin, our key, our unit and our mint.\<close>

record buyer =
  b_base_url :: string
  b_key :: bytes
  b_unit :: string
  b_mint_url :: string

record Detected =
  det_pubkey_hex :: string
  det_unit :: string
  det_version :: u8
  det_price_sheet :: "price_sheet option"

record Paid =
  paid_pubkey_hex :: string
  paid_accepted :: bool
  paid_reason :: "string option"
  paid_price_sheet :: "price_sheet option"


subsection \<open>Messages\<close>

definition exchange :: "'w client_env \<Rightarrow> string \<Rightarrow> bytes \<Rightarrow> 'w \<Rightarrow> (client_error + bytes list) \<times> 'w" where
  "exchange env base_url request w =
     (let endpoint = trim_end_matches (CHR ''/'') base_url @ ''/tollgate/v1/exchange''
      in case c_post env endpoint request w of
           (Inl e, w') \<Rightarrow> (Inl (PostFailed e), w')
         | (Inr bytes, w') \<Rightarrow>
             (case decode_frames bytes of Inl e \<Rightarrow> Inl (BadFraming e) | Inr frames \<Rightarrow> Inr frames, w'))"

definition our_announce :: "'w client_env \<Rightarrow> buyer \<Rightarrow> bytes" where
  "our_announce env b = enc_announce (c_cdc env) (Announce_new PROTOCOL_VERSION (PublicKey (b_key b)) (b_unit b) 0)"

definition of_type :: "codec \<Rightarrow> MessageType \<Rightarrow> bytes list \<Rightarrow> bytes list" where
  "of_type cdc ty messages = filter (\<lambda>m. peek_type cdc m = Some ty) messages"

definition find_announce :: "codec \<Rightarrow> bytes list \<Rightarrow> announce option" where
  "find_announce cdc messages = find_map (dec_announce cdc) (of_type cdc Announce messages)"

definition find_price_sheet :: "codec \<Rightarrow> bytes list \<Rightarrow> price_sheet option" where
  "find_price_sheet cdc messages = find_map (dec_price_sheet cdc) (of_type cdc PriceSheet messages)"

definition find_metering_report :: "codec \<Rightarrow> bytes list \<Rightarrow> metering_report option" where
  "find_metering_report cdc messages = find_map (dec_metering_report cdc) (of_type cdc MeteringReport messages)"

definition find_ack :: "codec \<Rightarrow> bytes list \<Rightarrow> bootstrap_ack option" where
  "find_ack cdc messages = find_map (dec_bootstrap_ack cdc) (of_type cdc BootstrapAck messages)"

definition balance_exhausted :: "codec \<Rightarrow> bytes list \<Rightarrow> bool" where
  "balance_exhausted cdc messages \<longleftrightarrow>
     list_ex is_balance_exhausted (List.map_filter (dec_reject cdc) (of_type cdc Reject messages))"

definition first_option :: "'a list \<Rightarrow> 'a option" where
  "first_option xs = (case xs of [] \<Rightarrow> None | x # _ \<Rightarrow> Some x)"

definition price_from_sheet :: "price_sheet option \<Rightarrow> price" where
  "price_from_sheet sheet =
     (case Option.bind (Option.bind sheet (first_option \<circ> ps_products)) (first_option \<circ> pe_mint_options) of
        Some m \<Rightarrow> \<lparr> per_second = mo_price_per_second m, per_unit = mo_price_per_unit m \<rparr>
      | None \<Rightarrow> Price_default)"

text \<open>The host part of an origin, with the default port; prefixes are trimmed as often as they occur.\<close>

function trim_start_matches :: "string \<Rightarrow> string \<Rightarrow> string" where
  "trim_start_matches p s =
     (if p \<noteq> [] \<and> starts_with p s then trim_start_matches p (drop (length p) s) else s)"
  by pat_completeness auto
termination
proof (relation "measure (\<lambda>(p, s). length s)")
  fix p s :: string assume "p \<noteq> [] \<and> starts_with p s"
  then have "length p \<le> length s" "0 < length p" by (auto simp: starts_with_iff)
  then have "length s - length p < length s" by linarith
  then show "((p, drop (length p) s), p, s) \<in> measure (\<lambda>(p, s). length s)" by simp
qed simp

definition host_with_port :: "string \<Rightarrow> string" where
  "host_with_port base_url =
     (let authority = hd (split_char (CHR ''/'') (trim_start_matches ''https://'' (trim_start_matches ''http://'' base_url)))
      in if CHR '':'' \<in> set authority then authority else authority @ '':4747'')"

definition resolve_host_ip :: "'w client_env \<Rightarrow> string \<Rightarrow> IpAddr option" where
  "resolve_host_ip env base_url = c_resolve env (host_with_port base_url)"


subsection \<open>Detecting and paying\<close>

definition detect :: "'w client_env \<Rightarrow> buyer \<Rightarrow> 'w \<Rightarrow> (client_error + Detected) \<times> 'w" where
  "detect env b w =
     (case frame (our_announce env b) of
        Inl e \<Rightarrow> (Inl (FramingFailed e), w)
      | Inr body \<Rightarrow>
          (case exchange env (b_base_url b) body w of
             (Inl e, w') \<Rightarrow> (Inl e, w')
           | (Inr messages, w') \<Rightarrow>
               (case find_announce (c_cdc env) messages of
                  None \<Rightarrow> (Inl NoAnnounce, w')
                | Some a \<Rightarrow>
                    (Inr \<lparr> det_pubkey_hex = c_hex env (as_bytes (public_key a)), det_unit = an_unit a,
                           det_version = an_version a, det_price_sheet = find_price_sheet (c_cdc env) messages \<rparr>, w'))))"

definition pay_body :: "'w client_env \<Rightarrow> buyer \<Rightarrow> bytes \<Rightarrow> FrameError + bytes" where
  "pay_body env b token =
     (case encode_frame (our_announce env b) [] of
        Inl e \<Rightarrow> Inl e
      | Inr body \<Rightarrow> encode_frame (enc_bootstrap_token (c_cdc env) (BootstrapToken_new token)) body)"

definition pay :: "'w client_env \<Rightarrow> buyer \<Rightarrow> u64 \<Rightarrow> 'w \<Rightarrow> (client_error + Paid) \<times> 'w" where
  "pay env b amount_sat w =
     (case c_token env (b_mint_url b) amount_sat w of
        (Inl e, w1) \<Rightarrow> (Inl (BuildingToken e), w1)
      | (Inr token, w1) \<Rightarrow>
          (case pay_body env b token of
             Inl e \<Rightarrow> (Inl (FramingFailed e), w1)
           | Inr body \<Rightarrow>
               (case exchange env (b_base_url b) body w1 of
                  (Inl e, w2) \<Rightarrow> (Inl e, w2)
                | (Inr messages, w2) \<Rightarrow>
                    (case find_announce (c_cdc env) messages of
                       None \<Rightarrow> (Inl NoAnnounce, w2)
                     | Some a \<Rightarrow>
                         (case find_ack (c_cdc env) messages of
                            None \<Rightarrow> (Inl NoAck, w2)
                          | Some ack \<Rightarrow>
                              (Inr \<lparr> paid_pubkey_hex = c_hex env (as_bytes (public_key a)),
                                     paid_accepted = is_accepted ack, paid_reason = ba_reason ack,
                                     paid_price_sheet = find_price_sheet (c_cdc env) messages \<rparr>, w2))))))"


subsection \<open>The consume loop\<close>

record ConsumeOpts =
  amount_sat :: u64
  topup_sat :: u64
  max_polls :: "u32 option"
  understate_received_pct :: u8
  meter_iface :: "string option"
  meter_upstream :: bool

record ConsumeEvent =
  ev_poll :: u32
  ev_peer_pubkey :: string
  ev_price :: price
  ev_paid_scaled :: u64
  ev_remaining_scaled :: i64
  ev_report :: "metering_report option"
  ev_cut_off :: bool
  ev_topped_up :: bool
  ev_drift :: "(u64 \<times> u64) option"

record consume_state =
  poll :: u32
  acked_received :: u64
  meter_baseline :: u64
  paid_scaled :: u64

definition saturating_sub_i64 :: "i64 \<Rightarrow> i64 \<Rightarrow> i64" where
  "saturating_sub_i64 a b = word_of_int (max (- (2 ^ 63)) (min (2 ^ 63 - 1) (sint a - sint b)))"

definition raw_received :: "'w client_env \<Rightarrow> ConsumeOpts \<Rightarrow> IpAddr option \<Rightarrow> 'w \<Rightarrow> u64" where
  "raw_received env opts upstream_ip w =
     (case upstream_ip of
        Some ip \<Rightarrow> c_read_upstream env ip w
      | None \<Rightarrow> (case meter_iface opts of Some iface \<Rightarrow> c_read_iface env iface w | None \<Rightarrow> 0))"

definition upstream_meter :: "'w client_env \<Rightarrow> ConsumeOpts \<Rightarrow> buyer \<Rightarrow> IpAddr option" where
  "upstream_meter env opts b = (if meter_upstream opts then resolve_host_ip env (b_base_url b) else None)"

definition poll_body :: "'w client_env \<Rightarrow> buyer \<Rightarrow> u64 \<Rightarrow> FrameError + bytes" where
  "poll_body env b acked =
     (case encode_frame (our_announce env b) [] of
        Inl e \<Rightarrow> Inl e
      | Inr body \<Rightarrow>
          if acked > 0 then encode_frame (enc_metering_report (c_cdc env) (MeteringReport_new 0 0 acked)) body
          else Inr body)"

definition measure_received ::
  "'w client_env \<Rightarrow> ConsumeOpts \<Rightarrow> IpAddr option \<Rightarrow> u64 \<Rightarrow> 'w \<Rightarrow> u64 option \<times> 'w" where
  "measure_received env opts upstream_ip baseline w =
     (if upstream_ip \<noteq> None \<or> meter_iface opts \<noteq> None
      then let w' = (case upstream_ip of Some ip \<Rightarrow> c_ensure_counter env ip w | None \<Rightarrow> w)
           in (Some (saturating_sub (raw_received env opts upstream_ip w') baseline), w')
      else (None, w))"

definition next_ack :: "ConsumeOpts \<Rightarrow> u64 option \<Rightarrow> metering_report option \<Rightarrow> u64 \<Rightarrow> u64" where
  "next_ack opts measured report acked =
     (let keep = saturating_sub 100 (ucast (min (understate_received_pct opts) 100))
      in case (case measured of Some m \<Rightarrow> Some m | None \<Rightarrow> map_option mr_delivered report) of
           Some rx \<Rightarrow> saturating_mul rx keep div 100
         | None \<Rightarrow> acked)"

text \<open>
  The drift is the quotient of two counts, computed in floating point; the model keeps the two
  counts.
\<close>

definition report_drift :: "u64 option \<Rightarrow> metering_report option \<Rightarrow> (u64 \<times> u64) option" where
  "report_drift measured report =
     (case (report, measured) of
        (Some r, Some m) \<Rightarrow> if mr_delivered r > 0 then Some (abs_diff (mr_delivered r) m, mr_delivered r) else None
      | _ \<Rightarrow> None)"

definition report_cost :: "price \<Rightarrow> u64 option \<Rightarrow> metering_report option \<Rightarrow> i64" where
  "report_cost price measured report =
     (case report of
        Some r \<Rightarrow>
          let billable = (case measured of None \<Rightarrow> mr_delivered r | Some m \<Rightarrow> max (mr_delivered r) m)
          in cost_scaled price (mr_elapsed_ms r) billable
      | None \<Rightarrow> 0)"

definition needs_topup :: "bool \<Rightarrow> u64 \<Rightarrow> i64 \<Rightarrow> u64 \<Rightarrow> bool" where
  "needs_topup cut_off paid cost topup_scaled \<longleftrightarrow>
     cut_off \<or> sint (saturating_sub_i64 paid cost) < sint topup_scaled"

definition topup_step ::
  "'w client_env \<Rightarrow> buyer \<Rightarrow> ConsumeOpts \<Rightarrow> bool \<Rightarrow> i64 \<Rightarrow> u64 \<Rightarrow> 'w \<Rightarrow> (client_error + u64 \<times> bool) \<times> 'w" where
  "topup_step env b opts cut_off cost paid w =
     (let topup_scaled = saturating_mul (topup_sat opts) PRICING_SCALE
      in if needs_topup cut_off paid cost topup_scaled
         then case pay env b (topup_sat opts) w of
                (Inl e, w') \<Rightarrow> (Inl e, w')
              | (Inr receipt, w') \<Rightarrow>
                  (Inr (if paid_accepted receipt
                        then (if cut_off then topup_scaled else saturating_add paid topup_scaled, True)
                        else (paid, False)), w')
         else (Inr (paid, False), w))"

definition consume_poll ::
  "'w client_env \<Rightarrow> buyer \<Rightarrow> ConsumeOpts \<Rightarrow> string \<Rightarrow> price \<Rightarrow> consume_state \<times> 'w \<Rightarrow>
   (client_error + consume_state \<times> ConsumeEvent) \<times> 'w" where
  "consume_poll env b opts peer price sw =
     (let (st, w) = sw;
          upstream_ip = upstream_meter env opts b
      in case poll_body env b (acked_received st) of
           Inl e \<Rightarrow> (Inl (FramingFailed e), w)
         | Inr body \<Rightarrow>
             (case exchange env (b_base_url b) body w of
                (Inl e, w1) \<Rightarrow> (Inl e, w1)
              | (Inr messages, w1) \<Rightarrow>
                  let cut_off = balance_exhausted (c_cdc env) messages;
                      acked = (if cut_off then 0 else acked_received st);
                      baseline = (if cut_off then raw_received env opts upstream_ip w1 else meter_baseline st);
                      report = find_metering_report (c_cdc env) messages;
                      (measured, w2) = measure_received env opts upstream_ip baseline w1;
                      acked' = next_ack opts measured report acked;
                      cost = report_cost price measured report
                  in (case topup_step env b opts cut_off cost (paid_scaled st) w2 of
                        (Inl e, w3) \<Rightarrow> (Inl e, w3)
                      | (Inr (paid', topped_up), w3) \<Rightarrow>
                          (Inr (\<lparr> poll = poll st + 1, acked_received = acked', meter_baseline = baseline, paid_scaled = paid' \<rparr>,
                                \<lparr> ev_poll = poll st + 1, ev_peer_pubkey = peer, ev_price = price, ev_paid_scaled = paid',
                                  ev_remaining_scaled = saturating_sub_i64 paid' cost, ev_report = report,
                                  ev_cut_off = cut_off, ev_topped_up = topped_up,
                                  ev_drift = report_drift measured report \<rparr>), w3))))"

text \<open>
  The loop runs until the poll count reaches \<open>max_polls\<close>, forever when there is no such bound; an error
  ends it. The model observes at most \<open>n\<close> polls: \<open>None\<close> says that the loop is still running then.
\<close>

definition polls_left :: "ConsumeOpts \<Rightarrow> consume_state \<Rightarrow> bool" where
  "polls_left opts st = (case max_polls opts of None \<Rightarrow> True | Some limit \<Rightarrow> poll st < limit)"

fun consume_loop ::
  "'w client_env \<Rightarrow> buyer \<Rightarrow> ConsumeOpts \<Rightarrow> string \<Rightarrow> price \<Rightarrow> nat \<Rightarrow> consume_state \<times> 'w \<Rightarrow>
   ConsumeEvent list \<times> (client_error + unit) option \<times> 'w" where
  "consume_loop env b opts peer price 0 sw =
     ([], if polls_left opts (fst sw) then None else Some (Inr ()), snd sw)"
| "consume_loop env b opts peer price (Suc n) sw =
     (if \<not> polls_left opts (fst sw) then ([], Some (Inr ()), snd sw)
      else case consume_poll env b opts peer price sw of
        (Inl e, w') \<Rightarrow> ([], Some (Inl e), w')
      | (Inr (st', ev), w') \<Rightarrow>
          let (evs, r, w'') = consume_loop env b opts peer price n (st', w') in (ev # evs, r, w''))"

definition run_consume ::
  "'w client_env \<Rightarrow> buyer \<Rightarrow> ConsumeOpts \<Rightarrow> nat \<Rightarrow> 'w \<Rightarrow>
   ConsumeEvent list \<times> (client_error + unit) option \<times> 'w" where
  "run_consume env b opts n w =
     (case pay env b (amount_sat opts) w of
        (Inl e, w1) \<Rightarrow> ([], Some (Inl e), w1)
      | (Inr paid, w1) \<Rightarrow>
          if \<not> paid_accepted paid
          then ([], Some (Inl (BootstrapRejected (case paid_reason paid of Some r \<Rightarrow> r | None \<Rightarrow> ''unknown''))), w1)
          else let price = price_from_sheet (paid_price_sheet paid);
                   scaled = saturating_mul (amount_sat opts) PRICING_SCALE;
                   st = \<lparr> poll = 0, acked_received = 0,
                          meter_baseline = raw_received env opts (upstream_meter env opts b) w1, paid_scaled = scaled \<rparr>;
                   start = \<lparr> ev_poll = 0, ev_peer_pubkey = paid_pubkey_hex paid, ev_price = price, ev_paid_scaled = scaled, ev_remaining_scaled = scaled, ev_report = None,
                             ev_cut_off = False, ev_topped_up = False, ev_drift = None \<rparr>;
                   (evs, r, w2) = consume_loop env b opts (paid_pubkey_hex paid) price n (st, w1)
               in (start # evs, r, w2))"


subsection \<open>What the buyer can rely on\<close>

text \<open>
  C25. Buyer and seller agree on the price: for a node that accepts some mint, the price the client
  reads from the sheet the node advertises is the price the node charges.
\<close>

theorem client_price_agrees:
  assumes "mints cfg \<noteq> []"
  shows "price_from_sheet (Some (build_price_sheet sha256 srt cfg)) = node_price cfg"
  using assms
  by (cases "products cfg"; cases "mints cfg")
    (simp_all add: price_from_sheet_def build_price_sheet_def PriceSheet_new_def product_offer_def ProductEntry_new_def
      MintOption_new_def product_prices_def first_option_def node_price_def Let_def)

definition sample_offer :: config where
  "sample_offer = Config_default\<lparr> mints := [''m'', ''n''],
     products := [\<lparr> pc_pricing_scale = 0, pc_price_per_second = 5, pc_price_per_unit = 2,
       pc_bounds = \<lparr> per_second_floor = None, per_second_ceiling = None, per_unit_floor = None, per_unit_ceiling = None \<rparr> \<rparr>] \<rparr>"

theorem client_price_agrees_witness:
  "price_from_sheet (Some (build_price_sheet (\<lambda>bs. take 32 bs) (\<lambda>ps. ps) sample_offer)) = \<lparr> per_second = 5, per_unit = 2 \<rparr>"
  using client_price_agrees [of sample_offer "\<lambda>bs. take 32 bs" "\<lambda>ps. ps"] by (simp add: sample_offer_def node_price_def)

lemma topup_step_cases:
  assumes "topup_step env b opts cutoff cost paid w = (Inr (paid', topped), w')"
  shows "if needs_topup cutoff paid cost (saturating_mul (topup_sat opts) PRICING_SCALE)
    then \<exists>receipt. pay env b (topup_sat opts) w = (Inr receipt, w') \<and> topped = paid_accepted receipt \<and>
      paid' = (if topped then if cutoff then saturating_mul (topup_sat opts) PRICING_SCALE
                              else saturating_add paid (saturating_mul (topup_sat opts) PRICING_SCALE)
               else paid)
    else \<not> topped \<and> paid' = paid \<and> w' = w"
  using assms by (auto simp: topup_step_def Let_def split: prod.splits sum.splits if_splits)

lemma consume_poll_topup:
  assumes "consume_poll env b opts peer price (st, w) = (Inr (st', ev), w')"
  obtains w2 cost where
    "topup_step env b opts (ev_cut_off ev) cost (paid_scaled st) w2 = (Inr (paid_scaled st', ev_topped_up ev), w')"
    "ev_remaining_scaled ev = saturating_sub_i64 (paid_scaled st') cost" "ev_paid_scaled ev = paid_scaled st'"
  using assms
  by (auto simp: consume_poll_def Let_def split: prod.splits sum.splits)

text \<open>
  The watermark is kept: whenever a poll ends without a top-up, either the remaining balance is at
  least one top-up or the peer has refused the payment; a poll in which the peer cut the buyer off always
  sends a payment.
\<close>

theorem watermark_kept:
  assumes "consume_poll env b opts peer price (st, w) = (Inr (st', ev), w')" and "\<not> ev_topped_up ev"
  shows "(\<not> ev_cut_off ev \<and>
      sint (saturating_mul (topup_sat opts) PRICING_SCALE) \<le> sint (ev_remaining_scaled ev)) \<or>
    (\<exists>before receipt. pay env b (topup_sat opts) before = (Inr receipt, w') \<and> \<not> paid_accepted receipt)"
proof -
  obtain w2 cost where t:
    "topup_step env b opts (ev_cut_off ev) cost (paid_scaled st) w2 = (Inr (paid_scaled st', ev_topped_up ev), w')"
    and r: "ev_remaining_scaled ev = saturating_sub_i64 (paid_scaled st') cost"
    using consume_poll_topup [OF assms(1)] by metis
  show ?thesis using topup_step_cases [OF t] assms(2) r by (auto simp: needs_topup_def split: if_splits)
qed

text \<open>A run with a bound on its polls ends, by an error or by the bound, after at most that many polls.\<close>

lemma consume_poll_count:
  assumes "consume_poll env b opts peer price (st, w) = (Inr (st', ev), w')"
  shows "poll st' = poll st + 1"
  using assms by (auto simp: consume_poll_def Let_def split: prod.splits sum.splits)

lemma less_word_one:
  assumes "(a :: u32) < b"
  shows "unat (a + 1) = Suc (unat a)"
proof -
  have "unat a < unat b" "unat b < 2 ^ 32" using assms unsigned_less [of b] by (simp_all add: word_less_nat_alt)
  then show ?thesis by (simp add: unat_word_ariths)
qed

lemma consume_loop_ends:
  assumes "max_polls opts = Some limit" and "unat limit \<le> unat (poll st) + n"
  shows "\<exists>evs r w'. consume_loop env b opts peer price n (st, w) = (evs, Some r, w') \<and> length evs \<le> unat limit - unat (poll st)"
  using assms(2)
proof (induction n arbitrary: st w)
  case 0
  then show ?case using assms(1) by (simp add: polls_left_def word_less_nat_alt)
next
  case (Suc n)
  show ?case
  proof (cases "polls_left opts st")
    case True
    then have less: "poll st < limit" using assms(1) by (simp add: polls_left_def)
    then have grow: "unat (poll st + 1) = Suc (unat (poll st))"
      using less_word_one by blast
    show ?thesis
    proof (cases "consume_poll env b opts peer price (st, w)")
      case (Pair x v)
      show ?thesis
      proof (cases x)
        case (Inr y)
        obtain st' ev where y: "y = (st', ev)" by (cases y)
        have p: "poll st' = poll st + 1" using Pair Inr y by (intro consume_poll_count) simp
        have "unat limit \<le> unat (poll st') + n" using Suc.prems p grow by simp
        from Suc.IH [OF this, of v] obtain evs r w' where
          l: "consume_loop env b opts peer price n (st', v) = (evs, Some r, w')" "length evs \<le> unat limit - unat (poll st')"
          by blast
        then show ?thesis using True Pair Inr y p grow less by (auto simp: word_less_nat_alt)
      qed (use True Pair in simp)
    qed
  qed simp
qed

text \<open>
  A bounded purchase ends: with \<open>max_polls\<close> set, the run is over, in success or with an error, after
  at most that many polls, and reports at most one event for each and one for its start.
\<close>

theorem bounded_consume_ends:
  assumes "max_polls opts = Some limit"
  shows "\<exists>evs r w'. run_consume env b opts (unat limit) w = (evs, Some r, w') \<and> length evs \<le> Suc (unat limit)"
proof (cases "pay env b (amount_sat opts) w")
  case (Pair x w1)
  show ?thesis
  proof (cases x)
    case (Inr paid)
    let ?st = "\<lparr> poll = 0, acked_received = 0, meter_baseline = raw_received env opts (upstream_meter env opts b) w1,
      paid_scaled = saturating_mul (amount_sat opts) PRICING_SCALE \<rparr>"
    have "unat limit \<le> unat (poll ?st) + unat limit" by simp
    from consume_loop_ends [OF assms this] obtain evs r w' where
      "consume_loop env b opts (paid_pubkey_hex paid) (price_from_sheet (paid_price_sheet paid)) (unat limit) (?st, w1) =
         (evs, Some r, w')" "length evs \<le> unat limit" by fastforce
    then show ?thesis using Pair Inr by (auto simp: run_consume_def Let_def)
  qed (use Pair in \<open>simp add: run_consume_def\<close>)
qed

subsection \<open>The accounts of a run\<close>

text \<open>
  What a run did is observed at the boundary of the program: the tokens the wallet built and the
  requests with their replies, newest first. Observing changes nothing else.
\<close>

datatype wire = Built u64 "string + bytes" | Posted string bytes "string + bytes"

definition observed :: "'w client_env \<Rightarrow> ('w \<times> wire list) client_env" where
  "observed env =
     \<lparr> c_cdc = c_cdc env, c_hex = c_hex env,
       c_post = (\<lambda>url body (w, obs). let (r, w') = c_post env url body w in (r, w', Posted url body r # obs)),
       c_token = (\<lambda>mint amount (w, obs). let (r, w') = c_token env mint amount w in (r, w', Built amount r # obs)),
       c_resolve = c_resolve env, c_read_upstream = (\<lambda>ip (w, obs). c_read_upstream env ip w),
       c_read_iface = (\<lambda>iface (w, obs). c_read_iface env iface w),
       c_ensure_counter = (\<lambda>ip (w, obs). (c_ensure_counter env ip w, obs)) \<rparr>"

text \<open>A request that carries a token, and a reply whose first acknowledgement has the status of acceptance.\<close>

definition carries :: "codec \<Rightarrow> bytes \<Rightarrow> bytes \<Rightarrow> bool" where
  "carries cdc token body \<longleftrightarrow>
     (case decode_frames body of
        Inl _ \<Rightarrow> False
      | Inr ms \<Rightarrow> enc_bootstrap_token cdc (BootstrapToken_new token) \<in> set ms)"

definition acknowledges :: "codec \<Rightarrow> string + bytes \<Rightarrow> bool" where
  "acknowledges cdc reply \<longleftrightarrow>
     (case reply of
        Inl _ \<Rightarrow> False
      | Inr bs \<Rightarrow>
          (case decode_frames bs of
             Inl _ \<Rightarrow> False
           | Inr ms \<Rightarrow>
               (case find_ack cdc ms of None \<Rightarrow> False | Some ack \<Rightarrow> ba_status ack = STATUS_ACCEPTED)))"

text \<open>What the peer has taken: the tokens that were sent to it and that it acknowledged as accepted.\<close>

fun sats_taken :: "codec \<Rightarrow> string \<Rightarrow> wire list \<Rightarrow> nat" where
  "sats_taken cdc endpoint [] = 0"
| "sats_taken cdc endpoint (e # obs) =
     (case (e, obs) of
        (Posted url body reply, Built amount (Inr token) # _) \<Rightarrow>
          if url = endpoint \<and> carries cdc token body \<and> acknowledges cdc reply then unat amount else 0
      | _ \<Rightarrow> 0) + sats_taken cdc endpoint obs"

abbreviation taken_from :: "'w client_env \<Rightarrow> buyer \<Rightarrow> wire list \<Rightarrow> nat" where
  "taken_from env b \<equiv> sats_taken (c_cdc env) (trim_end_matches (CHR ''/'') (b_base_url b) @ ''/tollgate/v1/exchange'')"

definition settled :: "wire list \<Rightarrow> bool" where
  "settled obs \<longleftrightarrow> (case obs of Built _ _ # _ \<Rightarrow> False | _ \<Rightarrow> True)"

lemma settled_post: "settled obs \<Longrightarrow> sats_taken cdc ep (Posted url body r # obs) = sats_taken cdc ep obs"
  by (auto simp: settled_def split: list.split wire.split)

lemma observed_sel [simp]:
  "c_cdc (observed env) = c_cdc env" "c_hex (observed env) = c_hex env" "c_resolve (observed env) = c_resolve env"
  "c_read_upstream (observed env) ip (w, obs) = c_read_upstream env ip w"
  "c_read_iface (observed env) iface (w, obs) = c_read_iface env iface w"
  "c_ensure_counter (observed env) ip (w, obs) = (c_ensure_counter env ip w, obs)"
  by (simp_all add: observed_def)

lemma observed_parts [simp]:
  "our_announce (observed env) b = our_announce env b" "pay_body (observed env) b t = pay_body env b t"
  "poll_body (observed env) b n = poll_body env b n" "upstream_meter (observed env) opts b = upstream_meter env opts b"
  "raw_received (observed env) opts ip (w, obs) = raw_received env opts ip w"
  by (simp_all add: our_announce_def pay_body_def poll_body_def upstream_meter_def resolve_host_ip_def
    raw_received_def split: option.split sum.split)

lemma measure_observed:
  "measure_received (observed env) opts ip n (w, obs) =
     (let (m, w') = measure_received env opts ip n w in (m, w', obs))"
  by (simp add: measure_received_def Let_def split: option.split)

lemma pay_body_carries:
  assumes "pay_body env b token = Inr body"
  shows "carries (c_cdc env) token body"
proof -
  let ?ms = "[our_announce env b, enc_bootstrap_token (c_cdc env) (BootstrapToken_new token)]"
  have "encode_frames ?ms [] = Inr body" using assms by (auto simp: pay_body_def split: sum.splits)
  then have "list_all framable ?ms" "body = concat (map frame_bytes ?ms)"
    unfolding encode_frames_eq by (simp_all split: if_splits)
  then have "decode_frames body = Inr ?ms"
    using decode_loop_frames [of ?ms "[]" "[]"] by (simp add: decode_frames_def)
  then show ?thesis by (simp add: carries_def)
qed

lemma exchange_observed:
  assumes "exchange (observed env) url body (w, obs) = (x, w', obs')"
  shows "exchange env url body w = (x, w') \<and>
    (\<exists>raw. obs' = Posted (trim_end_matches (CHR ''/'') url @ ''/tollgate/v1/exchange'') body raw # obs \<and>
       (\<forall>ms. x = Inr ms \<longrightarrow> (\<exists>bs. raw = Inr bs \<and> decode_frames bs = Inr ms)))"
  using assms
  by (auto simp: exchange_def observed_def Let_def split: prod.splits sum.splits)

lemma pay_observed:
  assumes "pay (observed env) b a (w, obs) = (r, w', obs')"
  shows "pay env b a w = (r, w') \<and> taken_from env b obs \<le> taken_from env b obs' \<and>
    (\<forall>receipt. r = Inr receipt \<longrightarrow>
       settled obs' \<and> taken_from env b obs' = taken_from env b obs + (if paid_accepted receipt then unat a else 0))"
proof -
  obtain t w1 where t: "c_token env (b_mint_url b) a w = (t, w1)" by (cases "c_token env (b_mint_url b) a w")
  then have t': "c_token (observed env) (b_mint_url b) a (w, obs) = (t, w1, Built a t # obs)"
    by (simp add: observed_def)
  show ?thesis
  proof (cases t)
    case (Inl e)
    then show ?thesis using assms t t' by (auto simp: pay_def)
  next
    case token: (Inr token)
    show ?thesis
    proof (cases "pay_body env b token")
      case (Inl e)
      then show ?thesis using assms t t' token by (auto simp: pay_def)
    next
      case (Inr body)
      obtain x w2 obs2 where x: "exchange (observed env) (b_base_url b) body (w1, Built a t # obs) = (x, w2, obs2)"
        by (cases "exchange (observed env) (b_base_url b) body (w1, Built a t # obs)") auto
      then obtain raw where ex: "exchange env (b_base_url b) body w1 = (x, w2)"
        and obs2: "obs2 = Posted (trim_end_matches (CHR ''/'') (b_base_url b) @ ''/tollgate/v1/exchange'') body raw # Built a t # obs"
        and raw: "\<And>ms. x = Inr ms \<Longrightarrow> \<exists>bs. raw = Inr bs \<and> decode_frames bs = Inr ms"
        using exchange_observed [OF x] by blast
      have taken: "taken_from env b obs2 = taken_from env b obs + (if acknowledges (c_cdc env) raw then unat a else 0)"
        by (simp add: obs2 token pay_body_carries [OF Inr])
      show ?thesis
      proof (cases x)
        case (Inl e)
        then show ?thesis using assms t t' token Inr ex x taken by (auto simp: pay_def)
      next
        case ms: (Inr ms)
        then have ack: "acknowledges (c_cdc env) raw \<longleftrightarrow> (\<exists>ack. find_ack (c_cdc env) ms = Some ack \<and> is_accepted ack)"
          using raw by (auto simp: acknowledges_def is_accepted_def split: option.split)
        show ?thesis using assms t t' token Inr ex x ms taken ack
          by (auto simp: pay_def settled_def obs2 split: option.splits if_splits)
      qed
    qed
  qed
qed

lemma topup_observed:
  assumes "topup_step (observed env) b opts cutoff cost paid (w, obs) = (r, w', obs')"
  shows "topup_step env b opts cutoff cost paid w = (r, w') \<and> taken_from env b obs \<le> taken_from env b obs' \<and>
    (\<forall>paid' topped. r = Inr (paid', topped) \<longrightarrow> settled obs \<longrightarrow> settled obs' \<and>
       taken_from env b obs' = taken_from env b obs + (if topped then unat (topup_sat opts) else 0) \<and>
       paid' = (if \<not> topped then paid else let t = saturating_mul (topup_sat opts) PRICING_SCALE
                in if cutoff then t else saturating_add paid t))"
proof (cases "needs_topup cutoff paid cost (saturating_mul (topup_sat opts) PRICING_SCALE)")
  case True
  obtain p w1 obs1 where p: "pay (observed env) b (topup_sat opts) (w, obs) = (p, w1, obs1)"
    by (cases "pay (observed env) b (topup_sat opts) (w, obs)") auto
  note pay = pay_observed [OF p]
  show ?thesis
  proof (cases p)
    case (Inl e)
    then have "r = Inl e" "w' = w1" "obs' = obs1" using assms by (simp_all add: topup_step_def True p)
    moreover have "topup_step env b opts cutoff cost paid w = (Inl e, w1)" using pay Inl by (simp add: topup_step_def True)
    ultimately show ?thesis using pay by simp
  next
    case (Inr receipt)
    let ?t = "saturating_mul (topup_sat opts) PRICING_SCALE"
    let ?r = "Inr (if paid_accepted receipt then (if cutoff then ?t else saturating_add paid ?t, True) else (paid, False))"
    have "r = ?r" "w' = w1" "obs' = obs1" using assms Inr by (simp_all add: topup_step_def True p Let_def)
    moreover have "topup_step env b opts cutoff cost paid w = (?r, w1)" using pay Inr by (simp add: topup_step_def True Let_def)
    ultimately show ?thesis using pay Inr by (cases "paid_accepted receipt") (simp_all add: Let_def)
  qed
next
  case False
  then show ?thesis using assms by (auto simp: topup_step_def Let_def)
qed

lemma poll_observed:
  assumes "consume_poll (observed env) b opts peer price (st, w, obs) = (r, w', obs')" and "settled obs"
  shows "consume_poll env b opts peer price (st, w) = (r, w') \<and> taken_from env b obs \<le> taken_from env b obs' \<and>
    (\<forall>st' ev. r = Inr (st', ev) \<longrightarrow> settled obs' \<and> ev_paid_scaled ev = paid_scaled st' \<and>
       taken_from env b obs' = taken_from env b obs + (if ev_topped_up ev then unat (topup_sat opts) else 0) \<and>
       paid_scaled st' = (if \<not> ev_topped_up ev then paid_scaled st else let t = saturating_mul (topup_sat opts) PRICING_SCALE
                          in if ev_cut_off ev then t else saturating_add (paid_scaled st) t))"
proof (cases "poll_body env b (acked_received st)")
  case (Inl e)
  then show ?thesis using assms by (auto simp: consume_poll_def)
next
  case (Inr body)
  obtain x w1 obs1 where x: "exchange (observed env) (b_base_url b) body (w, obs) = (x, w1, obs1)"
    by (cases "exchange (observed env) (b_base_url b) body (w, obs)") auto
  have ex: "exchange env (b_base_url b) body w = (x, w1)" and obs1: "taken_from env b obs1 = taken_from env b obs" "settled obs1"
    using exchange_observed [OF x] settled_post [OF assms(2)] by (auto simp: settled_def)
  show ?thesis
  proof (cases x)
    case (Inl e)
    then show ?thesis using assms Inr x ex obs1 by (auto simp: consume_poll_def)
  next
    case ms: (Inr ms)
    define cut baseline report where "cut = balance_exhausted (c_cdc env) ms"
      and "baseline = (if cut then raw_received env opts (upstream_meter env opts b) w1 else meter_baseline st)"
      and "report = find_metering_report (c_cdc env) ms"
    obtain m w2 where m: "measure_received env opts (upstream_meter env opts b) baseline w1 = (m, w2)"
      by (cases "measure_received env opts (upstream_meter env opts b) baseline w1")
    obtain t w3 obs3 where t: "topup_step (observed env) b opts cut (report_cost price m report) (paid_scaled st) (w2, obs1) = (t, w3, obs3)"
      by (cases "topup_step (observed env) b opts cut (report_cost price m report) (paid_scaled st) (w2, obs1)") auto
    note top = topup_observed [OF t]
    let ?result = "\<lambda>acked. case t of Inl e \<Rightarrow> Inl e | Inr (paid', topped) \<Rightarrow>
      Inr (\<lparr> poll = poll st + 1, acked_received = acked, meter_baseline = baseline, paid_scaled = paid' \<rparr>,
           \<lparr> ev_poll = poll st + 1, ev_peer_pubkey = peer, ev_price = price, ev_paid_scaled = paid',
             ev_remaining_scaled = saturating_sub_i64 paid' (report_cost price m report), ev_report = report,
             ev_cut_off = cut, ev_topped_up = topped, ev_drift = report_drift m report \<rparr>)"
    let ?acked = "next_ack opts m report (if cut then 0 else acked_received st)"
    have base: "(if cut then raw_received (observed env) opts (upstream_meter env opts b) (w1, obs1) else meter_baseline st) = baseline"
      "(if cut then raw_received env opts (upstream_meter env opts b) w1 else meter_baseline st) = baseline"
      by (simp_all add: baseline_def)
    have "consume_poll env b opts peer price (st, w) = (?result ?acked, w3)"
      using m top
      by (simp add: consume_poll_def Inr ex ms Let_def base flip: cut_def report_def split: sum.split prod.split) (simp add: baseline_def)
    moreover have "consume_poll (observed env) b opts peer price (st, w, obs) = (?result ?acked, w3, obs3)"
      using m t
      by (simp add: consume_poll_def Inr x ms Let_def measure_observed base flip: cut_def report_def split: sum.split prod.split) (simp add: baseline_def)
    then have "r = ?result ?acked" "w' = w3" "obs' = obs3" using assms(1) by simp_all
    ultimately show ?thesis
    proof (cases t)
      case (Inr z)
      obtain paid' topped where z: "z = (paid', topped)" by (cases z)
      show ?thesis unfolding \<open>consume_poll env b opts peer price (st, w) = _\<close> \<open>r = _\<close> \<open>w' = w3\<close> \<open>obs' = obs3\<close>
        using top obs1 unfolding Inr z by simp
    qed (use top obs1 in simp)
  qed
qed

lemma scaled_le: "unat (saturating_mul n PRICING_SCALE) \<le> 1000 * unat n"
  by (simp add: rust_num PRICING_SCALE_def)

lemma scaled_exact: "1000 * unat n < 2 ^ 64 \<Longrightarrow> unat (saturating_mul n PRICING_SCALE) = 1000 * unat n"
  by (simp add: rust_num PRICING_SCALE_def mult.commute)

text \<open>What one poll makes of a credit that is at most, or exactly, \<open>n\<close> sats.\<close>

lemma credit_step:
  assumes "paid' = (if \<not> topped then paid else let t = saturating_mul topup PRICING_SCALE
                    in if cutoff then t else saturating_add paid t)"
  shows "unat paid \<le> 1000 * n \<Longrightarrow> unat paid' \<le> 1000 * (n + (if topped then unat topup else 0))"
    and "unat paid = 1000 * n \<Longrightarrow> \<not> cutoff \<Longrightarrow> 1000 * (n + (if topped then unat topup else 0)) < 2 ^ 64 \<Longrightarrow>
      unat paid' = 1000 * (n + (if topped then unat topup else 0))"
proof -
  have sum: "unat (saturating_add a b) = min (unat a + unat b) (2 ^ 64 - 1)" for a b :: u64
    by (simp add: unat_saturating_add)
  show "unat paid \<le> 1000 * n \<Longrightarrow> unat paid' \<le> 1000 * (n + (if topped then unat topup else 0))"
    using assms scaled_le [of topup] sum [of paid "saturating_mul topup PRICING_SCALE"]
    by (cases topped; cases cutoff) (simp_all add: Let_def)
  show "unat paid' = 1000 * (n + (if topped then unat topup else 0))"
    if "unat paid = 1000 * n" "\<not> cutoff" "1000 * (n + (if topped then unat topup else 0)) < 2 ^ 64"
  proof (cases topped)
    case True
    have "1000 * unat topup < 2 ^ 64" using that(3) True by simp
    then have "unat paid' = min (1000 * n + 1000 * unat topup) (2 ^ 64 - 1)"
      using assms True that(1,2) by (simp only: Let_def sum scaled_exact simp_thms if_True if_False)
    then show ?thesis using that(3) True by simp
  qed (use assms that(1) in simp)
qed

text \<open>
  The credit after a run of the loop, from a state whose credit is at most, or exactly, what was taken
  before.
\<close>

lemma loop_observed:
  assumes "consume_loop (observed env) b opts peer price n (st, w, obs) = (evs, r, w', obs')" and "settled obs"
  shows "consume_loop env b opts peer price n (st, w) = (evs, r, w') \<and> taken_from env b obs \<le> taken_from env b obs' \<and>
    (unat (paid_scaled st) \<le> 1000 * taken_from env b obs \<longrightarrow>
       (\<forall>ev \<in> set evs. unat (ev_paid_scaled ev) \<le> 1000 * taken_from env b obs')) \<and>
    (unat (paid_scaled st) = 1000 * taken_from env b obs \<longrightarrow> list_all (\<lambda>ev. \<not> ev_cut_off ev) evs \<longrightarrow>
       (\<forall>e. r \<noteq> Some (Inl e)) \<longrightarrow> 1000 * taken_from env b obs' < 2 ^ 64 \<longrightarrow>
       unat (last (paid_scaled st # map ev_paid_scaled evs)) = 1000 * taken_from env b obs')"
  using assms
proof (induction n arbitrary: st w obs evs)
  case 0
  then show ?case by simp
next
  case (Suc n)
  show ?case
  proof (cases "polls_left opts st")
    case False
    then show ?thesis using Suc.prems by simp
  next
    case True
    obtain p w1 obs1 where p: "consume_poll (observed env) b opts peer price (st, w, obs) = (p, w1, obs1)"
      by (cases "consume_poll (observed env) b opts peer price (st, w, obs)") auto
    note poll = poll_observed [OF p Suc.prems(2)]
    show ?thesis
    proof (cases p)
      case (Inl e)
      then show ?thesis using Suc.prems(1) True p poll by auto
    next
      case (Inr y)
      obtain st' ev where y: "y = (st', ev)" by (cases y)
      obtain evs' where l: "consume_loop (observed env) b opts peer price n (st', w1, obs1) = (evs', r, w', obs')" and evs: "evs = ev # evs'"
        using Suc.prems(1) True p Inr y by (auto simp: Let_def split: prod.splits)
      have s: "settled obs1" "ev_paid_scaled ev = paid_scaled st'"
        and tk: "taken_from env b obs1 = taken_from env b obs + (if ev_topped_up ev then unat (topup_sat opts) else 0)"
        and pd: "paid_scaled st' = (if \<not> ev_topped_up ev then paid_scaled st else let t = saturating_mul (topup_sat opts) PRICING_SCALE
                            in if ev_cut_off ev then t else saturating_add (paid_scaled st) t)"
        using poll unfolding Inr y by blast+
      note IH = Suc.IH [OF l s(1)]
      note le = credit_step(1) [OF pd, of "taken_from env b obs", folded tk] and eq = credit_step(2) [OF pd, of "taken_from env b obs", folded tk]
      have "consume_loop env b opts peer price (Suc n) (st, w) = (evs, r, w')"
      proof -
        have "consume_poll env b opts peer price (st, w) = (Inr (st', ev), w1)"
          "consume_loop env b opts peer price n (st', w1) = (evs', r, w')"
          using poll IH unfolding Inr y by blast+
        then show ?thesis using True by (simp add: evs)
      qed
      moreover have mono: "taken_from env b obs1 \<le> taken_from env b obs'" "taken_from env b obs \<le> taken_from env b obs'"
        using IH tk by simp_all
      moreover have "\<forall>ev \<in> set evs. unat (ev_paid_scaled ev) \<le> 1000 * taken_from env b obs'"
        if "unat (paid_scaled st) \<le> 1000 * taken_from env b obs"
      proof -
        have "unat (ev_paid_scaled ev) \<le> 1000 * taken_from env b obs'" using le [OF that] mono(1) s(2) by simp
        then show ?thesis using IH le [OF that] by (simp add: evs)
      qed
      moreover have "unat (last (paid_scaled st # map ev_paid_scaled evs)) = 1000 * taken_from env b obs'"
        if "unat (paid_scaled st) = 1000 * taken_from env b obs" "list_all (\<lambda>ev. \<not> ev_cut_off ev) evs"
          "\<forall>e. r \<noteq> Some (Inl e)" "1000 * taken_from env b obs' < 2 ^ 64"
      proof -
        have "1000 * taken_from env b obs1 < 2 ^ 64" using that(4) mono(1) by linarith
        then have "unat (paid_scaled st') = 1000 * taken_from env b obs1" using eq that(1,2) by (simp add: evs)
        then have "unat (last (paid_scaled st' # map ev_paid_scaled evs')) = 1000 * taken_from env b obs'"
          using IH that(3,4) that(2) [unfolded evs list.pred_inject(2)] by blast
        then show ?thesis by (simp add: evs s(2))
      qed
      ultimately show ?thesis by blast
    qed
  qed
qed

text \<open>
  C17. The buyer's accounts agree with its peer's answers. Observed on the wire, at every event of a run the credit the
  buyer believes to have is at most the value of the tokens that were sent to the peer and that the peer acknowledged as
  accepted; and as long as the peer never cut the buyer off, it is exactly that, in milli-units. A payment the peer refused, or
  did not answer, counts for nothing.
\<close>

theorem buyer_credit_bounded:
  assumes "run_consume (observed env) b opts n (w, []) = (evs, r, w', obs)"
  shows "run_consume env b opts n w = (evs, r, w') \<and>
    (\<forall>ev \<in> set evs. unat (ev_paid_scaled ev) \<le> 1000 * taken_from env b obs) \<and>
    (list_all (\<lambda>ev. \<not> ev_cut_off ev) evs \<and> (\<forall>e. r \<noteq> Some (Inl e)) \<and> 1000 * taken_from env b obs < 2 ^ 64 \<longrightarrow>
       unat (ev_paid_scaled (last evs)) = 1000 * taken_from env b obs)"
proof -
  obtain p w1 obs1 where p: "pay (observed env) b (amount_sat opts) (w, []) = (p, w1, obs1)"
    by (cases "pay (observed env) b (amount_sat opts) (w, [])") auto
  note pay = pay_observed [OF p]
  show ?thesis
  proof (cases p)
    case (Inl e)
    then show ?thesis using assms p pay by (auto simp: run_consume_def)
  next
    case (Inr paid)
    show ?thesis
    proof (cases "paid_accepted paid")
      case False
      then show ?thesis using assms p pay Inr by (auto simp: run_consume_def)
    next
      case True
      define st where "st = \<lparr> poll = 0, acked_received = 0, meter_baseline = raw_received env opts (upstream_meter env opts b) w1,
        paid_scaled = saturating_mul (amount_sat opts) PRICING_SCALE \<rparr>"
      define price peer where "price = price_from_sheet (paid_price_sheet paid)" and "peer = paid_pubkey_hex paid"
      obtain evs' where l: "consume_loop (observed env) b opts peer price n (st, w1, obs1) = (evs', r, w', obs)"
        using assms p Inr True by (auto simp: run_consume_def Let_def st_def price_def peer_def split: prod.splits)
      have s: "settled obs1" and tk: "taken_from env b obs1 = unat (amount_sat opts)" using pay Inr True by simp_all
      note loop = loop_observed [OF l s]
      have run: "run_consume env b opts n w = (evs, r, w')" and evs: "map ev_paid_scaled evs = paid_scaled st # map ev_paid_scaled evs'"
        "list_all (\<lambda>ev. \<not> ev_cut_off ev) evs = list_all (\<lambda>ev. \<not> ev_cut_off ev) evs'"
        using assms p pay Inr True l loop by (auto simp: run_consume_def Let_def st_def price_def peer_def)
      have scale: "unat (paid_scaled st) \<le> 1000 * taken_from env b obs1"
        "1000 * unat (amount_sat opts) < 2 ^ 64 \<Longrightarrow> unat (paid_scaled st) = 1000 * taken_from env b obs1"
        using scaled_le scaled_exact by (simp_all add: st_def tk)
      have all: "\<forall>x \<in> set (map ev_paid_scaled evs). unat x \<le> 1000 * taken_from env b obs"
        unfolding evs(1) using loop scale(1) by auto
      have "evs \<noteq> []" using evs(1) by auto
      then have last: "ev_paid_scaled (last evs) = last (paid_scaled st # map ev_paid_scaled evs')"
        unfolding evs(1) [symmetric] by (simp add: last_map)
      have "unat (ev_paid_scaled (last evs)) = 1000 * taken_from env b obs"
        if "list_all (\<lambda>ev. \<not> ev_cut_off ev) evs" "\<forall>e. r \<noteq> Some (Inl e)" "1000 * taken_from env b obs < 2 ^ 64"
      proof -
        have "1000 * unat (amount_sat opts) < 2 ^ 64" using that(3) loop tk by linarith
        then show ?thesis unfolding last using that loop scale(2) evs(2) by blast
      qed
      then show ?thesis using run all by simp
    qed
  qed
qed

text \<open>A peer that accepts every payment and reports nothing.\<close>

definition sample_client :: "unit client_env" where
  "sample_client =
     \<lparr> c_cdc = sample_codec, c_hex = (\<lambda>_. ''k''),
       c_post = (\<lambda>_ _ w. (Inr ([2, 0, MessageType_as_u8 Announce, 1] @ [2, 0, MessageType_as_u8 BootstrapAck, STATUS_ACCEPTED]), w)),
       c_token = (\<lambda>_ _ w. (Inr [99], w)), c_resolve = (\<lambda>_. None), c_read_upstream = (\<lambda>_ _. 0),
       c_read_iface = (\<lambda>_ _. 0), c_ensure_counter = (\<lambda>_ w. w) \<rparr>"

definition sample_buyer :: buyer where
  "sample_buyer = \<lparr> b_base_url = ''http://peer:4747'', b_key = [1], b_unit = ''bytes'', b_mint_url = ''m'' \<rparr>"

definition sample_opts :: ConsumeOpts where
  "sample_opts = \<lparr> amount_sat = 8, topup_sat = 8, max_polls = Some 3, understate_received_pct = 0, meter_iface = None, meter_upstream = False \<rparr>"

lemma sample_exchange:
  "exchange sample_client url body w =
     (Inr [[MessageType_as_u8 Announce, 1], [MessageType_as_u8 BootstrapAck, STATUS_ACCEPTED]], w)"
  by (simp add: exchange_def sample_client_def decode_frames_def decode_loop.simps u16_from_le_bytes_def Let_def
    STATUS_ACCEPTED_def)

lemma ack_messages:
  "find_announce sample_codec [[MessageType_as_u8 Announce, 1], [MessageType_as_u8 BootstrapAck, x]] \<noteq> None"
  "find_ack sample_codec [[MessageType_as_u8 Announce, 1], [MessageType_as_u8 BootstrapAck, x]] =
     Some \<lparr> ba_type_tag = MessageType_as_u8 BootstrapAck, ba_status = x, ba_reason = None \<rparr>"
  "find_metering_report sample_codec [[MessageType_as_u8 Announce, 1], [MessageType_as_u8 BootstrapAck, x]] = None"
  "\<not> balance_exhausted sample_codec [[MessageType_as_u8 Announce, 1], [MessageType_as_u8 BootstrapAck, x]]"
  by (simp_all add: find_announce_def find_ack_def find_metering_report_def balance_exhausted_def of_type_def
    del: MessageType_as_u8.simps) (simp_all add: sample_codec_def List.map_filter_simps)

lemmas sample_messages = ack_messages [of STATUS_ACCEPTED]

lemma sample_pay:
  "\<exists>receipt. pay sample_client sample_buyer n w = (Inr receipt, w) \<and> paid_accepted receipt"
proof -
  have "\<exists>body. pay_body sample_client sample_buyer [99] = Inr body"
    by (simp add: pay_body_def our_announce_def sample_client_def sample_buyer_def encode_frame_def sample_codec_def
      MAX_FRAME_LEN_def Announce_new_def BootstrapToken_new_def)
  moreover have "c_token sample_client m k w = (Inr [99], w)" "c_cdc sample_client = sample_codec" for m k
    by (simp_all add: sample_client_def)
  ultimately show ?thesis using sample_messages
    by (auto simp: pay_def sample_exchange is_accepted_def)
qed

definition sample_state :: consume_state where
  "sample_state = \<lparr> poll = 0, acked_received = 0, meter_baseline = 0, paid_scaled = 8000 \<rparr>"

lemma sample_poll:
  "\<exists>st ev. consume_poll sample_client sample_buyer sample_opts peer price (sample_state, ()) = (Inr (st, ev), ()) \<and>
     \<not> ev_topped_up ev \<and> \<not> ev_cut_off ev \<and> st = \<lparr> poll = 1, acked_received = 0, meter_baseline = 0, paid_scaled = 8000 \<rparr>"
proof -
  have "\<exists>body. poll_body sample_client sample_buyer 0 = Inr body"
    by (simp add: poll_body_def our_announce_def sample_client_def sample_buyer_def encode_frame_def sample_codec_def
      MAX_FRAME_LEN_def Announce_new_def)
  moreover have "saturating_sub_i64 8000 0 = 8000" "saturating_mul 8 PRICING_SCALE = 8000"
    by (simp_all add: saturating_sub_i64_def saturating_mul_def PRICING_SCALE_def)
  moreover have "c_cdc sample_client = sample_codec" by (simp add: sample_client_def)
  ultimately show ?thesis using sample_messages
    by (auto simp: consume_poll_def sample_state_def sample_opts_def sample_exchange upstream_meter_def measure_received_def
      next_ack_def report_cost_def topup_step_def needs_topup_def Let_def)
qed

theorem watermark_kept_witness:
  "\<exists>st ev. consume_poll sample_client sample_buyer sample_opts ''peer'' Price_default (sample_state, ()) = (Inr (st, ev), ()) \<and>
     ((\<not> ev_cut_off ev \<and> sint (saturating_mul (topup_sat sample_opts) PRICING_SCALE) \<le> sint (ev_remaining_scaled ev)) \<or>
      (\<exists>before receipt. pay sample_client sample_buyer (topup_sat sample_opts) before = (Inr receipt, ()) \<and> \<not> paid_accepted receipt))"
proof -
  obtain st ev where p: "consume_poll sample_client sample_buyer sample_opts ''peer'' Price_default (sample_state, ()) = (Inr (st, ev), ())"
    "\<not> ev_topped_up ev" using sample_poll by blast
  from p(1) watermark_kept [OF p] show ?thesis by blast
qed

theorem bounded_consume_ends_witness:
  "\<exists>evs r w'. run_consume sample_client sample_buyer sample_opts 3 () = (evs, Some r, w') \<and> length evs \<le> 4"
  using bounded_consume_ends [of sample_opts 3 sample_client sample_buyer "()"] by (simp add: sample_opts_def)

text \<open>A peer that refuses every second payment; its state counts the tokens built.\<close>

definition fickle_client :: "nat client_env" where
  "fickle_client =
     \<lparr> c_cdc = sample_codec, c_hex = (\<lambda>_. ''k''),
       c_post = (\<lambda>_ _ w. (Inr ([2, 0, MessageType_as_u8 Announce, 1] @
           [2, 0, MessageType_as_u8 BootstrapAck, if odd w then STATUS_ACCEPTED else 9]), w)),
       c_token = (\<lambda>_ _ w. (Inr [99], w + 1)), c_resolve = (\<lambda>_. None), c_read_upstream = (\<lambda>_ _. 0),
       c_read_iface = (\<lambda>_ _. 0), c_ensure_counter = (\<lambda>_ w. w) \<rparr>"

definition eager_opts :: ConsumeOpts where
  "eager_opts = sample_opts\<lparr> topup_sat := 20 \<rparr>"

lemma fickle_exchange:
  "exchange (observed fickle_client) (b_base_url sample_buyer) body (w, obs) =
     (Inr [[MessageType_as_u8 Announce, 1], [MessageType_as_u8 BootstrapAck, if odd w then STATUS_ACCEPTED else 9]], w,
      Posted ''http://peer:4747/tollgate/v1/exchange'' body (Inr ([2, 0, MessageType_as_u8 Announce, 1] @
           [2, 0, MessageType_as_u8 BootstrapAck, if odd w then STATUS_ACCEPTED else 9])) # obs)"
  by (simp add: exchange_def observed_def fickle_client_def sample_buyer_def trim_end_matches_def decode_frames_def
    decode_loop.simps u16_from_le_bytes_def Let_def STATUS_ACCEPTED_def)

lemma fickle_pay:
  "\<exists>receipt obs'. pay (observed fickle_client) sample_buyer a (w, obs) = (Inr receipt, w + 1, obs') \<and>
     paid_accepted receipt = even w"
proof -
  have "\<exists>body. pay_body fickle_client sample_buyer [99] = Inr body"
    by (simp add: pay_body_def our_announce_def fickle_client_def sample_buyer_def encode_frame_def sample_codec_def
      MAX_FRAME_LEN_def Announce_new_def BootstrapToken_new_def)
  moreover have "c_token (observed fickle_client) m k (w, obs) = (Inr [99], w + 1, Built k (Inr [99]) # obs)" for m k
    by (simp add: observed_def fickle_client_def)
  moreover have "c_cdc fickle_client = sample_codec" by (simp add: fickle_client_def)
  moreover obtain an where "find_announce sample_codec
      [[MessageType_as_u8 Announce, 1], [MessageType_as_u8 BootstrapAck, if odd (w + 1) then STATUS_ACCEPTED else 9]] = Some an"
    using ack_messages(1) by blast
  ultimately show ?thesis
    by (auto simp: pay_def fickle_exchange ack_messages(2) is_accepted_def STATUS_ACCEPTED_def simp del: MessageType_as_u8.simps)
qed

lemma fickle_poll:
  assumes "paid_scaled st = 8000" and "acked_received st = 0"
  shows "\<exists>st' ev obs'. consume_poll (observed fickle_client) sample_buyer eager_opts peer price (st, w, obs) = (Inr (st', ev), w + 1, obs') \<and>
    \<not> ev_cut_off ev \<and> ev_paid_scaled ev = (if even w then 28000 else 8000) \<and> paid_scaled st' = ev_paid_scaled ev \<and>
    poll st' = poll st + 1 \<and> acked_received st' = 0"
proof -
  obtain body where body: "poll_body fickle_client sample_buyer 0 = Inr body"
    by (simp add: poll_body_def our_announce_def fickle_client_def sample_buyer_def encode_frame_def sample_codec_def
      MAX_FRAME_LEN_def Announce_new_def)
  have num: "saturating_sub_i64 8000 0 = 8000" "saturating_mul 20 PRICING_SCALE = 20000" "saturating_add 8000 20000 = (28000 :: u64)"
    by (simp_all add: saturating_sub_i64_def saturating_mul_def saturating_add_def PRICING_SCALE_def)
  have env: "c_cdc fickle_client = sample_codec" by (simp add: fickle_client_def)
  obtain receipt obs' where "pay (observed fickle_client) sample_buyer 20
      (w, snd (snd (exchange (observed fickle_client) (b_base_url sample_buyer) body (w, obs)))) = (Inr receipt, w + 1, obs')"
    "paid_accepted receipt = even w" using fickle_pay by blast
  then show ?thesis using body
    by (auto simp: consume_poll_def assms env eager_opts_def sample_opts_def fickle_exchange upstream_meter_def measure_received_def
      next_ack_def report_cost_def topup_step_def needs_topup_def num ack_messages Let_def simp del: MessageType_as_u8.simps)
qed

theorem buyer_credit_bounded_witness:
  "\<exists>evs w' obs. run_consume (observed fickle_client) sample_buyer eager_opts 2 (0, []) = (evs, None, w', obs) \<and>
     run_consume fickle_client sample_buyer eager_opts 2 0 = (evs, None, w') \<and>
     map ev_paid_scaled evs = [8000, 8000, 28000] \<and> 28 \<le> taken_from fickle_client sample_buyer obs \<and> w' = 3"
proof -
  have "\<exists>evs obs. run_consume (observed fickle_client) sample_buyer eager_opts 2 (0, []) = (evs, None, 3, obs) \<and>
    map ev_paid_scaled evs = [8000, 8000, 28000]"
  proof -
    obtain paid obs1 where p: "pay (observed fickle_client) sample_buyer 8 (0, []) = (Inr paid, 1, obs1)" "paid_accepted paid"
      using fickle_pay [of 8 0 "[]"] by auto
    let ?price = "price_from_sheet (paid_price_sheet paid)" and ?peer = "paid_pubkey_hex paid"
    let ?st = "\<lparr> poll = 0, acked_received = 0, meter_baseline = 0, paid_scaled = 8000 \<rparr>"
    obtain st2 ev2 obs2 where p2: "consume_poll (observed fickle_client) sample_buyer eager_opts ?peer ?price (?st, 1, obs1) =
        (Inr (st2, ev2), 2, obs2)" "ev_paid_scaled ev2 = 8000" "paid_scaled st2 = 8000" "acked_received st2 = 0" "poll st2 = 1"
      using fickle_poll [of ?st ?peer ?price 1 obs1] by auto
    obtain st3 ev3 obs3 where p3: "consume_poll (observed fickle_client) sample_buyer eager_opts ?peer ?price (st2, 2, obs2) =
        (Inr (st3, ev3), 3, obs3)" "ev_paid_scaled ev3 = 28000" "poll st3 = 2"
      using fickle_poll [of st2 ?peer ?price 2 obs2] p2 by auto
    have opts: "amount_sat eager_opts = 8" "max_polls eager_opts = Some 3" "\<not> meter_upstream eager_opts" "meter_iface eager_opts = None"
      by (simp_all add: eager_opts_def sample_opts_def)
    have loop: "consume_loop (observed fickle_client) sample_buyer eager_opts ?peer ?price 2 (?st, 1, obs1) = ([ev2, ev3], None, 3, obs3)"
    proof -
      have "polls_left eager_opts ?st" "polls_left eager_opts st2" "polls_left eager_opts st3"
        using p2 p3 opts by (simp_all add: polls_left_def)
      then have "consume_loop (observed fickle_client) sample_buyer eager_opts ?peer ?price (Suc (Suc 0)) (?st, 1, obs1) = ([ev2, ev3], None, 3, obs3)"
        using p2(1) p3(1) by simp
      then show ?thesis unfolding numeral_2_eq_2 .
    qed
    have "raw_received (observed fickle_client) eager_opts (upstream_meter (observed fickle_client) eager_opts sample_buyer) v = 0" for v
      using opts by (cases v) (simp add: upstream_meter_def raw_received_def)
    moreover have "saturating_mul 8 PRICING_SCALE = 8000" by (simp add: saturating_mul_def PRICING_SCALE_def)
    ultimately show ?thesis using p loop p2(2) p3(2) opts(1) by (simp add: run_consume_def Let_def)
  qed
  then obtain evs obs where run: "run_consume (observed fickle_client) sample_buyer eager_opts 2 (0, []) = (evs, None, 3, obs)"
    and evs: "map ev_paid_scaled evs = [8000, 8000, 28000]" by (elim exE conjE)
  note credit = buyer_credit_bounded [OF run]
  have "(28000 :: u64) \<in> set (map ev_paid_scaled evs)" by (simp add: evs)
  then obtain ev where "ev \<in> set evs" "ev_paid_scaled ev = 28000" by auto
  with credit have "28000 \<le> 1000 * taken_from fickle_client sample_buyer obs" by force
  then show ?thesis using run evs credit by auto
qed

end
