(* ===== verification/V1_Http_Client.thy ===== *)
theory V1_Http_Client
  imports V1_Events Json
begin

section \<open>The HTTP client of the v1 protocol\<close>

text \<open>
  \<^verbatim>\<open>crates/tollgate-net/src/v1_compat/http_client.rs\<close>: fetching an advertisement with retries, paying
  with a token, polling the usage and asking for a Lightning invoice. The requests of \<^verbatim>\<open>reqwest\<close>, the
  clock and the timer are parameters over a world \<open>'w\<close>, as are the text forms of \<^verbatim>\<open>serde_json\<close>; a reply is
  its status and its text, each of which may be an error. \<open>ProbePanicked\<close> is the unwinding of
  \<^verbatim>\<open>last_err.unwrap()\<close> when no attempt was made; it is no value of the code's error type.
\<close>

record 'w http_api =
  http_get :: "string \<Rightarrow> 'w \<Rightarrow> (string + nat \<times> (string + string)) \<times> 'w"
  http_post :: "string \<Rightarrow> string \<Rightarrow> string \<Rightarrow> 'w \<Rightarrow> (string + nat \<times> (string + string)) \<times> 'w"
  sleep_ms :: "nat \<Rightarrow> 'w \<Rightarrow> 'w"
  clock_ms :: "'w \<Rightarrow> nat"
  status_text :: "nat \<Rightarrow> string"
  nostr :: nostr_api
  json_parse :: "string \<Rightarrow> json option"
  json_print :: "json \<Rightarrow> string"

datatype V1HttpError =
    Request string
  | NostrEvent V1NostrError
  | PaymentRejected string string
  | JsonParse
  | Unexpected string
  | ProbePanicked

record LnInvoiceRequest =
  lr_amount :: u64
  lr_mint_url :: "string option"
  lr_mint :: "string option"

record LnInvoiceResponse =
  ln_status :: u8
  ln_quote :: "string option"
  ln_invoice :: "string option"
  ln_mint_url :: "string option"
  ln_amount :: "u64 option"
  ln_expiry :: "u64 option"
  ln_state :: string
  ln_access_granted :: bool
  ln_allotment :: "u64 option"
  ln_metric :: "string option"
  ln_error :: "string option"

record LnInvoiceStatus =
  ls_quote :: "string option"
  ls_state :: string
  ls_access_granted :: bool
  ls_allotment :: "u64 option"

record TollGateHttpClient =
  base_url :: string
  probe_retry_count :: nat
  probe_retry_delay :: nat

definition http_new_with_base_url :: "string \<Rightarrow> TollGateHttpClient" where
  "http_new_with_base_url url = \<lparr> base_url = url, probe_retry_count = 3, probe_retry_delay = 2000 \<rparr>"

definition http_new :: "string \<Rightarrow> TollGateHttpClient" where
  "http_new gateway_ip = http_new_with_base_url (''http://'' @ gateway_ip @ '':2121'')"


subsection \<open>Structures from JSON\<close>

text \<open>
  The readers that \<^verbatim>\<open>serde\<close> derives for a structure: its fields by name from an object, in order from an
  array. An optional field may be absent or null, any other must be there; unknown fields are ignored.
\<close>

definition struct_fields :: "string list \<Rightarrow> json \<Rightarrow> json option list option" where
  "struct_fields names j =
     (case j of
        JObject m \<Rightarrow> Some (map (bt_get m) names)
      | JArray xs \<Rightarrow> if length xs = length names then Some (map Some xs) else None
      | _ \<Rightarrow> None)"

definition opt_field :: "(json \<Rightarrow> 'a option) \<Rightarrow> json option \<Rightarrow> 'a option option" where
  "opt_field f v = (case v of None \<Rightarrow> Some None | Some JNull \<Rightarrow> Some None | Some j \<Rightarrow> map_option Some (f j))"

definition req_field :: "(json \<Rightarrow> 'a option) \<Rightarrow> json option \<Rightarrow> 'a option" where
  "req_field f v = Option.bind v f"

fun as_bool :: "json \<Rightarrow> bool option" where
  "as_bool (JBool b) = Some b"
| "as_bool _ = None"

fun as_u8 :: "json \<Rightarrow> u8 option" where
  "as_u8 (JInt n) = (if 0 \<le> n \<and> n < 256 then Some (of_int n) else None)"
| "as_u8 _ = None"

definition ln_request_json :: "LnInvoiceRequest \<Rightarrow> json" where
  "ln_request_json r =
     (let text = (\<lambda>v. case v of None \<Rightarrow> JNull | Some s \<Rightarrow> JString s)
      in json_object [(''amount'', JInt (uint (lr_amount r))), (''mint_url'', text (lr_mint_url r)), (''mint'', text (lr_mint r))])"

definition read_ln_status :: "json \<Rightarrow> LnInvoiceStatus option" where
  "read_ln_status j =
     Option.bind (struct_fields [''quote'', ''state'', ''access_granted'', ''allotment''] j) (\<lambda>v.
     Option.bind (opt_field as_str (v ! 0)) (\<lambda>q.
     Option.bind (req_field as_str (v ! 1)) (\<lambda>s.
     Option.bind (req_field as_bool (v ! 2)) (\<lambda>g.
     Option.bind (opt_field as_u64 (v ! 3)) (\<lambda>a.
     Some \<lparr> ls_quote = q, ls_state = s, ls_access_granted = g, ls_allotment = a \<rparr>)))))"

definition read_ln_response :: "json \<Rightarrow> LnInvoiceResponse option" where
  "read_ln_response j =
     Option.bind (struct_fields [''status'', ''quote'', ''invoice'', ''mint_url'', ''amount'', ''expiry'', ''state'',
       ''access_granted'', ''allotment'', ''metric'', ''error''] j) (\<lambda>v.
     Option.bind (req_field as_u8 (v ! 0)) (\<lambda>st.
     Option.bind (opt_field as_str (v ! 1)) (\<lambda>q.
     Option.bind (opt_field as_str (v ! 2)) (\<lambda>i.
     Option.bind (opt_field as_str (v ! 3)) (\<lambda>u.
     Option.bind (opt_field as_u64 (v ! 4)) (\<lambda>am.
     Option.bind (opt_field as_u64 (v ! 5)) (\<lambda>ex.
     Option.bind (req_field as_str (v ! 6)) (\<lambda>s.
     Option.bind (req_field as_bool (v ! 7)) (\<lambda>g.
     Option.bind (opt_field as_u64 (v ! 8)) (\<lambda>al.
     Option.bind (opt_field as_str (v ! 9)) (\<lambda>m.
     Option.bind (opt_field as_str (v ! 10)) (\<lambda>er.
     Some \<lparr> ln_status = st, ln_quote = q, ln_invoice = i, ln_mint_url = u, ln_amount = am, ln_expiry = ex,
            ln_state = s, ln_access_granted = g, ln_allotment = al, ln_metric = m, ln_error = er \<rparr>))))))))))))"


subsection \<open>Requests\<close>

text \<open>\<^verbatim>\<open>send()?.error_for_status()?.text()?\<close>: a client or server error is an error of the request.\<close>

definition checked_text ::
  "'w http_api \<Rightarrow> (string + nat \<times> (string + string)) \<times> 'w \<Rightarrow> (V1HttpError + string) \<times> 'w" where
  "checked_text api rw =
     (case rw of
        (Inl e, w) \<Rightarrow> (Inl (Request e), w)
      | (Inr (status, txt), w) \<Rightarrow>
          (if 400 \<le> status \<and> status < 600 then Inl (Request (''HTTP status '' @ status_text api status))
           else (case txt of Inl e \<Rightarrow> Inl (Request e) | Inr body \<Rightarrow> Inr body), w))"

definition fetch_advertisement_once ::
  "'w http_api \<Rightarrow> TollGateHttpClient \<Rightarrow> 'w \<Rightarrow> (V1HttpError + nostr_event) \<times> 'w" where
  "fetch_advertisement_once api cl w =
     (case checked_text api (http_get api (base_url cl) w) of
        (Inl e, w') \<Rightarrow> (Inl e, w')
      | (Inr body, w') \<Rightarrow>
          (case Advertisement_from_json (nostr api) body of Inl e \<Rightarrow> Inl (NostrEvent e) | Inr ad \<Rightarrow> Inr ad, w'))"

text \<open>The loop over the attempts: how many have been made, how many are left, and the last error.\<close>

fun fetch_attempts ::
  "'w http_api \<Rightarrow> TollGateHttpClient \<Rightarrow> nat \<Rightarrow> nat \<Rightarrow> V1HttpError option \<Rightarrow> 'w \<Rightarrow> (V1HttpError + nostr_event) \<times> 'w" where
  "fetch_attempts api cl attempt 0 last_err w =
     (case last_err of Some e \<Rightarrow> (Inl e, w) | None \<Rightarrow> (Inl ProbePanicked, w))"
| "fetch_attempts api cl attempt (Suc left) last_err w =
     (let w1 = (if 0 < attempt then sleep_ms api (probe_retry_delay cl) w else w)
      in case fetch_advertisement_once api cl w1 of
           (Inr ad, w2) \<Rightarrow> (Inr ad, w2)
         | (Inl e, w2) \<Rightarrow> fetch_attempts api cl (Suc attempt) left (Some e) w2)"

definition fetch_advertisement ::
  "'w http_api \<Rightarrow> TollGateHttpClient \<Rightarrow> 'w \<Rightarrow> (V1HttpError + nostr_event) \<times> 'w" where
  "fetch_advertisement api cl w = fetch_attempts api cl 0 (probe_retry_count cl) None w"

definition send_payment ::
  "'w http_api \<Rightarrow> TollGateHttpClient \<Rightarrow> string \<Rightarrow> 'w \<Rightarrow> (V1HttpError + nostr_event) \<times> 'w" where
  "send_payment api cl token w =
     (case http_post api (base_url cl) ''text/plain'' token w of
        (Inl e, w') \<Rightarrow> (Inl (Request e), w')
      | (Inr (status, Inl e), w') \<Rightarrow> (Inl (Request e), w')
      | (Inr (status, Inr body), w') \<Rightarrow>
          (if status = 200
           then (case SessionEvent_from_json (nostr api) body of Inl e \<Rightarrow> Inl (NostrEvent e) | Inr s \<Rightarrow> Inr s)
           else (case NoticeEvent_from_json (nostr api) body of
                   Inr notice \<Rightarrow>
                     Inl (PaymentRejected (case notice_code notice of None \<Rightarrow> ''unknown'' | Some c \<Rightarrow> c) (notice_message notice))
                 | Inl _ \<Rightarrow> Inl (Unexpected (''status '' @ status_text api status @ '': '' @ body))), w'))"

definition parse_usage_response :: "string \<Rightarrow> i64 \<times> i64" where
  "parse_usage_response body =
     (let parts = split_char (CHR ''/'') (trim body)
      in if length parts = 2
         then let usage = (case parse_i64 (parts ! 0) of None \<Rightarrow> - 1 | Some n \<Rightarrow> n);
                  allotment = (case parse_i64 (parts ! 1) of None \<Rightarrow> - 1 | Some n \<Rightarrow> n)
              in if sint usage < 0 \<or> sint allotment < 0 then (0, 0) else (usage, allotment)
         else (0, 0))"

definition fetch_usage :: "'w http_api \<Rightarrow> TollGateHttpClient \<Rightarrow> 'w \<Rightarrow> (V1HttpError + i64 \<times> i64) \<times> 'w" where
  "fetch_usage api cl w =
     (case checked_text api (http_get api (base_url cl @ ''/usage'') w) of
        (Inl e, w') \<Rightarrow> (Inl e, w')
      | (Inr body, w') \<Rightarrow> (Inr (parse_usage_response body), w'))"

definition read_json :: "'w http_api \<Rightarrow> (json \<Rightarrow> 'a option) \<Rightarrow> string \<Rightarrow> V1HttpError + 'a" where
  "read_json api f body = (case Option.bind (json_parse api body) f of None \<Rightarrow> Inl JsonParse | Some x \<Rightarrow> Inr x)"

definition request_ln_invoice ::
  "'w http_api \<Rightarrow> TollGateHttpClient \<Rightarrow> u64 \<Rightarrow> string \<Rightarrow> 'w \<Rightarrow> (V1HttpError + LnInvoiceResponse) \<times> 'w" where
  "request_ln_invoice api cl amount mint_url w =
     (let request = \<lparr> lr_amount = amount, lr_mint_url = Some mint_url, lr_mint = None \<rparr>
      in case checked_text api
           (http_post api (base_url cl @ ''/ln-invoice'') ''application/json'' (json_print api (ln_request_json request)) w) of
           (Inl e, w') \<Rightarrow> (Inl e, w')
         | (Inr body, w') \<Rightarrow> (read_json api read_ln_response body, w'))"

definition check_ln_invoice_status ::
  "'w http_api \<Rightarrow> TollGateHttpClient \<Rightarrow> string \<Rightarrow> 'w \<Rightarrow> (V1HttpError + LnInvoiceStatus) \<times> 'w" where
  "check_ln_invoice_status api cl quote w =
     (case checked_text api (http_get api (base_url cl @ ''/ln-invoice?quote='' @ quote) w) of
        (Inl e, w') \<Rightarrow> (Inl e, w')
      | (Inr body, w') \<Rightarrow> (read_json api read_ln_status body, w'))"


subsection \<open>The usage answer\<close>

lemma usage_nonneg: "parse_usage_response body = (u, a) \<Longrightarrow> 0 \<le> sint u \<and> 0 \<le> sint a"
  by (auto simp: parse_usage_response_def Let_def split: if_splits)

lemma show_i64_word: "is_word (show_i64 n)" and show_i64_no_slash: "CHR ''/'' \<notin> set (show_i64 n)"
proof -
  have "digit_value c \<noteq> None \<Longrightarrow> c \<noteq> CHR ''/'' \<and> \<not> is_whitespace c" for c
    using digit_not_whitespace by (auto simp: digit_value_def char_nat_def split: if_splits)
  then have d: "list_all (\<lambda>c. c \<noteq> CHR ''/'' \<and> \<not> is_whitespace c) (show_nat m)" for m
    using show_nat_digits [of m] by (simp add: list_all_iff)
  show "is_word (show_i64 n)" "CHR ''/'' \<notin> set (show_i64 n)"
    using d by (auto simp: is_word_def show_i64_def list_all_iff is_whitespace_def char_nat_def)
qed

lemma usage_read:
  assumes "list_all is_whitespace a" and "list_all is_whitespace b"
  shows "parse_usage_response (a @ show_i64 u @ ''/'' @ show_i64 v @ b) =
    (if 0 \<le> sint u \<and> 0 \<le> sint v then (u, v) else (0, 0))"
proof -
  let ?s = "show_i64 u @ ''/'' @ show_i64 v"
  have ends: "?s \<noteq> []" "\<not> is_whitespace (hd ?s)" "\<not> is_whitespace (last ?s)"
    using show_i64_word [of u] show_i64_word [of v] by (auto simp: is_word_def hd_append list_all_iff)
  have "trim (a @ ?s @ b) = ?s"
    using trim_pad [of a b ?s] assms ends by (simp add: trimmed_def)
  moreover have "split_char (CHR ''/'') ?s = [show_i64 u, show_i64 v]"
    using split_char_first [OF show_i64_no_slash, of u "show_i64 v"] show_i64_no_slash by simp
  ultimately show ?thesis by (auto simp: parse_usage_response_def Let_def)
qed

lemma usage_literal: "parse_usage_response (show_i64 u @ ''/'' @ show_i64 v) = (if 0 \<le> sint u \<and> 0 \<le> sint v then (u, v) else (0, 0))"
  using usage_read [of "[]" "[]"] by simp

text \<open>
  A report of usage is read back: whatever pair of non-negative figures a gateway writes as
  \<open>usage/allotment\<close>, with blanks around it, is the pair the client gets; a negative figure stands for
  no session.
\<close>

theorem usage_report_read:
  assumes "list_all is_whitespace a" and "list_all is_whitespace b"
  shows "parse_usage_response (a @ show_i64 u @ ''/'' @ show_i64 v @ b) =
    (if 0 \<le> sint u \<and> 0 \<le> sint v then (u, v) else (0, 0))"
  using assms by (rule usage_read)

theorem usage_report_read_witness: "parse_usage_response (''123/600'' @ [newline]) = (123, 600)"
proof -
  have "show_i64 123 = ''123''" "show_i64 600 = ''600''" by code_simp+
  then show ?thesis
    using usage_report_read [of "[]" "[newline]" 123 600] by (simp add: whitespace_newline)
qed


subsection \<open>Retrying\<close>

text \<open>How often an attempt runs, and what the client reports when all have failed.\<close>

fun attempts_fail :: "'w http_api \<Rightarrow> TollGateHttpClient \<Rightarrow> nat \<Rightarrow> nat \<Rightarrow> 'w \<Rightarrow> V1HttpError list \<times> 'w" where
  "attempts_fail api cl attempt 0 w = ([], w)"
| "attempts_fail api cl attempt (Suc n) w =
     (let w1 = (if 0 < attempt then sleep_ms api (probe_retry_delay cl) w else w)
      in case fetch_advertisement_once api cl w1 of
           (Inr ad, w2) \<Rightarrow> ([], w2)
         | (Inl e, w2) \<Rightarrow> (let (es, w3) = attempts_fail api cl (Suc attempt) n w2 in (e # es, w3)))"

lemma fetch_attempts_error:
  assumes "fetch_attempts api cl attempt n last_err w = (Inl e, w')"
  shows "\<exists>es. attempts_fail api cl attempt n w = (es, w') \<and> length es = n \<and>
    e = last ((case last_err of Some x \<Rightarrow> x | None \<Rightarrow> ProbePanicked) # es)"
  using assms
proof (induction n arbitrary: attempt last_err w)
  case (Suc n)
  let ?w1 = "if 0 < attempt then sleep_ms api (probe_retry_delay cl) w else w"
  obtain x w2 where once: "fetch_advertisement_once api cl ?w1 = (Inl x, w2)"
    using Suc.prems by (cases "fetch_advertisement_once api cl ?w1"; cases "fst (fetch_advertisement_once api cl ?w1)")
      (auto simp: Let_def)
  then have "fetch_attempts api cl (Suc attempt) n (Some x) w2 = (Inl e, w')" using Suc.prems by (simp add: Let_def)
  from Suc.IH [OF this] obtain es where
    "attempts_fail api cl (Suc attempt) n w2 = (es, w')" "length es = n" "e = last (x # es)" by auto
  then show ?case using once by (simp add: Let_def)
qed (auto split: option.splits)

lemma once_no_panic: "fetch_advertisement_once api cl w \<noteq> (Inl ProbePanicked, w')"
  by (auto simp: fetch_advertisement_once_def checked_text_def split: prod.splits sum.splits if_splits)

lemma attempts_no_panic: "ProbePanicked \<notin> set (fst (attempts_fail api cl attempt n w))"
proof (induction n arbitrary: attempt w)
  case (Suc n)
  let ?w1 = "if 0 < attempt then sleep_ms api (probe_retry_delay cl) w else w"
  obtain r w2 where once: "fetch_advertisement_once api cl ?w1 = (r, w2)" by (cases "fetch_advertisement_once api cl ?w1")
  then show ?case using Suc [of "Suc attempt" w2] once_no_panic [of api cl ?w1 w2]
    by (cases r) (auto simp: Let_def case_prod_beta)
qed simp

text \<open>
  A client built by the constructors gives up on an advertisement only after exactly three failed
  attempts, with the error of the last one; it never panics for want of an error to report.
\<close>

theorem probe_gives_up_after_three:
  assumes "fetch_advertisement api (http_new_with_base_url url) w = (Inl e, w')"
  shows "\<exists>e1 e2. attempts_fail api (http_new_with_base_url url) 0 3 w = ([e1, e2, e], w') \<and> e \<noteq> ProbePanicked"
proof -
  let ?cl = "http_new_with_base_url url"
  have "fetch_attempts api ?cl 0 3 None w = (Inl e, w')"
    using assms by (simp add: fetch_advertisement_def http_new_with_base_url_def)
  from fetch_attempts_error [OF this] obtain es where
    es: "attempts_fail api ?cl 0 3 w = (es, w')" "length es = 3" "e = last (ProbePanicked # es)" by auto
  then obtain e1 e2 e3 where "es = [e1, e2, e3]" by (auto simp: numeral_3_eq_3 length_Suc_conv)
  then show ?thesis using es attempts_no_panic [of api ?cl 0 3 w] by auto
qed

definition dead_http :: "nat http_api" where
  "dead_http =
     \<lparr> http_get = (\<lambda>_ w. (Inl ''refused'', w)), http_post = (\<lambda>_ _ _ w. (Inl ''refused'', w)), sleep_ms = (+),
       clock_ms = (\<lambda>w. w), status_text = show_nat, nostr = sample_nostr ''us'', json_parse = (\<lambda>_. None),
       json_print = (\<lambda>_. []) \<rparr>"

lemma dead_fetch:
  "fetch_advertisement dead_http (http_new_with_base_url ''u'') 0 = (Inl (Request ''refused''), 4000)"
  by (simp add: fetch_advertisement_def http_new_with_base_url_def numeral_3_eq_3 fetch_advertisement_once_def
      checked_text_def dead_http_def)

theorem probe_gives_up_after_three_witness:
  "\<exists>e1 e2. attempts_fail dead_http (http_new_with_base_url ''u'') 0 3 0 = ([e1, e2, Request ''refused''], 4000) \<and>
     Request ''refused'' \<noteq> ProbePanicked"
  by (rule probe_gives_up_after_three [OF dead_fetch])

end
