(* ===== verification/V1_Wallet.thy ===== *)
theory V1_Wallet
  imports Wallet
begin

section \<open>The v1 wallet\<close>

text \<open>
  \<^verbatim>\<open>crates/tollgate-net/src/v1_compat/wallet.rs\<close>: the wrapper \<^verbatim>\<open>CdkWallet\<close> around a \<^verbatim>\<open>cdk\<close> wallet. The operations of
  \<^verbatim>\<open>cdk\<close> and the timer are a parameter over a world \<open>'w\<close> that holds the proofs and the mint; \<open>'p\<close> and \<open>'m\<close> are its
  prepared sends and melts. The token format and the check-state request are those of the bootstrap wallet.
\<close>

record MintQuoteInfo =
  mq_quote_id :: string
  mq_invoice :: string
  mq_amount :: u64
  mq_expiry :: u64

datatype QuoteState = Unpaid | Paid | Issued

record SendOptions =
  tolerance :: "u64 option"
  include_fee :: bool

record ('p, 'm, 'w) cdk_api =
  cdk_open :: "string \<Rightarrow> 'w \<Rightarrow> (string + 'w)"
  cdk_total_balance :: "'w \<Rightarrow> (string + u64) \<times> 'w"
  cdk_prepare_send :: "u64 \<Rightarrow> SendOptions \<Rightarrow> 'w \<Rightarrow> (string + 'p) \<times> 'w"
  cdk_confirm_send :: "'p \<Rightarrow> 'w \<Rightarrow> (string + string) \<times> 'w"
  cdk_mint_quote :: "u64 \<Rightarrow> 'w \<Rightarrow> (string + string \<times> string \<times> u64) \<times> 'w"
  cdk_quote_state :: "string \<Rightarrow> 'w \<Rightarrow> (string + QuoteState) \<times> 'w"
  cdk_mint :: "string \<Rightarrow> 'w \<Rightarrow> (string + u64 list) \<times> 'w"
  cdk_recover_sagas :: "'w \<Rightarrow> 'w"
  cdk_melt_quote :: "string \<Rightarrow> 'w \<Rightarrow> (string + string) \<times> 'w"
  cdk_address_quote :: "string \<Rightarrow> u64 \<Rightarrow> 'w \<Rightarrow> (string + string) \<times> 'w"
  cdk_prepare_melt :: "string \<Rightarrow> 'w \<Rightarrow> (string + 'm) \<times> 'w"
  cdk_confirm_melt :: "'m \<Rightarrow> 'w \<Rightarrow> (string + u64 \<times> u64) \<times> 'w"
  cdk_sleep :: "nat \<Rightarrow> 'w \<Rightarrow> 'w"

datatype V1WalletError =
    NoMintUrls
  | BadToken
  | TokenWithoutMint
  | ForeignMint string string
  | TokenWithoutValue
  | TokenWithoutProofs
  | MintCheck WalletError
  | Cdk string string
  | QuoteNotPaid string
  | MintFailed string

text \<open>\<^verbatim>\<open>map_err(|e| anyhow!("what: {e}"))?\<close> after a call.\<close>

definition cdk_then ::
  "string \<Rightarrow> (string + 'a) \<times> 'w \<Rightarrow> ('a \<Rightarrow> 'w \<Rightarrow> (V1WalletError + 'b) \<times> 'w) \<Rightarrow> (V1WalletError + 'b) \<times> 'w" where
  "cdk_then what rw k = (case rw of (Inl e, w) \<Rightarrow> (Inl (Cdk what e), w) | (Inr x, w) \<Rightarrow> k x w)"


subsection \<open>Opening\<close>

definition CdkWallet_new :: "('p, 'm, 'w) cdk_api \<Rightarrow> string \<Rightarrow> 'w \<Rightarrow> V1WalletError + 'w" where
  "CdkWallet_new api url w = (case cdk_open api url w of Inl e \<Rightarrow> Inl (Cdk ''wallet init'' e) | Inr w' \<Rightarrow> Inr w')"

fun try_each :: "('p, 'm, 'w) cdk_api \<Rightarrow> string list \<Rightarrow> V1WalletError \<Rightarrow> 'w \<Rightarrow> V1WalletError + 'w" where
  "try_each api [] last_err w = Inl last_err"
| "try_each api (url # urls) last_err w =
     (case CdkWallet_new api url w of Inr w' \<Rightarrow> Inr w' | Inl e \<Rightarrow> try_each api urls e w)"

definition try_mints :: "('p, 'm, 'w) cdk_api \<Rightarrow> string list \<Rightarrow> 'w \<Rightarrow> V1WalletError + 'w" where
  "try_mints api mint_urls w =
     (if mint_urls = [] then Inl NoMintUrls else try_each api mint_urls NoMintUrls w)"


subsection \<open>Tokens\<close>

definition v1_check_proofs_unspent :: "mint_answers \<Rightarrow> string \<Rightarrow> string list \<Rightarrow> V1WalletError + unit" where
  "v1_check_proofs_unspent mint base ys =
     (case checkstate mint (base @ ''/v1/checkstate'') ys of
        None \<Rightarrow> Inl (MintCheck CheckStateFailed)
      | Some states \<Rightarrow> (case check_states states of Inl e \<Rightarrow> Inl (MintCheck e) | Inr _ \<Rightarrow> Inr ()))"

definition v1_verify_token :: "'tok cashu_api \<Rightarrow> mint_answers \<Rightarrow> string \<Rightarrow> string \<Rightarrow> V1WalletError + u64" where
  "v1_verify_token api mint wallet_mint token_str =
     (case parse_token api token_str of
        None \<Rightarrow> Inl BadToken
      | Some tok \<Rightarrow>
          (case token_mint_url api tok of
             None \<Rightarrow> Inl TokenWithoutMint
           | Some token_mint \<Rightarrow>
               let base = trim_end_matches (CHR ''/'') token_mint
               in if base \<noteq> trim_end_matches (CHR ''/'') wallet_mint then Inl (ForeignMint token_mint wallet_mint)
                  else case token_value api tok of
                         None \<Rightarrow> Inl TokenWithoutValue
                       | Some amount \<Rightarrow>
                           let ys = token_proof_ys api tok
                           in if ys = [] then Inl TokenWithoutProofs
                              else case v1_check_proofs_unspent mint base ys of
                                     Inl e \<Rightarrow> Inl e
                                   | Inr _ \<Rightarrow> Inr amount))"

text \<open>\<open>from_utf8_lossy\<close> is the library's lossy decoding.\<close>

definition receive_token ::
  "'tok cashu_api \<Rightarrow> mint_answers \<Rightarrow> (bytes \<Rightarrow> string) \<Rightarrow> string \<Rightarrow> bytes \<Rightarrow> V1WalletError + u64" where
  "receive_token api mint from_utf8_lossy wallet_mint token = v1_verify_token api mint wallet_mint (from_utf8_lossy token)"

definition send_token :: "('p, 'm, 'w) cdk_api \<Rightarrow> u64 \<Rightarrow> SendOptions \<Rightarrow> 'w \<Rightarrow> (V1WalletError + string) \<times> 'w" where
  "send_token api amount opts w =
     cdk_then ''prepare_send'' (cdk_prepare_send api amount opts w) (\<lambda>prepared w.
     cdk_then ''confirm'' (cdk_confirm_send api prepared w) (\<lambda>token w. (Inr token, w)))"

definition create_token :: "('p, 'm, 'w) cdk_api \<Rightarrow> u64 \<Rightarrow> string \<Rightarrow> 'w \<Rightarrow> (V1WalletError + string) \<times> 'w" where
  "create_token api amount mint_url w = send_token api amount \<lparr> tolerance = None, include_fee = False \<rparr> w"

definition create_token_with_overpayment ::
  "('p, 'm, 'w) cdk_api \<Rightarrow> u64 \<Rightarrow> string \<Rightarrow> u64 \<Rightarrow> 'w \<Rightarrow> (V1WalletError + string) \<times> 'w" where
  "create_token_with_overpayment api amount mint_url max_overpayment w =
     send_token api amount \<lparr> tolerance = Some max_overpayment, include_fee = True \<rparr> w"

definition total_balance :: "('p, 'm, 'w) cdk_api \<Rightarrow> 'w \<Rightarrow> (V1WalletError + u64) \<times> 'w" where
  "total_balance api w = cdk_then ''balance'' (cdk_total_balance api w) (\<lambda>b w. (Inr b, w))"


subsection \<open>Minting\<close>

text \<open>At most sixty polls, half a second apart, until the quote is paid.\<close>

fun await_paid :: "('p, 'm, 'w) cdk_api \<Rightarrow> string \<Rightarrow> nat \<Rightarrow> 'w \<Rightarrow> (V1WalletError + bool) \<times> 'w" where
  "await_paid api qid 0 w = (Inr False, w)"
| "await_paid api qid (Suc n) w =
     cdk_then ''check_status'' (cdk_quote_state api qid (cdk_sleep api 500 w)) (\<lambda>state w.
       if state = Paid then (Inr True, w) else await_paid api qid n w)"

text \<open>Three attempts to mint; after a failed one the wallet recovers and looks at its balance.\<close>

fun mint_attempts :: "('p, 'm, 'w) cdk_api \<Rightarrow> string \<Rightarrow> u64 \<Rightarrow> nat \<Rightarrow> string \<Rightarrow> 'w \<Rightarrow> (V1WalletError + unit) \<times> 'w" where
  "mint_attempts api qid amount 0 last_err w = (Inl (MintFailed last_err), w)"
| "mint_attempts api qid amount (Suc left) last_err w =
     (case cdk_mint api qid w of
        (Inr _, w1) \<Rightarrow> (Inr (), w1)
      | (Inl e, w1) \<Rightarrow>
          (case total_balance api (cdk_recover_sagas api w1) of
             (Inl err, w2) \<Rightarrow> (Inl err, w2)
           | (Inr bal, w2) \<Rightarrow>
               if bal \<ge> amount then (Inr (), w2)
               else mint_attempts api qid amount left e (if left \<noteq> 0 then cdk_sleep api 2000 w2 else w2)))"

definition mint_test_tokens :: "('p, 'm, 'w) cdk_api \<Rightarrow> u64 \<Rightarrow> 'w \<Rightarrow> (V1WalletError + unit) \<times> 'w" where
  "mint_test_tokens api amount w =
     cdk_then ''mint_quote'' (cdk_mint_quote api amount w) (\<lambda>(qid, _, _) w.
       case await_paid api qid 60 w of
         (Inl e, w) \<Rightarrow> (Inl e, w)
       | (Inr paid, w) \<Rightarrow>
           if \<not> paid then (Inl (QuoteNotPaid qid), w) else mint_attempts api qid amount 3 [] w)"

definition request_mint_quote ::
  "('p, 'm, 'w) cdk_api \<Rightarrow> u64 \<Rightarrow> string \<Rightarrow> 'w \<Rightarrow> (V1WalletError + MintQuoteInfo) \<times> 'w" where
  "request_mint_quote api amount mint_url w =
     cdk_then ''mint_quote'' (cdk_mint_quote api amount w) (\<lambda>(qid, request, expiry) w.
       (Inr \<lparr> mq_quote_id = qid, mq_invoice = request, mq_amount = amount, mq_expiry = expiry \<rparr>, w))"

definition check_mint_quote_status :: "('p, 'm, 'w) cdk_api \<Rightarrow> string \<Rightarrow> 'w \<Rightarrow> (V1WalletError + QuoteState) \<times> 'w" where
  "check_mint_quote_status api qid w =
     cdk_then ''check_mint_quote_status'' (cdk_quote_state api qid w) (\<lambda>state w. (Inr state, w))"

definition mint_tokens :: "('p, 'm, 'w) cdk_api \<Rightarrow> string \<Rightarrow> 'w \<Rightarrow> (V1WalletError + u64) \<times> 'w" where
  "mint_tokens api qid w = cdk_then ''mint'' (cdk_mint api qid w) (\<lambda>proofs w. (Inr (sum_list proofs), w))"


subsection \<open>Melting\<close>

definition melt_quoted :: "('p, 'm, 'w) cdk_api \<Rightarrow> string \<Rightarrow> 'w \<Rightarrow> (V1WalletError + u64) \<times> 'w" where
  "melt_quoted api qid w =
     cdk_then ''prepare_melt'' (cdk_prepare_melt api qid w) (\<lambda>prepared w.
     cdk_then ''melt confirm'' (cdk_confirm_melt api prepared w) (\<lambda>(amount, fee) w. (Inr amount, w)))"

definition melt_to_invoice :: "('p, 'm, 'w) cdk_api \<Rightarrow> string \<Rightarrow> 'w \<Rightarrow> (V1WalletError + u64) \<times> 'w" where
  "melt_to_invoice api invoice w =
     cdk_then ''melt_quote'' (cdk_melt_quote api invoice w) (\<lambda>qid w. melt_quoted api qid w)"

definition melt_to_lightning_address ::
  "('p, 'm, 'w) cdk_api \<Rightarrow> string \<Rightarrow> u64 \<Rightarrow> 'w \<Rightarrow> (V1WalletError + u64) \<times> 'w" where
  "melt_to_lightning_address api address amount_msat w =
     cdk_then ''melt_lightning_address_quote'' (cdk_address_quote api address amount_msat w) (\<lambda>qid w. melt_quoted api qid w)"

definition mint_reachable :: "string \<Rightarrow> V1WalletError + bool" where
  "mint_reachable mint_url = Inr True"


subsection \<open>What a received token is worth\<close>

lemma check_states_unspent: "check_states states = Inr () \<longleftrightarrow> list_all (\<lambda>s. s = Some ''UNSPENT'') states"
proof (induction states)
  case (Cons s states)
  then show ?case by (cases s) (auto simp: Let_def)
qed simp

text \<open>
  A token is taken only for what it says it is worth and only when the wallet's own mint, up to a
  trailing slash, answered for its proofs and reported none as spent; a token of another mint is
  refused without asking.
\<close>

theorem received_token_checked:
  "receive_token api mint lossy wallet_mint token = Inr amount \<longleftrightarrow>
     (\<exists>tok url states. parse_token api (lossy token) = Some tok \<and> token_mint_url api tok = Some url \<and>
        trim_end_matches (CHR ''/'') url = trim_end_matches (CHR ''/'') wallet_mint \<and>
        token_value api tok = Some amount \<and> token_proof_ys api tok \<noteq> [] \<and>
        checkstate mint (trim_end_matches (CHR ''/'') wallet_mint @ ''/v1/checkstate'') (token_proof_ys api tok) = Some states \<and>
        list_all (\<lambda>s. s = Some ''UNSPENT'') states)"
  by (auto simp: receive_token_def v1_verify_token_def v1_check_proofs_unspent_def Let_def
      check_states_unspent [symmetric] split: option.splits sum.splits if_splits)


subsection \<open>Minting succeeds or says so\<close>

lemma mint_attempts_outcome:
  assumes "mint_attempts api qid amount n e w = (Inr (), w')"
  shows "(\<exists>v proofs. cdk_mint api qid v = (Inr proofs, w')) \<or>
    (\<exists>v bal. total_balance api v = (Inr bal, w') \<and> amount \<le> bal)"
  using assms
  by (induction n arbitrary: e w) (auto split: prod.splits sum.splits if_splits)

text \<open>
  A reported success means that the mint issued proofs for the quote or that the wallet holds at
  least the amount afterwards.
\<close>

theorem minted_or_funded:
  assumes "mint_test_tokens api amount w = (Inr (), w')"
  shows "(\<exists>qid v proofs. cdk_mint api qid v = (Inr proofs, w')) \<or>
    (\<exists>v bal. total_balance api v = (Inr bal, w') \<and> amount \<le> bal)"
proof -
  obtain qid v where "mint_attempts api qid amount 3 [] v = (Inr (), w')"
    using assms by (auto simp: mint_test_tokens_def cdk_then_def split: prod.splits sum.splits if_splits)
  from mint_attempts_outcome [OF this] show ?thesis by blast
qed

text \<open>A wallet that holds a balance, and a mint that accepts the payment and never issues.\<close>

definition stuck_mint :: "(unit, unit, u64) cdk_api" where
  "stuck_mint =
     \<lparr> cdk_open = (\<lambda>_ w. Inr w), cdk_total_balance = (\<lambda>w. (Inr w, w)), cdk_prepare_send = (\<lambda>_ _ w. (Inr (), w)),
       cdk_confirm_send = (\<lambda>_ w. (Inr ''cashuB'', w)), cdk_mint_quote = (\<lambda>_ w. (Inr (''q'', ''lnbc'', 0), w)),
       cdk_quote_state = (\<lambda>_ w. (Inr Paid, w)), cdk_mint = (\<lambda>_ w. (Inl ''internal error'', w)),
       cdk_recover_sagas = (\<lambda>w. w), cdk_melt_quote = (\<lambda>_ w. (Inr ''m'', w)), cdk_address_quote = (\<lambda>_ _ w. (Inr ''m'', w)),
       cdk_prepare_melt = (\<lambda>_ w. (Inr (), w)), cdk_confirm_melt = (\<lambda>_ w. (Inr (0, 0), w)), cdk_sleep = (\<lambda>_ w. w) \<rparr>"

lemma stuck_mint_calls:
  "cdk_mint stuck_mint qid w = (Inl ''internal error'', w)" "total_balance stuck_mint w = (Inr w, w)"
  "cdk_recover_sagas stuck_mint w = w" "cdk_sleep stuck_mint n w = w"
  by (simp_all add: stuck_mint_def total_balance_def cdk_then_def)

lemma await_paid_at_once: "await_paid stuck_mint qid (Suc n) w = (Inr True, w)"
  by (simp add: stuck_mint_def cdk_then_def)

lemma stuck_mint_result:
  "mint_test_tokens stuck_mint amount w =
     (if amount \<le> w then (Inr (), w) else (Inl (MintFailed ''internal error''), w))"
proof -
  have "await_paid stuck_mint qid 60 w = (Inr True, w)" for qid using await_paid_at_once [of qid 59 w] by simp
  moreover have "mint_attempts stuck_mint qid amount 3 [] w =
      (if amount \<le> w then (Inr (), w) else (Inl (MintFailed ''internal error''), w))" for qid
    by (simp add: numeral_3_eq_3 stuck_mint_calls)
  moreover have "cdk_mint_quote stuck_mint amount w = (Inr (''q'', ''lnbc'', 0), w)" by (simp add: stuck_mint_def)
  ultimately show ?thesis by (simp add: mint_test_tokens_def cdk_then_def)
qed

theorem minted_or_funded_witness:
  "mint_test_tokens stuck_mint 5 7 = (Inr (), 7) \<and>
    ((\<exists>qid v proofs. cdk_mint stuck_mint qid v = (Inr proofs, 7)) \<or>
     (\<exists>v bal. total_balance stuck_mint v = (Inr bal, 7) \<and> 5 \<le> bal))"
  using minted_or_funded [of stuck_mint 5 7 7] by (simp add: stuck_mint_result)

text \<open>
  A mint that never issues is reported as a success whenever the wallet already held the amount:
  the balance the code looks at after a failed attempt is not compared with the balance before it.
\<close>

theorem failed_mint_reported_as_success:
  "mint_test_tokens stuck_mint amount w = (Inr (), w) \<longleftrightarrow> amount \<le> w"
  by (simp add: stuck_mint_result)

end
