(* ===== verification/V1_Client.thy ===== *)
theory V1_Client
  imports V1_Http_Client V1_Wallet Throttle
begin

section \<open>The v1 client\<close>

text \<open>
  \<^verbatim>\<open>crates/tollgate-net/src/v1_compat/client.rs\<close>: buying access from a v1 gateway. A client looks for a session
  it already has, otherwise takes the cheapest compatible offer within its budget and pays for it, with a
  token or, without funds, over Lightning; it polls its usage and renews. The network, the wallet and the
  clock are those of \<open>http_api\<close> and \<open>cdk_api\<close> over one world. The wait for a Lightning payment may not end, so an
  operation that contains it returns an option; what the code prints is left out.
\<close>

record ('p, 'm, 'w) v1_env =
  web :: "'w http_api"
  cdk :: "('p, 'm, 'w) cdk_api"

datatype V1ClientError =
    Http V1HttpError
  | Pricing PricingError
  | WalletFailed V1WalletError
  | NoSession
  | LnPaymentTimeout nat
  | UnexpectedReply string

record V1ClientConfig =
  gateway_ip :: string
  mac_address :: string
  our_mint_urls :: "string list"
  pay_unit :: string
  max_price_per_ms :: f64
  max_price_per_byte :: f64
  preferred_allotment :: u64
  poll_interval_secs :: u64
  renewal_threshold :: f64

record V1Session =
  advertisement :: nostr_event
  selected_pricing :: pricing_option
  session_event :: "nostr_event option"
  total_allotment :: u64
  session_metric_name :: string
  session_step_size :: u64

record V1Client =
  cl_config :: V1ClientConfig
  cl_http :: TollGateHttpClient
  cl_session :: "V1Session option"
  last_payment_attempt :: "nat option"

definition MIN_PAYMENT_INTERVAL :: nat where
  "MIN_PAYMENT_INTERVAL = 5000"

definition V1Client_new :: "V1ClientConfig \<Rightarrow> V1Client" where
  "V1Client_new config =
     \<lparr> cl_config = config, cl_http = http_new (gateway_ip config), cl_session = None, last_payment_attempt = None \<rparr>"

definition V1Client_new_with_base_url :: "V1ClientConfig \<Rightarrow> string \<Rightarrow> V1Client" where
  "V1Client_new_with_base_url config url =
     \<lparr> cl_config = config, cl_http = http_new_with_base_url url, cl_session = None, last_payment_attempt = None \<rparr>"


subsection \<open>How much to buy\<close>

definition checked_div :: "u64 \<Rightarrow> u64 \<Rightarrow> u64 option" where
  "checked_div a b = (if b = 0 then None else Some (a div b))"

definition max_affordable :: "u64 \<Rightarrow> pricing_option \<Rightarrow> u64" where
  "max_affordable bal opt = (case checked_div bal (price_per_step opt) of None \<Rightarrow> 0 | Some n \<Rightarrow> n)"

definition payment_steps :: "V1ClientConfig \<Rightarrow> u64 \<Rightarrow> pricing_option \<Rightarrow> u64 \<Rightarrow> u64" where
  "payment_steps config step_size opt bal =
     (let preferred_steps = (case checked_div (preferred_allotment config) step_size of None \<Rightarrow> 1 | Some n \<Rightarrow> n)
      in max (min (max preferred_steps (min_steps opt)) (max_affordable bal opt)) 1)"

definition ad_metric :: "nostr_event \<Rightarrow> string" where
  "ad_metric ad = (case adv_metric ad of None \<Rightarrow> ''milliseconds'' | Some m \<Rightarrow> m)"

definition ad_step_size :: "nostr_event \<Rightarrow> u64" where
  "ad_step_size ad = (case adv_step_size ad of None \<Rightarrow> 60000 | Some n \<Rightarrow> n)"

definition new_session :: "nostr_event \<Rightarrow> pricing_option \<Rightarrow> nostr_event option \<Rightarrow> u64 \<Rightarrow> V1Session" where
  "new_session ad opt ev allotment =
     \<lparr> advertisement = ad, selected_pricing = opt, session_event = ev, total_allotment = allotment,
       session_metric_name = ad_metric ad, session_step_size = ad_step_size ad \<rparr>"

text \<open>The advertisement and the cheapest offer that is compatible with our mints and unit.\<close>

definition find_offer ::
  "('p, 'm, 'w) v1_env \<Rightarrow> V1Client \<Rightarrow> 'w \<Rightarrow> (V1ClientError + nostr_event \<times> pricing_option) \<times> 'w" where
  "find_offer env cl w =
     (case fetch_advertisement (web env) (cl_http cl) w of
        (Inl e, w') \<Rightarrow> (Inl (Http e), w')
      | (Inr ad, w') \<Rightarrow>
          (case select_cheapest_compatible (pricing_options ad) (our_mint_urls (cl_config cl)) (pay_unit (cl_config cl)) of
             Inl e \<Rightarrow> Inl (Pricing e)
           | Inr opt \<Rightarrow> Inr (ad, opt), w'))"

text \<open>A token for the amount, with a tolerance of 100, sent to the gateway.\<close>

definition pay_gateway ::
  "('p, 'm, 'w) v1_env \<Rightarrow> V1Client \<Rightarrow> u64 \<Rightarrow> string \<Rightarrow> 'w \<Rightarrow> (V1ClientError + nostr_event) \<times> 'w" where
  "pay_gateway env cl amount mint_url w =
     (case create_token_with_overpayment (cdk env) amount mint_url 100 w of
        (Inl e, w1) \<Rightarrow> (Inl (WalletFailed e), w1)
      | (Inr token, w1) \<Rightarrow>
          (case send_payment (web env) (cl_http cl) token w1 of
             (Inl e, w2) \<Rightarrow> (Inl (Http e), w2)
           | (Inr ev, w2) \<Rightarrow> (Inr ev, w2)))"

definition granted :: "nostr_event \<Rightarrow> u64" where
  "granted ev = (case session_allotment ev of None \<Rightarrow> 0 | Some n \<Rightarrow> n)"


subsection \<open>Paying over Lightning\<close>

definition LN_TIMEOUT :: nat where
  "LN_TIMEOUT = 300000"

definition LN_POLL_INTERVAL :: nat where
  "LN_POLL_INTERVAL = 3000"

partial_function (option) ln_wait ::
  "('p, 'm, 'w) v1_env \<Rightarrow> V1Client \<Rightarrow> string \<Rightarrow> nat \<Rightarrow> 'w \<Rightarrow> ((V1ClientError + u64) \<times> 'w) option" where
  "ln_wait env cl quote start w =
     (let w1 = sleep_ms (web env) LN_POLL_INTERVAL w
      in if clock_ms (web env) w1 - start > LN_TIMEOUT then Some (Inl (LnPaymentTimeout 300), w1)
         else case check_ln_invoice_status (web env) (cl_http cl) quote w1 of
                (Inl e, w2) \<Rightarrow> Some (Inl (Http e), w2)
              | (Inr status, w2) \<Rightarrow>
                  if ls_state status = ''ISSUED'' \<and> ls_allotment status \<noteq> None
                  then Some (Inr (the (ls_allotment status)), w2)
                  else ln_wait env cl quote start w2)"

definition connect_via_lightning ::
  "('p, 'm, 'w) v1_env \<Rightarrow> V1Client \<Rightarrow> nostr_event \<Rightarrow> pricing_option \<Rightarrow> u64 \<Rightarrow> 'w \<Rightarrow>
   ((V1ClientError + unit) \<times> V1Client \<times> 'w) option" where
  "connect_via_lightning env cl ad opt steps w =
     (case request_ln_invoice (web env) (cl_http cl) (steps * price_per_step opt) (po_mint_url opt) w of
        (Inl e, w1) \<Rightarrow> Some (Inl (Http e), cl, w1)
      | (Inr resp, w1) \<Rightarrow>
          (case ln_quote resp of
             None \<Rightarrow> Some (Inl (UnexpectedReply ''No quote ID in response''), cl, w1)
           | Some quote \<Rightarrow>
               (case ln_wait env cl quote (clock_ms (web env) w1) w1 of
                  None \<Rightarrow> None
                | Some (Inl e, w2) \<Rightarrow> Some (Inl e, cl, w2)
                | Some (Inr allotment, w2) \<Rightarrow>
                    Some (Inr (), cl\<lparr> cl_session := Some (new_session ad opt None allotment) \<rparr>, w2))))"


subsection \<open>Connecting\<close>

definition reattach ::
  "('p, 'm, 'w) v1_env \<Rightarrow> V1Client \<Rightarrow> u64 \<Rightarrow> 'w \<Rightarrow> (V1ClientError + unit) \<times> V1Client \<times> 'w" where
  "reattach env cl allotment w =
     (case find_offer env cl w of
        (Inl e, w') \<Rightarrow> (Inl e, cl, w')
      | (Inr (ad, opt), w') \<Rightarrow> (Inr (), cl\<lparr> cl_session := Some (new_session ad opt None allotment) \<rparr>, w'))"

definition buy ::
  "('p, 'm, 'w) v1_env \<Rightarrow> V1Client \<Rightarrow> 'w \<Rightarrow> ((V1ClientError + unit) \<times> V1Client \<times> 'w) option" where
  "buy env cl w =
     (case find_offer env cl w of
        (Inl e, w1) \<Rightarrow> Some (Inl e, cl, w1)
      | (Inr (ad, opt), w1) \<Rightarrow>
          (case validate_budget opt (ad_step_size ad) (ad_metric ad)
                  (max_price_per_ms (cl_config cl)) (max_price_per_byte (cl_config cl)) of
             Inl e \<Rightarrow> Some (Inl (Pricing e), cl, w1)
           | Inr _ \<Rightarrow>
               (case total_balance (cdk env) w1 of
                  (Inl e, w2) \<Rightarrow> Some (Inl (WalletFailed e), cl, w2)
                | (Inr bal, w2) \<Rightarrow>
                    let steps = payment_steps (cl_config cl) (ad_step_size ad) opt bal
                    in if max_affordable bal opt = 0 \<or> bal = 0
                       then connect_via_lightning env cl ad opt steps w2
                       else case pay_gateway env cl (steps * price_per_step opt) (po_mint_url opt) w2 of
                              (Inl e, w3) \<Rightarrow> Some (Inl e, cl, w3)
                            | (Inr ev, w3) \<Rightarrow>
                                Some (Inr (), cl\<lparr> cl_session := Some (new_session ad opt (Some ev) (granted ev)) \<rparr>, w3))))"

definition v1_connect ::
  "('p, 'm, 'w) v1_env \<Rightarrow> V1Client \<Rightarrow> 'w \<Rightarrow> ((V1ClientError + unit) \<times> V1Client \<times> 'w) option" where
  "v1_connect env cl w =
     (case fetch_usage (web env) (cl_http cl) w of
        (Inl e, w1) \<Rightarrow> Some (Inl (Http e), cl, w1)
      | (Inr (usage, allotment), w1) \<Rightarrow>
          if sint allotment > 0 then Some (reattach env cl allotment w1) else buy env cl w1)"


subsection \<open>Polling and renewing\<close>

text \<open>The figures of \<open>fetch_usage\<close> are never negative, so they are read as unsigned (\<open>usage_nonneg\<close>).\<close>

definition poll_usage :: "('p, 'm, 'w) v1_env \<Rightarrow> V1Client \<Rightarrow> 'w \<Rightarrow> (u64 \<times> u64 \<times> bool) \<times> 'w" where
  "poll_usage env cl w =
     (case fetch_usage (web env) (cl_http cl) w of
        (Inl e, w') \<Rightarrow> ((0, 0, False), w')
      | (Inr (usage, allotment), w') \<Rightarrow>
          ((usage, allotment,
            sint allotment > 0 \<and>
            f64_le (renewal_threshold (cl_config cl)) (f64_div (f64_of_u64 usage) (f64_of_u64 allotment))), w'))"

definition may_pay :: "V1Client \<Rightarrow> nat \<Rightarrow> bool" where
  "may_pay cl now = (case last_payment_attempt cl of None \<Rightarrow> True | Some before \<Rightarrow> \<not> now - before < MIN_PAYMENT_INTERVAL)"

definition renew ::
  "('p, 'm, 'w) v1_env \<Rightarrow> V1Client \<Rightarrow> 'w \<Rightarrow> (V1ClientError + unit) \<times> V1Client \<times> 'w" where
  "renew env cl w =
     (if \<not> may_pay cl (clock_ms (web env) w) then (Inr (), cl, w)
      else let cl1 = cl\<lparr> last_payment_attempt := Some (clock_ms (web env) w) \<rparr>
           in case cl_session cl1 of
                None \<Rightarrow> (Inl NoSession, cl1, w)
              | Some s \<Rightarrow>
                  (case total_balance (cdk env) w of
                     (Inl e, w1) \<Rightarrow> (Inl (WalletFailed e), cl1, w1)
                   | (Inr bal, w1) \<Rightarrow>
                       let opt = selected_pricing s;
                           steps = payment_steps (cl_config cl1) (session_step_size s) opt bal
                       in case pay_gateway env cl1 (steps * price_per_step opt) (po_mint_url opt) w1 of
                            (Inl e, w2) \<Rightarrow> (Inl e, cl1, w2)
                          | (Inr ev, w2) \<Rightarrow>
                              (Inr (), cl1\<lparr> cl_session := Some (s\<lparr> total_allotment := granted ev, session_event := Some ev \<rparr>) \<rparr>, w2)))"

text \<open>One pass of the loop of \<^verbatim>\<open>run\<close>; a failed renewal is only logged.\<close>

definition run_pass ::
  "('p, 'm, 'w) v1_env \<Rightarrow> V1Client \<Rightarrow> 'w \<Rightarrow> ((V1ClientError + unit) \<times> V1Client \<times> 'w) option" where
  "run_pass env cl w =
     (case poll_usage env cl (sleep_ms (web env) (unat (poll_interval_secs (cl_config cl)) * 1000) w) of
        ((usage, allotment, needs_renewal), w1) \<Rightarrow>
          if allotment = 0 then v1_connect env cl w1
          else if needs_renewal then (let (_, cl', w2) = renew env cl w1 in Some (Inr (), cl', w2))
          else Some (Inr (), cl, w1))"

text \<open>The loop: \<open>n\<close> passes until the interrupt signal.\<close>

fun run_passes ::
  "('p, 'm, 'w) v1_env \<Rightarrow> nat \<Rightarrow> V1Client \<Rightarrow> 'w \<Rightarrow> ((V1ClientError + unit) \<times> V1Client \<times> 'w) option" where
  "run_passes env 0 cl w = Some (Inr (), cl, w)"
| "run_passes env (Suc n) cl w =
     (case run_pass env cl w of
        Some (Inr _, cl', w') \<Rightarrow> run_passes env n cl' w'
      | other \<Rightarrow> other)"

definition v1_run ::
  "('p, 'm, 'w) v1_env \<Rightarrow> nat \<Rightarrow> V1Client \<Rightarrow> 'w \<Rightarrow> ((V1ClientError + unit) \<times> V1Client \<times> 'w) option" where
  "v1_run env n cl w =
     (case v1_connect env cl w of
        Some (Inr _, cl', w') \<Rightarrow> run_passes env n cl' w'
      | other \<Rightarrow> other)"


subsection \<open>Payments stay within the balance\<close>

text \<open>
  C21. A client that can afford a step never asks its wallet for more than the balance: the steps it
  buys times their price is at most what it has, the product does not wrap around, and it buys at
  least one step.
\<close>

theorem payment_within_balance:
  assumes "max_affordable bal opt \<noteq> 0"
  shows "unat (payment_steps config step_size opt bal * price_per_step opt) \<le> unat bal \<and>
    unat (payment_steps config step_size opt bal * price_per_step opt) =
      unat (payment_steps config step_size opt bal) * unat (price_per_step opt) \<and>
    1 \<le> payment_steps config step_size opt bal"
proof -
  let ?p = "price_per_step opt" and ?n = "payment_steps config step_size opt bal"
  have afford: "?p \<noteq> 0" "max_affordable bal opt = bal div ?p"
    using assms by (auto simp: max_affordable_def checked_div_def split: if_splits)
  have "1 \<le> bal div ?p" using assms afford(2) by (simp add: word_le_nat_alt Suc_le_eq unat_gt_0)
  then have n: "1 \<le> ?n" "?n \<le> bal div ?p"
    using afford(2) by (simp_all add: payment_steps_def Let_def)
  then have "unat ?n * unat ?p \<le> unat bal div unat ?p * unat ?p"
    by (intro mult_right_mono) (simp_all add: word_le_nat_alt unat_div)
  also have "\<dots> \<le> unat bal" by (simp add: div_times_less_eq_dividend)
  finally have le: "unat ?n * unat ?p \<le> unat bal" .
  moreover have "unat (?n * ?p) = unat ?n * unat ?p"
    using le unat_bound [of bal] by (simp add: unat_word_ariths)
  ultimately show ?thesis using n(1) by simp
qed

theorem payment_within_balance_witness:
  "unat (payment_steps \<lparr> gateway_ip = [], mac_address = [], our_mint_urls = [], pay_unit = ''sat'', max_price_per_ms = Finite 1,
      max_price_per_byte = Finite 1, preferred_allotment = 600000, poll_interval_secs = 1, renewal_threshold = Finite 1 \<rparr>
      60000 sample_option 100 * price_per_step sample_option) \<le> 100"
  using payment_within_balance [of 100 sample_option "\<lparr> gateway_ip = [], mac_address = [], our_mint_urls = [],
      pay_unit = ''sat'', max_price_per_ms = Finite 1, max_price_per_byte = Finite 1, preferred_allotment = 600000,
      poll_interval_secs = 1, renewal_threshold = Finite 1 \<rparr>" 60000]
  by (simp add: max_affordable_def checked_div_def sample_option_def)


subsection \<open>Sample gateways\<close>

definition sample_client :: V1Client where
  "sample_client =
     V1Client_new \<lparr> gateway_ip = ''10.0.0.1'', mac_address = ''aa'', our_mint_urls = [''m''], pay_unit = ''sat'',
       max_price_per_ms = Finite 1, max_price_per_byte = Finite 1, preferred_allotment = 600000,
       poll_interval_secs = 1, renewal_threshold = Finite (8 / 10) \<rparr>"

text \<open>A gateway that reports part of an allotment used, and one that reports all of it used.\<close>

definition attached_http :: "u64 http_api" where
  "attached_http =
     \<lparr> http_get = (\<lambda>_ w. (Inr (200, Inr ''123/600''), w)), http_post = (\<lambda>_ _ _ w. (Inl ''refused'', w)), sleep_ms = (\<lambda>_ w. w),
       clock_ms = (\<lambda>w. 0), status_text = show_nat, nostr = sample_nostr ''us'', json_parse = (\<lambda>_. None),
       json_print = (\<lambda>_. []) \<rparr>"

definition exhausted_http :: "u64 http_api" where
  "exhausted_http = attached_http\<lparr> http_get := (\<lambda>_ w. (Inr (200, Inr ''7/7''), w)) \<rparr>"

definition stuck_http_mint :: "(unit, unit, nat) cdk_api" where
  "stuck_http_mint =
     \<lparr> cdk_open = (\<lambda>_ w. Inr w), cdk_total_balance = (\<lambda>w. (Inr 0, w)), cdk_prepare_send = (\<lambda>_ _ w. (Inr (), w)),
       cdk_confirm_send = (\<lambda>_ w. (Inr ''cashuB'', w)), cdk_mint_quote = (\<lambda>_ w. (Inr (''q'', ''lnbc'', 0), w)),
       cdk_quote_state = (\<lambda>_ w. (Inr Paid, w)), cdk_mint = (\<lambda>_ w. (Inl ''internal error'', w)),
       cdk_recover_sagas = (\<lambda>w. w), cdk_melt_quote = (\<lambda>_ w. (Inr ''m'', w)), cdk_address_quote = (\<lambda>_ _ w. (Inr ''m'', w)),
       cdk_prepare_melt = (\<lambda>_ w. (Inr (), w)), cdk_confirm_melt = (\<lambda>_ w. (Inr (0, 0), w)), cdk_sleep = (+) \<rparr>"

lemma parse_sample_usage: "parse_usage_response ''123/600'' = (123, 600)"
proof -
  have "show_i64 123 = ''123''" "show_i64 600 = ''600''" by code_simp+
  then show ?thesis using usage_literal [of 123 600] by simp
qed

lemma parse_sample_exhausted: "parse_usage_response ''7/7'' = (7, 7)"
proof -
  have "show_i64 7 = ''7''" by code_simp
  then show ?thesis using usage_literal [of 7 7] by simp
qed

lemma sample_threshold: "f64_le (renewal_threshold (cl_config sample_client)) (Finite 1)"
  by (simp add: sample_client_def V1Client_new_def)

lemma zero_less_seven: "0 < sint (7 :: i64)"
  by simp


subsection \<open>An existing session is not paid for again\<close>

text \<open>
  A client that finds a session at the gateway does not touch its wallet: with the same gateway,
  connecting gives the same result, client and network state whatever the wallet is.
\<close>

theorem reattaching_spends_nothing:
  assumes "fetch_usage (web env) (cl_http cl) w = (Inr (usage, allotment), w1)" and "0 < sint allotment"
  shows "v1_connect env cl w = v1_connect (env\<lparr> cdk := other \<rparr>) cl w"
  using assms by (simp add: v1_connect_def reattach_def find_offer_def)

theorem reattaching_spends_nothing_witness:
  "v1_connect \<lparr> web = attached_http, cdk = stuck_mint \<rparr> sample_client 0 =
   v1_connect \<lparr> web = attached_http, cdk = stuck_mint\<lparr> cdk_total_balance := (\<lambda>w. (Inl ''no wallet'', w)) \<rparr> \<rparr> sample_client 0"
proof -
  have "fetch_usage attached_http (cl_http sample_client) 0 = (Inr (123, 600), 0)"
    by (simp add: fetch_usage_def checked_text_def attached_http_def parse_sample_usage)
  from reattaching_spends_nothing [of "\<lparr> web = attached_http, cdk = stuck_mint \<rparr>" sample_client 0 123 600 0
      "stuck_mint\<lparr> cdk_total_balance := (\<lambda>w. (Inl ''no wallet'', w)) \<rparr>"] this
  show ?thesis by simp
qed


subsection \<open>Connecting returns\<close>

text \<open>The clock of the world runs: a pause takes at least its length, and a request takes no negative time.\<close>

definition http_clock_runs :: "'w http_api \<Rightarrow> bool" where
  "http_clock_runs api \<longleftrightarrow>
     (\<forall>url w. clock_ms api w \<le> clock_ms api (snd (http_get api url w))) \<and>
     (\<forall>d w. clock_ms api w + d \<le> clock_ms api (sleep_ms api d w))"

lemma status_clock:
  assumes "http_clock_runs api"
  shows "clock_ms api w \<le> clock_ms api (snd (check_ln_invoice_status api cl quote w))"
proof -
  have "snd (check_ln_invoice_status api cl quote w) = snd (http_get api (base_url cl @ ''/ln-invoice?quote='' @ quote) w)"
    by (auto simp: check_ln_invoice_status_def checked_text_def split: prod.split sum.split)
  then show ?thesis using assms by (simp add: http_clock_runs_def)
qed

lemma ln_wait_returns:
  assumes "http_clock_runs (web env)" "start \<le> clock_ms (web env) w"
  shows "\<exists>r w'. ln_wait env cl quote start w = Some (r, w')"
  using assms(2)
proof (induction "start + LN_TIMEOUT - clock_ms (web env) w" arbitrary: w rule: less_induct)
  case less
  let ?w1 = "sleep_ms (web env) LN_POLL_INTERVAL w"
  obtain r w2 where c: "check_ln_invoice_status (web env) (cl_http cl) quote ?w1 = (r, w2)"
    by (cases "check_ln_invoice_status (web env) (cl_http cl) quote ?w1")
  have slept: "clock_ms (web env) w + 3000 \<le> clock_ms (web env) ?w1"
    using assms(1) by (simp add: http_clock_runs_def LN_POLL_INTERVAL_def)
  have "clock_ms (web env) ?w1 \<le> clock_ms (web env) w2"
    using status_clock [OF assms(1), of ?w1 "cl_http cl" quote] c by simp
  then have later: "clock_ms (web env) w < clock_ms (web env) w2" "start \<le> clock_ms (web env) w2"
    using slept less(2) by linarith+
  show ?case
  proof (cases "clock_ms (web env) ?w1 - start > LN_TIMEOUT")
    case False
    then have "start + LN_TIMEOUT - clock_ms (web env) w2 < start + LN_TIMEOUT - clock_ms (web env) w"
      using slept later by linarith
    then show ?thesis using less(1) [OF _ later(2)] c False
      by (subst ln_wait.simps) (auto simp: Let_def split: sum.split)
  qed (subst ln_wait.simps, simp add: Let_def)
qed

lemma connect_via_lightning_returns:
  assumes "http_clock_runs (web env)"
  shows "connect_via_lightning env cl ad opt steps w \<noteq> None"
proof -
  have "\<exists>r w'. ln_wait env cl quote (clock_ms (web env) v) v = Some (r, w')" for quote v
    by (rule ln_wait_returns [OF assms]) simp
  then show ?thesis
    by (simp add: connect_via_lightning_def split: prod.split sum.split option.split) (metis option.distinct(1))
qed

text \<open>
  C27. Connecting comes back: as long as the clock runs, a client is connected, or has an error, after
  finitely many requests, also when it has to wait for a Lightning payment that never arrives.
\<close>

theorem connect_returns:
  assumes "http_clock_runs (web env)"
  shows "\<exists>r cl' w'. v1_connect env cl w = Some (r, cl', w')"
proof -
  have "buy env cl v \<noteq> None" for v
    using connect_via_lightning_returns [OF assms]
    by (auto simp: buy_def Let_def split: prod.split sum.split)
  then have "v1_connect env cl w \<noteq> None"
    by (simp add: v1_connect_def split: prod.split sum.split del: not_None_eq)
  then show ?thesis by (metis option.exhaust prod.exhaust)
qed

theorem connect_returns_witness:
  "\<exists>r cl' w'. v1_connect \<lparr> web = dead_http, cdk = stuck_http_mint \<rparr> sample_client 0 = Some (r, cl', w')"
  by (rule connect_returns) (simp add: http_clock_runs_def dead_http_def)


subsection \<open>Renewals\<close>

text \<open>Renewals as a machine: an event is the world in which \<open>renew\<close> is called, an output the time of an attempt to pay.\<close>

definition renew_step :: "('p, 'm, 'w) v1_env \<Rightarrow> V1Client \<Rightarrow> 'w \<Rightarrow> V1Client \<times> nat list" where
  "renew_step env cl w =
     (let (_, cl', _) = renew env cl w
      in (cl', if may_pay cl (clock_ms (web env) w) then [clock_ms (web env) w] else []))"

lemma renew_throttled: "\<not> may_pay cl (clock_ms (web env) w) \<Longrightarrow> renew env cl w = (Inr (), cl, w)"
  by (simp add: renew_def)

lemma renew_stamps:
  "may_pay cl (clock_ms (web env) w) \<Longrightarrow>
   last_payment_attempt (fst (snd (renew env cl w))) = Some (clock_ms (web env) w)"
  by (auto simp: renew_def Let_def split: option.split sum.split prod.split)

interpretation renewals: throttled_machine "renew_step env" last_payment_attempt "\<lambda>t. t" MIN_PAYMENT_INTERVAL for env
proof
  fix s :: V1Client and e
  show "snd (renew_step env s e) = [] \<and> last_payment_attempt (fst (renew_step env s e)) = last_payment_attempt s \<or>
    (\<exists>x. snd (renew_step env s e) = [x] \<and> last_payment_attempt (fst (renew_step env s e)) = Some x \<and>
      (\<forall>t. last_payment_attempt s = Some t \<longrightarrow> MIN_PAYMENT_INTERVAL \<le> x - t))"
    using renew_throttled [of s env e] renew_stamps [of s env e]
    by (cases "may_pay s (clock_ms (web env) e)")
      (auto simp: renew_step_def case_prod_beta may_pay_def not_less split: option.splits)
qed

text \<open>
  There are no renewal storms: however often and whenever a client is asked to renew, the
  attempts to pay are at least five seconds apart, and a call in between changes neither the
  client nor the world.
\<close>

theorem renewals_are_spaced:
  "sorted_wrt (\<lambda>a b. 5000 \<le> b - a) (outputs (renew_step env) cl ws) \<and>
   (outputs (renew_step env) cl [w] \<noteq> [] \<or> renew env cl w = (Inr (), cl, w))"
proof
  show "sorted_wrt (\<lambda>a b. 5000 \<le> b - a) (outputs (renew_step env) cl ws)"
    using renewals.outputs_spaced [of env cl ws] by (simp add: spaced_def MIN_PAYMENT_INTERVAL_def)
  show "outputs (renew_step env) cl [w] \<noteq> [] \<or> renew env cl w = (Inr (), cl, w)"
    using renew_throttled [of cl env w] by (auto simp: renew_step_def case_prod_beta)
qed

text \<open>
  An exhausted session is renewed: with a threshold of at most one, a poll that finds the whole
  allotment used asks for a renewal, however the quotient of the two figures is rounded.
\<close>

theorem exhausted_session_is_renewed:
  assumes "poll_usage env cl w = ((usage, allotment, needs_renewal), w')"
    and "0 < sint allotment" and "allotment \<le> usage" and "f64_le (renewal_threshold (cl_config cl)) (Finite 1)"
  shows "needs_renewal"
proof -
  have pos: "0 < allotment" using assms(2) by (metis less_irrefl sint_0 word_gt_0)
  have "f64_le (renewal_threshold (cl_config cl)) (f64_div (f64_of_u64 usage) (f64_of_u64 allotment))"
    using f64_le_trans [OF assms(4) f64_quotient_ge_one [OF pos assms(3)]] .
  moreover have "needs_renewal =
      (f64_le (renewal_threshold (cl_config cl)) (f64_div (f64_of_u64 usage) (f64_of_u64 allotment)))"
    using assms(1,2) by (auto simp: poll_usage_def split: prod.splits sum.splits)
  ultimately show ?thesis by simp
qed

theorem exhausted_session_is_renewed_witness:
  "snd (snd (fst (poll_usage \<lparr> web = exhausted_http, cdk = stuck_mint \<rparr> sample_client 0)))"
proof -
  have "fst (poll_usage \<lparr> web = exhausted_http, cdk = stuck_mint \<rparr> sample_client 0) =
    (7, 7, snd (snd (fst (poll_usage \<lparr> web = exhausted_http, cdk = stuck_mint \<rparr> sample_client 0))))"
    by (simp add: poll_usage_def fetch_usage_def checked_text_def exhausted_http_def parse_sample_exhausted)
  then show ?thesis
    using exhausted_session_is_renewed [of "\<lparr> web = exhausted_http, cdk = stuck_mint \<rparr>" sample_client 0 7 7]
    by (metis (full_types) prod.collapse sample_threshold order_refl zero_less_seven)
qed

end
