(* ===== verification/V1_Tracker.thy ===== *)
theory V1_Tracker
  imports V1_Http_Client Throttle
begin

section \<open>The usage tracker\<close>

text \<open>
  \<^verbatim>\<open>crates/tollgate-net/src/v1_compat/usage_tracker.rs\<close>: the background task that polls the usage of one upstream
  session and asks for its renewal. The loop is a machine: an event is one poll, with the time at which the
  answer is there, the answer of \<open>fetch_usage\<close>, and how long the channel takes to accept a request (\<open>None\<close> when
  it is closed), or the cancellation; its outputs are the requests, each with the time at which it was accepted.
\<close>

definition MIN_RENEWAL_INTERVAL :: nat where
  "MIN_RENEWAL_INTERVAL = 10000"

record UsageTrackerConfig =
  tk_poll_interval :: nat
  tk_renewal_threshold :: f64

definition UsageTrackerConfig_default :: UsageTrackerConfig where
  "UsageTrackerConfig_default = \<lparr> tk_poll_interval = 1000, tk_renewal_threshold = Finite (round_f64 (8 / 10)) \<rparr>"

record RenewalRequest =
  rq_gateway_ip :: string
  current_usage :: u64
  current_allotment :: u64

record tracker =
  tk_running :: bool
  tk_poll_count :: u32
  last_renewal_request :: "nat option"

definition tracker_start :: tracker where
  "tracker_start = \<lparr> tk_running = True, tk_poll_count = 0, last_renewal_request = None \<rparr>"

datatype tracker_event = Polled nat "V1HttpError + i64 \<times> i64" "nat option" | Cancelled

definition clamp_u64 :: "i64 \<Rightarrow> u64" where
  "clamp_u64 n = (if sint n < 0 then 0 else n)"

definition needs_request :: "UsageTrackerConfig \<Rightarrow> u64 \<Rightarrow> u64 \<Rightarrow> bool" where
  "needs_request config usage allotment \<longleftrightarrow>
     allotment = 0 \<or> f64_le (tk_renewal_threshold config) (f64_div (f64_of_u64 usage) (f64_of_u64 allotment))"

definition request_throttled :: "tracker \<Rightarrow> nat \<Rightarrow> bool" where
  "request_throttled tr now =
     (case last_renewal_request tr of None \<Rightarrow> False | Some before \<Rightarrow> now - before < MIN_RENEWAL_INTERVAL)"

definition tracker_poll ::
  "UsageTrackerConfig \<Rightarrow> string \<Rightarrow> tracker \<Rightarrow> nat \<Rightarrow> V1HttpError + i64 \<times> i64 \<Rightarrow> nat option \<Rightarrow>
   tracker \<times> (nat \<times> RenewalRequest) list" where
  "tracker_poll config gateway tr now answer accepted =
     (let tr1 = tr\<lparr> tk_poll_count := tk_poll_count tr + 1 \<rparr>
      in case answer of
           Inl e \<Rightarrow> (tr1, [])
         | Inr (u, a) \<Rightarrow>
             let usage = clamp_u64 u; allotment = clamp_u64 a
             in if \<not> needs_request config usage allotment \<or> request_throttled tr1 now then (tr1, [])
                else case accepted of
                       Some d \<Rightarrow>
                         (tr1\<lparr> last_renewal_request := Some (now + d) \<rparr>,
                          [(now + d, \<lparr> rq_gateway_ip = gateway, current_usage = usage, current_allotment = allotment \<rparr>)])
                     | None \<Rightarrow> (tr1\<lparr> tk_running := False \<rparr>, []))"

fun run_tracker ::
  "UsageTrackerConfig \<Rightarrow> string \<Rightarrow> tracker \<Rightarrow> tracker_event \<Rightarrow> tracker \<times> (nat \<times> RenewalRequest) list" where
  "run_tracker config gateway tr Cancelled = (tr\<lparr> tk_running := False \<rparr>, [])"
| "run_tracker config gateway tr (Polled now answer accepted) =
     (if tk_running tr then tracker_poll config gateway tr now answer accepted else (tr, []))"


subsection \<open>Throttling\<close>

lemma tracker_poll_cases:
  "snd (tracker_poll config gateway tr now answer accepted) = [] \<and>
     last_renewal_request (fst (tracker_poll config gateway tr now answer accepted)) = last_renewal_request tr \<or>
   (\<exists>x. snd (tracker_poll config gateway tr now answer accepted) = [x] \<and>
      last_renewal_request (fst (tracker_poll config gateway tr now answer accepted)) = Some (fst x) \<and>
      (\<forall>t. last_renewal_request tr = Some t \<longrightarrow> MIN_RENEWAL_INTERVAL \<le> fst x - t))"
  by (cases answer; cases accepted; cases "last_renewal_request tr")
    (auto simp: tracker_poll_def Let_def request_throttled_def split: prod.split)

interpretation requests: throttled_machine "run_tracker config gateway" last_renewal_request fst MIN_RENEWAL_INTERVAL
  for config gateway
proof
  fix s e
  show "snd (run_tracker config gateway s e) = [] \<and>
      last_renewal_request (fst (run_tracker config gateway s e)) = last_renewal_request s \<or>
    (\<exists>x. snd (run_tracker config gateway s e) = [x] \<and>
      last_renewal_request (fst (run_tracker config gateway s e)) = Some (fst x) \<and>
      (\<forall>t. last_renewal_request s = Some t \<longrightarrow> MIN_RENEWAL_INTERVAL \<le> fst x - t))"
    using tracker_poll_cases [of config gateway s] by (cases e) simp_all
qed

text \<open>
  A tracker does not flood its manager: over any sequence of polls, the renewal requests it sends
  are at least ten seconds apart.
\<close>

theorem requests_are_spaced:
  "sorted_wrt (\<lambda>a b. 10000 \<le> b - a) (map fst (outputs (run_tracker config gateway) tr es))"
  using requests.outputs_spaced [of config gateway tr es] by (simp add: spaced_def MIN_RENEWAL_INTERVAL_def)

text \<open>
  A session that is used up is reported: a poll that finds no session, or the whole allotment used
  with a threshold of at most one, sends a request with exactly the polled figures, unless one was
  accepted less than ten seconds ago.
\<close>

theorem exhausted_session_is_reported:
  assumes "tk_running tr" and "\<not> request_throttled tr now"
    and "0 \<le> sint u" and "0 \<le> sint a" and "a \<le> u" and "f64_le (tk_renewal_threshold config) (Finite 1)"
  shows "snd (run_tracker config gateway tr (Polled now (Inr (u, a)) (Some d))) =
    [(now + d, \<lparr> rq_gateway_ip = gateway, current_usage = u, current_allotment = a \<rparr>)]"
proof -
  have "needs_request config u a"
  proof (cases "a = 0")
    case False
    then have "0 < a" by (simp add: word_gt_0)
    from f64_le_trans [OF assms(6) f64_quotient_ge_one [OF this assms(5)]] show ?thesis by (simp add: needs_request_def)
  qed (simp add: needs_request_def)
  moreover have "\<not> request_throttled (tr\<lparr> tk_poll_count := n \<rparr>) now" for n
    using assms(2) by (simp add: request_throttled_def)
  ultimately show ?thesis using assms(1,3,4)
    by (simp add: tracker_poll_def clamp_u64_def Let_def)
qed

theorem exhausted_session_is_reported_witness:
  "snd (run_tracker \<lparr> tk_poll_interval = 1000, tk_renewal_threshold = Finite (8 / 10) \<rparr> ''gw'' tracker_start
      (Polled 5 (Inr (0, 0)) (Some 1))) = [(6, \<lparr> rq_gateway_ip = ''gw'', current_usage = 0, current_allotment = 0 \<rparr>)]"
  using exhausted_session_is_reported [of tracker_start 5 0 0 "\<lparr> tk_poll_interval = 1000, tk_renewal_threshold = Finite (8 / 10) \<rparr>"
      "''gw''" 1]
  by (simp add: tracker_start_def request_throttled_def)

text \<open>A tracker that was cancelled sends nothing more.\<close>

lemma stopped_tracker_silent:
  "\<not> tk_running tr \<Longrightarrow> outputs (run_tracker config gateway) tr es = []"
proof (induction es arbitrary: tr)
  case (Cons e es)
  then show ?case by (cases e) (simp_all add: case_prod_beta)
qed simp

end
