(* ===== verification/V1_Session_Manager.thy ===== *)
theory V1_Session_Manager
  imports V1_Client V1_Tracker
begin

section \<open>The session manager\<close>

text \<open>
  \<^verbatim>\<open>crates/tollgate-net/src/v1_compat/session_manager.rs\<close>: one v1 client and one usage tracker for each gateway.
  The map of sessions is an ordered one here; the code's has no order and nothing depends on it. Spawning a
  tracker and stopping one are outputs. \<open>connect_checked\<close> and \<open>connect_done\<close> are \<^verbatim>\<open>handle_gateway_connected\<close> before and
  after it awaits the connection, which it does without holding the lock.
\<close>

record UpstreamSessionState =
  up_gateway_ip :: string
  up_interface_name :: string
  up_client :: V1Client
  up_created_at :: nat
  up_last_payment_at :: "nat option"
  up_total_spent_sats :: u64
  up_payment_count :: u32

record SessionInfo =
  si_gateway_ip :: string
  si_interface_name :: string
  si_total_allotment :: u64
  si_metric :: string
  si_total_spent_sats :: u64
  si_payment_count :: u32
  si_created_at_ago :: nat

datatype SessionManagerError = SessionExists string | NoSessionFor string | ClientFailed V1ClientError

datatype task_output = SpawnTracker string | StopTracker string

type_synonym sessions = "(string, UpstreamSessionState) btree"


subsection \<open>Operations\<close>

definition connect_checked :: "sessions \<Rightarrow> string \<Rightarrow> SessionManagerError option" where
  "connect_checked m ip = (if bt_get m ip \<noteq> None then Some (SessionExists ip) else None)"

definition connect_done :: "sessions \<Rightarrow> string \<Rightarrow> string \<Rightarrow> V1Client \<Rightarrow> nat \<Rightarrow> sessions \<times> task_output list" where
  "connect_done m iface ip cl now =
     (bt_insert ip \<lparr> up_gateway_ip = ip, up_interface_name = iface, up_client = cl, up_created_at = now,
        up_last_payment_at = Some now, up_total_spent_sats = 0,
        up_payment_count = (if cl_session cl \<noteq> None then 1 else 0) \<rparr> m,
      [SpawnTracker ip])"

definition handle_gateway_connected ::
  "('p, 'm, 'w) v1_env \<Rightarrow> V1ClientConfig \<Rightarrow> sessions \<Rightarrow> string \<Rightarrow> string \<Rightarrow> string \<Rightarrow> 'w \<Rightarrow>
   ((SessionManagerError + unit) \<times> sessions \<times> task_output list \<times> 'w) option" where
  "handle_gateway_connected env config m iface mac ip w =
     (case connect_checked m ip of
        Some e \<Rightarrow> Some (Inl e, m, [], w)
      | None \<Rightarrow>
          (case v1_connect env (V1Client_new (config\<lparr> gateway_ip := ip \<rparr>)) w of
             None \<Rightarrow> None
           | Some (Inl e, cl, w') \<Rightarrow> Some (Inl (ClientFailed e), m, [], w')
           | Some (Inr _, cl, w') \<Rightarrow>
               (let (m', out) = connect_done m iface ip cl (clock_ms (web env) w') in Some (Inr (), m', out, w'))))"

definition stop_sessions :: "(UpstreamSessionState \<Rightarrow> bool) \<Rightarrow> sessions \<Rightarrow> sessions \<times> task_output list" where
  "stop_sessions P m =
     (let ips = map fst (filter (\<lambda>(_, s). P s) m)
      in (fold bt_remove ips m, map StopTracker ips))"

definition manager_disconnect :: "sessions \<Rightarrow> string \<Rightarrow> sessions \<times> task_output list" where
  "manager_disconnect m iface = stop_sessions (\<lambda>s. up_interface_name s = iface) m"

definition manager_stop :: "sessions \<Rightarrow> sessions \<times> task_output list" where
  "manager_stop m = stop_sessions (\<lambda>s. True) m"

definition get_active_sessions :: "sessions \<Rightarrow> nat \<Rightarrow> SessionInfo list" where
  "get_active_sessions m now =
     map (\<lambda>(_, s).
       \<lparr> si_gateway_ip = up_gateway_ip s, si_interface_name = up_interface_name s,
         si_total_allotment = (case cl_session (up_client s) of Some v \<Rightarrow> total_allotment v | None \<Rightarrow> 0),
         si_metric = (case cl_session (up_client s) of Some v \<Rightarrow> session_metric_name v | None \<Rightarrow> []),
         si_total_spent_sats = up_total_spent_sats s, si_payment_count = up_payment_count s,
         si_created_at_ago = now - up_created_at s \<rparr>) m"

definition count_payment :: "V1Client \<Rightarrow> nat \<Rightarrow> UpstreamSessionState \<Rightarrow> UpstreamSessionState" where
  "count_payment cl now s =
     s\<lparr> up_client := cl, up_payment_count := up_payment_count s + 1, up_last_payment_at := Some now \<rparr>"

definition process_renewal ::
  "('p, 'm, 'w) v1_env \<Rightarrow> sessions \<Rightarrow> RenewalRequest \<Rightarrow> 'w \<Rightarrow> (sessions \<times> 'w) option" where
  "process_renewal env m req w =
     (case bt_get m (rq_gateway_ip req) of
        None \<Rightarrow> Some (m, w)
      | Some s \<Rightarrow>
          if current_allotment req = 0
          then (case v1_connect env (up_client s) w of
                  None \<Rightarrow> None
                | Some (Inr _, cl, w') \<Rightarrow> Some (bt_insert (rq_gateway_ip req) (count_payment cl (clock_ms (web env) w') s) m, w')
                | Some (Inl e, cl, w') \<Rightarrow> Some (bt_insert (rq_gateway_ip req) (s\<lparr> up_client := cl \<rparr>) m, w'))
          else (case renew env (up_client s) w of
                  (Inr _, cl, w') \<Rightarrow> Some (bt_insert (rq_gateway_ip req) (count_payment cl (clock_ms (web env) w') s) m, w')
                | (Inl e, cl, w') \<Rightarrow> Some (bt_insert (rq_gateway_ip req) (s\<lparr> up_client := cl \<rparr>) m, w')))"


subsection \<open>Trackers and sessions\<close>

text \<open>
  The manager as a machine. An event that never returns, because the connection it awaits does not,
  changes nothing.
\<close>

datatype 'w manager_event =
    GatewayConnected string string string 'w
  | InterfaceDisconnected string
  | Renewal RenewalRequest 'w
  | ManagerStop

fun manager_step ::
  "('p, 'm, 'w) v1_env \<Rightarrow> V1ClientConfig \<Rightarrow> sessions \<Rightarrow> 'w manager_event \<Rightarrow> sessions \<times> task_output list" where
  "manager_step env config m (GatewayConnected iface mac ip w) =
     (case handle_gateway_connected env config m iface mac ip w of
        Some (_, m', out, _) \<Rightarrow> (m', out) | None \<Rightarrow> (m, []))"
| "manager_step env config m (InterfaceDisconnected iface) = manager_disconnect m iface"
| "manager_step env config m (Renewal req w) =
     (case process_renewal env m req w of Some (m', _) \<Rightarrow> (m', []) | None \<Rightarrow> (m, []))"
| "manager_step env config m ManagerStop = manager_stop m"

text \<open>The trackers of a gateway that are running after the outputs so far.\<close>

definition trackers :: "string \<Rightarrow> task_output list \<Rightarrow> int" where
  "trackers ip out = int (count_list out (SpawnTracker ip)) - int (count_list out (StopTracker ip))"

definition manager_inv :: "sessions \<Rightarrow> task_output list \<Rightarrow> bool" where
  "manager_inv m out \<longleftrightarrow>
     bt_ok m \<and> (\<forall>ip. trackers ip out = (if bt_get m ip = None then 0 else 1)) \<and>
     (\<forall>ip s. bt_get m ip = Some s \<longrightarrow> up_total_spent_sats s = 0 \<and> up_gateway_ip s = ip)"

lemma fold_remove:
  "bt_get (fold bt_remove ks m) k = (if k \<in> set ks then None else bt_get m k)" "bt_ok m \<Longrightarrow> bt_ok (fold bt_remove ks m)"
  by (induction ks arbitrary: m) simp_all

lemma bt_ok_distinct: "bt_ok m \<Longrightarrow> distinct (map fst m)"
  by (auto simp: bt_ok_def bt_keys_def strict_sorted_iff)

lemma count_map_inj: "inj f \<Longrightarrow> count_list (map f xs) (f x) = count_list xs x"
  by (induction xs) (auto simp: inj_eq)

lemma count_distinct: "distinct xs \<Longrightarrow> count_list xs x = (if x \<in> set xs then 1 else 0)"
  by (induction xs) (auto simp: count_list_0_iff)

lemma stop_sessions_effect:
  assumes "bt_ok m"
  shows "bt_get (fst (stop_sessions P m)) ip =
      (case bt_get m ip of Some s \<Rightarrow> if P s then None else Some s | None \<Rightarrow> None)"
    and "bt_ok (fst (stop_sessions P m))"
    and "trackers ip (snd (stop_sessions P m)) = (case bt_get m ip of Some s \<Rightarrow> if P s then - 1 else 0 | None \<Rightarrow> 0)"
proof -
  let ?ips = "map fst (filter (\<lambda>(_, s). P s) m)"
  have mem: "ip \<in> set ?ips \<longleftrightarrow> (\<exists>s. bt_get m ip = Some s \<and> P s)" for ip
  proof
    assume "ip \<in> set ?ips"
    then obtain s where "(ip, s) \<in> set m" "P s" by auto
    then show "\<exists>s. bt_get m ip = Some s \<and> P s" using bt_entry_get [OF assms] by blast
  next
    assume "\<exists>s. bt_get m ip = Some s \<and> P s"
    then obtain s where "(ip, s) \<in> set m" "P s" using bt_get_entry by metis
    then show "ip \<in> set ?ips" by (auto simp: image_iff intro!: bexI [of _ "(ip, s)"])
  qed
  have "distinct ?ips" using bt_ok_distinct [OF assms] by (rule distinct_map_filter)
  then have "count_list (map StopTracker ?ips) (StopTracker ip) = (if \<exists>s. bt_get m ip = Some s \<and> P s then 1 else 0)"
    using count_map_inj [of StopTracker ?ips ip] count_distinct [of ?ips ip] mem [of ip] by (simp add: inj_def)
  moreover have "count_list (map StopTracker ?ips) (SpawnTracker ip) = 0" by (auto simp: count_list_0_iff)
  ultimately show "trackers ip (snd (stop_sessions P m)) = (case bt_get m ip of Some s \<Rightarrow> if P s then - 1 else 0 | None \<Rightarrow> 0)"
    by (auto simp: stop_sessions_def trackers_def split: option.split)
  show "bt_get (fst (stop_sessions P m)) ip = (case bt_get m ip of Some s \<Rightarrow> if P s then None else Some s | None \<Rightarrow> None)"
    using mem [of ip] by (auto simp: stop_sessions_def fold_remove split: option.split)
  show "bt_ok (fst (stop_sessions P m))" using assms by (simp add: stop_sessions_def fold_remove)
qed

lemma trackers_append: "trackers ip (xs @ ys) = trackers ip xs + trackers ip ys"
  by (simp add: trackers_def)

lemma trackers_simps [simp]: "trackers ip [] = 0" "trackers ip [SpawnTracker i] = (if i = ip then 1 else 0)"
  by (simp_all add: trackers_def)

lemma manager_inv_stop:
  assumes "manager_inv m out"
  shows "manager_inv (fst (stop_sessions P m)) (out @ snd (stop_sessions P m))"
proof -
  have ok: "bt_ok m" using assms by (simp add: manager_inv_def)
  then show ?thesis using assms stop_sessions_effect [OF ok, where P = P]
    by (auto simp: manager_inv_def trackers_append split: option.splits if_splits)
qed

lemma manager_inv_update:
  assumes "manager_inv m out" and "bt_get m ip = Some s" and "up_total_spent_sats s' = up_total_spent_sats s"
    and "up_gateway_ip s' = up_gateway_ip s"
  shows "manager_inv (bt_insert ip s' m) out"
  using assms by (auto simp: manager_inv_def)

lemma manager_inv_connected:
  assumes "manager_inv m out" and "bt_get m ip = None"
  shows "manager_inv (fst (connect_done m iface ip cl now)) (out @ snd (connect_done m iface ip cl now))"
  using assms by (auto simp: manager_inv_def connect_done_def trackers_append)

lemma manager_inv_renewal:
  assumes "manager_inv m out" and "process_renewal env m req w = Some (m', w')"
  shows "manager_inv m' out"
proof (cases "bt_get m (rq_gateway_ip req)")
  case None
  then show ?thesis using assms by (simp add: process_renewal_def)
next
  case (Some s)
  have "\<exists>s'. m' = bt_insert (rq_gateway_ip req) s' m \<and> up_total_spent_sats s' = up_total_spent_sats s \<and>
      up_gateway_ip s' = up_gateway_ip s"
    using assms(2) Some
    by (auto simp: process_renewal_def count_payment_def split: if_splits option.splits prod.splits sum.splits)
  then show ?thesis using manager_inv_update [OF assms(1) Some] by blast
qed

lemma manager_inv_step:
  assumes "manager_inv m out"
  shows "manager_inv (fst (manager_step env config m e)) (out @ snd (manager_step env config m e))"
proof (cases e)
  case (GatewayConnected iface mac ip w)
  then show ?thesis using assms manager_inv_connected [OF assms, of ip iface]
    by (auto simp: handle_gateway_connected_def connect_checked_def case_prod_beta Let_def
        split: option.splits sum.splits prod.splits if_splits)
next
  case (Renewal req w)
  then show ?thesis using assms manager_inv_renewal [OF assms, of env req w] by (auto split: option.split)
qed (use manager_inv_stop [OF assms] in \<open>simp_all add: manager_disconnect_def manager_stop_def\<close>)

interpretation manager: traced_machine "manager_step env config" manager_inv for env config
  by unfold_locales (rule manager_inv_step)

lemma manager_inv_run:
  "manager_inv (final (manager_step env config) bt_empty es) (outputs (manager_step env config) bt_empty es)"
proof -
  have "manager_inv bt_empty []" by (simp add: manager_inv_def)
  from manager.tinv_run [OF this] show ?thesis by simp
qed

text \<open>
  C30. Trackers live as long as their sessions: after any sequence of calls, a gateway with a session
  has exactly one running tracker, and a gateway without a session has none.
\<close>

theorem one_tracker_per_session:
  "trackers ip (outputs (manager_step env config) bt_empty es) =
     (if bt_get (final (manager_step env config) bt_empty es) ip = None then 0 else 1)"
  using manager_inv_run [of env config es] by (simp add: manager_inv_def)

text \<open>
  What a gateway has cost is never counted: the total of every session the manager reports is
  zero, although the field is documented as the sats spent on the gateway.
\<close>

theorem spending_never_counted:
  "list_all (\<lambda>info. si_total_spent_sats info = 0)
     (get_active_sessions (final (manager_step env config) bt_empty es) now)"
proof -
  let ?m = "final (manager_step env config) bt_empty es"
  have "bt_ok ?m" "\<forall>ip s. bt_get ?m ip = Some s \<longrightarrow> up_total_spent_sats s = 0"
    using manager_inv_run [of env config es] by (simp_all add: manager_inv_def)
  then have "\<forall>(ip, s) \<in> set ?m. up_total_spent_sats s = 0" using bt_entry_get by fastforce
  then show ?thesis by (auto simp: get_active_sessions_def list_all_iff)
qed

text \<open>
  Two calls that connect to one gateway at a time leave a tracker behind: both pass the check, both
  connect and pay, the second entry replaces the first without stopping its tracker, and after a
  disconnect no session is left while one tracker still polls.
\<close>

theorem concurrent_connects_leak_tracker:
  assumes "bt_ok m" and "connect_checked m ip = None"
  shows "let (m1, o1) = connect_done m iface ip cl1 t1; (m2, o2) = connect_done m1 iface ip cl2 t2;
      (m3, o3) = manager_disconnect m2 iface
    in bt_get m3 ip = None \<and> trackers ip (o1 @ o2 @ o3) = 1"
proof -
  let ?m2 = "fst (connect_done (fst (connect_done m iface ip cl1 t1)) iface ip cl2 t2)"
  have ok: "bt_ok ?m2" using assms(1) by (simp add: connect_done_def)
  have "bt_get (fst (manager_disconnect ?m2 iface)) ip = None" "trackers ip (snd (manager_disconnect ?m2 iface)) = - 1"
    unfolding manager_disconnect_def stop_sessions_effect [OF ok] by (simp_all add: connect_done_def)
  then show ?thesis by (simp add: case_prod_beta trackers_append connect_done_def)
qed

theorem concurrent_connects_leak_tracker_witness:
  "let (m1, o1) = connect_done bt_empty ''eth0'' ''10.0.0.1'' sample_client 1;
      (m2, o2) = connect_done m1 ''eth0'' ''10.0.0.1'' sample_client 2;
      (m3, o3) = manager_disconnect m2 ''eth0''
    in bt_get m3 ''10.0.0.1'' = None \<and> trackers ''10.0.0.1'' (o1 @ o2 @ o3) = 1"
  by (rule concurrent_connects_leak_tracker) (simp_all add: connect_checked_def)

text \<open>
  A renewal that the client throttles is counted as a payment all the same.
\<close>

theorem throttled_renewal_is_counted:
  assumes "bt_get m ip = Some s" and "current_allotment req \<noteq> 0" and "rq_gateway_ip req = ip"
    and "\<not> may_pay (up_client s) (clock_ms (web env) w)"
  shows "\<exists>m'. process_renewal env m req w = Some (m', w) \<and>
    (\<exists>s'. bt_get m' ip = Some s' \<and> up_payment_count s' = up_payment_count s + 1 \<and> up_client s' = up_client s)"
  using assms by (simp add: process_renewal_def renew_throttled count_payment_def)

end
