(* ===== verification/V1_Crowsnest.thy ===== *)
theory V1_Crowsnest
  imports V1_Session_Manager V1_Merchant
begin

section \<open>Discovering gateways\<close>

text \<open>
  \<^verbatim>\<open>crates/tollgate-net/src/v1_compat/crowsnest.rs\<close>: the loop that probes a list of gateways, hands the ones that
  are TollGates to a session handler and gives up on the ones that stay unreachable. The requests and the
  check of a signature are parameters. The handler is a trait in the code and a record of its two methods
  here; \<open>lawful_handler\<close> states what the loop relies on, and the session manager is shown to provide it.
\<close>

record CrowsnestConfig =
  gateway_ips :: "string list"
  scan_interval :: nat
  probe_timeout :: nat
  verify_signature :: bool
  cn_interface_name :: string
  cn_mac_address :: string

definition CrowsnestConfig_default :: CrowsnestConfig where
  "CrowsnestConfig_default =
     \<lparr> gateway_ips = [], scan_interval = 30000, probe_timeout = 5000, verify_signature = True,
       cn_interface_name = ''eth0'', cn_mac_address = ''00:00:00:00:00:00'' \<rparr>"

definition DISCONNECT_AFTER_CONSECUTIVE_FAILURES :: u32 where
  "DISCONNECT_AFTER_CONSECUTIVE_FAILURES = 3"

datatype GatewayHandlerError = HandlerSessionExists string | HandlerOther string

record ('s, 'w) gateway_handler =
  gh_connected :: "string \<Rightarrow> string \<Rightarrow> string \<Rightarrow> 's \<Rightarrow> 'w \<Rightarrow> ((GatewayHandlerError + unit) \<times> 's \<times> 'w) option"
  gh_disconnect :: "string \<Rightarrow> 's \<Rightarrow> (GatewayHandlerError + unit) \<times> 's"

record UpstreamMint =
  um_url :: string
  um_price_per_step :: u64
  um_unit :: string
  um_min_steps :: u64

record DiscoveredUpstream =
  du_gateway_ip :: string
  du_interface :: string
  du_nostr_pubkey :: string
  du_metric :: string
  du_step_size :: u64
  du_accepted_mints :: "UpstreamMint list"

datatype UpstreamDetectError = DetectHttp string | InvalidAdvertisement string | InvalidSignature | ProbeTimeout

datatype probe_failure = BuildFailed string | TimedOut | SendFailed string

record 'w probe_api =
  probe_get :: "string \<Rightarrow> nat \<Rightarrow> 'w \<Rightarrow> (probe_failure + nat \<times> (string + string)) \<times> 'w"
  probe_nostr :: nostr_api
  signature_ok :: "nostr_event \<Rightarrow> bool"
  nostr_error_text :: "V1NostrError \<Rightarrow> string"


subsection \<open>Probing\<close>

definition upstream_mint :: "pricing_option \<Rightarrow> UpstreamMint" where
  "upstream_mint p =
     \<lparr> um_url = po_mint_url p, um_price_per_step = price_per_step p, um_unit = po_unit p, um_min_steps = min_steps p \<rparr>"

definition parse_advertisement ::
  "'w probe_api \<Rightarrow> string \<Rightarrow> string \<Rightarrow> string \<Rightarrow> bool \<Rightarrow> UpstreamDetectError + DiscoveredUpstream" where
  "parse_advertisement api event_json ip iface check_sig =
     (case Advertisement_from_json (probe_nostr api) event_json of
        Inl e \<Rightarrow> Inl (InvalidAdvertisement (''failed to parse event: '' @ nostr_error_text api e))
      | Inr ad \<Rightarrow>
          if check_sig \<and> \<not> signature_ok api ad then Inl InvalidSignature
          else case adv_metric ad of
                 None \<Rightarrow> Inl (InvalidAdvertisement ''missing 'metric' tag'')
               | Some m \<Rightarrow>
                   (case adv_step_size ad of
                      None \<Rightarrow> Inl (InvalidAdvertisement ''missing or invalid 'step_size' tag'')
                    | Some sz \<Rightarrow>
                        if pricing_options ad = [] then Inl (InvalidAdvertisement ''no 'price_per_step' tags found'')
                        else Inr \<lparr> du_gateway_ip = ip, du_interface = iface, du_nostr_pubkey = ev_pubkey ad, du_metric = m,
                                   du_step_size = sz, du_accepted_mints = map upstream_mint (pricing_options ad) \<rparr>))"

definition probe_url ::
  "'w probe_api \<Rightarrow> string \<Rightarrow> string \<Rightarrow> nat \<Rightarrow> bool \<Rightarrow> 'w \<Rightarrow> (UpstreamDetectError + DiscoveredUpstream option) \<times> 'w" where
  "probe_url api url ip timeout check_sig w =
     (case probe_get api url timeout w of
        (Inl (BuildFailed e), w') \<Rightarrow> (Inl (DetectHttp (''failed to build HTTP client: '' @ e)), w')
      | (Inl TimedOut, w') \<Rightarrow> (Inl ProbeTimeout, w')
      | (Inl (SendFailed e), w') \<Rightarrow> (Inl (DetectHttp (''request failed: '' @ e)), w')
      | (Inr (status, txt), w') \<Rightarrow>
          (if \<not> (200 \<le> status \<and> status < 300) then Inr None
           else case txt of
                  Inl e \<Rightarrow> Inl (DetectHttp (''failed to read response body: '' @ e))
                | Inr body \<Rightarrow>
                    (case parse_advertisement api body ip ''unknown'' check_sig of
                       Inr d \<Rightarrow> Inr (Some d)
                     | Inl (InvalidAdvertisement _) \<Rightarrow> Inr None
                     | Inl e \<Rightarrow> Inl e), w'))"

definition probe_gateway ::
  "'w probe_api \<Rightarrow> string \<Rightarrow> nat \<Rightarrow> bool \<Rightarrow> 'w \<Rightarrow> (UpstreamDetectError + DiscoveredUpstream option) \<times> 'w" where
  "probe_gateway api ip timeout check_sig w = probe_url api (''http://'' @ ip @ '':2121/'') ip timeout check_sig w"


subsection \<open>The loop\<close>

type_synonym failure_counts = "string \<Rightarrow> u32 option"

text \<open>The count of a gateway after one more failure, and whether to disconnect.\<close>

definition count_failure :: "u32 option \<Rightarrow> u32 \<times> bool" where
  "count_failure c =
     (let n = (case c of None \<Rightarrow> 0 | Some k \<Rightarrow> k) + 1
      in if n \<ge> DISCONNECT_AFTER_CONSECUTIVE_FAILURES then (0, True) else (n, False))"

definition scan_gateway ::
  "CrowsnestConfig \<Rightarrow> 'w probe_api \<Rightarrow> ('s, 'w) gateway_handler \<Rightarrow> string \<Rightarrow> failure_counts \<times> 's \<times> 'w \<Rightarrow>
   (failure_counts \<times> 's \<times> 'w) option" where
  "scan_gateway config api handler ip csw =
     (let (counts, s, w) = csw
      in case probe_gateway api ip (probe_timeout config) (verify_signature config) w of
           (Inr (Some _), w1) \<Rightarrow>
             (case gh_connected handler (cn_interface_name config) (cn_mac_address config) ip s w1 of
                None \<Rightarrow> None
              | Some (_, s', w2) \<Rightarrow> Some (counts(ip \<mapsto> 0), s', w2))
         | (Inr None, w1) \<Rightarrow> Some (counts(ip \<mapsto> 0), s, w1)
         | (Inl e, w1) \<Rightarrow>
             (let (n, give_up) = count_failure (counts ip);
                  s' = (if give_up then snd (gh_disconnect handler (cn_interface_name config) s) else s)
              in Some (counts(ip \<mapsto> n), s', w1)))"

fun scan_gateways ::
  "CrowsnestConfig \<Rightarrow> 'w probe_api \<Rightarrow> ('s, 'w) gateway_handler \<Rightarrow> string list \<Rightarrow> failure_counts \<times> 's \<times> 'w \<Rightarrow>
   (failure_counts \<times> 's \<times> 'w) option" where
  "scan_gateways config api handler [] csw = Some csw"
| "scan_gateways config api handler (ip # ips) csw =
     (case scan_gateway config api handler ip csw of None \<Rightarrow> None | Some csw' \<Rightarrow> scan_gateways config api handler ips csw')"

text \<open>The loop of \<^verbatim>\<open>run\<close>: \<open>n\<close> scans until it is cancelled. Nothing is kept of the pauses between them.\<close>

fun crowsnest_run ::
  "CrowsnestConfig \<Rightarrow> 'w probe_api \<Rightarrow> ('s, 'w) gateway_handler \<Rightarrow> nat \<Rightarrow> failure_counts \<times> 's \<times> 'w \<Rightarrow>
   (failure_counts \<times> 's \<times> 'w) option" where
  "crowsnest_run config api handler 0 csw = Some csw"
| "crowsnest_run config api handler (Suc n) csw =
     (case scan_gateways config api handler (gateway_ips config) csw of
        None \<Rightarrow> None
      | Some csw' \<Rightarrow> crowsnest_run config api handler n csw')"

text \<open>The session manager as a handler; \<open>error_text\<close> is the rendering of its other errors. Its tasks are left out.\<close>

definition manager_handler ::
  "('p, 'm, 'w) v1_env \<Rightarrow> V1ClientConfig \<Rightarrow> (SessionManagerError \<Rightarrow> string) \<Rightarrow> (sessions, 'w) gateway_handler" where
  "manager_handler env config error_text =
     \<lparr> gh_connected = (\<lambda>iface mac ip m w.
         case handle_gateway_connected env config m iface mac ip w of
           None \<Rightarrow> None
         | Some (r, m', _, w') \<Rightarrow>
             Some (case r of
                     Inr _ \<Rightarrow> Inr ()
                   | Inl (SessionExists gw) \<Rightarrow> Inl (HandlerSessionExists gw)
                   | Inl e \<Rightarrow> Inl (HandlerOther (error_text e)), m', w')),
       gh_disconnect = (\<lambda>iface m. (Inr (), fst (manager_disconnect m iface))) \<rparr>"


subsection \<open>The handler interface\<close>

lemma count_failure_values:
  "count_failure None = (1, False)" "count_failure (Some 0) = (1, False)" "count_failure (Some 1) = (2, False)"
  "count_failure (Some 2) = (0, True)"
  by (simp_all add: count_failure_def DISCONNECT_AFTER_CONSECUTIVE_FAILURES_def word_le_nat_alt)

text \<open>
  What the loop relies on: \<open>known s ip\<close> is the interface of the session with a gateway. Connecting
  to a known gateway is refused and changes nothing; connecting to another one can only add it; a
  disconnect removes the sessions of an interface and no others.
\<close>

definition all_on :: "('s \<Rightarrow> string \<Rightarrow> string option) \<Rightarrow> string \<Rightarrow> 's \<Rightarrow> bool" where
  "all_on known iface s \<longleftrightarrow> (\<forall>ip. known s ip = None \<or> known s ip = Some iface)"

locale lawful_handler =
  fixes handler :: "('s, 'w) gateway_handler"
    and known :: "'s \<Rightarrow> string \<Rightarrow> string option"
    and ok :: "'s \<Rightarrow> bool"
  assumes connect_known: "known s ip \<noteq> None \<Longrightarrow>
      gh_connected handler iface mac ip s w = Some (Inl (HandlerSessionExists ip), s, w)"
    and connect_new: "ok s \<Longrightarrow> gh_connected handler iface mac ip s w = Some (r, s', w') \<Longrightarrow> known s ip = None \<Longrightarrow>
      known s' = (if r = Inr () then (known s)(ip \<mapsto> iface) else known s)"
    and disconnect_known: "ok s \<Longrightarrow>
      known (snd (gh_disconnect handler iface s)) ip = (if known s ip = Some iface then None else known s ip)"
    and ok_connected: "ok s \<Longrightarrow> gh_connected handler iface mac ip s w = Some (r, s', w') \<Longrightarrow> ok s'"
    and ok_disconnect: "ok s \<Longrightarrow> ok (snd (gh_disconnect handler iface s))"
begin

text \<open>Every session the loop makes is on its one interface.\<close>

lemma connected_all_on:
  assumes "ok s" "all_on known iface s" "gh_connected handler iface mac ip s w = Some (r, s', w')"
  shows "ok s' \<and> all_on known iface s'"
proof (cases "known s ip = None")
  case True
  then show ?thesis using connect_new [OF assms(1,3) True] ok_connected [OF assms(1,3)] assms(2)
    by (auto simp: all_on_def)
next
  case False
  then show ?thesis using connect_known [OF False, of iface mac w] assms by simp
qed

lemma disconnect_all_on:
  assumes "ok s" "all_on known iface s"
  shows "known (snd (gh_disconnect handler iface s)) ip = None"
  using assms disconnect_known [OF assms(1), of iface ip] by (auto simp: all_on_def)

lemma scan_all_on:
  assumes "ok s" "all_on known (cn_interface_name config) s"
    and "scan_gateway config api handler ip (counts, s, w) = Some (counts', s', w')"
  shows "ok s' \<and> all_on known (cn_interface_name config) s'"
proof -
  let ?i = "cn_interface_name config"
  have "s' = s \<or> s' = snd (gh_disconnect handler ?i s) \<or>
      (\<exists>w1 r w2. gh_connected handler ?i (cn_mac_address config) ip s w1 = Some (r, s', w2))"
    using assms(3) by (auto simp: scan_gateway_def Let_def split: prod.splits sum.splits option.splits if_splits)
  then show ?thesis
  proof (elim disjE exE)
    assume "s' = snd (gh_disconnect handler ?i s)"
    then show ?thesis using disconnect_all_on [OF assms(1,2)] ok_disconnect [OF assms(1)] by (simp add: all_on_def)
  next
    fix w1 r w2 assume "gh_connected handler ?i (cn_mac_address config) ip s w1 = Some (r, s', w2)"
    from connected_all_on [OF assms(1,2) this] show ?thesis .
  qed (use assms(1,2) in simp)
qed

lemma scans_all_on:
  assumes "ok s" "all_on known (cn_interface_name config) s"
    and "scan_gateways config api handler ips (counts, s, w) = Some (counts', s', w')"
  shows "ok s' \<and> all_on known (cn_interface_name config) s'"
  using assms
proof (induction ips arbitrary: counts s w)
  case (Cons ip ips)
  then obtain counts1 s1 w1 where one: "scan_gateway config api handler ip (counts, s, w) = Some (counts1, s1, w1)"
    and rest: "scan_gateways config api handler ips (counts1, s1, w1) = Some (counts', s', w')"
    by (auto split: option.splits)
  from scan_all_on [OF Cons.prems(1,2) one] have "ok s1" "all_on known (cn_interface_name config) s1" by simp_all
  from Cons.IH [OF this rest] show ?case .
qed simp

lemma run_all_on:
  assumes "ok s" "all_on known (cn_interface_name config) s"
    and "crowsnest_run config api handler n (counts, s, w) = Some (counts', s', w')"
  shows "ok s' \<and> all_on known (cn_interface_name config) s'"
  using assms
proof (induction n arbitrary: counts s w)
  case (Suc n)
  then obtain counts1 s1 w1 where
    one: "scan_gateways config api handler (gateway_ips config) (counts, s, w) = Some (counts1, s1, w1)"
    and rest: "crowsnest_run config api handler n (counts1, s1, w1) = Some (counts', s', w')"
    by (auto split: option.splits)
  from scans_all_on [OF Suc.prems(1,2) one] have "ok s1" "all_on known (cn_interface_name config) s1" by simp_all
  from Suc.IH [OF this rest] show ?case .
qed simp

text \<open>A probe that fails for the third time in a row ends every session.\<close>

lemma third_failure_ends_all:
  assumes "ok s" "all_on known (cn_interface_name config) s" and "counts ip = Some 2"
    and "probe_gateway api ip (probe_timeout config) (verify_signature config) w = (Inl e, w1)"
  shows "\<exists>counts' s'. scan_gateway config api handler ip (counts, s, w) = Some (counts', s', w1) \<and> (\<forall>gw. known s' gw = None)"
  using assms(3,4) disconnect_all_on [OF assms(1,2)]
  by (simp add: scan_gateway_def count_failure_def DISCONNECT_AFTER_CONSECUTIVE_FAILURES_def)

end

subsection \<open>The session manager is such a handler\<close>

definition manager_known :: "sessions \<Rightarrow> string \<Rightarrow> string option" where
  "manager_known m ip = map_option up_interface_name (bt_get m ip)"

lemma manager_connect_known:
  "bt_get m ip \<noteq> None \<Longrightarrow> handle_gateway_connected env config m iface mac ip w = Some (Inl (SessionExists ip), m, [], w)"
  by (simp add: handle_gateway_connected_def connect_checked_def)

lemma manager_connect_new:
  assumes "handle_gateway_connected env config m iface mac ip w = Some (r, m', out, w')" and "bt_get m ip = None"
  shows "(r = Inr () \<and> (\<exists>s. m' = bt_insert ip s m \<and> up_interface_name s = iface)) \<or> (\<exists>e. r = Inl e \<and> (\<forall>gw. e \<noteq> SessionExists gw) \<and> m' = m)"
  using assms
  by (auto simp: handle_gateway_connected_def connect_checked_def connect_done_def Let_def
      split: option.splits prod.splits sum.splits)

interpretation manager_laws: lawful_handler "manager_handler env config error_text" manager_known bt_ok for env config error_text
proof
  fix s :: sessions and ip iface mac w
  show "manager_known s ip \<noteq> None \<Longrightarrow>
      gh_connected (manager_handler env config error_text) iface mac ip s w = Some (Inl (HandlerSessionExists ip), s, w)"
    by (simp add: manager_known_def manager_handler_def manager_connect_known)
  fix r s' w'
  assume ok: "bt_ok s"
  {
    assume c: "gh_connected (manager_handler env config error_text) iface mac ip s w = Some (r, s', w')"
    then obtain r0 out where h: "handle_gateway_connected env config s iface mac ip w = Some (r0, s', out, w')"
      and r: "r = (case r0 of Inr _ \<Rightarrow> Inr () | Inl (SessionExists gw) \<Rightarrow> Inl (HandlerSessionExists gw) | Inl e \<Rightarrow> Inl (HandlerOther (error_text e)))"
      by (auto simp: manager_handler_def split: option.splits)
    show "manager_known s ip = None \<Longrightarrow> manager_known s' = (if r = Inr () then (manager_known s)(ip \<mapsto> iface) else manager_known s)"
      using manager_connect_new [OF h] r
      by (auto simp: manager_known_def fun_eq_iff split: SessionManagerError.splits)
    show "bt_ok s'"
    proof (cases "bt_get s ip")
      case None
      then show ?thesis using manager_connect_new [OF h None] ok by auto
    next
      case (Some x)
      then show ?thesis using h ok manager_connect_known [of s ip env config iface mac w] by simp
    qed
  }
  show "manager_known (snd (gh_disconnect (manager_handler env config error_text) iface s)) ip =
      (if manager_known s ip = Some iface then None else manager_known s ip)"
    using stop_sessions_effect(1) [OF ok]
    by (auto simp: manager_known_def manager_handler_def manager_disconnect_def split: option.split)
  show "bt_ok (snd (gh_disconnect (manager_handler env config error_text) iface s))"
    using stop_sessions_effect(2) [OF ok] by (simp add: manager_handler_def manager_disconnect_def)
qed

text \<open>
  One unreachable gateway ends the sessions with all of them: starting from no session, after any
  number of scans, when the probe of a gateway fails for the third time in a row the manager has no
  session left at all, because every session of the loop is on its one interface and the disconnect
  names the interface and not the gateway.
\<close>

theorem unreachable_gateway_ends_all_sessions:
  assumes "crowsnest_run config api (manager_handler env cl_cfg txt) n (\<lambda>_. None, bt_empty, w0) = Some (counts, m, w)"
    and "counts ip = Some 2"
    and "probe_gateway api ip (probe_timeout config) (verify_signature config) w = (Inl e, w1)"
  shows "\<exists>counts' m'. scan_gateway config api (manager_handler env cl_cfg txt) ip (counts, m, w) = Some (counts', m', w1) \<and>
    (\<forall>gw. bt_get m' gw = None)"
proof -
  have "bt_ok (bt_empty :: sessions)" "all_on manager_known (cn_interface_name config) bt_empty"
    by (simp_all add: all_on_def manager_known_def)
  from manager_laws.run_all_on [OF this assms(1)]
  have "bt_ok m" "all_on manager_known (cn_interface_name config) m" by simp_all
  from manager_laws.third_failure_ends_all [where api = api and counts = counts and ip = ip and w = w, OF this assms(2,3)]
  show ?thesis by (simp add: manager_known_def)
qed

definition dead_probe :: "nat probe_api" where
  "dead_probe =
     \<lparr> probe_get = (\<lambda>_ d w. (Inl TimedOut, w + d)), probe_nostr = sample_nostr ''us'', signature_ok = (\<lambda>_. True),
       nostr_error_text = (\<lambda>_. ''bad event'') \<rparr>"

definition one_gateway :: CrowsnestConfig where
  "one_gateway = CrowsnestConfig_default\<lparr> gateway_ips := [''10.0.0.1''] \<rparr>"

lemma dead_probe_fails: "probe_gateway dead_probe ip d v w = (Inl ProbeTimeout, w + d)"
  by (simp add: probe_gateway_def probe_url_def dead_probe_def)

theorem unreachable_gateway_ends_all_sessions_witness:
  "\<exists>counts m. crowsnest_run one_gateway dead_probe (manager_handler \<lparr> web = dead_http, cdk = stuck_http_mint \<rparr>
       (cl_config sample_client) (\<lambda>_. [])) 2 (\<lambda>_. None, bt_empty, 0) = Some (counts, m, 10000) \<and>
     (\<exists>counts' m'. scan_gateway one_gateway dead_probe (manager_handler \<lparr> web = dead_http, cdk = stuck_http_mint \<rparr>
       (cl_config sample_client) (\<lambda>_. [])) ''10.0.0.1'' (counts, m, 10000) = Some (counts', m', 15000) \<and>
     (\<forall>gw. bt_get m' gw = None))"
proof -
  let ?h = "manager_handler \<lparr> web = dead_http, cdk = stuck_http_mint \<rparr> (cl_config sample_client) (\<lambda>_. [])"
  have "crowsnest_run one_gateway dead_probe ?h (Suc (Suc 0)) (\<lambda>_. None, bt_empty, 0) =
      Some (((\<lambda>_. None)(''10.0.0.1'' \<mapsto> 1))(''10.0.0.1'' \<mapsto> 2), bt_empty, 10000)"
    by (simp add: scan_gateway_def dead_probe_fails one_gateway_def CrowsnestConfig_default_def count_failure_values)
  then have run: "crowsnest_run one_gateway dead_probe ?h 2 (\<lambda>_. None, bt_empty, 0) =
      Some (((\<lambda>_. None)(''10.0.0.1'' \<mapsto> 1))(''10.0.0.1'' \<mapsto> 2), bt_empty, 10000)"
    by (simp only: numeral_2_eq_2 One_nat_def)
  have "probe_gateway dead_probe ''10.0.0.1'' (probe_timeout one_gateway) (verify_signature one_gateway) 10000 = (Inl ProbeTimeout, 15000)"
    by (simp add: dead_probe_fails one_gateway_def CrowsnestConfig_default_def)
  from run unreachable_gateway_ends_all_sessions [OF run _ this] show ?thesis by auto
qed


subsection \<open>When a gateway is given up\<close>

text \<open>How many probes of a list, true for a failure, have failed since the last that did not.\<close>

definition failure_streak :: "bool list \<Rightarrow> nat" where
  "failure_streak rs = length (takeWhile (\<lambda>b. b) (rev rs))"

definition crow_step :: "u32 option \<Rightarrow> bool \<Rightarrow> u32 option \<times> unit list" where
  "crow_step c failed =
     (if failed then (let (n, give_up) = count_failure c in (Some n, if give_up then [()] else [])) else (Some 0, []))"

lemma crow_count:
  "(case final crow_step None rs of None \<Rightarrow> 0 | Some k \<Rightarrow> k) = of_nat (failure_streak rs mod 3)"
proof (induction rs rule: rev_induct)
  case Nil
  then show ?case by (simp add: failure_streak_def)
next
  case (snoc r rs)
  let ?c = "final crow_step None rs" and ?k = "failure_streak rs"
  have "?k mod 3 = 0 \<or> ?k mod 3 = 1 \<or> ?k mod 3 = 2" by linarith
  moreover have "Suc ?k mod 3 = (if ?k mod 3 = 2 then 0 else Suc (?k mod 3))" by (simp add: mod_Suc)
  ultimately show ?case using snoc
    by (auto simp: machine_simps crow_step_def count_failure_def DISCONNECT_AFTER_CONSECUTIVE_FAILURES_def failure_streak_def
        Let_def word_le_nat_alt)
qed

text \<open>
  A gateway is given up on exactly every third failure in a row: after any history of probes, one
  more failure disconnects if and only if it makes the current row of failures a multiple of three.
\<close>

theorem gives_up_on_third_failure:
  "snd (crow_step (final crow_step None rs) True) \<noteq> [] \<longleftrightarrow> failure_streak (rs @ [True]) mod 3 = 0"
proof -
  let ?k = "failure_streak rs"
  have "?k mod 3 = 0 \<or> ?k mod 3 = 1 \<or> ?k mod 3 = 2" by linarith
  moreover have "failure_streak (rs @ [True]) mod 3 = (if ?k mod 3 = 2 then 0 else Suc (?k mod 3))"
    by (simp add: failure_streak_def mod_Suc)
  ultimately show ?thesis using crow_count [of rs]
    by (auto simp: crow_step_def count_failure_def DISCONNECT_AFTER_CONSECUTIVE_FAILURES_def Let_def word_le_nat_alt)
qed


subsection \<open>A v1 server is found\<close>

text \<open>
  The crowsnest finds a TollGate of this program: the advertisement a v1 server builds, with at least one
  reachable mint, is recognised by a probe that does not ask for a signature or finds it good, and what
  is found are exactly the server's metric, step size and reachable mints with their prices.
\<close>

theorem server_is_discovered:
  assumes "nostr_ok (probe_nostr api)" and "build_advertisement (probe_nostr api) config = Inr json"
    and "reachable_mints config \<noteq> []" and "\<And>e. check_sig \<Longrightarrow> signature_ok api e"
    and "probe_get api url timeout w = (Inr (200, Inr json), w')"
  shows "\<exists>d. probe_url api url ip timeout check_sig w = (Inr (Some d), w') \<and> du_gateway_ip d = ip \<and>
    du_metric d = metric config \<and> du_step_size d = step_size config \<and>
    du_accepted_mints d = map (\<lambda>m. \<lparr> um_url = am_url m, um_price_per_step = am_price_per_step m,
      um_unit = am_unit m, um_min_steps = am_min_steps m \<rparr>) (reachable_mints config)"
proof -
  obtain e where e: "Advertisement_from_json (probe_nostr api) json = Inr e"
    "adv_metric e = Some (metric config)" "adv_step_size e = Some (step_size config)"
    "pricing_options e = map option_of_mint (reachable_mints config)"
    using advertisement_read [OF assms(1,2)] by blast
  then show ?thesis using assms(3-5)
    by (auto simp: probe_url_def parse_advertisement_def upstream_mint_def option_of_mint_def)
qed

theorem server_is_discovered_witness:
  "\<exists>api d. probe_url (api :: nat probe_api) ''u'' ''10.0.0.1'' 5000 True 0 = (Inr (Some d), 0) \<and> du_metric d = ''milliseconds'' \<and>
     map um_url (du_accepted_mints d) = [''https://a'']"
proof -
  have m: "reachable_mints sample_config = [sample_mint_terms]"
    by (simp add: reachable_mints_def sample_config_def get_reachable_mints_def is_reachable_def
        mark_unreachable_def MintHealthTracker_new_def sample_mint_terms_def)
  obtain json where b: "build_advertisement (sample_nostr ''k'') sample_config = Inr json"
    by (simp add: build_advertisement_def m signed_json_def sample_nostr_def)
  let ?api = "\<lparr> probe_get = (\<lambda>_ _ w. (Inr (200, Inr json), w)), probe_nostr = sample_nostr ''k'', signature_ok = (\<lambda>_. True),
    nostr_error_text = (\<lambda>_. []) \<rparr> :: nat probe_api"
  have "\<exists>d. probe_url ?api ''u'' ''10.0.0.1'' 5000 True 0 = (Inr (Some d), 0) \<and> du_gateway_ip d = ''10.0.0.1'' \<and>
    du_metric d = metric sample_config \<and> du_step_size d = step_size sample_config \<and>
    du_accepted_mints d = map (\<lambda>m. \<lparr> um_url = am_url m, um_price_per_step = am_price_per_step m,
      um_unit = am_unit m, um_min_steps = am_min_steps m \<rparr>) (reachable_mints sample_config)"
    by (rule server_is_discovered) (simp_all add: sample_nostr_ok b m)
  then obtain d where "probe_url ?api ''u'' ''10.0.0.1'' 5000 True 0 = (Inr (Some d), 0)" "du_metric d = metric sample_config"
    "map um_url (du_accepted_mints d) = map am_url (reachable_mints sample_config)" by auto
  moreover have "metric sample_config = ''milliseconds''" "map am_url [sample_mint_terms] = [''https://a'']"
    by (simp_all add: sample_config_def sample_mint_terms_def)
  ultimately show ?thesis using m by metis
qed

end
