(* ===== verification/V1_Server.thy ===== *)
theory V1_Server
  imports Host_Status Host_Exchange V1_Merchant V1_Wallet Json Product_Id
begin

section \<open>The v1 server\<close>

text \<open>
  The HTTP interface for v1 clients: \<^verbatim>\<open>handlers.rs\<close>, \<^verbatim>\<open>adapter.rs\<close> and \<^verbatim>\<open>mac_resolver.rs\<close> of
  \<^verbatim>\<open>crates/tollgate-net/src/v1_compat/\<close>. A client is known by the MAC address of its DHCP lease, from which a peer key
  is derived; a payment connects that peer to the node's driver and hands it the token. Parameters are the
  lease file, the key derivation, base64, the text form of JSON, the parser and printer of addresses and the
  clock; a header that is absent or no text is \<open>None\<close>. A response is its status and its body.
\<close>

record ('tok, 'p, 'm, 'w) v1_server =
  sv_host :: "'tok host_env"
  sv_config :: v1_config
  sv_cdk :: "('p, 'm, 'w) cdk_api option"
  sv_nostr :: nostr_api
  sv_leases :: "string option"
  sv_derive_key :: "string \<Rightarrow> string"
  sv_parse_ip :: "string \<Rightarrow> IpAddr option"
  sv_ip_string :: "IpAddr \<Rightarrow> string"
  sv_base64_url :: "string \<Rightarrow> string option"
  sv_base64_std :: "string \<Rightarrow> string option"
  sv_json_parse :: "string \<Rightarrow> json option"
  sv_json_print :: "json \<Rightarrow> string"
  sv_nostr_error :: "V1NostrError \<Rightarrow> string"
  sv_wallet_error :: "V1WalletError \<Rightarrow> string"
  sv_lowercase :: "string \<Rightarrow> string"

type_synonym headers = "string \<Rightarrow> string option"
type_synonym response = "nat \<times> string"


subsection \<open>MAC addresses\<close>

datatype MacResolveError = NotFound string | LeasesIo

fun resolve_lines :: "string \<Rightarrow> string list \<Rightarrow> MacResolveError + string" where
  "resolve_lines ip [] = Inl (NotFound ip)"
| "resolve_lines ip (line # lines) =
     (let parts = split_whitespace line
      in if 3 \<le> length parts \<and> parts ! 2 = ip then Inr (parts ! 1) else resolve_lines ip lines)"

definition dhcp_resolve :: "string option \<Rightarrow> string \<Rightarrow> MacResolveError + string" where
  "dhcp_resolve leases ip =
     (case leases of None \<Rightarrow> Inl LeasesIo | Some contents \<Rightarrow> resolve_lines ip (rust_lines contents))"

definition stub_resolve :: "string \<Rightarrow> string \<Rightarrow> MacResolveError + string" where
  "stub_resolve mac ip = Inr mac"

definition header_ip :: "headers \<Rightarrow> string option" where
  "header_ip hs =
     (case hs ''x-forwarded-for'' of
        Some v \<Rightarrow> (let t = trim (hd (split_char (CHR '','') v)) in if t \<noteq> [] then Some t else None)
      | None \<Rightarrow> None)"

definition extract_client_ip :: "('tok, 'p, 'm, 'w) v1_server \<Rightarrow> IpAddr option \<Rightarrow> headers \<Rightarrow> string" where
  "extract_client_ip sv conn hs =
     (case header_ip hs of
        Some ip \<Rightarrow> ip
      | None \<Rightarrow>
          (case (case hs ''x-real-ip'' of Some v \<Rightarrow> if trim v \<noteq> [] then Some (trim v) else None | None \<Rightarrow> None) of
             Some ip \<Rightarrow> ip
           | None \<Rightarrow> (case conn of Some a \<Rightarrow> sv_ip_string sv a | None \<Rightarrow> [])))"


subsection \<open>The adapter to the driver\<close>

definition mac_to_peer_hex :: "('tok, 'p, 'm, 'w) v1_server \<Rightarrow> string \<Rightarrow> string" where
  "mac_to_peer_hex sv mac =
     sv_derive_key sv (''tollgate-v1-compat/'' @ filter (\<lambda>c. c \<noteq> CHR '':'' \<and> c \<noteq> CHR ''-'') mac)"

definition resolve_peer_hex :: "('tok, 'p, 'm, 'w) v1_server \<Rightarrow> IpAddr option \<Rightarrow> string option" where
  "resolve_peer_hex sv ip =
     (case ip of
        None \<Rightarrow> None
      | Some a \<Rightarrow>
          (case dhcp_resolve (sv_leases sv) (sv_ip_string sv a) of
             Inr mac \<Rightarrow> Some (mac_to_peer_hex sv mac)
           | Inl _ \<Rightarrow> None))"

record V1PaymentResult =
  pr_accepted :: bool
  pr_reason :: "string option"
  pr_peer_hex :: string

definition first_ack :: "codec \<Rightarrow> bytes list \<Rightarrow> bootstrap_ack option" where
  "first_ack c msgs =
     find_map (\<lambda>msg. if peek_type c msg = Some BootstrapAck then dec_bootstrap_ack c msg else None) msgs"

definition admit_peer_with_token ::
  "('tok, 'p, 'm, 'w) v1_server \<Rightarrow> mint_answers \<Rightarrow> string \<Rightarrow> IpAddr option \<Rightarrow> string \<Rightarrow> Millis \<Rightarrow> Millis \<Rightarrow> host \<Rightarrow>
   V1PaymentResult \<times> host" where
  "admit_peer_with_token sv mint hex ip token now later h =
     (let env = sv_host sv;
          h1 = fst (peer_connected env mint hex ip now h);
          h2 = message_received env mint hex (enc_bootstrap_token (cdc env) (BootstrapToken_new (str_bytes token))) now later h1;
          (msgs, h3) = drain_outbox hex h2
      in (case first_ack (cdc env) msgs of
            Some ack \<Rightarrow> \<lparr> pr_accepted = is_accepted ack, pr_reason = ba_reason ack, pr_peer_hex = hex \<rparr>
          | None \<Rightarrow> \<lparr> pr_accepted = False, pr_reason = Some ''no response from gateway'', pr_peer_hex = hex \<rparr>, h3))"

definition find_peer_status :: "('tok, 'p, 'm, 'w) v1_server \<Rightarrow> string \<Rightarrow> Millis \<Rightarrow> host \<Rightarrow> peer_status option" where
  "find_peer_status sv hex now h =
     find (\<lambda>p. st_pubkey p = hex) (ns_peers (status (sv_host sv) (sv_ip_string sv) h now))"

record UsageInfo =
  ui_delivered :: u64
  ui_balance :: u64
  ui_allotment :: u64

definition clamp_balance :: "i64 \<Rightarrow> u64" where
  "clamp_balance b = (if sint b < 0 then 0 else b)"

definition get_usage_json :: "('tok, 'p, 'm, 'w) v1_server \<Rightarrow> string \<Rightarrow> Millis \<Rightarrow> host \<Rightarrow> UsageInfo option" where
  "get_usage_json sv hex now h =
     map_option (\<lambda>p. let bal = clamp_balance (st_their_balance p)
       in \<lparr> ui_delivered = st_delivered p, ui_balance = bal, ui_allotment = bal \<rparr>) (find_peer_status sv hex now h)"

abbreviation j_u64 :: "u64 \<Rightarrow> json" where
  "j_u64 n \<equiv> JInt (uint n)"

definition get_balance_json :: "('tok, 'p, 'm, 'w) v1_server \<Rightarrow> string \<Rightarrow> Millis \<Rightarrow> host \<Rightarrow> json option" where
  "get_balance_json sv hex now h =
     map_option (\<lambda>p. let remaining = clamp_balance (st_their_balance p)
       in json_object
            [(''balance'', JInt (sint (st_their_balance p))), (''remaining'', j_u64 remaining), (''allotment'', j_u64 remaining),
             (''delivered'', j_u64 (st_delivered p)), (''received'', j_u64 (st_received p)), (''state'', JString (st_state p)),
             (''session_active'', JBool (st_state p = ''Active'')), (''metered_secs'', j_u64 (st_metered_secs p))])
       (find_peer_status sv hex now h)"


subsection \<open>Requests\<close>

definition json_response :: "('tok, 'p, 'm, 'w) v1_server \<Rightarrow> nat \<Rightarrow> (string \<times> json) list \<Rightarrow> response" where
  "json_response sv code kvs = (code, sv_json_print sv (json_object kvs))"

definition json_error :: "('tok, 'p, 'm, 'w) v1_server \<Rightarrow> nat \<Rightarrow> string \<Rightarrow> response" where
  "json_error sv code message = json_response sv code [(''error'', JString message)]"

definition extract_ip :: "('tok, 'p, 'm, 'w) v1_server \<Rightarrow> headers \<Rightarrow> bool \<Rightarrow> IpAddr option" where
  "extract_ip sv hs trust =
     (if trust
      then case Option.bind (hs ''x-forwarded-for'') (\<lambda>v. sv_parse_ip sv (trim (hd (split_char (CHR '','') v)))) of
             Some ip \<Rightarrow> Some ip
           | None \<Rightarrow> Option.bind (hs ''x-real-ip'') (\<lambda>v. sv_parse_ip sv (trim v))
      else None)"

definition extract_ip_full :: "('tok, 'p, 'm, 'w) v1_server \<Rightarrow> headers \<Rightarrow> IpAddr option \<Rightarrow> bool \<Rightarrow> IpAddr option" where
  "extract_ip_full sv hs conn trust = (case extract_ip sv hs trust of Some ip \<Rightarrow> Some ip | None \<Rightarrow> conn)"

definition proof_amounts :: "json \<Rightarrow> u64 list" where
  "proof_amounts entry =
     (case Option.bind (json_get ''proofs'' entry) as_array of
        None \<Rightarrow> []
      | Some proofs \<Rightarrow> List.map_filter (\<lambda>p. Option.bind (json_get ''amount'' p) as_u64) proofs)"

definition decode_cashu_amount :: "('tok, 'p, 'm, 'w) v1_server \<Rightarrow> string \<Rightarrow> u64 option" where
  "decode_cashu_amount sv token =
     Option.bind (case strip_prefix ''cashuA'' token of Some p \<Rightarrow> Some p | None \<Rightarrow> strip_prefix ''cashua'' token) (\<lambda>payload.
     Option.bind (case sv_base64_url sv payload of Some d \<Rightarrow> Some d | None \<Rightarrow> sv_base64_std sv payload) (\<lambda>decoded.
     Option.bind (sv_json_parse sv decoded) (\<lambda>j.
       Some (case Option.bind (json_get ''token'' j) as_array of
               None \<Rightarrow> 0
             | Some entries \<Rightarrow> sum_list (concat (map proof_amounts entries))))))"

definition extract_token_amount_and_allotment :: "('tok, 'p, 'm, 'w) v1_server \<Rightarrow> string \<Rightarrow> u64 \<times> u64" where
  "extract_token_amount_and_allotment sv token =
     (let amount = (case decode_cashu_amount sv token of None \<Rightarrow> 0 | Some n \<Rightarrow> n)
      in if amount = 0 then (0, 0)
         else let mint_url = (case accepted_mints_cfg (sv_config sv) of [] \<Rightarrow> [] | m # _ \<Rightarrow> am_url m)
              in (amount, case calculate_allotment amount mint_url (sv_config sv) of Inr n \<Rightarrow> n | Inl _ \<Rightarrow> 0))"

definition extract_payment_token :: "('tok, 'p, 'm, 'w) v1_server \<Rightarrow> string \<Rightarrow> string option" where
  "extract_payment_token sv body =
     (if starts_with ''cashu'' (trim body) then Some (trim body)
      else Option.bind (sv_json_parse sv body) (\<lambda>j. Option.bind (json_get ''token'' j) as_str))"

definition handle_get_details :: "('tok, 'p, 'm, 'w) v1_server \<Rightarrow> response" where
  "handle_get_details sv =
     (case build_advertisement (sv_nostr sv) (sv_config sv) of
        Inr j \<Rightarrow> (200, j)
      | Inl e \<Rightarrow> json_error sv 500 (''failed to build advertisement: '' @ sv_nostr_error sv e))"

text \<open>
  The mint of a token is never found (\<^verbatim>\<open>extract_mint_from_token\<close> returns nothing), so a failed payment
  marks no mint; the health record of the configuration is left alone.
\<close>

definition extract_mint_from_token :: "string \<Rightarrow> string option" where
  "extract_mint_from_token token = None"

definition handle_post_payment ::
  "('tok, 'p, 'm, 'w) v1_server \<Rightarrow> mint_answers \<Rightarrow> headers \<Rightarrow> string \<Rightarrow> i64 \<Rightarrow> Millis \<Rightarrow> Millis \<Rightarrow> host \<Rightarrow> response \<times> host" where
  "handle_post_payment sv mint hs body unix now later h =
     (case extract_payment_token sv body of
        None \<Rightarrow> (json_error sv 400 ''missing or invalid token'', h)
      | Some token \<Rightarrow>
          let client_ip = extract_ip sv hs (trust_proxy_headers (sv_config sv))
          in case resolve_peer_hex sv client_ip of
               None \<Rightarrow> (json_error sv 400 ''could not resolve client identity'', h)
             | Some hex \<Rightarrow>
                 let (r, h') = admit_peer_with_token sv mint hex client_ip token now later h
                 in (if pr_accepted r
                     then let (amount, allot) = extract_token_amount_and_allotment sv token
                          in case build_session_event (sv_nostr sv)
                               \<lparr> mac_address = hex, start_time = unix, cs_metric = metric (sv_config sv), allotment = allot \<rparr>
                               hex amount ''cashu'' of
                               Inr j \<Rightarrow> (200, j)
                             | Inl e \<Rightarrow> json_error sv 500 (''session event error: '' @ sv_nostr_error sv e)
                     else case build_notice_event (sv_nostr sv) ''error'' ''payment_rejected''
                            (case pr_reason r of Some x \<Rightarrow> x | None \<Rightarrow> ''rejected'') (Some hex) of
                            Inr j \<Rightarrow> (402, j)
                          | Inl _ \<Rightarrow> json_error sv 402 ''payment rejected'', h'))"

definition handle_usage :: "('tok, 'p, 'm, 'w) v1_server \<Rightarrow> headers \<Rightarrow> IpAddr \<Rightarrow> Millis \<Rightarrow> host \<Rightarrow> response" where
  "handle_usage sv hs addr now h =
     (case resolve_peer_hex sv (extract_ip_full sv hs (Some addr) (trust_proxy_headers (sv_config sv))) of
        None \<Rightarrow> json_error sv 400 ''unknown client''
      | Some hex \<Rightarrow>
          (case get_usage_json sv hex now h of
             Some u \<Rightarrow>
               json_response sv 200
                 [(''remaining'', j_u64 (ui_balance u)), (''allotment'', j_u64 (ui_allotment u)),
                  (''step_size'', j_u64 (step_size (sv_config sv))), (''metric'', JString (metric (sv_config sv))),
                  (''delivered'', j_u64 (ui_delivered u))]
           | None \<Rightarrow> json_error sv 404 ''no active session''))"

definition handle_whoami :: "('tok, 'p, 'm, 'w) v1_server \<Rightarrow> headers \<Rightarrow> IpAddr \<Rightarrow> response" where
  "handle_whoami sv hs addr =
     (let ip_str = (case extract_ip_full sv hs (Some addr) (trust_proxy_headers (sv_config sv)) of
                      Some ip \<Rightarrow> sv_ip_string sv ip | None \<Rightarrow> [])
      in case dhcp_resolve (sv_leases sv) ip_str of
           Inr mac \<Rightarrow> (200, ''mac='' @ mac)
         | Inl _ \<Rightarrow> json_error sv 400 ''unknown client'')"

definition handle_balance :: "('tok, 'p, 'm, 'w) v1_server \<Rightarrow> headers \<Rightarrow> IpAddr \<Rightarrow> Millis \<Rightarrow> host \<Rightarrow> response" where
  "handle_balance sv hs addr now h =
     (case resolve_peer_hex sv (extract_ip_full sv hs (Some addr) (trust_proxy_headers (sv_config sv))) of
        None \<Rightarrow> json_error sv 400 ''unknown client''
      | Some hex \<Rightarrow>
          (case get_balance_json sv hex now h of
             Some j \<Rightarrow> (200, sv_json_print sv j)
           | None \<Rightarrow> json_error sv 404 ''no active session''))"

definition handle_post_ln_invoice :: "('tok, 'p, 'm, 'w) v1_server \<Rightarrow> string \<Rightarrow> 'w \<Rightarrow> response \<times> 'w" where
  "handle_post_ln_invoice sv body w =
     (let amount = (case Option.bind (sv_json_parse sv body) (\<lambda>v. Option.bind (json_get ''amount'' v) as_u64) of
                      None \<Rightarrow> 8 | Some n \<Rightarrow> n)
      in case sv_cdk sv of
           None \<Rightarrow> (json_error sv 503 ''wallet not configured'', w)
         | Some cdk \<Rightarrow>
             let mint_url = (case accepted_mints_cfg (sv_config sv) of [] \<Rightarrow> ''http://localhost:3338'' | m # _ \<Rightarrow> am_url m)
             in case request_mint_quote cdk amount mint_url w of
                  (Inr info, w') \<Rightarrow>
                    (json_response sv 200
                       [(''status'', JInt 0), (''quote'', JString (mq_quote_id info)), (''invoice'', JString (mq_invoice info)),
                        (''amount'', j_u64 (mq_amount info)), (''expiry'', j_u64 (mq_expiry info))], w')
                | (Inl e, w') \<Rightarrow>
                    (json_response sv 500
                       [(''error'', JString (''mint quote failed: '' @ sv_wallet_error sv e)), (''amount'', j_u64 amount)], w'))"

fun quote_state_text :: "QuoteState \<Rightarrow> string" where
  "quote_state_text Unpaid = ''UNPAID''"
| "quote_state_text Paid = ''PAID''"
| "quote_state_text Issued = ''ISSUED''"

definition handle_get_ln_invoice ::
  "('tok, 'p, 'm, 'w) v1_server \<Rightarrow> (string \<Rightarrow> string option) \<Rightarrow> 'w \<Rightarrow> response \<times> 'w" where
  "handle_get_ln_invoice sv params w =
     (case params ''quote'' of
        None \<Rightarrow> (json_error sv 400 ''missing quote parameter'', w)
      | Some qid \<Rightarrow>
          (case sv_cdk sv of
             None \<Rightarrow> (json_error sv 503 ''wallet not configured'', w)
           | Some cdk \<Rightarrow>
               (case check_mint_quote_status cdk qid w of
                  (Inr state, w') \<Rightarrow>
                    (json_response sv 200 [(''quote'', JString qid), (''state'', JString (quote_state_text state))], w')
                | (Inl e, w') \<Rightarrow>
                    (json_response sv (if contains_str ''unknown'' (sv_lowercase sv (sv_wallet_error sv e)) then 404 else 500)
                       [(''error'', JString (''quote check failed: '' @ sv_wallet_error sv e)), (''quote'', JString qid)], w'))))"

text \<open>The fixed answer to a log line, and what is logged: a level, a message and a client.\<close>

definition json_logged :: string where
  "json_logged = [CHR 0x7B, CHR 0x22] @ ''logged'' @ [CHR 0x22] @ '':true'' @ [CHR 0x7D]"

definition beacon_field :: "string \<Rightarrow> string \<Rightarrow> json \<Rightarrow> string" where
  "beacon_field name otherwise v = (case Option.bind (json_get name v) as_str of None \<Rightarrow> otherwise | Some s \<Rightarrow> s)"

definition handle_log_beacon :: "('tok, 'p, 'm, 'w) v1_server \<Rightarrow> string \<Rightarrow> response \<times> (string \<times> string \<times> string) list" where
  "handle_log_beacon sv body =
     (case sv_json_parse sv body of
        Some v \<Rightarrow>
          let level = beacon_field ''level'' ''info'' v
          in ((200, json_logged),
              [(if level = ''error'' \<or> level = ''warn'' then level else ''info'',
                beacon_field ''client'' ''unknown'' v, beacon_field ''message'' [] v)])
      | None \<Rightarrow> (json_error sv 400 ''invalid JSON body'', []))"

subsection \<open>Leases\<close>

text \<open>A lease as dnsmasq writes it: expiry, MAC, address, host name and client id, separated by blanks.\<close>

record lease_entry =
  ls_expiry :: string
  ls_mac :: string
  ls_ip :: string
  ls_host :: string
  ls_client :: string

definition lease_words :: "lease_entry \<Rightarrow> string list" where
  "lease_words l = [ls_expiry l, ls_mac l, ls_ip l, ls_host l, ls_client l]"

definition lease_line :: "lease_entry \<Rightarrow> string" where
  "lease_line l = ls_expiry l @ '' '' @ ls_mac l @ '' '' @ ls_ip l @ '' '' @ ls_host l @ '' '' @ ls_client l"

definition lease_ok :: "lease_entry \<Rightarrow> bool" where
  "lease_ok l \<longleftrightarrow> list_all is_word (lease_words l)"

lemma lease_line_words: "lease_ok l \<Longrightarrow> split_whitespace (lease_line l) = lease_words l"
  using split_whitespace_words [of "[ls_expiry l, ls_mac l, ls_ip l, ls_host l]" "ls_client l"]
  by (simp add: lease_ok_def lease_words_def lease_line_def)

lemma lease_line_text: "lease_ok l \<Longrightarrow> newline \<notin> set (lease_line l) \<and> strip_cr (lease_line l) = lease_line l"
proof -
  assume ok: "lease_ok l"
  then have w: "list_all is_word (lease_words l)" by (simp add: lease_ok_def)
  have "newline \<notin> set (lease_line l)"
    using w word_newline by (auto simp: lease_line_def lease_words_def newline_def)
  moreover have "last (lease_line l) \<noteq> carriage_return"
  proof -
    have c: "is_word (ls_client l)" using w by (simp add: lease_words_def)
    then have "last (lease_line l) = last (ls_client l)" "\<not> is_whitespace (last (ls_client l))"
      by (auto simp: lease_line_def is_word_def list_all_iff)
    then show ?thesis using whitespace_newline(2) by metis
  qed
  ultimately show ?thesis by (simp add: strip_cr_def)
qed

text \<open>
  A device is found by its lease: in a lease file of any number of leases the resolver returns the
  MAC address of the first lease with the requested address, and reports exactly the addresses that
  have none.
\<close>

theorem lease_resolves:
  assumes "list_all lease_ok ls"
  shows "dhcp_resolve (Some (concat (map (\<lambda>l. lease_line l @ [newline]) ls))) ip =
    (case find (\<lambda>l. ls_ip l = ip) ls of Some l \<Rightarrow> Inr (ls_mac l) | None \<Rightarrow> Inl (NotFound ip))"
proof -
  have "rust_lines (concat (map (\<lambda>l. lease_line l @ [newline]) ls)) = map lease_line ls"
    using assms by (induction ls) (simp_all add: rust_lines.simps [of "[]"] rust_lines_write lease_line_text)
  moreover have "resolve_lines ip (map lease_line ls) =
      (case find (\<lambda>l. ls_ip l = ip) ls of Some l \<Rightarrow> Inr (ls_mac l) | None \<Rightarrow> Inl (NotFound ip))"
    using assms by (induction ls) (simp_all add: lease_line_words lease_words_def)
  ultimately show ?thesis by (simp add: dhcp_resolve_def)
qed

definition sample_lease :: lease_entry where
  "sample_lease = \<lparr> ls_expiry = ''1700'', ls_mac = ''aa:bb'', ls_ip = ''10.0.0.2'', ls_host = ''phone'', ls_client = ''*'' \<rparr>"

theorem lease_resolves_witness:
  "dhcp_resolve (Some (lease_line sample_lease @ [newline])) ''10.0.0.2'' = Inr ''aa:bb''"
  using lease_resolves [of "[sample_lease]" "''10.0.0.2''"]
  by (simp add: lease_ok_def lease_words_def sample_lease_def is_word_def is_whitespace_def char_nat_def)

text \<open>The spelling of a MAC address does not matter: with colons, with dashes or bare it gives one peer.\<close>

lemma filter_separators:
  "list_all (\<lambda>p. CHR '':'' \<notin> set p \<and> CHR ''-'' \<notin> set p) ps \<Longrightarrow> sep = '':'' \<or> sep = ''-'' \<or> sep = [] \<Longrightarrow>
   filter (\<lambda>c. c \<noteq> CHR '':'' \<and> c \<noteq> CHR ''-'') (concat (map (\<lambda>p. p @ sep) ps)) = concat ps"
proof (induction ps)
  case (Cons p ps)
  have "filter (\<lambda>c. c \<noteq> CHR '':'' \<and> c \<noteq> CHR ''-'') p = p" using Cons.prems(1) by (auto simp: filter_id_conv)
  then show ?case using Cons by auto
qed simp

theorem mac_spelling_irrelevant:
  assumes "list_all (\<lambda>p. CHR '':'' \<notin> set p \<and> CHR ''-'' \<notin> set p) (lst # ps)"
  shows "mac_to_peer_hex sv (concat (map (\<lambda>p. p @ '':'') ps) @ lst) = mac_to_peer_hex sv (concat ps @ lst) \<and>
    mac_to_peer_hex sv (concat (map (\<lambda>p. p @ ''-'') ps) @ lst) = mac_to_peer_hex sv (concat ps @ lst)"
proof -
  have "filter (\<lambda>c. c \<noteq> CHR '':'' \<and> c \<noteq> CHR ''-'') lst = lst" using assms by (auto simp: filter_id_conv)
  moreover have ps: "list_all (\<lambda>p. CHR '':'' \<notin> set p \<and> CHR ''-'' \<notin> set p) ps" using assms by simp
  ultimately show ?thesis
    using filter_separators [OF ps, of "'':''"] filter_separators [OF ps, of "''-''"] filter_separators [OF ps, of "[]"]
    by (simp add: mac_to_peer_hex_def)
qed


subsection \<open>Who may pay\<close>

lemma payment_without_address:
  assumes "extract_ip sv hs (trust_proxy_headers (sv_config sv)) = None"
  shows "\<exists>msg. handle_post_payment sv mint hs body unix now later h = (json_error sv 400 msg, h)"
  using assms by (auto simp: handle_post_payment_def resolve_peer_hex_def Let_def split: option.split)

text \<open>
  Without a trusted proxy nobody can pay: unlike the other requests, a payment looks for the client's
  address in the headers only. With \<^verbatim>\<open>trust_proxy_headers\<close> off, or without such a header, every payment is
  answered with status 400 and the node does not change, whatever token it carries.
\<close>

theorem direct_payment_refused:
  assumes "\<not> trust_proxy_headers (sv_config sv) \<or> (hs ''x-forwarded-for'' = None \<and> hs ''x-real-ip'' = None)"
  shows "\<exists>msg. handle_post_payment sv mint hs body unix now later h = (json_error sv 400 msg, h)"
  by (rule payment_without_address) (use assms in \<open>auto simp: extract_ip_def\<close>)

lemma first_ack_Some: "first_ack c msgs = Some ack \<Longrightarrow> \<exists>msg \<in> set msgs. peek_type c msg = Some BootstrapAck \<and> dec_bootstrap_ack c msg = Some ack"
  by (induction msgs) (auto simp: first_ack_def split: if_splits option.splits)

text \<open>
  What is relied on of the message format: a payment is read back as the payment it was, an acknowledgement as
  itself, and the node's own announcement is not taken for an acknowledgement. Of the key derivation: a
  peer's name is the text of a public key.
\<close>

definition payment_codec :: "codec \<Rightarrow> bool" where
  "payment_codec c \<longleftrightarrow>
     (\<forall>bs. peek_type c (enc_bootstrap_token c (BootstrapToken_new bs)) = Some BootstrapToken \<and>
        dec_bootstrap_token c (enc_bootstrap_token c (BootstrapToken_new bs)) = Some (BootstrapToken_new bs)) \<and>
     (\<forall>a \<in> insert BootstrapAck_accepted (range BootstrapAck_rejected).
        peek_type c (enc_bootstrap_ack c a) = Some BootstrapAck \<and>
        map_option ba_status (dec_bootstrap_ack c (enc_bootstrap_ack c a)) = Some (ba_status a)) \<and>
     (\<forall>v k u n. peek_type c (enc_announce c (Announce_new v k u n)) = Some Announce)"

definition derives_keys :: "('tok, 'p, 'm, 'w) v1_server \<Rightarrow> bool" where
  "derives_keys sv \<longleftrightarrow> hex_ok (sv_host sv) \<and>
     (\<forall>seed. \<exists>p. peer_wf p \<and> sv_derive_key sv seed = peer_to_hex (sv_host sv) p)"

text \<open>The acknowledgement that waits for a peer: a message that is queued comes after it.\<close>

abbreviation waiting_ack :: "'tok host_env \<Rightarrow> host \<Rightarrow> string \<Rightarrow> bootstrap_ack option" where
  "waiting_ack env h x \<equiv> first_ack (cdc env) (queue_of h x)"

lemma first_ack_append: "first_ack c (xs @ ys) = (case first_ack c xs of Some a \<Rightarrow> Some a | None \<Rightarrow> first_ack c ys)"
  by (induction xs) (simp_all add: first_ack_def split: option.split)

lemma first_ack_reports: "first_ack c (filter (\<lambda>m. \<not> is_report c m) q) = first_ack c q"
  by (induction q) (auto simp: first_ack_def is_report_def split: option.split)

lemma waiting_enqueue:
  "waiting_ack env (enqueue env x m h) x =
     (case waiting_ack env h x of Some a \<Rightarrow> Some a | None \<Rightarrow> first_ack (cdc env) [m])"
  by (simp add: queue_of_enqueue first_ack_append first_ack_reports)

lemma queue_of_update [simp]:
  "queue_of (h\<lparr> core := s \<rparr>) x = queue_of h x" "queue_of (h\<lparr> wallet := w \<rparr>) x = queue_of h x"
  "queue_of (h\<lparr> peer_ip := m \<rparr>) x = queue_of h x" "queue_of (h\<lparr> last_seen := l \<rparr>) x = queue_of h x"
  "queue_of (h\<lparr> metered := ms \<rparr>) x = queue_of h x" "queue_of (h\<lparr> paid_ips := ips \<rparr>) x = queue_of h x"
  by (simp_all add: queue_of_def)

lemma token_text: "from_utf8 (str_bytes t) = Some s \<Longrightarrow> s = t"
proof -
  assume "from_utf8 (str_bytes t) = Some s"
  then have "s = map (\<lambda>b. char_of (unat b)) (str_bytes t)" by (simp add: from_utf8_def split: if_splits)
  moreover have "char_of (unat (of_char c :: u8)) = c" for c :: char by (simp add: unat_of_char_u8)
  ultimately show "s = t" by (simp add: str_bytes_def comp_def)
qed

lemma verify_token_text:
  assumes "verify_token env mint (str_bytes t) g = ((True, amount), g\<lparr> wallet := w \<rparr>)"
  shows "verify (cashu env) mint (wallet g) t = (Inr amount, w)"
proof -
  obtain r w2 where v: "verify (cashu env) mint (wallet g) t = (r, w2)" by (cases "verify (cashu env) mint (wallet g) t")
  have "from_utf8 (str_bytes t) = Some t"
    using assms token_text [of t] by (cases "from_utf8 (str_bytes t)") (auto simp: verify_token_def)
  then have "r = Inr amount" and "g\<lparr> wallet := w2 \<rparr> = g\<lparr> wallet := w \<rparr>"
    using assms v by (auto simp: verify_token_def split: sum.splits)
  then show ?thesis using v arg_cong [of _ _ wallet, OF \<open>g\<lparr> wallet := w2 \<rparr> = _\<close>] by simp
qed

lemma rejected_waits:
  assumes "payment_codec c"
  shows "\<exists>a. first_ack c [enc_bootstrap_ack c (BootstrapAck_rejected r)] = Some a \<and> \<not> is_accepted a"
proof -
  have "peek_type c (enc_bootstrap_ack c (BootstrapAck_rejected r)) = Some BootstrapAck"
    "map_option ba_status (dec_bootstrap_ack c (enc_bootstrap_ack c (BootstrapAck_rejected r))) = Some STATUS_REJECTED"
    using assms by (auto simp: payment_codec_def BootstrapAck_rejected_def)
  then show ?thesis by (auto simp: first_ack_def is_accepted_def STATUS_ACCEPTED_def STATUS_REJECTED_def)
qed

lemma connected_waiting:
  assumes "payment_codec (cdc env)" and "peek_type (cdc env) (own_price_sheet env) \<noteq> Some BootstrapAck"
    and "parse_peer env x = p" and "peer_to_hex env p = x"
  shows "wallet (fst (peer_connected env mint x (Some ip) now h)) = wallet h"
    and "bt_get (peer_ip (fst (peer_connected env mint x (Some ip) now h))) x = Some ip"
    and "bt_get (peers (core (fst (peer_connected env mint x (Some ip) now h)))) p =
      Some (case bt_get (peers (core h)) p of None \<Rightarrow> PeerSession_new | Some ps \<Rightarrow> ps)"
    and "waiting_ack env (fst (peer_connected env mint x (Some ip) now h)) x = waiting_ack env h x"
proof -
  let ?h = "(touch x now (h\<lparr> peer_ip := bt_insert x ip (peer_ip h) \<rparr>))"
  let ?s = "fst (handle_peer_connected p (core h))"
  have "\<exists>ips. host_event env mint (PeerConnected p) now now ?h = ?h\<lparr> core := ?s, paid_ips := ips \<rparr>"
    by (cases "bt_get (peers (core h)) p")
      (auto simp: host_event_def host_handle_def dispatch_all_def dispatch_one_def handle_peer_connected_def touch_def deny_def
        assms(4) intro: exI [of _ "paid_ips h"])
  then obtain ips where e: "host_event env mint (PeerConnected p) now now ?h = ?h\<lparr> core := ?s, paid_ips := ips \<rparr>" by blast
  have quiet: "first_ack (cdc env) [our_announce env] = None" "first_ack (cdc env) [own_price_sheet env] = None"
    using assms(1,2) by (simp_all add: first_ack_def payment_codec_def our_announce_def)
  have c: "fst (peer_connected env mint x (Some ip) now h) =
      (let h4 = enqueue env x (our_announce env) (?h\<lparr> core := ?s, paid_ips := ips \<rparr>)
       in if own_price_sheet env \<noteq> [] then enqueue env x (own_price_sheet env) h4 else h4)"
    by (simp add: peer_connected_def assms(3) e Let_def)
  show "wallet (fst (peer_connected env mint x (Some ip) now h)) = wallet h"
    and "bt_get (peer_ip (fst (peer_connected env mint x (Some ip) now h))) x = Some ip"
    and "bt_get (peers (core (fst (peer_connected env mint x (Some ip) now h)))) p =
      Some (case bt_get (peers (core h)) p of None \<Rightarrow> PeerSession_new | Some ps \<Rightarrow> ps)"
    and "waiting_ack env (fst (peer_connected env mint x (Some ip) now h)) x = waiting_ack env h x"
    unfolding c
    by (simp_all add: Let_def touch_def waiting_enqueue quiet handle_peer_connected_def split: option.split)
qed

text \<open>
  A payment of a connected peer that has no acknowledgement waiting: the one that waits afterwards accepts
  exactly when the wallet has verified the token, and then the peer is active with the credit added and is let through.
\<close>

lemma token_waiting:
  assumes "payment_codec (cdc env)" and "parse_peer env x = p" and "peer_to_hex env p = x"
    and "bt_get (peers (core h)) p = Some ps" and "bt_get (peer_ip h) x = Some ip" and "waiting_ack env h x = None"
    and "h' = message_received env mint x (enc_bootstrap_token (cdc env) (BootstrapToken_new (str_bytes token))) now later h"
    and "waiting_ack env h' x = Some ack" and "is_accepted ack"
  shows "\<exists>credit ps'. verify (cashu env) mint (wallet h) token = (Inr credit, wallet h') \<and>
    bt_get (peers (core h')) p = Some ps' \<and> phase ps' = Active \<and> balance ps' = saturating_add (balance ps) credit \<and>
    ip \<in> paid_ips h'"
proof -
  let ?t = "enc_bootstrap_token (cdc env) (BootstrapToken_new (str_bytes token))"
  let ?h1 = "touch x now h\<lparr> core := set_peer p (ps\<lparr> phase := BootstrapPending \<rparr>) (core h) \<rparr>"
  have codec: "peek_type (cdc env) ?t = Some BootstrapToken" "dec_bootstrap_token (cdc env) ?t = Some (BootstrapToken_new (str_bytes token))"
    using assms(1) by (simp_all add: payment_codec_def)
  have tb: "token_bytes (BootstrapToken_new bs) = bs" for bs by (simp add: token_bytes_def BootstrapToken_new_def)
  obtain ok amount w where v: "verify_token env mint (str_bytes token) ?h1 = ((ok, amount), ?h1\<lparr> wallet := w \<rparr>)"
    using verify_token_frame by blast
  let ?r = "handle (cdc env) (core ?h1) (BootstrapVerified p amount ok, later)"
  have h': "h' = fold (execute env) (snd ?r) (?h1\<lparr> wallet := w, core := fst ?r \<rparr>)"
    using v assms(4)
    by (simp add: assms(2,7) message_received_def host_event_def host_handle_def handle_message_def handle_bootstrap_token_def
        codec tb dispatch_all_def dispatch_one_def touch_def case_prod_beta Let_def
        del: handle.simps(3))
  have ok
  proof (rule ccontr)
    assume "\<not> ok"
    then have "waiting_ack env h' x = first_ack (cdc env) [enc_bootstrap_ack (cdc env) (BootstrapAck_rejected ''token verification failed'')]"
      using assms(3,5,6)
      by (simp add: h' handle_bootstrap_verified_def waiting_enqueue touch_def deny_def split: option.split)
    then show False using rejected_waits [OF assms(1), of "''token verification failed''"] assms(8,9) by auto
  qed
  then have "verify (cashu env) mint (wallet h) token = (Inr amount, w)"
    using v verify_token_text [of env mint token ?h1] by (simp add: touch_def)
  moreover have "core h' = fst ?r" "wallet h' = w" "ip \<in> paid_ips h'"
    using \<open>ok\<close> assms(3,5) by (simp_all add: h' handle_bootstrap_verified_def touch_def allow_def Let_def)
  ultimately show ?thesis using \<open>ok\<close> by (auto simp: handle_bootstrap_verified_def Let_def)
qed

lemma derived_key:
  assumes "derives_keys sv" and "resolve_peer_hex sv ip = Some x"
  shows "\<exists>p. parse_peer (sv_host sv) x = p \<and> peer_to_hex (sv_host sv) p = x"
proof -
  obtain seed where "x = sv_derive_key sv seed"
    using assms(2) by (auto simp: resolve_peer_hex_def mac_to_peer_hex_def split: option.splits sum.splits)
  then obtain p where "peer_wf p" "x = peer_to_hex (sv_host sv) p" using assms(1) by (auto simp: derives_keys_def)
  then show ?thesis using assms(1) parse_peer_wf [of "sv_host sv" p] by (auto simp: derives_keys_def)
qed

text \<open>
  C18. A payment is confirmed only when the token was good: if no acknowledgement is waiting for the client
  from before, status 200 means that the body held a token, the client's address has a lease, and the
  wallet verified exactly this token in this call; the client is active with the verified amount added to its
  balance, its address is let through, and no acknowledgement is left waiting. The grant that is sent can be read and carries the peer's key and the configured
  metric. So a refused token is never confirmed.
\<close>

theorem confirmed_payment_was_accepted:
  assumes "handle_post_payment sv mint hs body unix now later h = ((200, reply), h')" and "nostr_ok (sv_nostr sv)"
    and "payment_codec (cdc (sv_host sv))" and "peek_type (cdc (sv_host sv)) (own_price_sheet (sv_host sv)) \<noteq> Some BootstrapAck"
    and "derives_keys sv"
    and "\<And>x. resolve_peer_hex sv (extract_ip sv hs (trust_proxy_headers (sv_config sv))) = Some x \<Longrightarrow> waiting_ack (sv_host sv) h x = None"
  shows "\<exists>token ip x p credit ps e. extract_payment_token sv body = Some token \<and>
    extract_ip sv hs (trust_proxy_headers (sv_config sv)) = Some ip \<and> resolve_peer_hex sv (Some ip) = Some x \<and>
    p = parse_peer (sv_host sv) x \<and> verify (cashu (sv_host sv)) mint (wallet h) token = (Inr credit, wallet h') \<and>
    bt_get (peers (core h')) p = Some ps \<and> phase ps = Active \<and>
    balance ps = saturating_add (case bt_get (peers (core h)) p of None \<Rightarrow> 0 | Some before \<Rightarrow> balance before) credit \<and>
    ip \<in> paid_ips h' \<and> waiting_ack (sv_host sv) h' x = None \<and>
    SessionEvent_from_json (sv_nostr sv) reply = Inr e \<and> device_identifier e = Some x \<and>
    session_metric e = Some (metric (sv_config sv)) \<and>
    session_allotment e = Some (snd (extract_token_amount_and_allotment sv token))"
proof -
  let ?ip = "extract_ip sv hs (trust_proxy_headers (sv_config sv))" and ?env = "sv_host sv"
  obtain token x where t: "extract_payment_token sv body = Some token" "resolve_peer_hex sv ?ip = Some x"
    using assms(1) by (auto simp: handle_post_payment_def json_error_def json_response_def Let_def split: option.splits)
  then obtain ip where ip: "?ip = Some ip" by (auto simp: resolve_peer_hex_def split: option.splits)
  obtain p where p: "parse_peer ?env x = p" "peer_to_hex ?env p = x" using derived_key [OF assms(5) t(2)] by blast
  obtain r g where a: "admit_peer_with_token sv mint x ?ip token now later h = (r, g)"
    by (cases "admit_peer_with_token sv mint x ?ip token now later h")
  let ?s = "\<lparr> mac_address = x, start_time = unix, cs_metric = metric (sv_config sv),
    allotment = snd (extract_token_amount_and_allotment sv token) \<rparr>"
  have post: "pr_accepted r \<and> h' = g \<and>
      build_session_event (sv_nostr sv) ?s x (fst (extract_token_amount_and_allotment sv token)) ''cashu'' = Inr reply"
    using assms(1) t a
    by (auto simp: handle_post_payment_def json_error_def json_response_def Let_def case_prod_beta split: if_splits sum.splits)
  define h1 where "h1 = fst (peer_connected ?env mint x (Some ip) now h)"
  define h2 where "h2 = message_received ?env mint x (enc_bootstrap_token (cdc ?env) (BootstrapToken_new (str_bytes token))) now later h1"
  note connected = connected_waiting [OF assms(3,4) p, of mint ip now h, folded h1_def]
  obtain ack where ack: "waiting_ack ?env h2 x = Some ack" "is_accepted ack" and h': "h' = snd (drain_outbox x h2)"
    using a post by (auto simp: admit_peer_with_token_def ip h1_def h2_def drain_outbox_def queue_of_def Let_def split: option.splits)
  have "waiting_ack ?env h1 x = None" using connected(4) assms(6) t(2) by simp
  from token_waiting [OF assms(3) p connected(3,2) this h2_def ack] obtain credit ps where
    "verify (cashu ?env) mint (wallet h) token = (Inr credit, wallet h')" "bt_get (peers (core h')) p = Some ps"
    "phase ps = Active" "ip \<in> paid_ips h'"
    "balance ps = saturating_add (case bt_get (peers (core h)) p of None \<Rightarrow> 0 | Some before \<Rightarrow> balance before) credit"
    unfolding connected(1) by (auto simp: h' drain_outbox_def PeerSession_new_def split: option.splits)
  moreover have "waiting_ack ?env h' x = None" by (simp add: h' drain_outbox_def queue_of_def first_ack_def)
  ultimately show ?thesis using t ip p post session_grant_roundtrip [OF assms(2), of ?s x] by fastforce
qed

text \<open>
  The acknowledgement that is taken need not answer this token: one that waits for the peer from before, for
  example because another request of the same client has just been verified, decides instead, and a refused token is confirmed.
\<close>

theorem waiting_ack_decides:
  assumes "payment_codec (cdc (sv_host sv))" and "peek_type (cdc (sv_host sv)) (own_price_sheet (sv_host sv)) \<noteq> Some BootstrapAck"
    and "parse_peer (sv_host sv) x = p" and "peer_to_hex (sv_host sv) p = x"
    and "waiting_ack (sv_host sv) h x = Some ack" and "is_accepted ack"
  shows "pr_accepted (fst (admit_peer_with_token sv mint x (Some ip) token now later h))"
proof -
  let ?env = "sv_host sv"
  have keep: "waiting_ack ?env (execute ?env act g) x = Some ack" if "waiting_ack ?env g x = Some ack" for act g
  proof (cases act)
    case (Send q bs)
    then show ?thesis using that by (cases "peer_to_hex ?env q = x") (simp_all add: waiting_enqueue, simp add: queue_of_enqueue)
  qed (use that in \<open>simp_all add: allow_def deny_def split: option.split\<close>)
  then have keeps: "waiting_ack ?env g x = Some ack \<Longrightarrow> waiting_ack ?env (fold (execute ?env) acts g) x = Some ack" for acts g
    by (induction acts arbitrary: g) simp_all
  let ?h1 = "fst (peer_connected ?env mint x (Some ip) now h)"
    and ?bs = "enc_bootstrap_token (cdc ?env) (BootstrapToken_new (str_bytes token))"
  obtain s' acts w' where "message_received ?env mint x ?bs now later ?h1 = fold (execute ?env) acts (touch x now ?h1\<lparr> wallet := w', core := s' \<rparr>)"
    using host_event_outcome [of "MessageReceived p ?bs" p ?env mint now later "touch x now ?h1"]
    by (auto simp: message_received_def assms(3))
  then have "waiting_ack ?env (message_received ?env mint x ?bs now later ?h1) x = Some ack"
    using keeps connected_waiting(4) [OF assms(1-4), of mint ip now h] assms(5) by (simp add: touch_def)
  then show ?thesis using assms(6) by (simp add: admit_peer_with_token_def drain_outbox_def queue_of_def Let_def)
qed

text \<open>
  A payment in the current token format buys nothing: the amount is read only from tokens of the old
  format \<open>cashuA\<close>, so the grant for an accepted \<open>cashuB\<close> token is for an allotment of zero.
\<close>

lemma cashuB_no_amount: "strip_prefix ''cashuB'' token = Some p \<Longrightarrow> extract_token_amount_and_allotment sv token = (0, 0)"
proof -
  assume "strip_prefix ''cashuB'' token = Some p"
  then have "token = ''cashuB'' @ p" by (simp add: strip_prefix_Some)
  then have "strip_prefix ''cashuA'' token = None" "strip_prefix ''cashua'' token = None"
    by (simp_all add: strip_prefix_def starts_with_def)
  then show ?thesis by (simp add: extract_token_amount_and_allotment_def decode_cashu_amount_def)
qed

theorem v4_payment_grants_nothing:
  assumes "handle_post_payment sv mint hs body unix now later h = ((200, reply), h')" and "nostr_ok (sv_nostr sv)"
    and "extract_payment_token sv body = Some (''cashuB'' @ p)"
  shows "\<exists>e. SessionEvent_from_json (sv_nostr sv) reply = Inr e \<and> session_allotment e = Some 0"
proof -
  let ?ip = "extract_ip sv hs (trust_proxy_headers (sv_config sv))" and ?token = "''cashuB'' @ p"
  obtain hex where x: "resolve_peer_hex sv ?ip = Some hex"
    using assms(1,3) by (auto simp: handle_post_payment_def json_error_def json_response_def Let_def split: option.splits)
  obtain r g where a: "admit_peer_with_token sv mint hex ?ip ?token now later h = (r, g)"
    by (cases "admit_peer_with_token sv mint hex ?ip ?token now later h")
  have "extract_token_amount_and_allotment sv ?token = (0, 0)" by (rule cashuB_no_amount) (simp add: strip_prefix_Some)
  then have "build_session_event (sv_nostr sv) \<lparr> mac_address = hex, start_time = unix, cs_metric = metric (sv_config sv),
      allotment = 0 \<rparr> hex 0 ''cashu'' = Inr reply"
    using assms(1,3) x a
    by (auto simp: handle_post_payment_def json_error_def json_response_def Let_def split: if_splits sum.splits)
  from session_grant_roundtrip [OF assms(2) this] show ?thesis by auto
qed

subsection \<open>A sample server\<close>

text \<open>A server behind a proxy whose one client has a lease, and a client that pays with a token of the current format.\<close>

definition sample_server :: "(string list, unit, unit, u64) v1_server" where
  "sample_server =
     \<lparr> sv_host = sample_env, sv_config = sample_config\<lparr> trust_proxy_headers := True \<rparr>, sv_cdk = Some stuck_mint,
       sv_nostr = sample_nostr ''k'', sv_leases = Some (lease_line sample_lease @ [newline]), sv_derive_key = (\<lambda>_. sample_hex),
       sv_parse_ip = (\<lambda>_. Some (V4 1)), sv_ip_string = (\<lambda>_. ''10.0.0.2''), sv_base64_url = (\<lambda>_. None),
       sv_base64_std = (\<lambda>_. None), sv_json_parse = (\<lambda>_. None), sv_json_print = (\<lambda>_. [CHR 0x7B, CHR 0x7D]),
       sv_nostr_error = (\<lambda>_. []), sv_wallet_error = (\<lambda>_. []), sv_lowercase = (\<lambda>s. s) \<rparr>"

definition proxied :: headers where
  "proxied name = (if name = ''x-forwarded-for'' then Some ''10.0.0.2'' else None)"

lemma sample_leases: "dhcp_resolve (sv_leases sample_server) ''10.0.0.2'' = Inr ''aa:bb''"
proof -
  have "lease_ok sample_lease"
    by (simp add: lease_ok_def lease_words_def sample_lease_def is_word_def is_whitespace_def char_nat_def)
  then have "rust_lines (lease_line sample_lease @ [newline]) = [lease_line sample_lease]"
    "split_whitespace (lease_line sample_lease) = lease_words sample_lease"
    using lease_line_text by (simp_all add: lease_line_words rust_lines_write rust_lines.simps [of "[]"])
  then show ?thesis
    by (simp add: dhcp_resolve_def sample_server_def lease_words_def) (simp add: sample_lease_def)
qed

lemma sample_resolved:
  "extract_ip sample_server proxied (trust_proxy_headers (sv_config sample_server)) = Some (V4 1)"
  "resolve_peer_hex sample_server (Some (V4 1)) = Some sample_hex"
  "extract_payment_token sample_server ''cashuB'' = Some ''cashuB''"
proof -
  show "extract_ip sample_server proxied (trust_proxy_headers (sv_config sample_server)) = Some (V4 1)"
    by (simp add: extract_ip_def sample_server_def proxied_def)
  have "sv_ip_string sample_server a = ''10.0.0.2''" "sv_derive_key sample_server s = sample_hex" for a s
    by (simp_all add: sample_server_def)
  then show "resolve_peer_hex sample_server (Some (V4 1)) = Some sample_hex"
    by (simp add: resolve_peer_hex_def sample_leases mac_to_peer_hex_def)
  have "trim ''cashuB'' = ''cashuB''" by (simp add: trim_def trim_start_def is_whitespace_def char_nat_def)
  then show "extract_payment_token sample_server ''cashuB'' = Some ''cashuB''"
    by (simp add: extract_payment_token_def starts_with_def)
qed

lemma cashuB_bytes: "str_bytes ''cashuB'' = [99, 97, 115, 104, 117, 66]"
  by (simp add: str_bytes_def of_char_def)

lemma cashuB_text: "from_utf8 [99, 97, 115, 104, 117, 66] = Some ''cashuB''"
  by code_simp

lemma cashuB_verified:
  "verify_token sample_env sample_mint [99, 97, 115, 104, 117, 66] h =
     ((True, 5000), h\<lparr> wallet := record_spent sample_mint (wallet h) [''cashuB''] \<rparr>)"
  if "\<not> wallet_repo (wallet h)" "accepted_mints (wallet h) = []" "spent_yvalues (wallet h) = {}"
  using that
  by (simp add: verify_token_def cashuB_text sample_env_def verify_def verify_start_def verify_finish_def
      sample_api_def sample_mint_def token_proof_ys_def check_proofs_unspent_def Let_def)

definition cashuB_frame :: bytes where
  "cashuB_frame = enc_bootstrap_token sample_codec (BootstrapToken_new (str_bytes ''cashuB''))"

lemma cashuB_frame:
  "peek_type sample_codec cashuB_frame = Some BootstrapToken"
  "dec_bootstrap_token sample_codec cashuB_frame = Some (BootstrapToken_new [99, 97, 115, 104, 117, 66])"
  by (simp_all add: cashuB_frame_def cashuB_bytes sample_codec_def peek_type_def BootstrapToken_new_def MessageType_from_u8_def)

lemma sample_announce: "peek_type sample_codec (our_announce sample_env) = Some Announce"
  by (simp add: our_announce_def sample_env_def sample_codec_def peek_type_def Announce_new_def MessageType_from_u8_def)

lemma sample_admitted:
  "\<exists>r g. admit_peer_with_token sample_server sample_mint sample_hex (Some (V4 1)) ''cashuB'' 1 2
     (Driver_new (BootstrapWallet_new []) Price_default) = (r, g) \<and> pr_accepted r"
proof -
  have env: "cdc sample_env = sample_codec" "own_price_sheet sample_env = []" "sv_host sample_server = sample_env"
    "peer_to_hex sample_env sample_peer = sample_hex"
    by (simp_all add: sample_env_def sample_hex_def sample_server_def)
  have token: "token_bytes (BootstrapToken_new bs) = bs" for bs by (simp add: token_bytes_def BootstrapToken_new_def)
  have ack: "peek_type sample_codec (enc_bootstrap_ack sample_codec BootstrapAck_accepted) = Some BootstrapAck"
    "dec_bootstrap_ack sample_codec (enc_bootstrap_ack sample_codec BootstrapAck_accepted) = Some BootstrapAck_accepted" "is_accepted BootstrapAck_accepted"
    by (simp_all add: sample_codec_def peek_type_def BootstrapAck_accepted_def is_accepted_def MessageType_from_u8_def)
  show ?thesis
    by (simp add: admit_peer_with_token_def peer_connected_def message_received_def host_event_def host_handle_def dispatch_all_def
        dispatch_one_def sample_parse env Driver_new_def touch_def enqueue_def allow_def deny_def Session_new_def set_price_def
        arm_defs PeerSession_new_def cashuB_frame_def [symmetric] cashuB_frame token cashuB_verified drain_outbox_def
        BootstrapWallet_new_def with_spent_file_def saturating_add_def Let_def peer_phase_def set_peer_def
        handle_message_def handle_bootstrap_token_def first_ack_def is_report_def sample_announce ack)
qed

lemma sample_payment:
  "\<exists>reply g. handle_post_payment sample_server sample_mint proxied ''cashuB'' 0 1 2
     (Driver_new (BootstrapWallet_new []) Price_default) = ((200, reply), g)"
proof -
  obtain r g where a: "admit_peer_with_token sample_server sample_mint sample_hex (Some (V4 1)) ''cashuB'' 1 2
     (Driver_new (BootstrapWallet_new []) Price_default) = (r, g)" "pr_accepted r"
    using sample_admitted by blast
  have n: "\<exists>j. build_session_event (sv_nostr sample_server) s c m t = Inr j" for s c m t
    by (simp add: build_session_event_def signed_json_def sample_server_def sample_nostr_def)
  have none: "extract_token_amount_and_allotment sample_server ''cashuB'' = (0, 0)"
    by (rule cashuB_no_amount [of _ "[]"]) (simp add: strip_prefix_Some)
  obtain j where "build_session_event (sv_nostr sample_server)
    \<lparr> mac_address = sample_hex, start_time = 0, cs_metric = metric (sv_config sample_server), allotment = 0 \<rparr> sample_hex 0 ''cashu'' = Inr j"
    using n by blast
  then show ?thesis
    using a by (simp add: handle_post_payment_def sample_resolved none)
qed

theorem direct_payment_refused_witness:
  "\<exists>msg. handle_post_payment (sample_server\<lparr> sv_config := sample_config \<rparr>) sample_mint proxied ''cashuB'' 0 1 2
     (Driver_new (BootstrapWallet_new []) Price_default) =
     (json_error (sample_server\<lparr> sv_config := sample_config \<rparr>) 400 msg, Driver_new (BootstrapWallet_new []) Price_default)"
  by (rule direct_payment_refused) (simp add: sample_config_def)

lemma sample_payment_codec: "payment_codec sample_codec"
  by (auto simp: payment_codec_def sample_codec_def peek_type_def BootstrapToken_new_def BootstrapAck_accepted_def
    BootstrapAck_rejected_def Announce_new_def MessageType_from_u8_def)

lemma sample_server_host:
  "sv_host sample_server = sample_env" "cdc sample_env = sample_codec" "own_price_sheet sample_env = []"
  "derives_keys sample_server" "waiting_ack sample_env (Driver_new w p) x = None"
proof -
  show "sv_host sample_server = sample_env" "cdc sample_env = sample_codec" "own_price_sheet sample_env = []"
    by (simp_all add: sample_server_def sample_env_def)
  show "derives_keys sample_server" using sample_env_hex
    by (auto simp: derives_keys_def sample_server_def sample_hex_def sample_peer_def intro: exI [of _ sample_peer])
  show "waiting_ack sample_env (Driver_new w p) x = None" by (simp add: Driver_new_def queue_of_def first_ack_def)
qed

theorem confirmed_payment_was_accepted_witness:
  "\<exists>reply g credit ps. handle_post_payment sample_server sample_mint proxied ''cashuB'' 0 1 2
       (Driver_new (BootstrapWallet_new []) Price_default) = ((200, reply), g) \<and>
     verify sample_api sample_mint (BootstrapWallet_new []) ''cashuB'' = (Inr credit, wallet g) \<and>
     bt_get (peers (core g)) sample_peer = Some ps \<and> phase ps = Active \<and> balance ps = saturating_add 0 credit \<and> V4 1 \<in> paid_ips g"
proof -
  let ?h = "Driver_new (BootstrapWallet_new []) Price_default"
  obtain reply g where p: "handle_post_payment sample_server sample_mint proxied ''cashuB'' 0 1 2 ?h = ((200, reply), g)"
    using sample_payment by blast
  have "nostr_ok (sv_nostr sample_server)" by (simp add: sample_server_def sample_nostr_ok)
  moreover have "peek_type (cdc (sv_host sample_server)) (own_price_sheet (sv_host sample_server)) \<noteq> Some BootstrapAck"
    by (simp add: sample_server_host)
  moreover have "payment_codec (cdc (sv_host sample_server))" by (simp add: sample_server_host sample_payment_codec)
  ultimately have "\<exists>credit ps. verify sample_api sample_mint (wallet ?h) ''cashuB'' = (Inr credit, wallet g) \<and>
      bt_get (peers (core g)) sample_peer = Some ps \<and> phase ps = Active \<and>
      balance ps = saturating_add (case bt_get (peers (core ?h)) sample_peer of None \<Rightarrow> 0 | Some b \<Rightarrow> balance b) credit \<and> V4 1 \<in> paid_ips g"
    using confirmed_payment_was_accepted [OF p _ _ _ sample_server_host(4)]
    by (auto simp: sample_server_host(1,5) sample_resolved sample_parse) (auto simp: sample_env_def)
  moreover have "wallet ?h = BootstrapWallet_new []" "bt_get (peers (core ?h)) sample_peer = None"
    by (simp_all add: Driver_new_def set_price_def Session_new_def)
  ultimately show ?thesis using p by auto
qed

theorem v4_payment_grants_nothing_witness:
  "\<exists>reply g e. handle_post_payment sample_server sample_mint proxied ''cashuB'' 0 1 2
     (Driver_new (BootstrapWallet_new []) Price_default) = ((200, reply), g) \<and>
     SessionEvent_from_json (sv_nostr sample_server) reply = Inr e \<and> session_allotment e = Some 0"
proof -
  obtain reply g where p: "handle_post_payment sample_server sample_mint proxied ''cashuB'' 0 1 2
     (Driver_new (BootstrapWallet_new []) Price_default) = ((200, reply), g)" using sample_payment by blast
  have "nostr_ok (sv_nostr sample_server)" by (simp add: sample_server_def sample_nostr_ok)
  from p v4_payment_grants_nothing [OF p this, of "[]"] show ?thesis by (simp add: sample_resolved)
qed

subsection \<open>The router\<close>

datatype http_method = GET | HEAD | POST | OtherMethod string

record request =
  rq_method :: http_method
  rq_path :: string
  rq_query :: "string \<Rightarrow> string option"
  rq_headers :: headers
  rq_body :: string
  rq_addr :: IpAddr

definition BODY_LIMIT :: nat where
  "BODY_LIMIT = 65536"

text \<open>The requests that read no body, those that do, and what else a path may be asked for.\<close>

definition route_get ::
  "('tok, 'p, 'm, 'w) v1_server \<Rightarrow> Millis \<Rightarrow> request \<Rightarrow> host \<Rightarrow> 'w \<Rightarrow> response \<times> host \<times> 'w" where
  "route_get sv now req h w =
     (let p = rq_path req
      in if p = ''/'' \<or> p = ''/pay'' then (handle_get_details sv, h, w)
         else if p = ''/usage'' then (handle_usage sv (rq_headers req) (rq_addr req) now h, h, w)
         else if p = ''/whoami'' then (handle_whoami sv (rq_headers req) (rq_addr req), h, w)
         else if p = ''/balance'' then (handle_balance sv (rq_headers req) (rq_addr req) now h, h, w)
         else if p = ''/ln-invoice'' then (let (r, w') = handle_get_ln_invoice sv (rq_query req) w in (r, h, w'))
         else if p = ''/log-beacon'' then ((405, []), h, w)
         else ((404, []), h, w))"

definition route_post ::
  "('tok, 'p, 'm, 'w) v1_server \<Rightarrow> mint_answers \<Rightarrow> i64 \<Rightarrow> Millis \<Rightarrow> Millis \<Rightarrow> request \<Rightarrow> host \<Rightarrow> 'w \<Rightarrow> response \<times> host \<times> 'w" where
  "route_post sv mint unix now later req h w =
     (let p = rq_path req; too_large = BODY_LIMIT < length (rq_body req)
      in if p = ''/'' \<or> p = ''/ln-invoice'' \<or> p = ''/log-beacon''
         then (if too_large then ((413, ''length limit exceeded''), h, w)
               else if p = ''/''
               then (let (r, h') = handle_post_payment sv mint (rq_headers req) (rq_body req) unix now later h in (r, h', w))
               else if p = ''/ln-invoice''
               then (let (r, w') = handle_post_ln_invoice sv (rq_body req) w in (r, h, w'))
               else (fst (handle_log_beacon sv (rq_body req)), h, w))
         else if p = ''/pay'' \<or> p = ''/usage'' \<or> p = ''/whoami'' \<or> p = ''/balance'' then ((405, []), h, w)
         else ((404, []), h, w))"

definition build_router ::
  "('tok, 'p, 'm, 'w) v1_server \<Rightarrow> mint_answers \<Rightarrow> i64 \<Rightarrow> Millis \<Rightarrow> Millis \<Rightarrow> request \<Rightarrow> host \<Rightarrow> 'w \<Rightarrow> response \<times> host \<times> 'w" where
  "build_router sv mint unix now later req h w =
     (case rq_method req of
        GET \<Rightarrow> route_get sv now req h w
      | HEAD \<Rightarrow> (let ((code, _), hw) = route_get sv now req h w in ((code, []), hw))
      | POST \<Rightarrow> route_post sv mint unix now later req h w
      | OtherMethod _ \<Rightarrow>
          ((if rq_path req \<in> {''/'', ''/pay'', ''/usage'', ''/whoami'', ''/balance'', ''/ln-invoice'', ''/log-beacon''} then 405
            else 404, []), h, w))"

text \<open>
  Reading changes nothing: a GET or HEAD request never changes the node, and neither does a POST
  whose body exceeds the limit.
\<close>

theorem reads_leave_node_alone:
  assumes "rq_method req \<noteq> POST \<or> BODY_LIMIT < length (rq_body req)"
  shows "fst (snd (build_router sv mint unix now later req h w)) = h"
  using assms
  by (auto simp: build_router_def route_get_def route_post_def case_prod_beta Let_def split: http_method.splits)

end
