(* ===== verification/V1_Purchase.thy ===== *)
theory V1_Purchase
  imports V1_Client V1_Server
begin

section \<open>The v1 client against the v1 server\<close>

text \<open>
  The two halves of the v1 protocol put together: the client of \<^verbatim>\<open>client.rs\<close> whose requests are answered by the
  router of \<^verbatim>\<open>handlers.rs\<close>, with no proxy between them. The world of the client is the node of the server, the
  clock and whatever the server's wallet keeps; the client's wallet is any wallet over it.
\<close>

fun url_path_query :: "string \<Rightarrow> string \<times> string" where
  "url_path_query rest =
     (let path = takeWhile (\<lambda>c. c \<noteq> CHR ''?'') rest in (if path = [] then ''/'' else path, drop (length path + 1) rest))"

definition query_param :: "string \<Rightarrow> string \<Rightarrow> string option" where
  "query_param q name = (case strip_prefix (name @ ''='') q of Some v \<Rightarrow> Some v | None \<Rightarrow> None)"

definition direct_request ::
  "('tok, 'p, 'm, 'w) v1_server \<Rightarrow> mint_answers \<Rightarrow> string \<Rightarrow> IpAddr \<Rightarrow> http_method \<Rightarrow> string \<Rightarrow> string \<Rightarrow> host \<times> nat \<times> 'w \<Rightarrow>
   (string + nat \<times> (string + string)) \<times> host \<times> nat \<times> 'w" where
  "direct_request sv mint base addr method url body world =
     (case world of (h, t, w) \<Rightarrow>
        (case strip_prefix base url of
           None \<Rightarrow> (Inl ''connection refused'', world)
         | Some rest \<Rightarrow>
             let (path, query) = url_path_query rest;
                 ((code, reply), h', w') = build_router sv mint (of_nat (t div 1000)) (of_nat t) (of_nat t)
                   \<lparr> rq_method = method, rq_path = path, rq_query = query_param query, rq_headers = (\<lambda>_. None), rq_body = body,
                      rq_addr = addr \<rparr> h w
             in (Inr (code, Inr reply), h', t, w')))"

definition direct_http ::
  "('tok, 'p, 'm, 'w) v1_server \<Rightarrow> mint_answers \<Rightarrow> string \<Rightarrow> IpAddr \<Rightarrow> (host \<times> nat \<times> 'w) http_api" where
  "direct_http sv mint base addr =
     \<lparr> http_get = (\<lambda>url world. direct_request sv mint base addr GET url [] world),
       http_post = (\<lambda>url ty body world. direct_request sv mint base addr POST url body world),
       sleep_ms = (\<lambda>d (h, t, w). (h, t + d, w)), clock_ms = (\<lambda>(h, t, w). t), status_text = show_nat,
       nostr = sv_nostr sv, json_parse = sv_json_parse sv, json_print = sv_json_print sv \<rparr>"

text \<open>
  What is used of the JSON library: an object is printed with a brace first, and a printed value that
  can be read is read as itself.
\<close>

definition json_text_ok :: "('tok, 'p, 'm, 'w) v1_server \<Rightarrow> bool" where
  "json_text_ok sv \<longleftrightarrow>
     (\<forall>kvs. \<exists>r. sv_json_print sv (json_object kvs) = CHR 0x7B # r) \<and>
     (\<forall>v j. sv_json_parse sv (sv_json_print sv v) = Some j \<longrightarrow> j = v)"


subsection \<open>Answers the client cannot read\<close>

lemma split_first_piece: "\<exists>p ps. split_char d (c # s) = p # ps \<and> (c \<noteq> d \<longrightarrow> p \<noteq> [] \<and> hd p = c)"
proof (cases "d \<in> set (c # s)")
  case True
  then obtain a b where ab: "c # s = a @ d # b" "d \<notin> set a" by (meson split_list_first)
  then show ?thesis using split_char_first [OF ab(2), of b] by (cases a) auto
next
  case False
  then show ?thesis by simp
qed

lemma parse_i64_brace: "hd p = CHR 0x7B \<Longrightarrow> p \<noteq> [] \<Longrightarrow> parse_i64 p = None"
  by (cases p) (auto simp: parse_i64_def parse_nat_def digit_value_def char_nat_def)

lemma trim_brace: "\<exists>r'. trim (CHR 0x7B # r) = CHR 0x7B # r'"
proof -
  have "trim_start (CHR 0x7B # r) = CHR 0x7B # r" by (simp add: trim_start_def is_whitespace_def char_nat_def)
  moreover have "\<not> is_whitespace (CHR 0x7B)" by (simp add: is_whitespace_def char_nat_def)
  then have "rev (dropWhile is_whitespace (rev r @ [CHR 0x7B])) = CHR 0x7B # rev (dropWhile is_whitespace (rev r))"
    by (simp add: dropWhile_append3)
  ultimately show ?thesis by (simp add: trim_def)
qed

text \<open>The usage of a session, which the server writes as an object, is read as no session.\<close>

lemma usage_object: "parse_usage_response (CHR 0x7B # r) = (0, 0)"
proof -
  obtain r' where t: "trim (CHR 0x7B # r) = CHR 0x7B # r'" using trim_brace by blast
  obtain p ps where s: "split_char (CHR ''/'') (CHR 0x7B # r') = p # ps" "p \<noteq> []" "hd p = CHR 0x7B"
    using split_first_piece [of "CHR ''/''" "CHR 0x7B" r'] by auto
  then have "parse_i64 p = None" using parse_i64_brace by blast
  then show ?thesis by (simp add: parse_usage_response_def t s(1) Let_def)
qed

lemma printed_object:
  assumes "json_text_ok sv"
  shows "parse_usage_response (sv_json_print sv (json_object kvs)) = (0, 0)"
proof -
  obtain r where "sv_json_print sv (json_object kvs) = CHR 0x7B # r" using assms unfolding json_text_ok_def by blast
  then show ?thesis by (simp add: usage_object)
qed

lemma usage_reply:
  assumes "json_text_ok sv"
  shows "(let (code, reply) = handle_usage sv hs addr now h
          in 400 \<le> code \<and> code < 600 \<or> parse_usage_response reply = (0, 0))"
  using printed_object [OF assms]
  by (auto simp: handle_usage_def json_error_def json_response_def Let_def split: option.split)

lemma direct_usage:
  assumes "json_text_ok sv" and "base_url cl = base"
  shows "\<exists>r. fetch_usage (direct_http sv mint base addr) cl world = (r, world) \<and> (\<forall>ua. r = Inr ua \<longrightarrow> ua = (0, 0))"
proof -
  obtain h t w where world: "world = (h, t, w)" by (cases world)
  obtain code reply where u: "handle_usage sv (\<lambda>_. None) addr (of_nat t) h = (code, reply)"
    by (cases "handle_usage sv (\<lambda>_. None) addr (of_nat t) h")
  have "400 \<le> code \<and> code < 600 \<or> parse_usage_response reply = (0, 0)"
    using usage_reply [OF assms(1), of "\<lambda>_. None" addr "of_nat t" h] u by simp
  moreover have "http_get (direct_http sv mint base addr) (base_url cl @ ''/usage'') world = (Inr (code, Inr reply), world)"
    using u by (simp add: direct_http_def direct_request_def assms(2) world build_router_def route_get_def Let_def)
  ultimately show ?thesis by (auto simp: fetch_usage_def checked_text_def)
qed

text \<open>No payment sent to the server itself is accepted.\<close>

lemma direct_payment:
  assumes "base_url cl = base"
  shows "\<exists>e. send_payment (direct_http sv mint base addr) cl token world = (Inl e, world)"
proof -
  obtain h t w where world: "world = (h, t, w)" by (cases world)
  have "extract_ip sv (\<lambda>_. None) trust = None" for trust by (simp add: extract_ip_def)
  then obtain msg where p: "handle_post_payment sv mint (\<lambda>_. None) token (of_nat (t div 1000)) (of_nat t) (of_nat t) h = (json_error sv 400 msg, h)"
    using payment_without_address by metis
  have "\<exists>code reply. code \<noteq> 200 \<and> http_post (direct_http sv mint base addr) (base_url cl) ''text/plain'' token world =
      (Inr (code, Inr reply), world)"
    using p strip_prefix_append [of base "[]"]
    by (simp add: direct_http_def direct_request_def assms world build_router_def route_post_def Let_def json_error_def
        json_response_def)
  then show ?thesis by (auto simp: send_payment_def split: sum.split)
qed

text \<open>An invoice of the server lacks the fields \<open>state\<close> and \<open>access_granted\<close> that the client requires.\<close>

lemma invoice_unreadable:
  "read_ln_response (json_object [(''status'', a), (''quote'', b), (''invoice'', c), (''amount'', d), (''expiry'', e)]) = None"
proof -
  let ?j = "json_object [(''status'', a), (''quote'', b), (''invoice'', c), (''amount'', d), (''expiry'', e)]"
  obtain m where m: "?j = JObject m" by (simp add: json_object_def)
  have "json_get ''state'' ?j = None" by (simp add: json_get_object)
  then have "bt_get m ''state'' = None" by (simp add: m)
  then show ?thesis
    unfolding m by (simp add: read_ln_response_def struct_fields_def req_field_def)
qed

lemma invoice_reply:
  assumes "json_text_ok sv"
  shows "(let ((code, reply), w') = handle_post_ln_invoice sv body w
          in 400 \<le> code \<and> code < 600 \<or> Option.bind (sv_json_parse sv reply) read_ln_response = None)"
proof -
  have faithful: "sv_json_parse sv (sv_json_print sv v) = Some j \<Longrightarrow> j = v" for v j
    using assms unfolding json_text_ok_def by blast
  have unreadable: "Option.bind (sv_json_parse sv (sv_json_print sv (json_object [(''status'', a), (''quote'', b), (''invoice'', c),
      (''amount'', d), (''expiry'', e)]))) read_ln_response = None" (is "Option.bind (sv_json_parse sv (sv_json_print sv ?j)) _ = _") for a b c d e
  proof (cases "sv_json_parse sv (sv_json_print sv ?j)")
    case (Some j)
    with faithful have "j = ?j" .
    with Some show ?thesis by (simp add: invoice_unreadable)
  qed simp
  then show ?thesis
    by (auto simp: handle_post_ln_invoice_def json_error_def json_response_def Let_def split: option.split sum.split prod.split)
qed

lemma direct_invoice:
  assumes "json_text_ok sv" and "base_url cl = base"
  shows "\<exists>e world'. request_ln_invoice (direct_http sv mint base addr) cl amount murl world = (Inl e, world')"
proof -
  obtain h t w where world: "world = (h, t, w)" by (cases world)
  let ?body = "sv_json_print sv (ln_request_json \<lparr> lr_amount = amount, lr_mint_url = Some murl, lr_mint = None \<rparr>)"
  obtain code reply w' where i: "handle_post_ln_invoice sv ?body w = ((code, reply), w')"
    by (metis prod.exhaust)
  have "400 \<le> code \<and> code < 600 \<or> Option.bind (sv_json_parse sv reply) read_ln_response = None"
    using invoice_reply [OF assms(1), of ?body w] i by simp
  moreover have "json_print (direct_http sv mint base addr) = sv_json_print sv" "json_parse (direct_http sv mint base addr) = sv_json_parse sv"
    by (simp_all add: direct_http_def)
  moreover have "http_post (direct_http sv mint base addr) (base_url cl @ ''/ln-invoice'') ty ?body world =
      (if BODY_LIMIT < length ?body then (Inr (413, Inr ''length limit exceeded''), world) else (Inr (code, Inr reply), h, t, w'))" for ty
    using i by (simp add: direct_http_def direct_request_def assms(2) world build_router_def route_post_def Let_def)
  ultimately show ?thesis unfolding world
    by (auto simp: request_ln_invoice_def checked_text_def read_json_def Let_def)
qed


subsection \<open>No direct purchase succeeds\<close>

lemma pay_gateway_fails:
  assumes "base_url (cl_http cl) = base" and "web env = direct_http sv mint base addr"
  shows "\<exists>e world'. pay_gateway env cl amount url v = (Inl e, world')"
proof -
  note split_paired_Ex [simp del]
  obtain x v1 where Pair: "create_token_with_overpayment (cdk env) amount url 100 v = (x, v1)" by (meson surj_pair)
  show ?thesis
  proof (cases x)
    case (Inr token)
    obtain e where "send_payment (web env) (cl_http cl) token v1 = (Inl e, v1)"
      using direct_payment [OF assms(1), where sv = sv and mint = mint and addr = addr and token = token and world = v1]
      unfolding assms(2) by blast
    with Pair Inr show ?thesis by (simp add: pay_gateway_def)
  qed (use Pair in \<open>simp add: pay_gateway_def\<close>)
qed

lemma lightning_fails:
  assumes "json_text_ok sv" and "base_url (cl_http cl) = base" and "web env = direct_http sv mint base addr"
  shows "\<exists>e world'. connect_via_lightning env cl ad opt steps v = Some (Inl e, cl, world')"
proof -
  obtain e world' where "request_ln_invoice (web env) (cl_http cl) (steps * price_per_step opt) (po_mint_url opt) v = (Inl e, world')"
    using direct_invoice [OF assms(1,2), where mint = mint and addr = addr and amount = "steps * price_per_step opt"
        and murl = "po_mint_url opt" and world = v] unfolding assms(3) by blast
  then show ?thesis by (simp add: connect_via_lightning_def del: split_paired_Ex)
qed

lemma buy_fails:
  assumes pay: "\<And>amount url v. \<exists>e world'. pay_gateway env cl amount url v = (Inl e, world')"
    and ln: "\<And>ad opt steps v. \<exists>e world'. connect_via_lightning env cl ad opt steps v = Some (Inl e, cl, world')"
  shows "\<exists>e world'. buy env cl v = Some (Inl e, cl, world')"
proof -
  note split_paired_Ex [simp del]
  obtain x v1 where Pair: "find_offer env cl v = (x, v1)" by (meson surj_pair)
  show ?thesis
  proof (cases x)
    case (Inr ao)
    obtain ad opt where ao: "ao = (ad, opt)" by (cases ao)
    obtain b v2 where t: "total_balance (cdk env) v1 = (b, v2)" by (meson surj_pair)
    show ?thesis
    proof (cases b)
      case (Inr bal)
      obtain e v3 where "pay_gateway env cl (payment_steps (cl_config cl) (ad_step_size ad) opt bal * price_per_step opt) (po_mint_url opt) v2 = (Inl e, v3)"
        using pay by blast
      then show ?thesis using Pair \<open>x = Inr ao\<close> ao t Inr ln
        by (auto simp: buy_def Let_def split: sum.split)
    qed (use Pair Inr ao t in \<open>auto simp: buy_def split: sum.split\<close>)
  qed (use Pair in \<open>simp add: buy_def\<close>)
qed

text \<open>
  C38. A v1 client of this program cannot buy from a v1 server of this program that it talks to directly:
  whatever the state of the node, the wallets and the configuration, connecting returns an error, and
  never a session. Without a session the usage request is answered with an error status; with one, its
  answer is read as no session; then a token is refused for want of a proxy header and an invoice
  cannot be read.
\<close>

theorem direct_purchase_fails:
  assumes "json_text_ok sv" and "base_url (cl_http cl) = base" and "web env = direct_http sv mint base addr"
  shows "\<exists>e world'. v1_connect env cl world = Some (Inl e, cl, world')"
proof -
  obtain r where u: "fetch_usage (web env) (cl_http cl) world = (r, world)" "\<forall>ua. r = Inr ua \<longrightarrow> ua = (0, 0)"
    using direct_usage [OF assms(1,2), where mint = mint and addr = addr and world = world] unfolding assms(3) by blast
  have "\<exists>e world'. buy env cl v = Some (Inl e, cl, world')" for v
    by (intro buy_fails pay_gateway_fails [OF assms(2,3)] lightning_fails [OF assms])
  then show ?thesis using u by (cases r) (simp_all add: v1_connect_def del: split_paired_Ex)
qed

definition funded_wallet :: "(unit, unit, host \<times> nat \<times> u64) cdk_api" where
  "funded_wallet =
     \<lparr> cdk_open = (\<lambda>_ w. Inr w), cdk_total_balance = (\<lambda>w. (Inr (snd (snd w)), w)), cdk_prepare_send = (\<lambda>_ _ w. (Inr (), w)),
       cdk_confirm_send = (\<lambda>_ w. (Inr ''cashuB'', w)), cdk_mint_quote = (\<lambda>_ w. (Inr (''q'', ''lnbc'', 0), w)),
       cdk_quote_state = (\<lambda>_ w. (Inr Paid, w)), cdk_mint = (\<lambda>_ w. (Inl ''internal error'', w)),
       cdk_recover_sagas = (\<lambda>w. w), cdk_melt_quote = (\<lambda>_ w. (Inr ''m'', w)), cdk_address_quote = (\<lambda>_ _ w. (Inr ''m'', w)),
       cdk_prepare_melt = (\<lambda>_ w. (Inr (), w)), cdk_confirm_melt = (\<lambda>_ w. (Inr (0, 0), w)), cdk_sleep = (\<lambda>_ w. w) \<rparr>"

theorem direct_purchase_fails_witness:
  "\<exists>e world'. v1_connect \<lparr> web = direct_http sample_server sample_mint ''http://10.0.0.1:2121'' (V4 1), cdk = funded_wallet \<rparr> sample_client
     (Driver_new (BootstrapWallet_new []) Price_default, 0, 5) = Some (Inl e, sample_client, world')"
  by (rule direct_purchase_fails [where sv = sample_server and mint = sample_mint and addr = "V4 1"])
    (simp_all add: json_text_ok_def sample_client_def V1Client_new_def http_new_def http_new_with_base_url_def sample_server_def)

end
