(* ===== verification/Rust_Ip.thy ===== *)
theory Rust_Ip
  imports Rust_Text
begin

section \<open>The text of IP addresses\<close>

text \<open>
  \<^verbatim>\<open>Display\<close> of \<^verbatim>\<open>std::net::IpAddr\<close>: four decimal octets for version 4; for version 6 the eight groups in
  hexadecimal with the first longest run of two or more zero groups written as a double colon, and the
  embedded form for an address that maps a version 4 address. A reader of these texts shows that the
  text determines the address.
\<close>

subsection \<open>Joining and splitting\<close>

fun join_char :: "char \<Rightarrow> string list \<Rightarrow> string" where
  "join_char c [] = []"
| "join_char c [x] = x"
| "join_char c (x # y # ys) = x @ c # join_char c (y # ys)"

lemma split_join_char:
  "xs \<noteq> [] \<Longrightarrow> list_all (\<lambda>x. c \<notin> set x) xs \<Longrightarrow> split_char c (join_char c xs) = xs"
  by (induction c xs rule: join_char.induct) (simp_all add: split_char_first)

lemma set_join_char: "set (join_char c xs) \<subseteq> insert c (\<Union> (set ` set xs))"
  by (induction c xs rule: join_char.induct) auto

lemma join_char_mem: "2 \<le> length xs \<Longrightarrow> c \<in> set (join_char c xs)"
  by (induction c xs rule: join_char.induct) auto

lemma join_char_append:
  "xs \<noteq> [] \<Longrightarrow> ys \<noteq> [] \<Longrightarrow> join_char c (xs @ ys) = join_char c xs @ c # join_char c ys"
proof (induction xs rule: list_nonempty_induct)
  case (single x)
  then show ?case by (cases ys) auto
next
  case (cons x xs)
  then show ?case by (cases xs) auto
qed


subsection \<open>Digits to a base\<close>

definition digits :: "nat \<Rightarrow> nat \<Rightarrow> nat \<Rightarrow> nat list" where
  "digits b k n = map (\<lambda>i. n div b ^ (k - Suc i) mod b) [0..<k]"

definition horner :: "nat \<Rightarrow> nat list \<Rightarrow> nat" where
  "horner b ds = foldl (\<lambda>acc d. acc * b + d) 0 ds"

lemma digits_Suc: "digits b (Suc k) n = digits b k (n div b) @ [n mod b]"
proof -
  have "n div b ^ (Suc k - Suc i) mod b = n div b div b ^ (k - Suc i) mod b" if "i < k" for i
    using that by (simp add: div_mult2_eq [symmetric] Suc_diff_Suc flip: power_Suc)
  then show ?thesis by (auto simp: digits_def)
qed

lemma horner_digits: "0 < b \<Longrightarrow> n < b ^ k \<Longrightarrow> horner b (digits b k n) = n"
proof (induction k arbitrary: n)
  case (Suc k)
  then have "n div b < b ^ k" by (simp add: less_mult_imp_div_less mult.commute)
  with Suc show ?case by (simp add: digits_Suc horner_def)
qed (simp add: digits_def horner_def)

lemma length_digits [simp]: "length (digits b k n) = k"
  by (simp add: digits_def)

lemma digits_less: "0 < b \<Longrightarrow> d \<in> set (digits b k n) \<Longrightarrow> d < b"
  by (auto simp: digits_def)


subsection \<open>Hexadecimal numbers\<close>

fun show_hex :: "nat \<Rightarrow> string" where
  "show_hex n = (if n < 16 then [hex_digit n] else show_hex (n div 16) @ [hex_digit (n mod 16)])"

declare show_hex.simps [simp del]

definition read_hex :: "string \<Rightarrow> nat" where
  "read_hex s = horner 16 (map hex_value s)"

lemma read_show_hex [simp]: "read_hex (show_hex n) = n"
proof (induction n rule: show_hex.induct)
  case (1 n)
  show ?case
  proof (cases "n < 16")
    case True
    then show ?thesis by (subst show_hex.simps) (simp add: read_hex_def horner_def hex_value_digit)
  next
    case False
    then have "read_hex (show_hex (n div 16)) = n div 16" using 1 by simp
    then show ?thesis using False
      by (subst show_hex.simps) (simp add: read_hex_def horner_def hex_value_digit)
  qed
qed

lemma show_hex_chars: "c \<in> set (show_hex n) \<Longrightarrow> \<exists>d < 16. c = hex_digit d"
proof (induction n rule: show_hex.induct)
  case (1 n)
  then show ?case by (subst (asm) (2) show_hex.simps) (auto split: if_splits intro: exI [of _ "n mod 16"])
qed

lemma show_hex_nonempty [simp]: "show_hex n \<noteq> []"
  by (subst show_hex.simps) simp

lemma hex_digit_no_separator: "d < 16 \<Longrightarrow> hex_digit d \<noteq> CHR '':'' \<and> hex_digit d \<noteq> CHR ''.''"
proof -
  assume "d < 16"
  then have "of_char (hex_digit d) \<noteq> (58 :: nat)" "of_char (hex_digit d) \<noteq> (46 :: nat)"
    by (simp_all add: hex_digit_def)
  moreover have "of_char (CHR '':'') = (58 :: nat)" "of_char (CHR ''.'') = (46 :: nat)" by simp_all
  ultimately show ?thesis by metis
qed

lemma show_hex_no_separator: "CHR '':'' \<notin> set (show_hex n)" "CHR ''.'' \<notin> set (show_hex n)"
  using show_hex_chars hex_digit_no_separator by metis+

lemma show_nat_no_separator: "CHR '':'' \<notin> set (show_nat n)" "CHR ''.'' \<notin> set (show_nat n)"
proof -
  have "digit_value (CHR '':'') = None" "digit_value (CHR ''.'') = None" by (simp_all add: digit_value_def char_nat_def)
  then show "CHR '':'' \<notin> set (show_nat n)" "CHR ''.'' \<notin> set (show_nat n)"
    using show_nat_digits [of n] by (auto simp: list_all_iff)
qed


subsection \<open>Version 4\<close>

definition v4_octets :: "nat \<Rightarrow> nat list" where
  "v4_octets n = digits 256 4 n"

definition show_v4 :: "nat \<Rightarrow> string" where
  "show_v4 n = join_char (CHR ''.'') (map show_nat (v4_octets n))"

definition read_v4 :: "string \<Rightarrow> nat" where
  "read_v4 s = horner 256 (map (the \<circ> parse_nat) (split_char (CHR ''.'') s))"

lemma read_show_v4: "n < 2 ^ 32 \<Longrightarrow> read_v4 (show_v4 n) = n"
proof -
  assume n: "n < 2 ^ 32"
  have "split_char (CHR ''.'') (show_v4 n) = map show_nat (v4_octets n)"
    unfolding show_v4_def
    by (rule split_join_char) (simp_all add: v4_octets_def list_all_iff show_nat_no_separator flip: length_0_conv)
  moreover have "map (the \<circ> parse_nat \<circ> show_nat) xs = xs" for xs by (simp add: parse_show_nat comp_def)
  ultimately show ?thesis using n by (simp add: read_v4_def comp_assoc v4_octets_def horner_digits)
qed

lemma show_v4_chars: "CHR '':'' \<notin> set (show_v4 n)" "CHR ''.'' \<in> set (show_v4 n)"
proof -
  show "CHR '':'' \<notin> set (show_v4 n)"
    using set_join_char [of "CHR ''.''" "map show_nat (v4_octets n)"] show_nat_no_separator
    by (auto simp: show_v4_def)
  show "CHR ''.'' \<in> set (show_v4 n)" by (simp add: show_v4_def v4_octets_def join_char_mem)
qed


subsection \<open>Version 6\<close>

text \<open>The loop that looks for the longest run of zero groups: a run is its start and its length.\<close>

fun zero_run :: "nat \<times> nat \<Rightarrow> nat \<times> nat \<Rightarrow> nat \<Rightarrow> nat list \<Rightarrow> nat \<times> nat" where
  "zero_run longest current i [] = longest"
| "zero_run longest current i (seg # segs) =
     (if seg = 0
      then let current' = (if snd current = 0 then i else fst current, snd current + 1)
           in zero_run (if snd longest < snd current' then current' else longest) current' (i + 1) segs
      else zero_run longest (0, 0) (i + 1) segs)"

definition v6_segments :: "nat \<Rightarrow> nat list" where
  "v6_segments n = digits 65536 8 n"

definition show_segments :: "nat list \<Rightarrow> string" where
  "show_segments segs = join_char (CHR '':'') (map show_hex segs)"

definition show_v6 :: "nat \<Rightarrow> string" where
  "show_v6 n =
     (let segs = v6_segments n; (start, len) = zero_run (0, 0) (0, 0) 0 segs
      in if n div 2 ^ 32 = 0xFFFF then ''::ffff:'' @ show_v4 (n mod 2 ^ 32)
         else if 1 < len then show_segments (take start segs) @ ''::'' @ show_segments (drop (start + len) segs)
         else show_segments segs)"

text \<open>The run found is a run of zeros of the list.\<close>

definition run_in :: "nat list \<Rightarrow> nat \<times> nat \<Rightarrow> bool" where
  "run_in segs r \<longleftrightarrow> fst r + snd r \<le> length segs \<and> (\<forall>j. fst r \<le> j \<and> j < fst r + snd r \<longrightarrow> segs ! j = 0)"

lemma zero_run_in:
  assumes "all = pre @ segs" and "i = length pre" and "run_in all longest" and "run_in all current"
    and "snd current = 0 \<or> fst current + snd current = i"
  shows "run_in all (zero_run longest current i segs)"
  using assms
proof (induction longest current i segs arbitrary: pre rule: zero_run.induct)
  case (2 longest current i seg segs)
  have next_seg: "all = (pre @ [seg]) @ segs" "i + 1 = length (pre @ [seg])" "i < length all" "all ! i = seg"
    using "2.prems" by simp_all
  show ?case
  proof (cases "seg = 0")
    case True
    let ?c = "(if snd current = 0 then i else fst current, snd current + 1)"
    have c1: "run_in all ?c"
    proof (cases "snd current = 0")
      case True
      have "all ! j = 0" if "i \<le> j" "j < i + 1" for j using that next_seg(4) \<open>seg = 0\<close> by (cases "j = i") simp_all
      then show ?thesis using True next_seg(3) by (simp add: run_in_def)
    next
      case False
      then have e: "fst current + snd current = i" using "2.prems"(5) by simp
      have "all ! j = 0" if "fst current \<le> j" "j < i + 1" for j
        using that next_seg(4) \<open>seg = 0\<close> "2.prems"(4) e by (cases "j = i") (simp_all add: run_in_def)
      then show ?thesis using False e next_seg(3) by (auto simp: run_in_def)
    qed
    then have c2: "run_in all (if snd longest < snd ?c then ?c else longest)" using "2.prems"(3) by simp
    have c3: "snd ?c = 0 \<or> fst ?c + snd ?c = i + 1" using "2.prems"(5) by auto
    have "run_in all (zero_run (if snd longest < snd ?c then ?c else longest) ?c (i + 1) segs)"
      by (rule "2.IH"(1) [OF True refl next_seg(1,2) c2 c1 c3])
    then show ?thesis by (simp only: zero_run.simps Let_def True if_True simp_thms)
  next
    case False
    then show ?thesis using "2.IH"(2) [OF False next_seg(1,2) "2.prems"(3)] by (simp add: run_in_def)
  qed
qed simp

lemma zero_run_split:
  assumes "zero_run (0, 0) (0, 0) 0 segs = (start, len)"
  shows "segs = take start segs @ replicate len 0 @ drop (start + len) segs" and "start + len \<le> length segs"
proof -
  have r: "run_in segs (start, len)"
    using zero_run_in [of segs "[]" segs 0 "(0, 0)" "(0, 0)"] assms by (simp add: run_in_def)
  then show "start + len \<le> length segs" by (simp add: run_in_def)
  have "take len (drop start segs) = replicate len 0"
    using r by (intro nth_equalityI) (auto simp: run_in_def)
  then show "segs = take start segs @ replicate len 0 @ drop (start + len) segs"
    by (metis add.commute append_take_drop_id drop_drop)
qed


text \<open>The reader: the groups between colons, with the zeros that the empty group stands for.\<close>

definition read_groups :: "string list \<Rightarrow> nat list" where
  "read_groups gs =
     (let pre = (if gs \<noteq> [] \<and> hd gs = [] then [] else takeWhile (\<lambda>g. g \<noteq> []) gs);
          rest = drop (max 1 (length pre) + 1) gs;
          post = (if rest = [[]] then [] else rest)
      in if [] \<notin> set gs then map read_hex gs
         else map read_hex pre @ replicate (8 - length pre - length post) 0 @ map read_hex post)"

definition read_v6 :: "string \<Rightarrow> nat" where
  "read_v6 s =
     (let gs = split_char (CHR '':'') s
      in if CHR ''.'' \<in> set s then 0xFFFF * 2 ^ 32 + read_v4 (last gs) else horner 65536 (read_groups gs))"

definition compressed :: "nat list \<Rightarrow> nat list \<Rightarrow> string list" where
  "compressed pre post =
     (if pre = [] then [[]] else map show_hex pre) @ [[]] @ (if post = [] then [[]] else map show_hex post)"

lemma show_compressed:
  "show_segments pre @ ''::'' @ show_segments post = join_char (CHR '':'') (compressed pre post)"
proof -
  have "join_char (CHR '':'') ([] # (if post = [] then [[]] else map show_hex post)) = CHR '':'' # show_segments post"
    by (cases post) (auto simp: show_segments_def)
  then show ?thesis by (cases "pre = []") (auto simp: compressed_def show_segments_def join_char_append)
qed

lemma read_compressed:
  assumes "length pre + length post \<le> 8"
  shows "read_groups (compressed pre post) = pre @ replicate (8 - length pre - length post) 0 @ post"
proof -
  have hex: "map (read_hex \<circ> show_hex) xs = xs" for xs by (simp add: comp_def)
  have tw: "takeWhile (\<lambda>g. g \<noteq> []) (map show_hex pre @ [] # r) = map show_hex pre" for r
    by (simp add: takeWhile_append)
  have one: "map show_hex post \<noteq> [[]]" by (cases post) auto
  show ?thesis
  proof (cases pre)
    case Nil
    then show ?thesis using one by (auto simp: read_groups_def compressed_def hex Let_def)
  next
    case (Cons p ps)
    then have "max 1 (length pre) = length pre" by simp
    then show ?thesis using Cons one tw
      by (auto simp: read_groups_def compressed_def hex Let_def)
  qed
qed


lemma read_uncompressed: "read_groups (map show_hex segs) = segs"
proof -
  have "[] \<notin> set (map show_hex segs)" using show_hex_nonempty by (metis ex_map_conv)
  then show ?thesis by (simp add: read_groups_def comp_def)
qed

lemma no_dot:
  "list_all (\<lambda>g. CHR ''.'' \<notin> set g) gs \<Longrightarrow> CHR ''.'' \<notin> set (join_char (CHR '':'') gs)"
  using set_join_char [of "CHR '':''" gs] by (auto simp: list_all_iff)

lemma groups_plain: "list_all (\<lambda>g. CHR '':'' \<notin> set g \<and> CHR ''.'' \<notin> set g) (map show_hex segs)"
  by (simp add: list_all_iff show_hex_no_separator)

lemma read_joined:
  assumes "gs \<noteq> []" and "list_all (\<lambda>g. CHR '':'' \<notin> set g \<and> CHR ''.'' \<notin> set g) gs"
  shows "read_v6 (join_char (CHR '':'') gs) = horner 65536 (read_groups gs)"
  using assms split_join_char [of gs "CHR '':''"] no_dot [of gs] by (auto simp: read_v6_def list_all_iff)

lemma read_show_v6:
  assumes "n < 2 ^ 128"
  shows "read_v6 (show_v6 n) = n"
proof -
  obtain start len where run: "zero_run (0, 0) (0, 0) 0 (v6_segments n) = (start, len)" by (meson surj_pair)
  let ?pre = "take start (v6_segments n)" and ?post = "drop (start + len) (v6_segments n)"
  have num: "horner 65536 (v6_segments n) = n" using assms by (simp add: v6_segments_def horner_digits)
  have length: "length (v6_segments n) = 8" by (simp add: v6_segments_def)
  show ?thesis
  proof (cases "n div 2 ^ 32 = 0xFFFF")
    case True
    have txtv: "show_v6 n = join_char (CHR '':'') [[], [], ''ffff'', show_v4 (n mod 2 ^ 32)]"
      using True run by (simp add: show_v6_def)
    have "split_char (CHR '':'') (show_v6 n) = [[], [], ''ffff'', show_v4 (n mod 2 ^ 32)]"
      unfolding txtv by (rule split_join_char) (simp_all add: show_v4_chars)
    moreover have "CHR ''.'' \<in> set (show_v6 n)" unfolding txtv by (simp add: show_v4_chars)
    ultimately have "read_v6 (show_v6 n) = 0xFFFF * 2 ^ 32 + n mod 2 ^ 32"
      by (simp add: read_v6_def read_show_v4)
    then show ?thesis using True by (metis div_mult_mod_eq)
  next
    case False
    show ?thesis
    proof (cases "1 < len")
      case True
      have fit: "length ?pre + length ?post \<le> 8" "8 - length ?pre - length ?post = len"
        using zero_run_split(2) [OF run] length by simp_all
      have plain: "list_all (\<lambda>g. CHR '':'' \<notin> set g \<and> CHR ''.'' \<notin> set g) (compressed ?pre ?post)"
        using groups_plain by (simp add: compressed_def)
      have some: "compressed ?pre ?post \<noteq> []" by (simp add: compressed_def)
      have shown: "show_v6 n = show_segments ?pre @ ''::'' @ show_segments ?post"
        using False True run by (simp add: show_v6_def Let_def)
      have "read_v6 (show_v6 n) = horner 65536 (read_groups (compressed ?pre ?post))"
        unfolding shown show_compressed by (rule read_joined [OF some plain])
      also have "\<dots> = n" using read_compressed [OF fit(1)] fit(2) zero_run_split(1) [OF run] num by metis
      finally show ?thesis .
    next
      case short: False
      have "v6_segments n \<noteq> []" using length by auto
      then show ?thesis using False short run read_joined [OF _ groups_plain, of "v6_segments n"] num
        by (simp add: show_v6_def show_segments_def read_uncompressed)
    qed
  qed
qed

lemma show_v6_colon: "CHR '':'' \<in> set (show_v6 n)"
proof -
  obtain start len where "zero_run (0, 0) (0, 0) 0 (v6_segments n) = (start, len)" by (meson surj_pair)
  moreover have "length (v6_segments n) = 8" by (simp add: v6_segments_def)
  ultimately show ?thesis by (simp add: show_v6_def Let_def show_segments_def join_char_mem)
qed


subsection \<open>Addresses\<close>

fun show_ip :: "IpAddr \<Rightarrow> string" where
  "show_ip (V4 w) = show_v4 (unat w)"
| "show_ip (V6 w) = show_v6 (unat w)"

definition read_ip :: "string \<Rightarrow> IpAddr" where
  "read_ip s = (if CHR '':'' \<in> set s then V6 (of_nat (read_v6 s)) else V4 (of_nat (read_v4 s)))"

lemma read_show_ip [simp]: "read_ip (show_ip ip) = ip"
proof (cases ip)
  case (V4 w)
  then show ?thesis using unat_bound [of w] by (simp add: read_ip_def show_v4_chars read_show_v4)
next
  case (V6 w)
  then show ?thesis using unat_bound [of w] by (simp add: read_ip_def show_v6_colon read_show_v6)
qed

lemma show_ip_inject [simp]: "show_ip a = show_ip b \<longleftrightarrow> a = b"
  by (metis read_show_ip)

text \<open>An address is printed as one word.\<close>

lemma join_char_plain:
  assumes "\<not> is_whitespace c" and "\<And>x. x \<in> set xs \<Longrightarrow> list_all (\<lambda>c. \<not> is_whitespace c) x"
  shows "list_all (\<lambda>c. \<not> is_whitespace c) (join_char c xs)"
  using set_join_char [of c xs] assms by (fastforce simp: list_all_iff)

lemma show_hex_plain: "list_all (\<lambda>c. \<not> is_whitespace c) (show_hex n)"
  using show_hex_chars hex_digit_plain by (metis list_all_iff)

lemma separators_plain: "\<not> is_whitespace (CHR '':'')" "\<not> is_whitespace (CHR ''.'')"
  by (simp_all add: is_whitespace_def char_nat_def)

lemma show_v4_plain: "list_all (\<lambda>c. \<not> is_whitespace c) (show_v4 n)"
  unfolding show_v4_def using show_nat_word
  by (intro join_char_plain) (auto simp: separators_plain is_word_def)

lemma show_segments_plain: "list_all (\<lambda>c. \<not> is_whitespace c) (show_segments segs)"
  unfolding show_segments_def by (rule join_char_plain) (auto simp: separators_plain show_hex_plain)

lemma show_ip_word: "is_word (show_ip ip)"
proof (cases ip)
  case (V4 w)
  then show ?thesis using show_v4_plain show_v4_chars(2) [of "unat w"] by (auto simp: is_word_def)
next
  case (V6 w)
  obtain start len where "zero_run (0, 0) (0, 0) 0 (v6_segments (unat w)) = (start, len)" by (meson surj_pair)
  moreover have "list_all (\<lambda>c. \<not> is_whitespace c) ''::ffff:''" by (simp add: is_whitespace_def char_nat_def)
  ultimately have "list_all (\<lambda>c. \<not> is_whitespace c) (show_v6 (unat w))"
    using show_v4_plain show_segments_plain separators_plain by (simp add: show_v6_def Let_def)
  then show ?thesis using V6 show_v6_colon [of "unat w"] by (auto simp: is_word_def)
qed

end
