(* ===== verification/Nft_Adapter.thy ===== *)
theory Nft_Adapter
  imports Rust_Ip Json Host_Driver
begin

section \<open>The firewall adapter\<close>

text \<open>
  \<^verbatim>\<open>crates/tollgate-net/src/adapter.rs\<close>: access control through the program \<^verbatim>\<open>nft\<close>. The adapter's own state
  is its back end, whether a forward chain was asked for, and the two process-wide sets of addresses whose
  counter rules are installed. The program \<^verbatim>\<open>nft\<close>, the kernel behind it and the files under \<^verbatim>\<open>/proc\<close> and \<^verbatim>\<open>/sys\<close>
  are a parameter: a process run on arguments and standard input, and a file read, on a world of which
  nothing is known. What the theorems use of \<^verbatim>\<open>nft\<close> is stated as a reading of its documented command
  language (\<open>nft_command\<close>, \<open>nft_batch\<close>) and the hypothesis \<open>nft_conforms\<close>, that a run that succeeds changes
  the kernel's table as this reading says and a run that fails changes nothing.
\<close>

subsection \<open>The adapter's text\<close>

definition NFT_TABLE :: string where
  "NFT_TABLE = ''tollgate''"

definition underscored :: "string \<Rightarrow> string" where
  "underscored s = map (\<lambda>c. if c = CHR ''.'' \<or> c = CHR '':'' then CHR ''_'' else c) s"

definition upstream_counter_name :: "IpAddr \<Rightarrow> string" where
  "upstream_counter_name ip = ''tg_up_'' @ underscored (show_ip ip)"

fun find_arp_mac :: "string \<Rightarrow> string list \<Rightarrow> string option" where
  "find_arp_mac ip [] = None"
| "find_arp_mac ip (line # lines) =
     (case split_whitespace line of
        [] \<Rightarrow> find_arp_mac ip lines
      | first # cols \<Rightarrow>
          if first \<noteq> ip then find_arp_mac ip lines
          else Option.bind (nth_opt 2 cols) (\<lambda>mac. if mac \<noteq> ''00:00:00:00:00:00'' then Some mac else None))"

definition parse_arp_mac :: "string \<Rightarrow> string \<Rightarrow> string option" where
  "parse_arp_mac arp_table ip = find_arp_mac ip (drop 1 (rust_lines arp_table))"

fun paid_set_name :: "IpAddr \<Rightarrow> string" where
  "paid_set_name (V4 _) = ''paid_peers_v4''"
| "paid_set_name (V6 _) = ''paid_peers_v6''"

definition nft_element_args :: "IpAddr \<Rightarrow> bool \<Rightarrow> string list" where
  "nft_element_args ip add =
     [if add then ''add'' else ''delete'', ''element'', ''inet'', NFT_TABLE, paid_set_name ip, ''{ '' @ show_ip ip @ '' }'']"

definition counter_names :: "IpAddr \<Rightarrow> string \<times> string" where
  "counter_names ip = (let key = underscored (show_ip ip) in (''tg_d_'' @ key, ''tg_r_'' @ key))"

fun find_counter :: "string \<Rightarrow> json list \<Rightarrow> u64 option" where
  "find_counter name [] = None"
| "find_counter name (item # items) =
     (case json_get ''counter'' item of
        None \<Rightarrow> find_counter name items
      | Some counter \<Rightarrow>
          if Option.bind (json_get ''name'' counter) as_str = Some name
          then Option.bind (json_get ''bytes'' counter) as_u64
          else find_counter name items)"

definition parse_counter_bytes :: "(string \<Rightarrow> json option) \<Rightarrow> string \<Rightarrow> string \<Rightarrow> u64 option" where
  "parse_counter_bytes json_parse text name =
     Option.bind (json_parse text) (\<lambda>v.
     Option.bind (json_get ''nftables'' v) (\<lambda>items.
     Option.bind (as_array items) (find_counter name)))"


subsection \<open>Running nft\<close>

datatype proc_output = NotRun | Exited bool string

record 'k nft_env =
  run_nft :: "string list \<Rightarrow> string \<Rightarrow> 'k \<Rightarrow> proc_output \<times> 'k"
  read_sys_file :: "string \<Rightarrow> 'k \<Rightarrow> string option"
  nft_json :: "string \<Rightarrow> json option"

definition run_batch :: "'k nft_env \<Rightarrow> string \<Rightarrow> 'k \<Rightarrow> bool \<times> 'k" where
  "run_batch env ruleset k =
     (case run_nft env [''-f'', ''-''] ruleset k of
        (Exited True _, k') \<Rightarrow> (True, k')
      | (_, k') \<Rightarrow> (False, k'))"

definition sets_ruleset :: string where
  "sets_ruleset =
     ''add table inet '' @ NFT_TABLE @ [newline] @
     ''delete table inet '' @ NFT_TABLE @ [newline] @
     ''add table inet '' @ NFT_TABLE @ [newline] @
     ''add set inet '' @ NFT_TABLE @ '' paid_peers_v4 { type ipv4_addr; flags interval; }'' @ [newline] @
     ''add set inet '' @ NFT_TABLE @ '' paid_peers_v6 { type ipv6_addr; flags interval; }'' @ [newline]"

definition forward_ruleset :: string where
  "forward_ruleset =
     ''add chain inet '' @ NFT_TABLE @ '' forward { type filter hook forward priority 0; policy drop; }'' @ [newline] @
     ''add rule inet '' @ NFT_TABLE @ '' forward ct state established,related accept'' @ [newline] @
     ''add rule inet '' @ NFT_TABLE @ '' forward ip saddr @paid_peers_v4 accept'' @ [newline] @
     ''add rule inet '' @ NFT_TABLE @ '' forward ip daddr @paid_peers_v4 accept'' @ [newline] @
     ''add rule inet '' @ NFT_TABLE @ '' forward ip6 saddr @paid_peers_v6 accept'' @ [newline] @
     ''add rule inet '' @ NFT_TABLE @ '' forward ip6 daddr @paid_peers_v6 accept'' @ [newline]"

definition nft_init :: "'k nft_env \<Rightarrow> bool \<Rightarrow> 'k \<Rightarrow> bool \<times> 'k" where
  "nft_init env install_forward_chain k =
     run_batch env (sets_ruleset @ (if install_forward_chain then forward_ruleset else [])) k"

definition nft_apply :: "'k nft_env \<Rightarrow> IpAddr \<Rightarrow> bool \<Rightarrow> 'k \<Rightarrow> 'k" where
  "nft_apply env ip add k = snd (run_nft env (nft_element_args ip add) [] k)"

fun nft_proto :: "IpAddr \<Rightarrow> string" where
  "nft_proto (V4 _) = ''ip''"
| "nft_proto (V6 _) = ''ip6''"

definition counters_ruleset :: "IpAddr \<Rightarrow> string" where
  "counters_ruleset ip =
     (let (delivered, received) = counter_names ip; proto = nft_proto ip; addr = show_ip ip
      in ''add counter inet '' @ NFT_TABLE @ '' '' @ delivered @ [newline] @
         ''add counter inet '' @ NFT_TABLE @ '' '' @ received @ [newline] @
         ''insert rule inet '' @ NFT_TABLE @ '' forward '' @ proto @ '' daddr '' @ addr @ '' counter name '' @ delivered @ [newline] @
         ''insert rule inet '' @ NFT_TABLE @ '' forward '' @ proto @ '' saddr '' @ addr @ '' counter name '' @ received @ [newline])"

datatype Backend = Nftables | LogOnly

record ip_adapter =
  backend :: Backend
  counters_available :: bool
  installed :: "IpAddr set"
  installed_up :: "IpAddr set"

definition IpAdapter_new :: "bool \<Rightarrow> ip_adapter" where
  "IpAdapter_new linux =
     \<lparr> backend = (if linux then Nftables else LogOnly), counters_available = False, installed = {}, installed_up = {} \<rparr>"

definition ensure_counters :: "'k nft_env \<Rightarrow> IpAddr \<Rightarrow> ip_adapter \<Rightarrow> 'k \<Rightarrow> ip_adapter \<times> 'k" where
  "ensure_counters env ip a k =
     (if ip \<in> installed a then (a, k)
      else case run_batch env (counters_ruleset ip) k of
             (True, k') \<Rightarrow> (a\<lparr> installed := insert ip (installed a) \<rparr>, k')
           | (False, k') \<Rightarrow> (a\<lparr> installed := installed a - {ip} \<rparr>, k'))"

definition list_counters :: "'k nft_env \<Rightarrow> 'k \<Rightarrow> string option \<times> 'k" where
  "list_counters env k =
     (case run_nft env [''-j'', ''list'', ''counters'', ''table'', ''inet'', NFT_TABLE] [] k of
        (Exited True out, k') \<Rightarrow> (Some out, k')
      | (_, k') \<Rightarrow> (None, k'))"

definition counter_value :: "'k nft_env \<Rightarrow> string \<Rightarrow> string \<Rightarrow> u64" where
  "counter_value env text name = (case parse_counter_bytes (nft_json env) text name of None \<Rightarrow> 0 | Some n \<Rightarrow> n)"

definition nft_read :: "'k nft_env \<Rightarrow> IpAddr \<Rightarrow> 'k \<Rightarrow> counters \<times> 'k" where
  "nft_read env ip k =
     (case list_counters env k of
        (None, k') \<Rightarrow> (\<lparr> delivered = 0, received = 0 \<rparr>, k')
      | (Some text, k') \<Rightarrow>
          (let (d, r) = counter_names ip in (\<lparr> delivered = counter_value env text d, received = counter_value env text r \<rparr>, k')))"

definition resolve_mac :: "'k nft_env \<Rightarrow> IpAddr \<Rightarrow> 'k \<Rightarrow> string option" where
  "resolve_mac env ip k =
     Option.bind (read_sys_file env ''/proc/net/arp'' k) (\<lambda>table. parse_arp_mac table (show_ip ip))"

definition upstream_ruleset :: "IpAddr \<Rightarrow> string \<Rightarrow> string" where
  "upstream_ruleset ip mac =
     (let name = upstream_counter_name ip
      in ''add table inet '' @ NFT_TABLE @ [newline] @
         ''add chain inet '' @ NFT_TABLE @ '' ingress { type filter hook prerouting priority -300; }'' @ [newline] @
         ''add counter inet '' @ NFT_TABLE @ '' '' @ name @ [newline] @
         ''insert rule inet '' @ NFT_TABLE @ '' ingress ether saddr '' @ mac @ '' counter name '' @ name @ [newline])"

definition nft_ensure_upstream_counter :: "'k nft_env \<Rightarrow> IpAddr \<Rightarrow> ip_adapter \<Rightarrow> 'k \<Rightarrow> ip_adapter \<times> 'k" where
  "nft_ensure_upstream_counter env ip a k =
     (if ip \<in> installed_up a then (a, k)
      else case resolve_mac env ip k of
             None \<Rightarrow> (a, k)
           | Some mac \<Rightarrow>
               (case run_batch env (upstream_ruleset ip mac) k of
                  (False, k') \<Rightarrow> (a, k')
                | (True, k') \<Rightarrow> (a\<lparr> installed_up := insert ip (installed_up a) \<rparr>, k')))"

definition nft_read_upstream_received :: "'k nft_env \<Rightarrow> IpAddr \<Rightarrow> 'k \<Rightarrow> u64 \<times> 'k" where
  "nft_read_upstream_received env ip k =
     (case list_counters env k of
        (None, k') \<Rightarrow> (0, k')
      | (Some text, k') \<Rightarrow> (counter_value env text (upstream_counter_name ip), k'))"


subsection \<open>The adapter\<close>

definition adapter_init :: "'k nft_env \<Rightarrow> bool \<Rightarrow> ip_adapter \<Rightarrow> 'k \<Rightarrow> bool \<times> ip_adapter \<times> 'k" where
  "adapter_init env install_forward_chain a k =
     (let a' = a\<lparr> counters_available := install_forward_chain \<rparr>
      in case backend a' of
           Nftables \<Rightarrow> (let (ok, k') = nft_init env install_forward_chain k in (ok, a', k'))
         | LogOnly \<Rightarrow> (True, a', k))"

definition adapter_allow :: "'k nft_env \<Rightarrow> IpAddr \<Rightarrow> ip_adapter \<times> 'k \<Rightarrow> ip_adapter \<times> 'k" where
  "adapter_allow env ip ak =
     (case ak of (a, k) \<Rightarrow>
        (case backend a of
           Nftables \<Rightarrow>
             (let k1 = nft_apply env ip True k
              in if counters_available a then ensure_counters env ip a k1 else (a, k1))
         | LogOnly \<Rightarrow> (a, k)))"

definition adapter_deny :: "'k nft_env \<Rightarrow> IpAddr \<Rightarrow> ip_adapter \<times> 'k \<Rightarrow> ip_adapter \<times> 'k" where
  "adapter_deny env ip ak =
     (case ak of (a, k) \<Rightarrow>
        (case backend a of Nftables \<Rightarrow> (a, nft_apply env ip False k) | LogOnly \<Rightarrow> (a, k)))"

definition read_counters :: "'k nft_env \<Rightarrow> IpAddr \<Rightarrow> ip_adapter \<Rightarrow> 'k \<Rightarrow> counters \<times> 'k" where
  "read_counters env ip a k =
     (case backend a of Nftables \<Rightarrow> nft_read env ip k | LogOnly \<Rightarrow> (\<lparr> delivered = 0, received = 0 \<rparr>, k))"

definition iface_stat :: "'k nft_env \<Rightarrow> string \<Rightarrow> 'k \<Rightarrow> string \<Rightarrow> u64" where
  "iface_stat env iface k kind =
     (case Option.bind (read_sys_file env (''/sys/class/net/'' @ iface @ ''/statistics/'' @ kind @ ''_bytes'') k)
             (\<lambda>s. parse_u64 (trim s)) of
        None \<Rightarrow> 0
      | Some n \<Rightarrow> n)"

definition read_iface_counters :: "'k nft_env \<Rightarrow> string \<Rightarrow> 'k \<Rightarrow> counters" where
  "read_iface_counters env iface k = \<lparr> delivered = iface_stat env iface k ''tx'', received = iface_stat env iface k ''rx'' \<rparr>"

definition ensure_upstream_counter :: "'k nft_env \<Rightarrow> IpAddr \<Rightarrow> ip_adapter \<times> 'k \<Rightarrow> ip_adapter \<times> 'k" where
  "ensure_upstream_counter env ip ak =
     (case ak of (a, k) \<Rightarrow>
        (case backend a of Nftables \<Rightarrow> nft_ensure_upstream_counter env ip a k | LogOnly \<Rightarrow> (a, k)))"

definition read_upstream_received :: "'k nft_env \<Rightarrow> IpAddr \<Rightarrow> ip_adapter \<Rightarrow> 'k \<Rightarrow> u64 \<times> 'k" where
  "read_upstream_received env ip a k =
     (case backend a of Nftables \<Rightarrow> nft_read_upstream_received env ip k | LogOnly \<Rightarrow> (0, k))"

end
