(* ===== verification/Nft_Firewall.thy ===== *)
theory Nft_Firewall
  imports Nft_Adapter
begin

section \<open>What the adapter's commands make of the firewall\<close>

text \<open>
  A reading of the commands of \<^verbatim>\<open>nft\<close> that the adapter issues, on the one table it manages, and of the verdict
  of a forward chain on a packet. The sets of the table have an element type; an element of another
  family is refused, as are commands on objects that do not exist. A batch is carried out as a whole or
  not at all.
\<close>

subsection \<open>The command language\<close>

record nft_set =
  set_type :: string
  elements :: "IpAddr set"

record nft_table =
  nft_sets :: "string \<Rightarrow> nft_set option"
  nft_chains :: "string \<Rightarrow> (bool \<times> string list list) option"
  nft_counters :: "string set"

type_synonym ruleset = "nft_table option"

definition empty_table :: nft_table where
  "empty_table = \<lparr> nft_sets = (\<lambda>_. None), nft_chains = (\<lambda>_. None), nft_counters = {} \<rparr>"

fun element_type :: "IpAddr \<Rightarrow> string" where
  "element_type (V4 _) = ''ipv4_addr;''"
| "element_type (V6 _) = ''ipv6_addr;''"

definition change_element :: "bool \<Rightarrow> string \<Rightarrow> IpAddr \<Rightarrow> nft_table \<Rightarrow> nft_table option" where
  "change_element add name ip t =
     (case nft_sets t name of
        None \<Rightarrow> None
      | Some s \<Rightarrow>
          if set_type s \<noteq> element_type ip then None
          else if add then Some (t\<lparr> nft_sets := (nft_sets t)(name \<mapsto> s\<lparr> elements := insert ip (elements s) \<rparr>) \<rparr>)
          else if ip \<in> elements s then Some (t\<lparr> nft_sets := (nft_sets t)(name \<mapsto> s\<lparr> elements := elements s - {ip} \<rparr>) \<rparr>)
          else None)"

definition add_rule :: "bool \<Rightarrow> string \<Rightarrow> string list \<Rightarrow> nft_table \<Rightarrow> nft_table option" where
  "add_rule front chain rule t =
     map_option (\<lambda>(pol, rules). t\<lparr> nft_chains := (nft_chains t)(chain \<mapsto> (pol, if front then rule # rules else rules @ [rule])) \<rparr>)
       (nft_chains t chain)"

definition add_object :: "string \<Rightarrow> string \<Rightarrow> string list \<Rightarrow> nft_table \<Rightarrow> nft_table option" where
  "add_object kind name args t =
     (if kind = ''set''
      then Some (if nft_sets t name = None
                 then t\<lparr> nft_sets := (nft_sets t)(name \<mapsto> \<lparr> set_type = args ! 2, elements = {} \<rparr>) \<rparr> else t)
      else if kind = ''chain''
      then Some (if nft_chains t name = None
                 then t\<lparr> nft_chains := (nft_chains t)(name \<mapsto> (''drop;'' \<in> set args, [])) \<rparr> else t)
      else if kind = ''counter'' then Some (t\<lparr> nft_counters := insert name (nft_counters t) \<rparr>)
      else if kind = ''rule'' then add_rule False name args t
      else if kind = ''element'' \<and> length args = 3 then change_element True name (read_ip (args ! 1)) t
      else None)"

definition table_command :: "string \<Rightarrow> string \<Rightarrow> string \<Rightarrow> string list \<Rightarrow> nft_table \<Rightarrow> nft_table option" where
  "table_command op kind name args t =
     (if op = ''add'' then add_object kind name args t
      else if op = ''insert'' \<and> kind = ''rule'' then add_rule True name args t
      else if op = ''delete'' \<and> kind = ''element'' \<and> length args = 3 then change_element False name (read_ip (args ! 1)) t
      else None)"

fun nft_command :: "string list \<Rightarrow> ruleset \<Rightarrow> ruleset option" where
  "nft_command (op # kind # family # table # args) rs =
     (if family \<noteq> ''inet'' \<or> table \<noteq> NFT_TABLE then None
      else if kind = ''table''
      then (if op = ''add'' then Some (Some (case rs of None \<Rightarrow> empty_table | Some t \<Rightarrow> t))
            else if op = ''delete'' \<and> rs \<noteq> None then Some None
            else None)
      else case (rs, args) of
             (Some t, name # args') \<Rightarrow> map_option Some (table_command op kind name args' t)
           | _ \<Rightarrow> None)"
| "nft_command _ rs = None"

fun nft_commands :: "string list list \<Rightarrow> ruleset \<Rightarrow> ruleset option" where
  "nft_commands [] rs = Some rs"
| "nft_commands (c # cs) rs = Option.bind (nft_command c rs) (nft_commands cs)"

definition nft_batch :: "string \<Rightarrow> ruleset \<Rightarrow> ruleset option" where
  "nft_batch text = nft_commands (map split_whitespace (rust_lines text))"

text \<open>Arguments are read as one command line.\<close>

definition nft_arguments :: "string list \<Rightarrow> ruleset \<Rightarrow> ruleset option" where
  "nft_arguments args = nft_command (split_whitespace (join_char (CHR '' '') args))"

fun succeeded :: "proc_output \<Rightarrow> bool" where
  "succeeded (Exited ok _) = ok"
| "succeeded NotRun = False"

definition nft_conforms :: "'k nft_env \<Rightarrow> ('k \<Rightarrow> ruleset) \<Rightarrow> bool" where
  "nft_conforms env view \<longleftrightarrow>
     (\<forall>txt k r k'. run_nft env [''-f'', ''-''] txt k = (r, k') \<longrightarrow>
        (if succeeded r then nft_batch txt (view k) = Some (view k') else view k' = view k)) \<and>
     (\<forall>op args k r k'. op \<in> {''add'', ''delete''} \<longrightarrow> run_nft env (op # args) [] k = (r, k') \<longrightarrow>
        (if succeeded r then nft_arguments (op # args) (view k) = Some (view k') else view k' = view k))"

text \<open>A kernel that carries out whatever the language accepts.\<close>

definition nft_works :: "'k nft_env \<Rightarrow> ('k \<Rightarrow> ruleset) \<Rightarrow> bool" where
  "nft_works env view \<longleftrightarrow>
     (\<forall>txt k. nft_batch txt (view k) \<noteq> None \<longrightarrow> succeeded (fst (run_nft env [''-f'', ''-''] txt k))) \<and>
     (\<forall>args k. nft_arguments args (view k) \<noteq> None \<longrightarrow> succeeded (fst (run_nft env args [] k)))"


subsection \<open>The verdict on a packet\<close>

record packet =
  pk_src :: IpAddr
  pk_dst :: IpAddr
  pk_established :: bool

definition pk_field :: "packet \<Rightarrow> string \<Rightarrow> IpAddr" where
  "pk_field p dir = (if dir = ''saddr'' then pk_src p else pk_dst p)"

definition in_set :: "nft_table \<Rightarrow> string \<Rightarrow> IpAddr \<Rightarrow> bool" where
  "in_set t name ip = (case nft_sets t name of None \<Rightarrow> False | Some s \<Rightarrow> ip \<in> elements s)"

definition rule_accepts :: "nft_table \<Rightarrow> string list \<Rightarrow> packet \<Rightarrow> bool" where
  "rule_accepts t rule p =
     (case rule of
        [proto, dir, what, verdict] \<Rightarrow>
          verdict = ''accept'' \<and>
          (if proto = ''ct'' then dir = ''state'' \<and> what = ''established,related'' \<and> pk_established p
           else what \<noteq> [] \<and> hd what = CHR ''@'' \<and> proto = nft_proto (pk_field p dir) \<and> in_set t (tl what) (pk_field p dir))
      | _ \<Rightarrow> False)"

definition rule_counts :: "string list \<Rightarrow> packet \<Rightarrow> string \<Rightarrow> bool" where
  "rule_counts rule p name =
     (case rule of
        [proto, dir, addr, stmt, key, counter] \<Rightarrow>
          stmt = ''counter'' \<and> key = ''name'' \<and> counter = name \<and> proto = nft_proto (pk_field p dir) \<and> pk_field p dir = read_ip addr
      | _ \<Rightarrow> False)"

text \<open>
  No rule but an accepting one decides; a packet that none accepts gets the policy of the chain. A counter
  counts the packets that reach its rule.
\<close>

definition forwards :: "ruleset \<Rightarrow> packet \<Rightarrow> bool" where
  "forwards rs p =
     (case Option.bind rs (\<lambda>t. map_option (Pair t) (nft_chains t ''forward'')) of
        None \<Rightarrow> True
      | Some (t, drop_policy, rules) \<Rightarrow> (\<exists>r \<in> set rules. rule_accepts t r p) \<or> \<not> drop_policy)"

definition times_counted :: "ruleset \<Rightarrow> packet \<Rightarrow> string \<Rightarrow> nat" where
  "times_counted rs p name =
     (case Option.bind rs (\<lambda>t. map_option (Pair t) (nft_chains t ''forward'')) of
        None \<Rightarrow> 0
      | Some (t, _, rules) \<Rightarrow> length (filter (\<lambda>r. rule_counts r p name) (takeWhile (\<lambda>r. \<not> rule_accepts t r p) rules)))"



subsection \<open>The adapter's lines as words\<close>

lemma split_line:
  assumes "ws \<noteq> []" and "list_all is_word ws"
  shows "split_whitespace (join_char (CHR '' '') ws) = ws"
proof -
  have "join_char (CHR '' '') (vs @ [w]) = concat (map (\<lambda>v. v @ '' '') vs) @ w" for vs w
  proof (induction vs)
    case (Cons v vs)
    then show ?case by (cases vs) auto
  qed simp
  moreover obtain vs w where "ws = vs @ [w]" using assms(1) by (metis rev_exhaust)
  ultimately show ?thesis using assms(2) split_whitespace_words [of vs w] by simp
qed

lemma word_line: "list_all is_word ws \<Longrightarrow> newline \<notin> set (join_char (CHR '' '') ws)"
  using set_join_char [of "CHR '' ''" ws] word_newline by (fastforce simp: list_all_iff newline_def)

lemma literal_words:
  "is_word w \<longleftrightarrow> w \<noteq> [] \<and> list_all (\<lambda>c. \<not> (9 \<le> (of_char c :: nat) \<and> (of_char c :: nat) \<le> 13) \<and> (of_char c :: nat) \<noteq> 32) w"
  by (simp add: is_word_def is_whitespace_def char_nat_def)

lemma element_words:
  "nft_arguments (nft_element_args ip add) =
   nft_command [if add then ''add'' else ''delete'', ''element'', ''inet'', NFT_TABLE, paid_set_name ip, ''{'', show_ip ip, ''}'']"
proof -
  let ?ws = "[if add then ''add'' else ''delete'', ''element'', ''inet'', NFT_TABLE, paid_set_name ip, ''{'', show_ip ip, ''}'']"
  have "is_word (paid_set_name ip)" by (cases ip) (simp_all add: literal_words)
  then have "list_all is_word ?ws" using show_ip_word by (simp add: literal_words NFT_TABLE_def)
  then have "split_whitespace (join_char (CHR '' '') ?ws) = ?ws" by (intro split_line) simp_all
  moreover have "join_char (CHR '' '') (nft_element_args ip add) = join_char (CHR '' '') ?ws"
    by (simp add: nft_element_args_def)
  ultimately show ?thesis by (simp add: nft_arguments_def)
qed


abbreviation text_of :: "string list list \<Rightarrow> string" where
  "text_of wss \<equiv> concat (map (\<lambda>ws. join_char (CHR '' '') ws @ [newline]) wss)"

lemma batch_words:
  assumes "list_all (\<lambda>ws. ws \<noteq> [] \<and> list_all is_word ws) wss"
  shows "nft_batch (text_of wss) = nft_commands wss"
proof -
  have line: "rust_lines (join_char (CHR '' '') ws @ newline # s) = join_char (CHR '' '') ws # rust_lines s"
    if "list_all is_word ws" for ws s
  proof -
    have "carriage_return \<notin> set (join_char (CHR '' '') ws)"
      using that set_join_char [of "CHR '' ''" ws] whitespace_newline(2)
      by (fastforce simp: list_all_iff is_word_def carriage_return_def)
    then have "strip_cr (join_char (CHR '' '') ws) = join_char (CHR '' '') ws"
      using last_in_set by (metis strip_cr_def)
    then show ?thesis using rust_lines_write [OF word_line [OF that]] by simp
  qed
  have "map split_whitespace (rust_lines (text_of wss)) = wss"
    using assms by (induction wss) (simp_all add: line split_line rust_lines.simps [of "[]"])
  then show ?thesis by (simp add: nft_batch_def)
qed

definition sets_words :: "string list list" where
  "sets_words =
     [[''add'', ''table'', ''inet'', NFT_TABLE], [''delete'', ''table'', ''inet'', NFT_TABLE], [''add'', ''table'', ''inet'', NFT_TABLE],
      [''add'', ''set'', ''inet'', NFT_TABLE, ''paid_peers_v4'', ''{'', ''type'', ''ipv4_addr;'', ''flags'', ''interval;'', ''}''],
      [''add'', ''set'', ''inet'', NFT_TABLE, ''paid_peers_v6'', ''{'', ''type'', ''ipv6_addr;'', ''flags'', ''interval;'', ''}'']]"

definition base_rules :: "string list list" where
  "base_rules =
     [[''ct'', ''state'', ''established,related'', ''accept''],
      [''ip'', ''saddr'', ''@paid_peers_v4'', ''accept''], [''ip'', ''daddr'', ''@paid_peers_v4'', ''accept''],
      [''ip6'', ''saddr'', ''@paid_peers_v6'', ''accept''], [''ip6'', ''daddr'', ''@paid_peers_v6'', ''accept'']]"

definition forward_words :: "string list list" where
  "forward_words =
     [''add'', ''chain'', ''inet'', NFT_TABLE, ''forward'', ''{'', ''type'', ''filter'', ''hook'', ''forward'', ''priority'', ''0;'',
        ''policy'', ''drop;'', ''}''] #
     map (\<lambda>r. [''add'', ''rule'', ''inet'', NFT_TABLE, ''forward''] @ r) base_rules"

definition counter_rules :: "IpAddr \<Rightarrow> string list list" where
  "counter_rules ip =
     (let (d, r) = counter_names ip
      in [[nft_proto ip, ''saddr'', show_ip ip, ''counter'', ''name'', r], [nft_proto ip, ''daddr'', show_ip ip, ''counter'', ''name'', d]])"

definition counter_words :: "IpAddr \<Rightarrow> string list list" where
  "counter_words ip =
     (let (d, r) = counter_names ip
      in [[''add'', ''counter'', ''inet'', NFT_TABLE, d], [''add'', ''counter'', ''inet'', NFT_TABLE, r]] @
         map (\<lambda>r. [''insert'', ''rule'', ''inet'', NFT_TABLE, ''forward''] @ r) (rev (counter_rules ip)))"

lemma sets_batch: "nft_batch sets_ruleset = nft_commands sets_words"
proof -
  have "sets_ruleset = text_of sets_words" by (simp add: sets_ruleset_def sets_words_def NFT_TABLE_def)
  moreover have "list_all (\<lambda>ws. ws \<noteq> [] \<and> list_all is_word ws) sets_words" by (simp add: sets_words_def literal_words NFT_TABLE_def)
  ultimately show ?thesis using batch_words by metis
qed

lemma forward_batch: "nft_batch (sets_ruleset @ forward_ruleset) = nft_commands (sets_words @ forward_words)"
proof -
  have "sets_ruleset @ forward_ruleset = text_of (sets_words @ forward_words)"
    by (simp add: sets_ruleset_def sets_words_def forward_ruleset_def forward_words_def base_rules_def NFT_TABLE_def)
  moreover have "list_all (\<lambda>ws. ws \<noteq> [] \<and> list_all is_word ws) (sets_words @ forward_words)"
    by (simp add: sets_words_def forward_words_def base_rules_def literal_words NFT_TABLE_def)
  ultimately show ?thesis using batch_words by metis
qed

lemma counter_name_words: "counter_names ip = (d, r) \<Longrightarrow> is_word d \<and> is_word r"
proof -
  assume "counter_names ip = (d, r)"
  moreover have "list_all (\<lambda>c. \<not> is_whitespace c) (underscored (show_ip ip))"
    using show_ip_word [of ip] by (auto simp: underscored_def is_word_def list_all_iff is_whitespace_def char_nat_def)
  ultimately show ?thesis by (auto simp: counter_names_def Let_def is_word_def is_whitespace_def char_nat_def)
qed

lemma counters_batch: "nft_batch (counters_ruleset ip) = nft_commands (counter_words ip)"
proof -
  obtain d r where n: "counter_names ip = (d, r)" by (meson surj_pair)
  have "counters_ruleset ip = text_of (counter_words ip)"
    by (simp add: counters_ruleset_def counter_words_def counter_rules_def n NFT_TABLE_def Let_def)
  moreover have "is_word (nft_proto ip)" by (cases ip) (simp_all add: literal_words)
  then have "list_all (\<lambda>ws. ws \<noteq> [] \<and> list_all is_word ws) (counter_words ip)"
    using counter_name_words [OF n] show_ip_word [of ip]
    by (simp add: counter_words_def counter_rules_def n) (simp add: literal_words NFT_TABLE_def)
  ultimately show ?thesis using batch_words by metis
qed



subsection \<open>The invariant of the table\<close>

text \<open>
  The two sets exist with their element types and hold addresses of their family only; a forward chain
  exists exactly in enforcing mode, and holds the counter rules of the installed addresses above the
  five accepting rules.
\<close>

definition typed :: "nft_table \<Rightarrow> bool" where
  "typed t \<longleftrightarrow> (\<forall>name s. nft_sets t name = Some s \<longrightarrow> (\<forall>ip \<in> elements s. element_type ip = set_type s))"

definition ready :: "nft_table \<Rightarrow> bool" where
  "ready t \<longleftrightarrow> typed t \<and> (\<forall>ip. \<exists>s. nft_sets t (paid_set_name ip) = Some s \<and> set_type s = element_type ip)"

definition paid_addresses :: "nft_table \<Rightarrow> IpAddr set" where
  "paid_addresses t = {ip. in_set t (paid_set_name ip) ip}"

definition fw_inv :: "ip_adapter \<Rightarrow> nft_table \<Rightarrow> bool" where
  "fw_inv a t \<longleftrightarrow>
     backend a = Nftables \<and> ready t \<and>
     (if counters_available a
      then \<exists>L. distinct L \<and> set L = installed a \<and>
             nft_chains t ''forward'' = Some (True, concat (map counter_rules L) @ base_rules)
      else nft_chains t ''forward'' = None)"

lemma sets_differ: "paid_set_name a = paid_set_name b \<longleftrightarrow> element_type a = element_type b"
  by (cases a; cases b) simp_all

lemma change_element_effect:
  assumes "ready t" and "change_element add (paid_set_name ip) ip t = Some t'"
  shows "ready t'" and "nft_chains t' = nft_chains t"
    and "paid_addresses t' = (if add then insert ip (paid_addresses t) else paid_addresses t - {ip})"
proof -
  obtain s where s: "nft_sets t (paid_set_name ip) = Some s" "set_type s = element_type ip"
    using assms(1) by (auto simp: ready_def)
  then have t': "t' = t\<lparr> nft_sets := (nft_sets t)(paid_set_name ip \<mapsto>
      s\<lparr> elements := (if add then insert ip (elements s) else elements s - {ip}) \<rparr>) \<rparr>"
    using assms(2) by (auto simp: change_element_def split: if_splits)
  show "nft_chains t' = nft_chains t" by (simp add: t')
  have "typed t" using assms(1) by (simp add: ready_def)
  then have ty: "element_type i = set_type s" if "i \<in> elements s" for i using s(1) that by (auto simp: typed_def)
  show "ready t'" unfolding ready_def
  proof (intro conjI allI)
    show "typed t'" using \<open>typed t\<close> s(2) ty by (auto simp: typed_def t' split: if_splits)
    show "\<exists>v. nft_sets t' (paid_set_name i) = Some v \<and> set_type v = element_type i" for i
      using assms(1) s(2) sets_differ [of ip i] by (auto simp: ready_def t')
  qed
  have "in_set t' (paid_set_name i) i \<longleftrightarrow> (if add then i = ip \<or> in_set t (paid_set_name i) i else i \<noteq> ip \<and> in_set t (paid_set_name i) i)" for i
    using s by (cases "paid_set_name i = paid_set_name ip") (auto simp: in_set_def t')
  then show "paid_addresses t' = (if add then insert ip (paid_addresses t) else paid_addresses t - {ip})"
    by (auto simp: paid_addresses_def)
qed

lemma element_command:
  "nft_arguments (nft_element_args ip add) (Some t) = map_option Some (change_element add (paid_set_name ip) ip t)"
  by (simp add: element_words table_command_def add_object_def)

lemma element_accepted:
  assumes "ready t" and "add \<or> ip \<in> paid_addresses t"
  shows "change_element add (paid_set_name ip) ip t \<noteq> None"
proof -
  obtain s where "nft_sets t (paid_set_name ip) = Some s" "set_type s = element_type ip" using assms(1) by (auto simp: ready_def)
  then show ?thesis using assms(2) by (auto simp: change_element_def paid_addresses_def in_set_def)
qed

lemma conforms_batch:
  assumes "nft_conforms env view" and "run_batch env txt k = (ok, k')"
  shows "if ok then nft_batch txt (view k) = Some (view k') else view k' = view k"
proof -
  obtain r k1 where r: "run_nft env [''-f'', ''-''] txt k = (r, k1)" by (meson surj_pair)
  then have "ok = succeeded r" "k' = k1"
    using assms(2) by (cases r; auto simp: run_batch_def split: bool.splits)+
  then show ?thesis using assms(1) r unfolding nft_conforms_def by blast
qed

lemma nft_apply_effect:
  assumes "nft_conforms env view" and "view k = Some t" and "ready t"
  shows "\<exists>t'. view (nft_apply env ip add k) = Some t' \<and> ready t' \<and> nft_chains t' = nft_chains t \<and>
    (t' = t \<or> paid_addresses t' = (if add then insert ip (paid_addresses t) else paid_addresses t - {ip}))"
proof -
  obtain o1 k' where r: "run_nft env (nft_element_args ip add) [] k = (o1, k')" by (meson surj_pair)
  obtain op args where args: "nft_element_args ip add = op # args" "op \<in> {''add'', ''delete''}"
    by (simp add: nft_element_args_def split: if_splits)
  then have "if succeeded o1 then nft_arguments (nft_element_args ip add) (Some t) = Some (view k') else view k' = Some t"
    using assms(1,2) r unfolding nft_conforms_def by metis
  then have "nft_arguments (nft_element_args ip add) (Some t) = Some (view k') \<or> view k' = Some t"
    by (simp split: if_splits)
  then show ?thesis
  proof
    assume "nft_arguments (nft_element_args ip add) (Some t) = Some (view k')"
    then obtain t' where "view k' = Some t'" "change_element add (paid_set_name ip) ip t = Some t'"
      unfolding element_command by (metis map_option_eq_Some option.inject)
    then show ?thesis using change_element_effect [OF assms(3)] r by (auto simp: nft_apply_def)
  qed (use r assms(3) in \<open>simp add: nft_apply_def\<close>)
qed


lemma counters_effect:
  assumes "nft_chains t ''forward'' = Some (pol, rules)"
  shows "\<exists>t'. nft_commands (counter_words ip) (Some t) = Some (Some t') \<and> nft_sets t' = nft_sets t \<and>
    nft_chains t' ''forward'' = Some (pol, counter_rules ip @ rules)"
proof -
  obtain d r where "counter_names ip = (d, r)" by (meson surj_pair)
  then show ?thesis using assms
    by (simp add: counter_words_def counter_rules_def table_command_def add_object_def add_rule_def)
qed

lemma same_sets: "nft_sets t' = nft_sets t \<Longrightarrow> ready t' = ready t \<and> paid_addresses t' = paid_addresses t"
  by (simp add: ready_def typed_def paid_addresses_def in_set_def)

lemma ensure_counters_inv:
  assumes "nft_conforms env view" and "view k = Some t" and "fw_inv a t" and "counters_available a"
  shows "\<exists>a' k' t'. ensure_counters env ip a k = (a', k') \<and> view k' = Some t' \<and> fw_inv a' t' \<and>
    paid_addresses t' = paid_addresses t \<and> counters_available a'"
proof (cases "ip \<in> installed a")
  case False
  obtain L where L: "distinct L" "set L = installed a"
      "nft_chains t ''forward'' = Some (True, concat (map counter_rules L) @ base_rules)"
    using assms(3,4) by (auto simp: fw_inv_def)
  obtain ok k2 where b: "run_batch env (counters_ruleset ip) k = (ok, k2)" by (meson surj_pair)
  show ?thesis
  proof (cases ok)
    case True
    obtain t2 where t2: "view k2 = Some t2" "nft_sets t2 = nft_sets t"
        "nft_chains t2 ''forward'' = Some (True, counter_rules ip @ concat (map counter_rules L) @ base_rules)"
      using conforms_batch [OF assms(1) b] True counters_effect [OF L(3), of ip] assms(2) by (auto simp: counters_batch)
    have "fw_inv (a\<lparr> installed := insert ip (installed a) \<rparr>) t2"
      unfolding fw_inv_def using assms(3,4) same_sets [OF t2(2)] False L(1,2) t2(3)
      by (auto simp: fw_inv_def intro!: exI [of _ "ip # L"])
    then show ?thesis using b True t2(1) same_sets [OF t2(2)] False assms(4) by (simp add: ensure_counters_def)
  next
    case not_ok: False
    have "fw_inv (a\<lparr> installed := installed a - {ip} \<rparr>) t" using assms(3) False by (simp add: fw_inv_def)
    then show ?thesis using conforms_batch [OF assms(1) b] not_ok b assms(2,4) False by (simp add: ensure_counters_def)
  qed
qed (use assms in \<open>simp add: ensure_counters_def\<close>)

lemma allow_after_apply:
  assumes "nft_conforms env view" and "fw_inv a t" and "view (nft_apply env ip True k) = Some t1"
    and "ready t1" and "nft_chains t1 = nft_chains t"
  shows "\<exists>a' k' t'. adapter_allow env ip (a, k) = (a', k') \<and> view k' = Some t' \<and> fw_inv a' t' \<and>
    paid_addresses t' = paid_addresses t1 \<and> counters_available a' = counters_available a"
proof -
  have "fw_inv a t1" using assms(2,4,5) by (simp add: fw_inv_def)
  moreover have "backend a = Nftables" using assms(2) by (simp add: fw_inv_def)
  ultimately show ?thesis using ensure_counters_inv [OF assms(1,3), of a ip] assms(3)
    by (auto simp: adapter_allow_def Let_def)
qed

lemma allow_deny_inv:
  assumes "nft_conforms env view" and "view k = Some t" and "fw_inv a t"
  shows "\<exists>a' k' t'. adapter_allow env ip (a, k) = (a', k') \<and> view k' = Some t' \<and> fw_inv a' t' \<and>
      paid_addresses t' \<subseteq> insert ip (paid_addresses t) \<and> counters_available a' = counters_available a"
    and "\<exists>k' t'. adapter_deny env ip (a, k) = (a, k') \<and> view k' = Some t' \<and> fw_inv a t' \<and>
      paid_addresses t' \<subseteq> paid_addresses t"
proof -
  have ready: "ready t" and nft: "backend a = Nftables" using assms(3) by (simp_all add: fw_inv_def)
  show "\<exists>k' t'. adapter_deny env ip (a, k) = (a, k') \<and> view k' = Some t' \<and> fw_inv a t' \<and> paid_addresses t' \<subseteq> paid_addresses t"
    using nft_apply_effect [OF assms(1,2) ready, of ip False] assms(3) nft by (fastforce simp: adapter_deny_def fw_inv_def)
  obtain t1 where "view (nft_apply env ip True k) = Some t1" "ready t1" "nft_chains t1 = nft_chains t"
      "paid_addresses t1 \<subseteq> insert ip (paid_addresses t)"
    using nft_apply_effect [OF assms(1,2) ready, of ip True] by fastforce
  then show "\<exists>a' k' t'. adapter_allow env ip (a, k) = (a', k') \<and> view k' = Some t' \<and> fw_inv a' t' \<and>
      paid_addresses t' \<subseteq> insert ip (paid_addresses t) \<and> counters_available a' = counters_available a"
    using allow_after_apply [OF assms(1,3)] by metis
qed


subsection \<open>Initialising\<close>

definition initial_table :: nft_table where
  "initial_table = empty_table\<lparr> nft_sets := (\<lambda>_. None)(''paid_peers_v4'' \<mapsto> \<lparr> set_type = ''ipv4_addr;'', elements = {} \<rparr>,
     ''paid_peers_v6'' \<mapsto> \<lparr> set_type = ''ipv6_addr;'', elements = {} \<rparr>) \<rparr>"

lemma sets_effect: "nft_commands (sets_words @ cs) rs = nft_commands cs (Some initial_table)"
  by (simp add: sets_words_def table_command_def add_object_def initial_table_def empty_table_def)

lemma forward_effect:
  "nft_commands forward_words (Some initial_table) =
     Some (Some (initial_table\<lparr> nft_chains := (nft_chains initial_table)(''forward'' \<mapsto> (True, base_rules)) \<rparr>))"
  by (simp add: forward_words_def base_rules_def table_command_def add_object_def add_rule_def initial_table_def empty_table_def)

lemma initial_ready: "ready initial_table" "paid_addresses initial_table = {}" "nft_chains initial_table name = None"
proof -
  have "\<exists>s. nft_sets initial_table (paid_set_name ip) = Some s \<and> set_type s = element_type ip \<and> elements s = {}" for ip
    by (cases ip) (simp_all add: initial_table_def)
  moreover have "typed initial_table" by (simp add: typed_def initial_table_def empty_table_def)
  ultimately show "ready initial_table" by (meson ready_def)
  show "paid_addresses initial_table = {}"
    by (auto simp: paid_addresses_def in_set_def initial_table_def empty_table_def split: if_splits)
  show "nft_chains initial_table name = None" by (simp add: initial_table_def empty_table_def)
qed

definition fresh_adapter :: "ip_adapter \<Rightarrow> bool" where
  "fresh_adapter a \<longleftrightarrow> backend a = Nftables \<and> installed a = {}"

lemma init_inv:
  assumes "nft_conforms env view" and "fresh_adapter a" and "adapter_init env chain a k = (True, a', k')"
  shows "\<exists>t. view k' = Some t \<and> fw_inv a' t \<and> paid_addresses t = {} \<and> counters_available a' = chain"
proof -
  obtain ok k1 where b: "nft_init env chain k = (ok, k1)" by (meson surj_pair)
  then have a': "ok" "a' = a\<lparr> counters_available := chain \<rparr>" "k' = k1"
    using assms(2,3) by (auto simp: adapter_init_def fresh_adapter_def)
  have eff: "nft_batch (sets_ruleset @ (if chain then forward_ruleset else [])) (view k) = Some (view k')"
    using conforms_batch [OF assms(1) b [unfolded nft_init_def]] a' by simp
  show ?thesis
  proof (cases chain)
    case True
    let ?t = "initial_table\<lparr> nft_chains := (nft_chains initial_table)(''forward'' \<mapsto> (True, base_rules)) \<rparr>"
    have "view k' = Some ?t" using eff True by (simp add: forward_batch sets_effect forward_effect)
    moreover have "fw_inv a' ?t"
      using True assms(2) a'(2) initial_ready same_sets [of ?t initial_table] by (simp add: fw_inv_def fresh_adapter_def)
    ultimately show ?thesis using initial_ready same_sets [of ?t initial_table] True a'(2) by simp
  next
    case False
    have "view k' = Some initial_table" using eff False sets_effect [of "[]" "view k"] by (simp add: sets_batch)
    moreover have "fw_inv a' initial_table" using False assms(2) a'(2) initial_ready by (simp add: fw_inv_def fresh_adapter_def)
    ultimately show ?thesis using initial_ready False a'(2) by simp
  qed
qed


subsection \<open>Sequences of decisions\<close>

datatype fw_call = Allow IpAddr | Deny IpAddr

fun adapter_call :: "'k nft_env \<Rightarrow> fw_call \<Rightarrow> ip_adapter \<times> 'k \<Rightarrow> ip_adapter \<times> 'k" where
  "adapter_call env (Allow ip) ak = adapter_allow env ip ak"
| "adapter_call env (Deny ip) ak = adapter_deny env ip ak"

fun host_call :: "fw_call \<Rightarrow> host \<Rightarrow> host" where
  "host_call (Allow ip) h = allow ip h"
| "host_call (Deny ip) h = deny ip h"

lemma calls_inv:
  assumes "nft_conforms env view" and "view k = Some t" and "fw_inv a t" and "fold (adapter_call env) calls (a, k) = (a', k')"
  shows "\<exists>t'. view k' = Some t' \<and> fw_inv a' t' \<and> counters_available a' = counters_available a \<and>
    paid_addresses t' \<subseteq> paid_addresses t \<union> {ip. Allow ip \<in> set calls}"
  using assms(2-4)
proof (induction calls arbitrary: a k t)
  case (Cons c calls)
  obtain a1 k1 t1 where s: "adapter_call env c (a, k) = (a1, k1)" "view k1 = Some t1" "fw_inv a1 t1"
      "counters_available a1 = counters_available a" "paid_addresses t1 \<subseteq> paid_addresses t \<union> {ip. c = Allow ip}"
  proof (cases c)
    case (Allow ip)
    with that allow_deny_inv(1) [OF assms(1) Cons.prems(1,2), of ip] show thesis by fastforce
  next
    case (Deny ip)
    with that allow_deny_inv(2) [OF assms(1) Cons.prems(1,2), of ip] show thesis by fastforce
  qed
  then show ?case using Cons.IH [OF s(2,3)] Cons.prems(3) by fastforce
qed auto


lemma counter_rules_shape: "r \<in> set (counter_rules ip) \<Longrightarrow> \<exists>dir name. r = [nft_proto ip, dir, show_ip ip, ''counter'', ''name'', name]"
  by (auto simp: counter_rules_def counter_names_def Let_def)

lemma counter_rules_neutral: "r \<in> set (concat (map counter_rules L)) \<Longrightarrow> \<not> rule_accepts t r p"
  using counter_rules_shape by (fastforce simp: rule_accepts_def)

lemma paid_by_rules:
  "ip \<in> paid_addresses t \<longleftrightarrow>
     nft_proto ip = ''ip'' \<and> in_set t ''paid_peers_v4'' ip \<or> nft_proto ip = ''ip6'' \<and> in_set t ''paid_peers_v6'' ip"
  by (cases ip) (simp_all add: paid_addresses_def)

lemma base_verdict:
  "(\<exists>r \<in> set base_rules. rule_accepts t r p) \<longleftrightarrow>
     pk_established p \<or> pk_src p \<in> paid_addresses t \<or> pk_dst p \<in> paid_addresses t"
  unfolding paid_by_rules by (auto simp: base_rules_def rule_accepts_def pk_field_def)

lemma enforced_verdict:
  assumes "fw_inv a t" and "counters_available a"
  shows "forwards (Some t) p \<longleftrightarrow> pk_established p \<or> pk_src p \<in> paid_addresses t \<or> pk_dst p \<in> paid_addresses t"
proof -
  obtain L where "nft_chains t ''forward'' = Some (True, concat (map counter_rules L) @ base_rules)"
    using assms by (auto simp: fw_inv_def)
  then have "forwards (Some t) p \<longleftrightarrow> (\<exists>r \<in> set (concat (map counter_rules L) @ base_rules). rule_accepts t r p)"
    by (simp add: forwards_def)
  then show ?thesis using counter_rules_neutral base_verdict by (metis Un_iff set_append)
qed

lemma works_call:
  assumes "nft_conforms env view" and "nft_works env view" and "view k = Some t" and "ready t"
  shows "\<exists>t'. view (nft_apply env ip add k) = Some t' \<and> ready t' \<and> nft_chains t' = nft_chains t \<and>
    paid_addresses t' = (if add then insert ip (paid_addresses t) else paid_addresses t - {ip})"
proof (cases "add \<or> ip \<in> paid_addresses t")
  case True
  obtain r k' where r: "run_nft env (nft_element_args ip add) [] k = (r, k')" by (meson surj_pair)
  obtain t' where t': "change_element add (paid_set_name ip) ip t = Some t'" using element_accepted [OF assms(4) True] by blast
  then have "nft_arguments (nft_element_args ip add) (view k) = Some (Some t')" by (simp add: assms(3) element_command)
  moreover from this have "succeeded r" using assms(2) r unfolding nft_works_def by (metis fst_conv option.distinct(1))
  moreover obtain op args where "nft_element_args ip add = op # args" "op \<in> {''add'', ''delete''}"
    by (simp add: nft_element_args_def split: if_splits)
  ultimately have "view k' = Some t'" using assms(1) r unfolding nft_conforms_def by (metis option.inject)
  then show ?thesis using change_element_effect [OF assms(4) t'] r by (simp add: nft_apply_def)
next
  case False
  then show ?thesis using nft_apply_effect [OF assms(1,3,4), of ip add] by fastforce
qed


lemma works_calls:
  assumes "nft_conforms env view" and "nft_works env view" and "view k = Some t" and "fw_inv a t"
    and "paid_addresses t = paid_ips h"
  shows "\<exists>a' k' t'. fold (adapter_call env) calls (a, k) = (a', k') \<and> view k' = Some t' \<and> fw_inv a' t' \<and>
    counters_available a' = counters_available a \<and> paid_addresses t' = paid_ips (fold host_call calls h)"
  using assms(3-5)
proof (induction calls arbitrary: a k t h)
  case (Cons c calls)
  have ready: "ready t" using Cons.prems(2) by (simp add: fw_inv_def)
  obtain a1 k1 t1 where s: "adapter_call env c (a, k) = (a1, k1)" "view k1 = Some t1" "fw_inv a1 t1"
      "paid_addresses t1 = paid_ips (host_call c h)" "counters_available a1 = counters_available a"
  proof (cases c)
    case (Allow ip)
    obtain t2 where "view (nft_apply env ip True k) = Some t2" "ready t2" "nft_chains t2 = nft_chains t"
        "paid_addresses t2 = insert ip (paid_addresses t)"
      using works_call [OF assms(1,2) Cons.prems(1) ready, of ip True] by auto
    with that allow_after_apply [OF assms(1) Cons.prems(2)] Allow Cons.prems(3) show thesis by (fastforce simp: allow_def)
  next
    case (Deny ip)
    obtain t2 where t2: "view (nft_apply env ip False k) = Some t2" "ready t2" "nft_chains t2 = nft_chains t"
        "paid_addresses t2 = paid_addresses t - {ip}"
      using works_call [OF assms(1,2) Cons.prems(1) ready, of ip False] by auto
    have "backend a = Nftables" "fw_inv a t2" using Cons.prems(2) t2(2,3) by (simp_all add: fw_inv_def)
    then have "adapter_call env c (a, k) = (a, nft_apply env ip False k)" using Deny by (simp add: adapter_deny_def)
    moreover have "paid_addresses t2 = paid_ips (host_call c h)" using t2(4) Deny Cons.prems(3) by (simp add: deny_def)
    ultimately show thesis using that t2(1) \<open>fw_inv a t2\<close> by blast
  qed
  then show ?case using Cons.IH [OF s(2,3,4)] by simp
qed auto



subsection \<open>What the firewall does\<close>

text \<open>
  C12. In enforcing mode, after any sequence of grants and revocations and whichever runs of the command
  failed, a packet is forwarded exactly when its connection is established or one of its addresses is in
  the paid sets, and only addresses that were granted are ever in them.
\<close>

theorem only_granted_traffic_forwarded:
  assumes "nft_conforms env view" and "fresh_adapter a" and "adapter_init env True a k = (True, a0, k0)"
    and "fold (adapter_call env) calls (a0, k0) = (a1, k1)"
  shows "\<exists>S \<subseteq> {ip. Allow ip \<in> set calls}.
    \<forall>p. forwards (view k1) p \<longleftrightarrow> pk_established p \<or> pk_src p \<in> S \<or> pk_dst p \<in> S"
proof -
  obtain t0 where t0: "view k0 = Some t0" "fw_inv a0 t0" "paid_addresses t0 = {}" "counters_available a0"
    using init_inv [OF assms(1-3)] by auto
  obtain t1 where "view k1 = Some t1" "fw_inv a1 t1" "counters_available a1" "paid_addresses t1 \<subseteq> {ip. Allow ip \<in> set calls}"
    using calls_inv [OF assms(1) t0(1,2) assms(4)] t0(3,4) by auto
  then show ?thesis using enforced_verdict [of a1 t1] by auto
qed

text \<open>
  C8. On a kernel that carries out what the language accepts, the paid sets refine the set of addresses the
  host keeps: whatever sequence of grants and revocations the host makes, a packet of a new connection
  is forwarded exactly when its source or destination is in the host's set.
\<close>

theorem firewall_refines_paid_set:
  assumes "nft_conforms env view" and "nft_works env view" and "fresh_adapter a"
    and "adapter_init env True a k = (True, a0, k0)" and "paid_ips h = {}"
    and "fold (adapter_call env) calls (a0, k0) = (a1, k1)"
  shows "forwards (view k1) p \<longleftrightarrow>
    pk_established p \<or> pk_src p \<in> paid_ips (fold host_call calls h) \<or> pk_dst p \<in> paid_ips (fold host_call calls h)"
proof -
  obtain t0 where t0: "view k0 = Some t0" "fw_inv a0 t0" "paid_addresses t0 = {}" "counters_available a0"
    using init_inv [OF assms(1,3,4)] by auto
  obtain t1 where "view k1 = Some t1" "fw_inv a1 t1" "counters_available a1" "paid_addresses t1 = paid_ips (fold host_call calls h)"
    using works_calls [OF assms(1,2) t0(1,2), of h calls] t0(3,4) assms(5,6) by auto
  then show ?thesis using enforced_verdict [of a1 t1 p] by simp
qed

text \<open>
  C32. The commands of the adapter are well typed: in both modes and after any sequence of calls each set
  holds addresses of its own family only, and a grant is a command the language accepts.
\<close>

theorem grants_are_well_typed:
  assumes "nft_conforms env view" and "fresh_adapter a" and "adapter_init env chain a k = (True, a0, k0)"
    and "fold (adapter_call env) calls (a0, k0) = (a1, k1)"
  shows "\<exists>t. view k1 = Some t \<and> typed t \<and> nft_arguments (nft_element_args ip True) (view k1) \<noteq> None"
proof -
  obtain t0 where t0: "view k0 = Some t0" "fw_inv a0 t0" using init_inv [OF assms(1-3)] by auto
  obtain t1 where t1: "view k1 = Some t1" "fw_inv a1 t1" using calls_inv [OF assms(1) t0 assms(4)] by auto
  then have "ready t1" by (simp add: fw_inv_def)
  then show ?thesis using t1(1) element_accepted [of t1 True ip] by (auto simp: ready_def element_command)
qed

lemma counts_one:
  "length (filter (\<lambda>r. rule_counts r p (fst (counter_names (pk_dst p)))) (counter_rules ip)) = (if ip = pk_dst p then 1 else 0)"
  "length (filter (\<lambda>r. rule_counts r p (snd (counter_names (pk_src p)))) (counter_rules ip)) = (if ip = pk_src p then 1 else 0)"
  by (auto simp: counter_rules_def counter_names_def Let_def rule_counts_def pk_field_def)

lemma counts_in_chain:
  assumes "fw_inv a t" and "counters_available a"
    and one: "\<And>ip. length (filter (\<lambda>r. rule_counts r p name) (counter_rules ip)) = (if ip = x then 1 else 0)"
  shows "times_counted (Some t) p name = (if x \<in> installed a then 1 else 0)"
proof -
  obtain L where L: "distinct L" "set L = installed a" "nft_chains t ''forward'' = Some (True, concat (map counter_rules L) @ base_rules)"
    using assms(1,2) by (auto simp: fw_inv_def)
  have "takeWhile (\<lambda>r. \<not> rule_accepts t r p) (concat (map counter_rules L) @ base_rules) =
      concat (map counter_rules L) @ takeWhile (\<lambda>r. \<not> rule_accepts t r p) base_rules"
    by (rule takeWhile_all) (rule counter_rules_neutral)
  moreover have "\<not> rule_counts r p name" if "r \<in> set base_rules" for r
    using that by (auto simp: base_rules_def rule_counts_def)
  then have "filter (\<lambda>r. rule_counts r p name) (takeWhile (\<lambda>r. \<not> rule_accepts t r p) base_rules) = []"
    by (auto simp: filter_empty_conv dest: set_takeWhileD)
  ultimately have "times_counted (Some t) p name = length (filter (\<lambda>r. rule_counts r p name) (concat (map counter_rules L)))"
    using L(3) by (simp add: times_counted_def)
  also have "\<dots> = (if x \<in> set L then 1 else 0)" using L(1)
    by (induction L) (auto simp: one)
  finally show ?thesis using L(2) by simp
qed

text \<open>
  C16. A packet is counted once for its destination and once for its source: the counter rules of an address
  are installed at most once, however often it is granted and revoked.
\<close>

theorem traffic_counted_once:
  assumes "nft_conforms env view" and "fresh_adapter a" and "adapter_init env True a k = (True, a0, k0)"
    and "fold (adapter_call env) calls (a0, k0) = (a1, k1)"
  shows "times_counted (view k1) p (fst (counter_names (pk_dst p))) = (if pk_dst p \<in> installed a1 then 1 else 0) \<and>
    times_counted (view k1) p (snd (counter_names (pk_src p))) = (if pk_src p \<in> installed a1 then 1 else 0)"
proof -
  obtain t0 where t0: "view k0 = Some t0" "fw_inv a0 t0" "counters_available a0"
    using init_inv [OF assms(1-3)] by auto
  obtain t1 where "view k1 = Some t1" "fw_inv a1 t1" "counters_available a1"
    using calls_inv [OF assms(1) t0(1,2) assms(4)] t0(3) by auto
  then show ?thesis using counts_in_chain [of a1 t1 p, OF _ _ counts_one(1)] counts_in_chain [of a1 t1 p, OF _ _ counts_one(2)]
    by simp
qed

text \<open>
  The name of a counter does not determine the address: a mapped version 4 address and a version 6
  address with the same digits share both counters, so each is billed for the traffic of both.
\<close>

lemma mapped_text: "show_ip (V6 0xFFFF01020304) = ''::ffff:1.2.3.4''"
proof -
  have "v4_octets 16909060 = [1, 2, 3, 4]" by (simp add: v4_octets_def digits_def upt_rec)
  then have "show_v4 16909060 = ''1.2.3.4''" by (simp add: show_v4_def show_nat.simps char_of_def bit_0)
  then show ?thesis by (simp add: show_v6_def case_prod_beta)
qed

lemma unmapped_text: "show_ip (V6 0xFFFF0001000200030004) = ''::ffff:1:2:3:4''"
proof -
  have segs: "v6_segments 0xFFFF0001000200030004 = [0, 0, 0, 65535, 1, 2, 3, 4]"
    by (simp add: v6_segments_def digits_def upt_rec)
  have "show_hex 65535 = ''ffff''" "show_hex 1 = ''1''" "show_hex 2 = ''2''" "show_hex 3 = ''3''" "show_hex 4 = ''4''"
    by (simp_all add: show_hex.simps hex_digit_def char_of_def bit_0)
  then show ?thesis using segs by (simp add: show_v6_def show_segments_def)
qed

theorem counter_names_collide:
  "counter_names (V6 0xFFFF01020304) = counter_names (V6 0xFFFF0001000200030004)"
  unfolding counter_names_def mapped_text unmapped_text by (simp add: underscored_def)


subsection \<open>A concrete kernel\<close>

text \<open>A kernel that keeps the table itself and carries out exactly what the language accepts.\<close>

definition sample_nft :: "ruleset nft_env" where
  "sample_nft =
     \<lparr> run_nft = (\<lambda>args stdin rs.
         (case (if args = [''-f'', ''-''] then nft_batch stdin rs else nft_arguments args rs) of
            Some rs' \<Rightarrow> (Exited True [], rs')
          | None \<Rightarrow> (Exited False [], rs))),
       read_sys_file = (\<lambda>_ _. None), nft_json = (\<lambda>_. None) \<rparr>"

lemma sample_nft_ok: "nft_conforms sample_nft (\<lambda>k. k)" "nft_works sample_nft (\<lambda>k. k)"
proof -
  show "nft_conforms sample_nft (\<lambda>k. k)"
    by (auto simp: nft_conforms_def sample_nft_def split: option.splits if_splits)
  have "nft_arguments [''-f'', ''-''] rs = None" for rs
    using split_line [of "[''-f'', ''-'']"] by (simp add: nft_arguments_def literal_words)
  then show "nft_works sample_nft (\<lambda>k. k)"
    by (auto simp: nft_works_def sample_nft_def split: option.splits)
qed

definition enforcing_table :: nft_table where
  "enforcing_table = initial_table\<lparr> nft_chains := (nft_chains initial_table)(''forward'' \<mapsto> (True, base_rules)) \<rparr>"

lemma sample_init:
  "adapter_init sample_nft True (IpAdapter_new True) None =
     (True, IpAdapter_new True\<lparr> counters_available := True \<rparr>, Some enforcing_table)"
proof -
  have "nft_batch (sets_ruleset @ forward_ruleset) None = Some (Some enforcing_table)"
    by (simp add: forward_batch sets_effect forward_effect enforcing_table_def)
  then show ?thesis
    by (simp add: adapter_init_def nft_init_def run_batch_def sample_nft_def IpAdapter_new_def)
qed

lemma sample_fresh: "fresh_adapter (IpAdapter_new True)"
  by (simp add: fresh_adapter_def IpAdapter_new_def)

theorem only_granted_traffic_forwarded_witness:
  "\<exists>S \<subseteq> {V4 1}. \<forall>p. forwards (snd (fold (adapter_call sample_nft) [Allow (V4 1), Deny (V4 2)]
      (IpAdapter_new True\<lparr> counters_available := True \<rparr>, Some enforcing_table))) p \<longleftrightarrow>
    pk_established p \<or> pk_src p \<in> S \<or> pk_dst p \<in> S"
proof -
  obtain a1 k1 where r: "fold (adapter_call sample_nft) [Allow (V4 1), Deny (V4 2)]
      (IpAdapter_new True\<lparr> counters_available := True \<rparr>, Some enforcing_table) = (a1, k1)" by (meson surj_pair)
  have "{ip. Allow ip \<in> set [Allow (V4 1), Deny (V4 2)]} = {V4 1}" by auto
  with only_granted_traffic_forwarded [OF sample_nft_ok(1) sample_fresh sample_init r] r show ?thesis by simp
qed

theorem firewall_refines_paid_set_witness:
  "forwards (snd (fold (adapter_call sample_nft) [Allow (V4 1)]
      (IpAdapter_new True\<lparr> counters_available := True \<rparr>, Some enforcing_table)))
     \<lparr> pk_src = V4 1, pk_dst = V4 9, pk_established = False \<rparr> \<and>
   \<not> forwards (snd (fold (adapter_call sample_nft) [Allow (V4 1), Deny (V4 1)]
      (IpAdapter_new True\<lparr> counters_available := True \<rparr>, Some enforcing_table)))
     \<lparr> pk_src = V4 1, pk_dst = V4 9, pk_established = False \<rparr>"
proof -
  let ?h = "Driver_new (BootstrapWallet_new []) Price_default"
  have h: "paid_ips ?h = {}" by (simp add: Driver_new_def)
  note * = firewall_refines_paid_set [OF sample_nft_ok sample_fresh sample_init h prod.collapse [symmetric]]
  show ?thesis using * [of "[Allow (V4 1)]"] * [of "[Allow (V4 1), Deny (V4 1)]"] h
    by (simp add: allow_def deny_def)
qed

theorem grants_are_well_typed_witness:
  "\<exists>t. Some enforcing_table = Some t \<and> typed t \<and> nft_arguments (nft_element_args (V6 1) True) (Some enforcing_table) \<noteq> None"
  using grants_are_well_typed [OF sample_nft_ok(1) sample_fresh sample_init, of "[]"] by simp

lemma sample_installed:
  "installed (fst (adapter_allow sample_nft (V4 9) (IpAdapter_new True\<lparr> counters_available := True \<rparr>, Some enforcing_table))) = {V4 9}"
proof -
  have "ready enforcing_table" "nft_chains enforcing_table ''forward'' = Some (True, base_rules)"
    using initial_ready same_sets [of enforcing_table initial_table] by (simp_all add: enforcing_table_def)
  then obtain t where t: "nft_apply sample_nft (V4 9) True (Some enforcing_table) = Some t" "nft_chains t ''forward'' = Some (True, base_rules)"
    using works_call [OF sample_nft_ok, of "Some enforcing_table" enforcing_table "V4 9" True] by auto
  then have "\<exists>k'. run_batch sample_nft (counters_ruleset (V4 9)) (Some t) = (True, k')"
    using counters_effect [OF t(2), of "V4 9"] by (auto simp: run_batch_def sample_nft_def counters_batch)
  then show ?thesis using t(1) by (auto simp: adapter_allow_def ensure_counters_def IpAdapter_new_def)
qed

theorem traffic_counted_once_witness:
  "times_counted (snd (fold (adapter_call sample_nft) [Allow (V4 9)]
      (IpAdapter_new True\<lparr> counters_available := True \<rparr>, Some enforcing_table)))
     \<lparr> pk_src = V4 1, pk_dst = V4 9, pk_established = False \<rparr> (fst (counter_names (V4 9))) = 1"
  using traffic_counted_once [OF sample_nft_ok(1) sample_fresh sample_init prod.collapse [symmetric], of "[Allow (V4 9)]"
      "\<lparr> pk_src = V4 1, pk_dst = V4 9, pk_established = False \<rparr>"] sample_installed by simp

end
