(* ===== verification/Serde_Json.thy ===== *)
theory Serde_Json
  imports Json
begin

section \<open>JSON texts and derived (de)serialisation\<close>

text \<open>
  What a derived \<^verbatim>\<open>Serialize\<close> writes and a derived \<^verbatim>\<open>Deserialize\<close> reads: a tree whose objects
  keep the order and the repetitions of their members. \<^verbatim>\<open>serde_json::to_value\<close> turns a tree into a
  value, whose objects are ordered maps. A structure is read from an object, in which a member that is
  a field may stand once only and other members are skipped, or from an array of at most as many
  elements as it has fields. Printing a tree and parsing a text are the crate's own and stay parameters
  of the theories that use them.
\<close>

datatype tree =
    TNull
  | TBool bool
  | TInt int
  | TFloat string
  | TString string
  | TArray "tree list"
  | TObject "(string \<times> tree) list"

primrec to_value :: "tree \<Rightarrow> json" where
  "to_value TNull = JNull"
| "to_value (TBool b) = JBool b"
| "to_value (TInt n) = JInt n"
| "to_value (TFloat x) = JFloat x"
| "to_value (TString s) = JString s"
| "to_value (TArray ts) = JArray (map to_value ts)"
| "to_value (TObject kvs) = json_object (map (map_prod id to_value) kvs)"

text \<open>A value is serialised with its members in the order of their names.\<close>

primrec value_tree :: "json \<Rightarrow> tree" where
  "value_tree JNull = TNull"
| "value_tree (JBool b) = TBool b"
| "value_tree (JInt n) = TInt n"
| "value_tree (JFloat x) = TFloat x"
| "value_tree (JString s) = TString s"
| "value_tree (JArray xs) = TArray (map value_tree xs)"
| "value_tree (JObject m) = TObject (map (map_prod id value_tree) m)"

definition opt_tree :: "('a \<Rightarrow> tree) \<Rightarrow> 'a option \<Rightarrow> tree" where
  "opt_tree f v = (case v of None \<Rightarrow> TNull | Some x \<Rightarrow> f x)"

definition list_tree :: "('a \<Rightarrow> tree) \<Rightarrow> 'a list \<Rightarrow> tree" where
  "list_tree f xs = TArray (map f xs)"


subsection \<open>Reading\<close>

definition struct_members :: "string list \<Rightarrow> tree \<Rightarrow> tree option list option" where
  "struct_members names t =
     (case t of
        TObject kvs \<Rightarrow>
          if list_all (\<lambda>n. length (filter (\<lambda>kv. fst kv = n) kvs) \<le> 1) names then Some (map (map_of kvs) names) else None
      | TArray ts \<Rightarrow>
          if length ts \<le> length names then Some (map Some ts @ replicate (length names - length ts) None) else None
      | _ \<Rightarrow> None)"

fun tree_str :: "tree \<Rightarrow> string option" where
  "tree_str (TString s) = Some s"
| "tree_str _ = None"

fun tree_u64 :: "tree \<Rightarrow> u64 option" where
  "tree_u64 (TInt n) = (if 0 \<le> n \<and> n < 2 ^ 64 then Some (of_int n) else None)"
| "tree_u64 _ = None"

fun tree_u32 :: "tree \<Rightarrow> u32 option" where
  "tree_u32 (TInt n) = (if 0 \<le> n \<and> n < 2 ^ 32 then Some (of_int n) else None)"
| "tree_u32 _ = None"

fun tree_i64 :: "tree \<Rightarrow> i64 option" where
  "tree_i64 (TInt n) = (if - (2 ^ 63) \<le> n \<and> n < 2 ^ 63 then Some (of_int n) else None)"
| "tree_i64 _ = None"

fun tree_list :: "(tree \<Rightarrow> 'a option) \<Rightarrow> tree \<Rightarrow> 'a list option" where
  "tree_list f (TArray ts) = those (map f ts)"
| "tree_list f _ = None"

text \<open>A \<^verbatim>\<open>HashMap\<close>: a later member replaces an earlier one of the same name.\<close>

fun tree_map :: "(tree \<Rightarrow> 'a option) \<Rightarrow> tree \<Rightarrow> (string, 'a) btree option" where
  "tree_map f (TObject kvs) =
     map_option (\<lambda>vs. fold (\<lambda>(k, v). bt_insert k v) (zip (map fst kvs) vs) bt_empty) (those (map (f \<circ> snd) kvs))"
| "tree_map f _ = None"

definition field :: "(tree \<Rightarrow> 'a option) \<Rightarrow> tree option \<Rightarrow> 'a option" where
  "field f v = Option.bind v f"

definition field_or :: "'a \<Rightarrow> (tree \<Rightarrow> 'a option) \<Rightarrow> tree option \<Rightarrow> 'a option" where
  "field_or d f v = (case v of None \<Rightarrow> Some d | Some t \<Rightarrow> f t)"

definition field_opt :: "(tree \<Rightarrow> 'a option) \<Rightarrow> tree option \<Rightarrow> 'a option option" where
  "field_opt f v = (case v of None \<Rightarrow> Some None | Some TNull \<Rightarrow> Some None | Some t \<Rightarrow> map_option Some (f t))"


subsection \<open>What is written is read\<close>

lemma those_map [simp]: "(\<And>x. x \<in> set xs \<Longrightarrow> f (g x) = Some (h x)) \<Longrightarrow> those (map f (map g xs)) = Some (map h xs)"
  by (induction xs) auto

lemma tree_list_written:
  "(\<And>x. x \<in> set xs \<Longrightarrow> f (g x) = Some (h x)) \<Longrightarrow> tree_list f (list_tree g xs) = Some (map h xs)"
  unfolding list_tree_def by (simp del: map_map)

lemma read_u64 [simp]: "tree_u64 (TInt (uint (w :: u64))) = Some w"
  using uint_lt2p [of w] by simp

lemma read_u32 [simp]: "tree_u32 (TInt (uint (w :: u32))) = Some w"
  using uint_lt2p [of w] by simp

lemma read_i64 [simp]: "tree_i64 (TInt (sint (w :: i64))) = Some w"
  using sint_ge [of w] sint_lt [of w] by simp

declare tree_u64.simps [simp del] tree_u32.simps [simp del] tree_i64.simps [simp del]

lemma read_option:
  assumes "\<And>x. v = Some x \<Longrightarrow> f (g x) = Some (h x)" and "\<And>x. g x \<noteq> TNull"
  shows "field_opt f (Some (opt_tree g v)) = Some (map_option h v)"
  using assms by (cases v) (auto simp: field_opt_def opt_tree_def split: tree.splits)

text \<open>With distinct names an object is read as it was written.\<close>

lemma map_of_rev_distinct: "distinct (map fst kvs) \<Longrightarrow> map_of (rev kvs) = map_of kvs"
proof (induction kvs)
  case (Cons kv kvs)
  then have "map_of kvs (fst kv) = None" by (simp add: map_of_eq_None_iff)
  with Cons show ?case by (auto simp: fun_eq_iff map_add_def split: option.splits)
qed simp

lemma json_object_known: "distinct (map fst kvs) \<Longrightarrow> json_get k (json_object kvs) = map_of kvs k"
  by (simp add: json_get_object map_of_rev_distinct)


text \<open>The same for a structure that went through a value: its members were sorted on the way.\<close>

abbreviation revalued :: "tree \<Rightarrow> tree" where
  "revalued t \<equiv> value_tree (to_value t)"

lemma revalued_opt [simp]: "revalued (opt_tree f v) = opt_tree (\<lambda>x. revalued (f x)) v"
  by (cases v) (simp_all add: opt_tree_def)

lemma revalued_list [simp]: "revalued (list_tree f xs) = list_tree (\<lambda>x. revalued (f x)) xs"
  by (simp add: list_tree_def)

lemma bt_ok_fold_insert: "bt_ok m \<Longrightarrow> bt_ok (fold (\<lambda>(k, v). bt_insert k v) kvs m)"
  by (induction kvs arbitrary: m) (auto simp: bt_ok_insert)

lemma one_entry: "distinct (map fst m) \<Longrightarrow> length (filter (\<lambda>kv. fst kv = n) m) \<le> 1"
proof (induction m)
  case (Cons kv m)
  show ?case
  proof (cases "fst kv = n")
    case True
    with Cons.prems have "\<forall>e\<in>set m. fst e \<noteq> n" by (metis distinct.simps(2) imageI list.simps(9) set_map)
    then have "filter (\<lambda>kv. fst kv = n) m = []" by (simp add: filter_empty_conv)
    with True show ?thesis by simp
  qed (use Cons in simp)
qed simp

lemma bt_get_map_of: "bt_get m = map_of m"
  by (rule ext, rule sym, induction m) auto

lemma map_of_map_prod: "map_of (map (map_prod id f) xs) n = map_option f (map_of xs n)"
  by (induction xs) auto

lemma struct_members_revalued:
  assumes "distinct (map fst kvs)"
  shows "struct_members names (revalued (TObject kvs)) = Some (map (\<lambda>n. map_option (\<lambda>t. revalued t) (map_of kvs n)) names)"
proof -
  define m where "m = fold (\<lambda>(k, v). bt_insert k v) (map (map_prod id to_value) kvs) bt_empty"
  have "bt_ok m" unfolding m_def by (rule bt_ok_fold_insert) simp
  then have "distinct (map fst m)"
    unfolding bt_ok_def bt_keys_def using strict_sorted_iff by blast
  then have one: "length (filter (\<lambda>kv. fst kv = n) (map (map_prod id value_tree) m)) \<le> 1" for n
    using one_entry [of m n] by (simp add: filter_map comp_def)
  have keys: "map fst (map (map_prod id to_value) kvs) = map fst kvs" by (simp add: comp_def)
  have "map_of m n = map_of (map (map_prod id to_value) kvs) n" for n
    using json_object_known [of "map (map_prod id to_value) kvs" n] assms unfolding keys
    by (simp add: json_object_def m_def bt_get_map_of)
  then have "map_of (map (map_prod id value_tree) m) n = map_option (\<lambda>t. revalued t) (map_of kvs n)" for n
    by (simp add: map_of_map_prod option.map_comp comp_def)
  moreover have "revalued (TObject kvs) = TObject (map (map_prod id value_tree) m)"
    by (simp add: json_object_def m_def)
  ultimately show ?thesis using one by (simp add: struct_members_def list_all_iff)
qed

end
