(* ===== verification/Control.thy ===== *)
theory Control
  imports Serde_Json Host_Status Config
begin

section \<open>The control socket and the admin pages\<close>

text \<open>
  \<^verbatim>\<open>crates/tollgate-net/src/control_server.rs\<close> answers lines on a Unix socket, \<^verbatim>\<open>control.rs\<close> is the client half
  that \<^verbatim>\<open>tolltop\<close> uses, and \<^verbatim>\<open>web_ui.rs\<close> serves the same status and configuration over HTTP. The record
  \<open>json_api\<close> holds what \<^verbatim>\<open>serde_json\<close> does with a text: print and parse a tree, write a double, and
  write and read the quotient a drift is. Nothing here changes the node: a status is the snapshot
  that \<^verbatim>\<open>Driver::status\<close> gives when it is asked for.
\<close>

record json_api =
  json_print :: "tree \<Rightarrow> string"
  json_parse :: "string \<Rightarrow> tree option"
  float_text :: "rat \<Rightarrow> string"
  drift_text :: "u64 \<times> u64 \<Rightarrow> string"
  drift_read :: "string \<Rightarrow> u64 \<times> u64"


subsection \<open>A status as JSON\<close>

definition pricing_tree :: "peer_pricing \<Rightarrow> tree" where
  "pricing_tree p =
     TObject [(''price_per_second'', TInt (sint (pp_per_second p))), (''price_per_unit'', TInt (sint (pp_per_unit p)))]"

definition peer_status_tree :: "json_api \<Rightarrow> peer_status \<Rightarrow> tree" where
  "peer_status_tree api p =
     TObject
       [(''pubkey'', TString (st_pubkey p)),
        (''ip'', opt_tree TString (st_ip p)),
        (''state'', TString (st_state p)),
        (''delivered'', TInt (uint (st_delivered p))),
        (''received'', TInt (uint (st_received p))),
        (''our_price'', pricing_tree (st_our_price p)),
        (''their_price'', pricing_tree (st_their_price p)),
        (''their_balance'', TInt (sint (st_their_balance p))),
        (''our_balance'', TInt (sint (st_our_balance p))),
        (''metered_secs'', TInt (uint (st_metered_secs p))),
        (''idle_ms'', TInt (uint (st_idle_ms p))),
        (''drift'', opt_tree (\<lambda>d. TFloat (drift_text api d)) (st_drift p))]"

definition mint_status_tree :: "mint_status \<Rightarrow> tree" where
  "mint_status_tree m =
     TObject
       [(''mint_url'', TString (ms_mint_url m)),
        (''mint_unit'', TString (ms_mint_unit m)),
        (''price_per_second'', TInt (sint (ms_price_per_second m))),
        (''price_per_unit'', TInt (sint (ms_price_per_unit m)))]"

definition product_status_tree :: "product_status \<Rightarrow> tree" where
  "product_status_tree p =
     TObject
       [(''product_id'', TString (pst_product_id p)),
        (''pricing_scale'', TInt (uint (pst_pricing_scale p))),
        (''mints'', list_tree mint_status_tree (pst_mints p))]"

definition pricing_status_tree :: "pricing_status \<Rightarrow> tree" where
  "pricing_status_tree p =
     TObject
       [(''products'', list_tree product_status_tree (prs_products p)),
        (''min_interval_ms'', TInt (uint (prs_min_interval_ms p))),
        (''max_interval_ms'', TInt (uint (prs_max_interval_ms p)))]"

definition node_status_tree :: "json_api \<Rightarrow> node_status \<Rightarrow> tree" where
  "node_status_tree api s =
     TObject
       [(''pubkey'', TString (ns_pubkey s)),
        (''unit'', TString (ns_unit s)),
        (''peers'', list_tree (peer_status_tree api) (ns_peers s)),
        (''pricing'', pricing_status_tree (ns_pricing s))]"

definition read_pricing :: "tree \<Rightarrow> peer_pricing option" where
  "read_pricing t =
     Option.bind (struct_members [''price_per_second'', ''price_per_unit''] t) (\<lambda>v.
     Option.bind (field tree_i64 (v ! 0)) (\<lambda>s.
     Option.bind (field tree_i64 (v ! 1)) (\<lambda>u.
     Some \<lparr> pp_per_second = s, pp_per_unit = u \<rparr>)))"

fun read_drift :: "json_api \<Rightarrow> tree \<Rightarrow> (u64 \<times> u64) option" where
  "read_drift api (TFloat x) = Some (drift_read api x)"
| "read_drift api (TInt n) = Some (drift_read api (show_int n))"
| "read_drift api _ = None"

definition read_peer_status :: "json_api \<Rightarrow> tree \<Rightarrow> peer_status option" where
  "read_peer_status api t =
     Option.bind (struct_members [''pubkey'', ''ip'', ''state'', ''delivered'', ''received'', ''our_price'', ''their_price'',
       ''their_balance'', ''our_balance'', ''metered_secs'', ''idle_ms'', ''drift''] t) (\<lambda>v.
     Option.bind (field tree_str (v ! 0)) (\<lambda>k.
     Option.bind (field_opt tree_str (v ! 1)) (\<lambda>ip.
     Option.bind (field tree_str (v ! 2)) (\<lambda>st.
     Option.bind (field tree_u64 (v ! 3)) (\<lambda>dl.
     Option.bind (field tree_u64 (v ! 4)) (\<lambda>rc.
     Option.bind (field_or Pricing_default read_pricing (v ! 5)) (\<lambda>op.
     Option.bind (field_or Pricing_default read_pricing (v ! 6)) (\<lambda>tp.
     Option.bind (field tree_i64 (v ! 7)) (\<lambda>tb.
     Option.bind (field tree_i64 (v ! 8)) (\<lambda>ob.
     Option.bind (field tree_u64 (v ! 9)) (\<lambda>ms.
     Option.bind (field tree_u64 (v ! 10)) (\<lambda>im.
     Option.bind (field_opt (read_drift api) (v ! 11)) (\<lambda>dr.
     Some \<lparr> st_pubkey = k, st_ip = ip, st_state = st, st_delivered = dl, st_received = rc, st_our_price = op,
            st_their_price = tp, st_their_balance = tb, st_our_balance = ob, st_metered_secs = ms, st_idle_ms = im,
            st_drift = dr \<rparr>)))))))))))))"

definition read_mint_status :: "tree \<Rightarrow> mint_status option" where
  "read_mint_status t =
     Option.bind (struct_members [''mint_url'', ''mint_unit'', ''price_per_second'', ''price_per_unit''] t) (\<lambda>v.
     Option.bind (field tree_str (v ! 0)) (\<lambda>mu.
     Option.bind (field tree_str (v ! 1)) (\<lambda>mn.
     Option.bind (field tree_i64 (v ! 2)) (\<lambda>s.
     Option.bind (field tree_i64 (v ! 3)) (\<lambda>u.
     Some \<lparr> ms_mint_url = mu, ms_mint_unit = mn, ms_price_per_second = s, ms_price_per_unit = u \<rparr>)))))"

definition read_product_status :: "tree \<Rightarrow> product_status option" where
  "read_product_status t =
     Option.bind (struct_members [''product_id'', ''pricing_scale'', ''mints''] t) (\<lambda>v.
     Option.bind (field tree_str (v ! 0)) (\<lambda>i.
     Option.bind (field tree_u32 (v ! 1)) (\<lambda>sc.
     Option.bind (field (tree_list read_mint_status) (v ! 2)) (\<lambda>ms.
     Some \<lparr> pst_product_id = i, pst_pricing_scale = sc, pst_mints = ms \<rparr>))))"

definition read_pricing_status :: "tree \<Rightarrow> pricing_status option" where
  "read_pricing_status t =
     Option.bind (struct_members [''products'', ''min_interval_ms'', ''max_interval_ms''] t) (\<lambda>v.
     Option.bind (field (tree_list read_product_status) (v ! 0)) (\<lambda>ps.
     Option.bind (field tree_u32 (v ! 1)) (\<lambda>mn.
     Option.bind (field tree_u32 (v ! 2)) (\<lambda>mx.
     Some \<lparr> prs_products = ps, prs_min_interval_ms = mn, prs_max_interval_ms = mx \<rparr>))))"

definition PricingStatus_default :: pricing_status where
  "PricingStatus_default = \<lparr> prs_products = [], prs_min_interval_ms = 0, prs_max_interval_ms = 0 \<rparr>"

definition read_node_status :: "json_api \<Rightarrow> tree \<Rightarrow> node_status option" where
  "read_node_status api t =
     Option.bind (struct_members [''pubkey'', ''unit'', ''peers'', ''pricing''] t) (\<lambda>v.
     Option.bind (field tree_str (v ! 0)) (\<lambda>k.
     Option.bind (field tree_str (v ! 1)) (\<lambda>u.
     Option.bind (field (tree_list (read_peer_status api)) (v ! 2)) (\<lambda>ps.
     Option.bind (field_or PricingStatus_default read_pricing_status (v ! 3)) (\<lambda>pr.
     Some \<lparr> ns_pubkey = k, ns_unit = u, ns_peers = ps, ns_pricing = pr \<rparr>)))))"


subsection \<open>A configuration as JSON\<close>

text \<open>The structures of \<^verbatim>\<open>config.rs\<close> derive their serialisation and skip no field.\<close>

definition f64_tree :: "json_api \<Rightarrow> f64 \<Rightarrow> tree" where
  "f64_tree api x = (case x of Finite q \<Rightarrow> TFloat (float_text api q) | _ \<Rightarrow> TNull)"

fun firewall_tree :: "FirewallMode \<Rightarrow> tree" where
  "firewall_tree Enforcing = TString ''enforcing''"
| "firewall_tree SetsOnly = TString ''sets-only''"

definition product_config_tree :: "ProductConfig \<Rightarrow> tree" where
  "product_config_tree p =
     (let i64 = (\<lambda>w :: i64. TInt (sint w))
      in TObject
       [(''pricing_scale'', TInt (uint (pc_pricing_scale p))),
        (''price_per_second'', i64 (pc_price_per_second p)),
        (''price_per_unit'', i64 (pc_price_per_unit p)),
        (''price_per_second_floor'', opt_tree i64 (per_second_floor (pc_bounds p))),
        (''price_per_second_ceiling'', opt_tree i64 (per_second_ceiling (pc_bounds p))),
        (''price_per_unit_floor'', opt_tree i64 (per_unit_floor (pc_bounds p))),
        (''price_per_unit_ceiling'', opt_tree i64 (per_unit_ceiling (pc_bounds p)))])"

definition upstream_config_tree :: "UpstreamConfig \<Rightarrow> tree" where
  "upstream_config_tree u =
     TObject
       [(''peer'', TString (up_peer u)),
        (''mint'', TString (up_mint u)),
        (''amount'', TInt (uint (up_amount u))),
        (''topup'', TInt (uint (up_topup u))),
        (''interval_secs'', TInt (uint (up_interval_secs u))),
        (''meter_iface'', opt_tree TString (up_meter_iface u)),
        (''meter_upstream'', TBool (up_meter_upstream u))]"

definition accepted_mint_tree :: "V1AcceptedMint \<Rightarrow> tree" where
  "accepted_mint_tree m =
     TObject
       [(''url'', TString (am_url m)),
        (''price_per_step'', TInt (uint (am_price_per_step m))),
        (''unit'', TString (am_unit m)),
        (''min_steps'', TInt (uint (am_min_steps m)))]"

definition v1_compat_tree :: "V1CompatConfig \<Rightarrow> tree" where
  "v1_compat_tree v =
     TObject
       [(''metric'', TString (vc_metric v)),
        (''step_size'', TInt (uint (vc_step_size v))),
        (''accepted_mints'', list_tree accepted_mint_tree (vc_accepted_mints v)),
        (''nostr_secret_key'', opt_tree TString (vc_nostr_secret_key v)),
        (''trust_proxy_headers'', TBool (vc_trust_proxy_headers v)),
        (''wallet_seed'', opt_tree TString (vc_wallet_seed v))]"

definition dynamic_pricing_tree :: "json_api \<Rightarrow> DynamicPricingConfig \<Rightarrow> tree" where
  "dynamic_pricing_tree api d =
     TObject
       [(''enabled'', TBool (dp_enabled d)),
        (''strategy'', TString (dp_strategy d)),
        (''metric_weights'', TObject (map (map_prod id (f64_tree api)) (dp_metric_weights d))),
        (''active_peer_multiplier'', opt_tree (f64_tree api) (dp_active_peer_multiplier d)),
        (''max_active_peers'', opt_tree (\<lambda>n. TInt (uint n)) (dp_max_active_peers d))]"

definition peer_override_tree :: "json_api \<Rightarrow> PeerOverride \<Rightarrow> tree" where
  "peer_override_tree api p =
     TObject [(''price_multiplier'', opt_tree (f64_tree api) (po_price_multiplier p)), (''blocked'', TBool (po_blocked p))]"

definition config_tree :: "json_api \<Rightarrow> config \<Rightarrow> tree" where
  "config_tree api c =
     TObject
       [(''secret_key_file'', opt_tree TString (secret_key_file c)),
        (''listen'', TString (listen c)),
        (''mints'', list_tree TString (mints c)),
        (''products'', list_tree product_config_tree (products c)),
        (''firewall'', firewall_tree (firewall c)),
        (''unit'', TString (unit_name c)),
        (''control_socket'', TString (control_socket c)),
        (''metering_interval_secs'', TInt (uint (metering_interval_secs c))),
        (''upstreams'', list_tree upstream_config_tree (config.upstreams c)),
        (''v1_compat'', v1_compat_tree (v1_compat c)),
        (''dynamic_pricing'', dynamic_pricing_tree api (dynamic_pricing c)),
        (''peer_overrides'', TObject (map (map_prod id (peer_override_tree api)) (peer_overrides c)))]"


subsection \<open>Commands\<close>

record CLIMessage =
  cm_command :: string
  cm_args :: "string list option"
  cm_flags :: "(string, string) btree option"

record CLIResponse =
  cr_success :: bool
  cr_message :: "string option"
  cr_data :: "json option"
  cr_error :: "string option"

definition CLIResponse_ok :: "json \<Rightarrow> CLIResponse" where
  "CLIResponse_ok v = \<lparr> cr_success = True, cr_message = None, cr_data = Some v, cr_error = None \<rparr>"

definition CLIResponse_error :: "string \<Rightarrow> CLIResponse" where
  "CLIResponse_error msg = \<lparr> cr_success = False, cr_message = None, cr_data = None, cr_error = Some msg \<rparr>"

definition response_tree :: "CLIResponse \<Rightarrow> tree" where
  "response_tree r =
     TObject
       [(''success'', TBool (cr_success r)),
        (''message'', opt_tree TString (cr_message r)),
        (''data'', opt_tree value_tree (cr_data r)),
        (''error'', opt_tree TString (cr_error r))]"

definition read_CLIMessage :: "tree \<Rightarrow> CLIMessage option" where
  "read_CLIMessage t =
     Option.bind (struct_members [''command'', ''args'', ''flags''] t) (\<lambda>v.
     Option.bind (field tree_str (v ! 0)) (\<lambda>c.
     Option.bind (field_opt (tree_list tree_str) (v ! 1)) (\<lambda>as.
     Option.bind (field_opt (tree_map tree_str) (v ! 2)) (\<lambda>fs.
     Some \<lparr> cm_command = c, cm_args = as, cm_flags = fs \<rparr>))))"

text \<open>The version of the package and the features it was built with.\<close>

record build =
  pkg_version :: string
  feature_v1_compat :: bool
  feature_openwrt :: bool
  feature_spilman :: bool

definition build_features :: "build \<Rightarrow> string list" where
  "build_features b =
     (if feature_v1_compat b then [''v1-compat''] else []) @ (if feature_openwrt b then [''openwrt''] else []) @
     (if feature_spilman b then [''spilman''] else [])"

definition route :: "json_api \<Rightarrow> build \<Rightarrow> config \<Rightarrow> node_status \<Rightarrow> CLIMessage \<Rightarrow> CLIResponse" where
  "route api b cfg snap msg =
     (let args = (case cm_args msg of None \<Rightarrow> [] | Some as \<Rightarrow> as);
          sub = (case args of [] \<Rightarrow> None | a # _ \<Rightarrow> Some a);
          command = cm_command msg
      in if command = ''status'' then CLIResponse_ok (to_value (node_status_tree api snap))
         else if command = ''version'' then
           CLIResponse_ok (json_object [(''version'', JString (pkg_version b)), (''features'', JArray (map JString (build_features b)))])
         else if command = ''health'' then CLIResponse_ok (json_object [(''ok'', JBool True)])
         else if command = ''wallet'' then
           (case sub of
              Some other \<Rightarrow>
                if other = ''balance''
                then CLIResponse_ok (json_object [(''balance'', JInt 0),
                       (''note'', JString ''wallet balance not available in current architecture'')])
                else CLIResponse_error (''unknown wallet subcommand: '' @ other)
            | None \<Rightarrow> CLIResponse_ok (json_object [(''balance'', JInt 0),
                       (''note'', JString ''wallet balance not available in current architecture'')]))
         else if command = ''config'' then
           (case sub of
              Some other \<Rightarrow>
                if other = ''get'' then CLIResponse_ok (to_value (config_tree api cfg))
                else CLIResponse_error (''unknown config subcommand: '' @ other)
            | None \<Rightarrow> CLIResponse_ok (to_value (config_tree api cfg)))
         else CLIResponse_error (''unknown command: '' @ command))"

definition process_line :: "json_api \<Rightarrow> build \<Rightarrow> config \<Rightarrow> node_status \<Rightarrow> string \<Rightarrow> string" where
  "process_line api b cfg snap line =
     (let trimmed = trim line
      in if trimmed = [] then []
         else case Option.bind (json_parse api trimmed) read_CLIMessage of
                Some msg \<Rightarrow> json_print api (response_tree (route api b cfg snap msg))
              | None \<Rightarrow>
                  if trimmed = ''status'' then json_print api (node_status_tree api snap)
                  else json_print api (value_tree (json_object [(''error'', JString (''unknown command: '' @ trimmed))])))"

text \<open>
  The loop of \<^verbatim>\<open>handle\<close>: each line comes with the snapshot the driver has when it is answered, \<open>None\<close> is
  a line that cannot be read. What was written is the result, with whether the connection failed.
\<close>

fun handle_lines :: "json_api \<Rightarrow> build \<Rightarrow> config \<Rightarrow> (string option \<times> node_status) list \<Rightarrow> string \<times> bool" where
  "handle_lines api b cfg [] = ([], False)"
| "handle_lines api b cfg ((None, snap) # ls) = ([], True)"
| "handle_lines api b cfg ((Some line, snap) # ls) =
     (let response = process_line api b cfg snap line;
          (rest, failed) = handle_lines api b cfg ls
      in ((if response = [] then [] else response @ [newline]) @ rest, failed))"


subsection \<open>The client\<close>

datatype query_error = Connecting | SendingRequest | ReadingResponse | EmptyResponse | ParsingStatus

text \<open>
  A socket takes the bytes written to it and gives the first line of the reply, empty when the other
  side has closed it.
\<close>

definition query :: "json_api \<Rightarrow> (string \<Rightarrow> string option option) option \<Rightarrow> query_error + node_status" where
  "query api socket =
     (case socket of
        None \<Rightarrow> Inl Connecting
      | Some send \<Rightarrow>
          (case send (''status'' @ [newline]) of
             None \<Rightarrow> Inl SendingRequest
           | Some None \<Rightarrow> Inl ReadingResponse
           | Some (Some reply) \<Rightarrow>
               let line = trim reply
               in if line = [] then Inl EmptyResponse
                  else case Option.bind (json_parse api line) (read_node_status api) of
                         None \<Rightarrow> Inl ParsingStatus
                       | Some s \<Rightarrow> Inr s))"


subsection \<open>The admin pages\<close>

definition web_json_response :: "json_api \<Rightarrow> string \<Rightarrow> string + json \<Rightarrow> nat \<times> string" where
  "web_json_response api label r =
     (case r of
        Inr v \<Rightarrow> (200, json_print api (value_tree v))
      | Inl e \<Rightarrow> (500, json_print api (value_tree (json_object [(''error'', JString (label @ '': '' @ e))]))))"

definition api_status :: "json_api \<Rightarrow> node_status \<Rightarrow> nat \<times> string" where
  "api_status api snap = web_json_response api ''serialize status'' (Inr (to_value (node_status_tree api snap)))"

definition api_config :: "json_api \<Rightarrow> config \<Rightarrow> nat \<times> string" where
  "api_config api cfg = web_json_response api ''serialize config'' (Inr (to_value (config_tree api cfg)))"

text \<open>The page itself is a constant and a parameter here. \<open>None\<close> is a path that is not one of these.\<close>

definition web_ui_router ::
  "json_api \<Rightarrow> string \<Rightarrow> config \<Rightarrow> node_status \<Rightarrow> string \<Rightarrow> (nat \<times> string) option" where
  "web_ui_router api dashboard cfg snap path =
     (if path = ''/admin'' then Some (200, dashboard)
      else if path = ''/admin/api/status'' then Some (api_status api snap)
      else if path = ''/admin/api/config'' then Some (api_config api cfg)
      else None)"


subsection \<open>A status that is written is read back\<close>

text \<open>What the reader makes of a snapshot: all of it, with each drift as the number its text gives.\<close>

definition reread :: "json_api \<Rightarrow> node_status \<Rightarrow> node_status" where
  "reread api s =
     s\<lparr> ns_peers := map (\<lambda>p. p\<lparr> st_drift := map_option (drift_read api \<circ> drift_text api) (st_drift p) \<rparr>) (ns_peers s) \<rparr>"

lemma read_pricing_written: "read_pricing (pricing_tree p) = Some p"
  by (simp add: read_pricing_def pricing_tree_def struct_members_def field_def)

lemma read_peer_written:
  "read_peer_status api (peer_status_tree api p) =
     Some (p\<lparr> st_drift := map_option (drift_read api \<circ> drift_text api) (st_drift p) \<rparr>)"
  by (simp add: read_peer_status_def peer_status_tree_def struct_members_def field_def field_or_def read_pricing_written
    read_option [where h = "\<lambda>x. x"] read_option [where h = "drift_read api \<circ> drift_text api"] option.map_ident)

lemma read_mint_written: "read_mint_status (mint_status_tree m) = Some m"
  by (simp add: read_mint_status_def mint_status_tree_def struct_members_def field_def)

lemma read_product_written: "read_product_status (product_status_tree p) = Some p"
  using tree_list_written [of "pst_mints p" read_mint_status mint_status_tree "\<lambda>m. m"]
  by (simp add: read_product_status_def product_status_tree_def struct_members_def field_def read_mint_written)

lemma read_pricing_status_written: "read_pricing_status (pricing_status_tree p) = Some p"
  using tree_list_written [of "prs_products p" read_product_status product_status_tree "\<lambda>m. m"]
  by (simp add: read_pricing_status_def pricing_status_tree_def struct_members_def field_def read_product_written)

lemma read_status_written: "read_node_status api (node_status_tree api s) = Some (reread api s)"
  using tree_list_written [of "ns_peers s" "read_peer_status api" "peer_status_tree api", OF read_peer_written]
  by (simp add: read_node_status_def node_status_tree_def struct_members_def field_def field_or_def
    read_pricing_status_written reread_def)


text \<open>The admin page prints the value of a status instead, with its members sorted.\<close>

lemma read_pricing_revalued: "read_pricing (revalued (pricing_tree p)) = Some p"
  unfolding pricing_tree_def read_pricing_def by (subst struct_members_revalued) (simp_all add: field_def)

lemma read_peer_revalued:
  "read_peer_status api (revalued (peer_status_tree api p)) =
     Some (p\<lparr> st_drift := map_option (drift_read api \<circ> drift_text api) (st_drift p) \<rparr>)"
  unfolding peer_status_tree_def read_peer_status_def
  by (subst struct_members_revalued)
    (simp_all add: field_def field_or_def read_pricing_revalued
      read_option [where h = "\<lambda>x. x"] read_option [where h = "drift_read api \<circ> drift_text api"] option.map_ident)

lemma read_mint_revalued: "read_mint_status (revalued (mint_status_tree m)) = Some m"
  unfolding mint_status_tree_def read_mint_status_def by (subst struct_members_revalued) (simp_all add: field_def)

lemma read_product_revalued: "read_product_status (revalued (product_status_tree p)) = Some p"
  using tree_list_written [of "pst_mints p" read_mint_status "\<lambda>m. revalued (mint_status_tree m)" "\<lambda>m. m"]
  unfolding product_status_tree_def read_product_status_def
  by (subst struct_members_revalued) (simp_all add: field_def read_mint_revalued)

lemma read_pricing_status_revalued: "read_pricing_status (revalued (pricing_status_tree p)) = Some p"
  using tree_list_written [of "prs_products p" read_product_status "\<lambda>m. revalued (product_status_tree m)" "\<lambda>m. m"]
  unfolding pricing_status_tree_def read_pricing_status_def
  by (subst struct_members_revalued) (simp_all add: field_def read_product_revalued)

lemma read_status_revalued: "read_node_status api (revalued (node_status_tree api s)) = Some (reread api s)"
  using tree_list_written [of "ns_peers s" "read_peer_status api" "\<lambda>p. revalued (peer_status_tree api p)", OF read_peer_revalued]
  unfolding node_status_tree_def read_node_status_def
  by (subst struct_members_revalued) (simp_all add: field_def field_or_def read_pricing_status_revalued reread_def)



subsection \<open>What the interface promises\<close>

text \<open>
  The text of a tree as \<^verbatim>\<open>serde_json\<close> prints it: one line without blanks around it, which parses to that tree.
  The word \<^verbatim>\<open>status\<close> is not JSON.
\<close>

definition prints_back :: "json_api \<Rightarrow> tree \<Rightarrow> bool" where
  "prints_back api t \<longleftrightarrow>
     json_parse api (json_print api t) = Some t \<and> trimmed (json_print api t) \<and> json_print api t \<noteq> [] \<and>
     newline \<notin> set (json_print api t)"

text \<open>A socket served by \<^verbatim>\<open>handle\<close>: the lines sent are answered and the first line of the reply is read.\<close>

definition control_socket_to :: "json_api \<Rightarrow> build \<Rightarrow> config \<Rightarrow> node_status \<Rightarrow> string \<Rightarrow> string option option" where
  "control_socket_to api b cfg snap sent =
     (let (reply, _) = handle_lines api b cfg (map (\<lambda>l. (Some l, snap)) (rust_lines sent))
      in Some (Some (takeWhile (\<lambda>c. c \<noteq> newline) reply @ (if newline \<in> set reply then [newline] else []))))"

lemma trim_line: "trimmed s \<Longrightarrow> trim (s @ [newline]) = s"
  using trim_pad [of "[]" "[newline]" s] by (simp add: is_whitespace_def newline_def char_nat_def)

lemma first_line: "newline \<notin> set s \<Longrightarrow> takeWhile (\<lambda>c. c \<noteq> newline) (s @ newline # r) = s"
  by (induction s) auto

text \<open>
  C22. A tool that queries the control socket gets the snapshot the node has: the keys,
  balances, prices and counters of every peer as they are, and each drift as the number its text stands
  for. The admin page's \<^verbatim>\<open>/admin/api/status\<close> reads as the same status.
\<close>

theorem query_gets_the_status:
  assumes "prints_back api (node_status_tree api snap)" and "json_parse api ''status'' = None"
    and "prints_back api (revalued (node_status_tree api snap))"
  shows "query api (Some (control_socket_to api b cfg snap)) = Inr (reread api snap) \<and>
    (\<exists>body. web_ui_router api page cfg snap ''/admin/api/status'' = Some (200, body) \<and>
       Option.bind (json_parse api body) (read_node_status api) = Some (reread api snap))"
proof -
  have "rust_lines (''status'' @ [newline]) = [''status'']"
    by (simp add: rust_lines.simps newline_def strip_cr_def carriage_return_def)
  moreover have "trim ''status'' = ''status''"
    by (simp add: trim_def trim_start_def is_whitespace_def char_nat_def)
  ultimately have "control_socket_to api b cfg snap (''status'' @ [newline]) =
      Some (Some (json_print api (node_status_tree api snap) @ [newline]))"
    using assms(1,2) by (simp add: control_socket_to_def process_line_def prints_back_def first_line)
  then have "query api (Some (control_socket_to api b cfg snap)) = Inr (reread api snap)"
    using assms(1) by (simp add: query_def prints_back_def trim_line read_status_written)
  moreover have "web_ui_router api page cfg snap ''/admin/api/status'' =
      Some (200, json_print api (revalued (node_status_tree api snap)))"
    by (simp add: web_ui_router_def api_status_def web_json_response_def)
  ultimately show ?thesis using assms(3) by (simp add: prints_back_def read_status_revalued)
qed

text \<open>The value of a configuration holds what the configuration holds, secrets included.\<close>

lemma config_value_v1: "json_get ''v1_compat'' (to_value (config_tree api cfg)) = Some (to_value (v1_compat_tree (v1_compat cfg)))"
  by (simp add: config_tree_def json_object_known)

lemma v1_value_secrets:
  "json_get ''wallet_seed'' (to_value (v1_compat_tree v)) = Some (case vc_wallet_seed v of Some s \<Rightarrow> JString s | None \<Rightarrow> JNull)"
  "json_get ''nostr_secret_key'' (to_value (v1_compat_tree v)) =
     Some (case vc_nostr_secret_key v of Some s \<Rightarrow> JString s | None \<Rightarrow> JNull)"
  by (simp_all add: v1_compat_tree_def json_object_known opt_tree_def split: option.split)

text \<open>
  The unauthenticated page \<^verbatim>\<open>/admin/api/config\<close> and the control command \<^verbatim>\<open>config\<close> show the same value, and
  it has the secrets in clear: the seed of the wallet and the key the node signs its v1 events with.
\<close>

theorem configuration_served_with_secrets:
  "\<exists>v. (\<forall>fs. route api b cfg snap \<lparr> cm_command = ''config'', cm_args = None, cm_flags = fs \<rparr> = CLIResponse_ok v) \<and>
       web_ui_router api page cfg snap ''/admin/api/config'' = Some (200, json_print api (value_tree v)) \<and>
       Option.bind (json_get ''v1_compat'' v) (json_get ''wallet_seed'') =
         Some (case vc_wallet_seed (v1_compat cfg) of Some seed \<Rightarrow> JString seed | None \<Rightarrow> JNull) \<and>
       Option.bind (json_get ''v1_compat'' v) (json_get ''nostr_secret_key'') =
         Some (case vc_nostr_secret_key (v1_compat cfg) of Some k \<Rightarrow> JString k | None \<Rightarrow> JNull)"
  by (rule exI [of _ "to_value (config_tree api cfg)"])
    (simp add: route_def web_ui_router_def api_config_def web_json_response_def config_value_v1 v1_value_secrets
      del: to_value.simps)

lemma process_line_printed:
  "if trim l = [] then process_line api b cfg snap l = [] else \<exists>t. process_line api b cfg snap l = json_print api t"
  by (cases "Option.bind (json_parse api (trim l)) read_CLIMessage") (auto simp: process_line_def Let_def)

text \<open>
  Every line that is not blank gets exactly one line of reply and blank lines get none, up
  to the line that cannot be read, which ends the connection.
\<close>

theorem one_reply_per_line:
  assumes "\<And>t. json_print api t \<noteq> [] \<and> newline \<notin> set (json_print api t)"
  shows "length (filter (\<lambda>c. c = newline) (fst (handle_lines api b cfg ls))) =
      length (filter (\<lambda>l. trim (the (fst l)) \<noteq> []) (takeWhile (\<lambda>l. fst l \<noteq> None) ls)) \<and>
    (snd (handle_lines api b cfg ls) \<longleftrightarrow> (\<exists>l\<in>set ls. fst l = None))"
proof (induction ls)
  case (Cons l ls)
  show ?case
  proof (cases l)
    case (Pair line snap)
    show ?thesis
    proof (cases line)
      case (Some l0)
      have "(process_line api b cfg snap l0 = [] \<longleftrightarrow> trim l0 = []) \<and> newline \<notin> set (process_line api b cfg snap l0)"
      proof (cases "trim l0 = []")
        case False
        then obtain t where "process_line api b cfg snap l0 = json_print api t"
          using process_line_printed [of l0 api b cfg snap] by auto
        with False assms [of t] show ?thesis by simp
      qed (simp add: process_line_def)
      then have "(process_line api b cfg snap l0 = [] \<longleftrightarrow> trim l0 = []) \<and>
          filter (\<lambda>c. c = newline) (process_line api b cfg snap l0) = []"
        by (simp add: filter_empty_conv) metis
      with Pair Some Cons show ?thesis by (simp add: case_prod_beta Let_def)
    qed (simp add: Pair)
  qed
qed simp


subsection \<open>Closed instances\<close>

definition one_tree :: "tree list \<Rightarrow> json_api" where
  "one_tree ts =
     \<lparr> json_print = (\<lambda>t. if ts \<noteq> [] \<and> t = hd ts then ''{a}'' else ''{b}''),
       json_parse = (\<lambda>s. if ts \<noteq> [] \<and> s = ''{a}'' then Some (hd ts) else if length ts = 2 \<and> s = ''{b}'' then Some (last ts) else None),
       float_text = (\<lambda>_. []), drift_text = (\<lambda>_. ''0.5''), drift_read = (\<lambda>_. (1, 2)) \<rparr>"

definition sample_snapshot :: node_status where
  "sample_snapshot =
     \<lparr> ns_pubkey = ''02ab'', ns_unit = ''bytes'',
       ns_peers = [\<lparr> st_pubkey = ''03cd'', st_ip = Some ''10.0.0.7'', st_state = ''Active'', st_delivered = 5, st_received = 1,
         st_our_price = Pricing_default, st_their_price = Pricing_default, st_their_balance = -3, st_our_balance = 0,
         st_metered_secs = 9, st_idle_ms = 4, st_drift = Some (1, 2) \<rparr>],
       ns_pricing = PricingStatus_default \<rparr>"

definition sample_json :: json_api where
  "sample_json = (let t = node_status_tree (one_tree []) sample_snapshot in one_tree [t, revalued t])"


lemma tree_of_drift: "drift_text a = drift_text c \<Longrightarrow> node_status_tree a = node_status_tree c"
proof -
  assume "drift_text a = drift_text c"
  then have "peer_status_tree a p = peer_status_tree c p" for p by (simp add: peer_status_tree_def)
  then have "peer_status_tree a = peer_status_tree c" by (rule ext)
  then show ?thesis by (intro ext) (simp add: node_status_tree_def)
qed

lemma sample_json_tree: "node_status_tree sample_json = node_status_tree (one_tree [])"
  by (rule tree_of_drift) (simp add: sample_json_def one_tree_def Let_def)

lemma sample_trees_differ:
  "node_status_tree api sample_snapshot \<noteq> revalued (node_status_tree api sample_snapshot)"
  by (simp add: node_status_tree_def json_object_def bt_empty_def)

lemma sample_prints_back:
  "prints_back sample_json (node_status_tree sample_json sample_snapshot) \<and>
   prints_back sample_json (revalued (node_status_tree sample_json sample_snapshot))"
  unfolding sample_json_tree
  using sample_trees_differ [of "one_tree []"]
  by (simp add: prints_back_def sample_json_def one_tree_def [of "[_, _]"] Let_def trimmed_def is_whitespace_def char_nat_def newline_def
    del: to_value.simps)

theorem query_gets_the_status_witness:
  "query sample_json (Some (control_socket_to sample_json
      \<lparr> pkg_version = ''0.1.0'', feature_v1_compat = False, feature_openwrt = False, feature_spilman = False \<rparr>
      Config_default sample_snapshot)) = Inr (reread sample_json sample_snapshot)"
  by (rule query_gets_the_status [THEN conjunct1])
    (use sample_prints_back in \<open>simp_all add: sample_json_def one_tree_def [of "[_, _]"] Let_def\<close>)

theorem one_reply_per_line_witness:
  "length (filter (\<lambda>c. c = newline) (fst (handle_lines sample_json
      \<lparr> pkg_version = ''0.1.0'', feature_v1_compat = False, feature_openwrt = False, feature_spilman = False \<rparr>
      Config_default [(Some ''status'', sample_snapshot), (Some [], sample_snapshot), (None, sample_snapshot)]))) = 1"
  (is "length (filter _ (fst (handle_lines _ ?b _ ?ls))) = 1")
proof -
  have "json_print sample_json t \<noteq> [] \<and> newline \<notin> set (json_print sample_json t)" for t
    by (simp add: sample_json_def one_tree_def newline_def Let_def)
  from one_reply_per_line [of sample_json ?b Config_default ?ls, OF this, THEN conjunct1] show ?thesis
    by (simp del: handle_lines.simps add: trim_def trim_start_def is_whitespace_def char_nat_def)
qed

end
