(* ===== verification/Node.thy ===== *)
theory Node
  imports Control Nft_Firewall V1_Server
begin

section \<open>The running node\<close>

text \<open>
  \<^verbatim>\<open>serve\<close> and \<^verbatim>\<open>build_v1_wallet\<close> of \<^verbatim>\<open>crates/tollgate-net/src/main.rs\<close> put a node together from its
  configuration; \<^verbatim>\<open>router\<close>, \<^verbatim>\<open>build_v1_config\<close> and \<^verbatim>\<open>ws_upgrade\<close> of \<^verbatim>\<open>server.rs\<close> say what its listener answers. The wallet
  crate, hexadecimal strings, Unicode lower case and the mint URL syntax are parameters; \<open>build\<close> tells which
  features the binary has.
\<close>


subsection \<open>Seeds and wallets\<close>

definition zero_seed :: bytes where
  "zero_seed = replicate 64 0"

text \<open>The seed of the wallet that swaps received tokens.\<close>

definition bootstrap_seed :: "(string \<Rightarrow> bytes option) \<Rightarrow> V1CompatConfig \<Rightarrow> bytes" where
  "bootstrap_seed hexd v1 =
     (case Option.bind (vc_wallet_seed v1) hexd of
        Some b \<Rightarrow> if length b = 64 then b else zero_seed
      | None \<Rightarrow> zero_seed)"

datatype v1_wallet_error = SeedNotSet | SeedNotHex | SeedLength nat | WalletInit V1WalletError

definition v1_wallet_seed :: "(string \<Rightarrow> bytes option) \<Rightarrow> V1CompatConfig \<Rightarrow> v1_wallet_error + bytes" where
  "v1_wallet_seed hexd v1 =
     (case vc_wallet_seed v1 of
        None \<Rightarrow> Inl SeedNotSet
      | Some hex \<Rightarrow>
          (case hexd (trim hex) of
             None \<Rightarrow> Inl SeedNotHex
           | Some b \<Rightarrow> if length b = 64 then Inr b else Inl (SeedLength (length b))))"

definition v1_wallet_mint :: "V1CompatConfig \<Rightarrow> string" where
  "v1_wallet_mint v1 =
     (case vc_accepted_mints v1 of
        m # _ \<Rightarrow> if V1AcceptedMint.am_url m = [] then ''http://localhost:3338'' else V1AcceptedMint.am_url m
      | [] \<Rightarrow> ''http://localhost:3338'')"

definition build_v1_wallet ::
  "(string \<Rightarrow> bytes option) \<Rightarrow> (bytes \<Rightarrow> ('p, 'm, 'w) cdk_api) \<Rightarrow> V1CompatConfig \<Rightarrow> 'w \<Rightarrow> v1_wallet_error + 'w" where
  "build_v1_wallet hexd mk v1 w =
     (case v1_wallet_seed hexd v1 of
        Inl e \<Rightarrow> Inl e
      | Inr seed \<Rightarrow>
          (case CdkWallet_new (mk seed) (v1_wallet_mint v1) w of Inl e \<Rightarrow> Inl (WalletInit e) | Inr w' \<Rightarrow> Inr w'))"

definition normalize_str :: "(string \<Rightarrow> string) \<Rightarrow> string \<Rightarrow> string" where
  "normalize_str to_lowercase s = to_lowercase (trim_end_matches (CHR ''/'') s)"

text \<open>The wallet repository: whether its database opens, whether it is built and which mints it takes.\<close>

record repo_api =
  store_opens :: bool
  repo_builds :: "bytes \<Rightarrow> bool"
  is_mint_url :: "string \<Rightarrow> bool"
  adds_wallet :: "string \<Rightarrow> bool"

definition repo_mints :: "(string \<Rightarrow> string) \<Rightarrow> repo_api \<Rightarrow> config \<Rightarrow> string list" where
  "repo_mints to_lowercase api cfg =
     filter (is_mint_url api)
       (mints cfg @
        filter (\<lambda>url. \<not> list_ex (\<lambda>m. normalize_str to_lowercase m = normalize_str to_lowercase url) (mints cfg))
          (map V1AcceptedMint.am_url (vc_accepted_mints (v1_compat cfg))))"

definition node_wallet ::
  "build \<Rightarrow> (string \<Rightarrow> bytes option) \<Rightarrow> (string \<Rightarrow> string) \<Rightarrow> repo_api \<Rightarrow> spent_disk \<Rightarrow> config \<Rightarrow> bootstrap_wallet" where
  "node_wallet b hexd to_lowercase api spent cfg =
     (let bootstrap = with_spent_file (mints cfg) (Some spent)
      in if feature_v1_compat b \<and> mints cfg \<noteq> [] \<and> store_opens api \<and> repo_builds api (bootstrap_seed hexd (v1_compat cfg)) \<and>
            0 < length (filter (adds_wallet api) (repo_mints to_lowercase api cfg))
         then with_wallet_repo bootstrap else bootstrap)"


subsection \<open>Starting\<close>

text \<open>What is set up before the listener runs: the driver, the firewall and the periods of its tasks, in seconds.\<close>

record ('tok, 'k) node =
  nd_env :: "'tok host_env"
  nd_host :: host
  nd_adapter :: ip_adapter
  nd_kernel :: 'k
  nd_enforcing :: bool
  nd_config :: config
  nd_metering_secs :: u64
  nd_idle_secs :: u64
  nd_sweep_secs :: u64

text \<open>\<open>base\<close> has the parameters of the host: its key, codec and the crates it calls.\<close>

definition serve_start ::
  "build \<Rightarrow> (string \<Rightarrow> bytes option) \<Rightarrow> (string \<Rightarrow> string) \<Rightarrow> repo_api \<Rightarrow> (bytes \<Rightarrow> bytes) \<Rightarrow>
   (mint_price list \<Rightarrow> mint_price list) \<Rightarrow> 'k nft_env \<Rightarrow> bool \<Rightarrow> 'tok host_env \<Rightarrow>
   spent_disk \<Rightarrow> string option \<Rightarrow> config \<Rightarrow> 'k \<Rightarrow> ('tok, 'k) node" where
  "serve_start b hexd to_lowercase api sha256 srt nft linux base spent listen_arg cfg0 k =
     (let cfg = (case listen_arg of None \<Rightarrow> cfg0 | Some l \<Rightarrow> cfg0\<lparr> listen := l \<rparr>);
          wal = node_wallet b hexd to_lowercase api spent cfg;
          (ok, adapter, k') = adapter_init nft (installs_forward_chain (firewall cfg)) (IpAdapter_new linux) k;
          price = node_price cfg
      in \<lparr> nd_env = base\<lparr> own_unit := unit_name cfg, own_price := price,
                          own_price_sheet := enc_price_sheet (cdc base) (build_price_sheet sha256 srt cfg) \<rparr>,
           nd_host = Driver_new wal price, nd_adapter = adapter, nd_kernel = k', nd_enforcing = ok, nd_config = cfg,
           nd_metering_secs = max (metering_interval_secs cfg) 1, nd_idle_secs = 120, nd_sweep_secs = 30 \<rparr>)"


subsection \<open>The v1 configuration\<close>

definition or_default :: "'a::zero \<Rightarrow> 'a \<Rightarrow> 'a" where
  "or_default d x = (if x = 0 then d else x)"

definition or_text :: "string \<Rightarrow> string \<Rightarrow> string" where
  "or_text d s = (if s = [] then d else s)"

definition v1_accepted :: "V1CompatConfig \<Rightarrow> accepted_mint list" where
  "v1_accepted v1 =
     (if vc_accepted_mints v1 = []
      then [\<lparr> am_url = ''http://localhost:3338'', am_price_per_step = 1, am_unit = ''sat'', am_min_steps = 1 \<rparr>]
      else map (\<lambda>m. \<lparr> accepted_mint.am_url = or_text ''http://localhost:3338'' (V1AcceptedMint.am_url m),
                       am_price_per_step = or_default 1 (V1AcceptedMint.am_price_per_step m),
                       am_unit = or_text ''sat'' (V1AcceptedMint.am_unit m),
                       am_min_steps = or_default 1 (V1AcceptedMint.am_min_steps m) \<rparr>) (vc_accepted_mints v1))"

definition v1_nostr_keys :: "(string \<Rightarrow> 'key option) \<Rightarrow> 'key \<Rightarrow> V1CompatConfig \<Rightarrow> 'key" where
  "v1_nostr_keys parse generated v1 =
     (case Option.bind (vc_nostr_secret_key v1) parse of Some k \<Rightarrow> k | None \<Rightarrow> generated)"

definition build_v1_config :: "V1CompatConfig \<Rightarrow> v1_config" where
  "build_v1_config v1 =
     (let accepted = v1_accepted v1
      in \<lparr> metric = or_text ''milliseconds'' (vc_metric v1), step_size = or_default 60000 (vc_step_size v1),
           accepted_mints_cfg = accepted, trust_proxy_headers = vc_trust_proxy_headers v1,
           health = (if accepted = [] then None else Some (MintHealthTracker_new (map accepted_mint.am_url accepted))) \<rparr>)"


subsection \<open>The listener\<close>

datatype body = Text string | Binary bytes

definition ws_upgrade :: "nat \<times> body" where
  "ws_upgrade = (501, Text ''websocket transport not yet implemented'')"

text \<open>The limit that \<^verbatim>\<open>axum\<close> puts on a body unless a router sets its own.\<close>

definition DEFAULT_BODY_LIMIT :: nat where
  "DEFAULT_BODY_LIMIT = 2097152"

definition exchange_response :: "(FrameError \<Rightarrow> string) \<Rightarrow> exchange_result \<Rightarrow> nat \<times> body" where
  "exchange_response show_error r =
     (case r of BadRequest e \<Rightarrow> (400, Text (''bad framing: '' @ show_error e)) | Ok200 bs \<Rightarrow> (200, Binary bs))"

definition admin_paths :: "string list" where
  "admin_paths = [''/admin'', ''/admin/api/status'', ''/admin/api/config'']"

definition node_router ::
  "build \<Rightarrow> json_api \<Rightarrow> (FrameError \<Rightarrow> string) \<Rightarrow> string \<Rightarrow> config \<Rightarrow> ('tok, 'p, 'm, 'w) v1_server \<Rightarrow> mint_answers \<Rightarrow>
   i64 \<Rightarrow> Millis \<Rightarrow> Millis \<Rightarrow> request \<Rightarrow> host \<Rightarrow> 'w \<Rightarrow> (nat \<times> body) \<times> host \<times> 'w" where
  "node_router b api show_error page cfg sv mint unix now later req h w =
     (let p = rq_path req; m = rq_method req
      in if p = ''/tollgate/v1/exchange''
         then (if m \<noteq> POST then ((405, Text []), h, w)
               else if DEFAULT_BODY_LIMIT < length (rq_body req) then ((413, Text ''length limit exceeded''), h, w)
               else let (r, h') = http_exchange (sv_host sv) mint (Some (rq_addr req)) now later (map of_char (rq_body req)) h
                    in (exchange_response show_error r, h', w))
         else if p = ''/tollgate/v1/ws''
         then (if m = GET then (ws_upgrade, h, w) else if m = HEAD then ((fst ws_upgrade, Text []), h, w)
               else ((405, Text []), h, w))
         else if p \<in> set admin_paths
         then (case web_ui_router api page cfg (status (sv_host sv) (sv_ip_string sv) h now) p of
                 None \<Rightarrow> ((404, Text []), h, w)
               | Some (code, reply) \<Rightarrow>
                   if m = GET then ((code, Text reply), h, w) else if m = HEAD then ((code, Text []), h, w)
                   else ((405, Text []), h, w))
         else if feature_v1_compat b
         then (let ((code, reply), h', w') = build_router sv mint unix now later req h w in ((code, Text reply), h', w'))
         else ((404, Text []), h, w))"



subsection \<open>A node starts closed\<close>

text \<open>
  C31. A node configured to enforce that starts on Linux has granted nobody access. If its rules
  were installed, no packet of a new connection is forwarded; if they were refused, the rules of the
  kernel are the ones it had, and the node runs all the same.
\<close>

theorem node_starts_closed:
  assumes "nft_conforms nft view" and "firewall cfg = Enforcing"
    and "nd = serve_start b hexd lower api sha256 srt nft True base spent arg cfg k"
  shows "paid_ips (nd_host nd) = {} \<and>
    (if nd_enforcing nd then \<forall>p. forwards (view (nd_kernel nd)) p \<longleftrightarrow> pk_established p
     else view (nd_kernel nd) = view k)"
proof -
  obtain ok a k' where init: "adapter_init nft True (IpAdapter_new True) k = (ok, a, k')" by (metis surj_pair)
  have fw: "firewall (case arg of None \<Rightarrow> cfg | Some l \<Rightarrow> cfg\<lparr> listen := l \<rparr>) = Enforcing"
    using assms(2) by (simp split: option.split)
  have nd: "nd_enforcing nd = ok" "nd_kernel nd = k'" "paid_ips (nd_host nd) = {}"
    using assms(3) init fw by (simp_all add: serve_start_def installs_forward_chain_def Let_def Driver_new_def)
  show ?thesis
  proof (cases ok)
    case True
    with init obtain t where "view k' = Some t" "fw_inv a t" "paid_addresses t = {}" "counters_available a"
      using init_inv [OF assms(1), of "IpAdapter_new True" True k a k']
      by (auto simp: fresh_adapter_def IpAdapter_new_def)
    then show ?thesis using enforced_verdict [of a t] nd True by simp
  next
    case False
    then have "run_batch nft (sets_ruleset @ forward_ruleset) k = (False, k')"
      using init by (auto simp: adapter_init_def IpAdapter_new_def nft_init_def split: prod.splits)
    then have "view k' = view k" using conforms_batch [OF assms(1)] by simp
    then show ?thesis using nd False by simp
  qed
qed

text \<open>
  Whatever the v1 section of a configuration leaves out or sets to zero, the merchant built
  from it can sell: it has a metric, a step that is not zero, at least one mint, every mint has an address, a
  unit, a price and a minimum that is not zero, and every mint counts as reachable at the start.
\<close>

theorem v1_config_usable:
  "metric (build_v1_config v1) \<noteq> [] \<and> step_size (build_v1_config v1) \<noteq> 0 \<and> accepted_mints_cfg (build_v1_config v1) \<noteq> [] \<and>
   list_all (\<lambda>m. accepted_mint.am_url m \<noteq> [] \<and> accepted_mint.am_unit m \<noteq> [] \<and> accepted_mint.am_price_per_step m \<noteq> 0 \<and>
       accepted_mint.am_min_steps m \<noteq> 0 \<and>
       (case health (build_v1_config v1) of None \<Rightarrow> False | Some t \<Rightarrow> is_reachable t (accepted_mint.am_url m)))
     (accepted_mints_cfg (build_v1_config v1))"
proof -
  have reachable: "is_reachable (MintHealthTracker_new us) u" if "u \<in> set us" for us u
  proof -
    have "map_of (map (\<lambda>u. (u, True)) us) u = Some True" using that by (induction us) auto
    then show ?thesis by (simp add: is_reachable_def MintHealthTracker_new_def)
  qed
  have accepted: "v1_accepted v1 \<noteq> []" by (simp add: v1_accepted_def)
  have "list_all (\<lambda>m. accepted_mint.am_url m \<noteq> [] \<and> accepted_mint.am_unit m \<noteq> [] \<and> accepted_mint.am_price_per_step m \<noteq> 0 \<and>
      accepted_mint.am_min_steps m \<noteq> 0) (v1_accepted v1)"
    by (simp add: v1_accepted_def list_all_iff or_default_def or_text_def)
  then show ?thesis using accepted reachable
    by (auto simp: build_v1_config_def Let_def or_default_def or_text_def list_all_iff)
qed

text \<open>
  One seed, two wallets: a seed without blanks around it that the v1 wallet takes is also the seed of the
  wallet that swaps tokens, and one that the v1 wallet refuses makes the swapping wallet run on
  the seed of zeros that everybody knows.
\<close>

theorem refused_seed_is_zero:
  assumes "\<And>s. vc_wallet_seed v1 = Some s \<Longrightarrow> trimmed s"
  shows "bootstrap_seed hexd v1 = (case v1_wallet_seed hexd v1 of Inr seed \<Rightarrow> seed | Inl _ \<Rightarrow> zero_seed)"
proof (cases "vc_wallet_seed v1")
  case (Some s)
  then have "trim s = s" using trim_pad [of "[]" "[]" s] assms by simp
  with Some show ?thesis by (cases "hexd s") (simp_all add: bootstrap_seed_def v1_wallet_seed_def)
qed (simp add: bootstrap_seed_def v1_wallet_seed_def)

theorem refused_seed_is_zero_witness:
  "bootstrap_seed (\<lambda>_. Some [1]) (V1CompatConfig_default\<lparr> vc_wallet_seed := Some ''01'' \<rparr>) = replicate 64 0"
  using refused_seed_is_zero [of "V1CompatConfig_default\<lparr> vc_wallet_seed := Some ''01'' \<rparr>" "\<lambda>_. Some [1]"]
  by (simp add: v1_wallet_seed_def zero_seed_def trimmed_def is_whitespace_def char_nat_def)


subsection \<open>What the listener lets anyone do\<close>

lemma v1_get_keeps: "fst (snd (route_get sv now req h w)) = h"
  by (simp add: route_get_def case_prod_beta Let_def)

lemma v1_router_keeps:
  assumes "rq_method req \<noteq> POST \<or> rq_path req \<noteq> ''/''"
  shows "fst (snd (build_router sv mint unix now later req h w)) = h"
  using assms v1_get_keeps [of sv now req h w]
  by (cases "rq_method req") (auto simp: build_router_def route_post_def case_prod_beta Let_def)

text \<open>
  Only a POST to the exchange or to the v1 payment page changes what the node keeps: every
  other request, whatever its path, method and body, leaves the peers, the firewall and the wallet as they are.
\<close>

theorem other_requests_change_nothing:
  assumes "rq_method req \<noteq> POST \<or> rq_path req \<notin> {''/tollgate/v1/exchange'', ''/''}"
  shows "fst (snd (node_router b api show_error page cfg sv mint unix now later req h w)) = h"
proof (cases "rq_path req = ''/tollgate/v1/exchange''")
  case True
  then show ?thesis using assms by (simp add: node_router_def)
next
  case False
  then have v1: "fst (snd (build_router sv mint unix now later req h w)) = h" 
    by (intro v1_router_keeps) (use False assms in auto)
  show ?thesis
  proof (cases "rq_path req = ''/tollgate/v1/ws'' \<or> rq_path req \<in> set admin_paths")
    case True
    then show ?thesis using False
      by (cases "web_ui_router api page cfg (status (sv_host sv) (sv_ip_string sv) h now) (rq_path req)")
        (auto simp: node_router_def Let_def admin_paths_def case_prod_beta)
  qed (use False v1 in \<open>simp add: node_router_def Let_def case_prod_beta\<close>)
qed


text \<open>
  C39. The listener that serves the peers answers \<^verbatim>\<open>GET /admin/api/config\<close> to any address, and the answer
  has the wallet's seed and the node's signing key in clear.
\<close>

theorem any_client_reads_the_seed:
  assumes "rq_method req = GET" and "rq_path req = ''/admin/api/config''"
  shows "\<exists>v. node_router b api show_error page cfg sv mint unix now later req h w =
      ((200, Text (json_print api (value_tree v))), h, w) \<and>
    Option.bind (json_get ''v1_compat'' v) (json_get ''wallet_seed'') =
      Some (case vc_wallet_seed (v1_compat cfg) of Some seed \<Rightarrow> JString seed | None \<Rightarrow> JNull) \<and>
    Option.bind (json_get ''v1_compat'' v) (json_get ''nostr_secret_key'') =
      Some (case vc_nostr_secret_key (v1_compat cfg) of Some k \<Rightarrow> JString k | None \<Rightarrow> JNull)"
proof -
  have "web_ui_router api page cfg snap ''/admin/api/config'' = Some (200, json_print api (revalued (config_tree api cfg)))" for snap
    by (simp add: web_ui_router_def api_config_def web_json_response_def)
  then have "node_router b api show_error page cfg sv mint unix now later req h w =
      ((200, Text (json_print api (revalued (config_tree api cfg)))), h, w)"
    using assms by (simp add: node_router_def admin_paths_def)
  then show ?thesis using config_value_v1 [of api cfg] v1_value_secrets [of "v1_compat cfg"] by auto
qed


subsection \<open>Closed instances\<close>

definition sample_repo :: repo_api where
  "sample_repo = \<lparr> store_opens = True, repo_builds = (\<lambda>_. True), is_mint_url = (\<lambda>_. True), adds_wallet = (\<lambda>_. True) \<rparr>"

definition plain_build :: build where
  "plain_build = \<lparr> pkg_version = ''0.1.0'', feature_v1_compat = True, feature_openwrt = False, feature_spilman = False \<rparr>"

definition sample_start :: "bool \<Rightarrow> (string list, ruleset) node" where
  "sample_start linux = serve_start plain_build (\<lambda>_. None) (\<lambda>s. s) sample_repo (\<lambda>b. b) (\<lambda>m. m) sample_nft linux
     (sv_host sample_server) (None, True) None Config_default None"

theorem node_starts_closed_witness:
  "nd_enforcing (sample_start True) \<and>
   \<not> forwards (nd_kernel (sample_start True)) \<lparr> pk_src = V4 1, pk_dst = V4 2, pk_established = False \<rparr>"
proof -
  have "nd_enforcing (sample_start True)"
    by (simp add: sample_start_def serve_start_def Config_default_def installs_forward_chain_def sample_init Let_def)
  moreover have "firewall Config_default = Enforcing" by (simp add: Config_default_def)
  ultimately show ?thesis
    using node_starts_closed [OF sample_nft_ok(1) _ sample_start_def [of True]] by simp
qed

definition admin_request :: request where
  "admin_request = \<lparr> rq_method = GET, rq_path = ''/admin/api/config'', rq_query = (\<lambda>_. None), rq_headers = (\<lambda>_. None), rq_body = [],
     rq_addr = V4 7 \<rparr>"


theorem other_requests_change_nothing_witness:
  "fst (snd (node_router plain_build sample_json (\<lambda>_. []) [] Config_default sample_server sample_mint 0 1 2
     admin_request (Driver_new (BootstrapWallet_new []) Price_default) 0)) = Driver_new (BootstrapWallet_new []) Price_default"
  by (rule other_requests_change_nothing) (simp add: admin_request_def)

theorem any_client_reads_the_seed_witness:
  "\<exists>v. node_router plain_build sample_json (\<lambda>_. []) []
      (Config_default\<lparr> v1_compat := V1CompatConfig_default\<lparr> vc_wallet_seed := Some ''5eed'' \<rparr> \<rparr>) sample_server sample_mint 0 1 2
      admin_request (Driver_new (BootstrapWallet_new []) Price_default) 0 =
      ((200, Text (json_print sample_json (value_tree v))), Driver_new (BootstrapWallet_new []) Price_default, 0) \<and>
    Option.bind (json_get ''v1_compat'' v) (json_get ''wallet_seed'') = Some (JString ''5eed'')"
  using any_client_reads_the_seed [of admin_request plain_build sample_json "\<lambda>_. []" "[]"
      "Config_default\<lparr> v1_compat := V1CompatConfig_default\<lparr> vc_wallet_seed := Some ''5eed'' \<rparr> \<rparr>"
      sample_server sample_mint 0 1 2 "Driver_new (BootstrapWallet_new []) Price_default" 0]
  by (auto simp: admin_request_def)

end
