(* ===== verification/Certificates.thy ===== *)
theory Certificates
  imports Json "HOL-Library.Multiset"
begin

section \<open>Certificates\<close>

text \<open>
  \<^verbatim>\<open>crates/tollgate-net/src/ssl.rs\<close>, the \<^verbatim>\<open>tollgate ssl\<close> command: issuing and removing certificates by running
  \<^verbatim>\<open>certbot\<close> over directories of the node's own, and the report on those there are. The world behind \<open>ssl_env\<close>
  runs commands and holds the files; the certificate parser is a crate's. Printed lines are results.
\<close>

definition CERTS_ROOT :: string where
  "CERTS_ROOT = ''/etc/tollgate/certs''"

definition LETSENCRYPT_DIR :: string where
  "LETSENCRYPT_DIR = ''/etc/tollgate/certs/letsencrypt''"

definition WORK_DIR :: string where
  "WORK_DIR = ''/var/lib/tollgate/certbot''"

definition LOGS_DIR :: string where
  "LOGS_DIR = ''/var/log/tollgate/certbot''"

text \<open>A run of certbot cannot be started, or has an exit code unless a signal ended it.\<close>

record 'w ssl_env =
  run_certbot :: "string list \<Rightarrow> 'w \<Rightarrow> (string + int option) \<times> 'w"
  path_exists :: "string \<Rightarrow> 'w \<Rightarrow> bool"
  create_dir_all :: "string \<Rightarrow> 'w \<Rightarrow> (string + unit) \<times> 'w"
  remove_dir_all :: "string \<Rightarrow> 'w \<Rightarrow> (string + unit) \<times> 'w"
  remove_file :: "string \<Rightarrow> 'w \<Rightarrow> (string + unit) \<times> 'w"

datatype ssl_error =
    CertbotNotFound string
  | CertbotBroken
  | CreateFailed string
  | SpawnFailed string
  | CertbotExited string string
  | RemoveFailed string string

definition exit_code_str :: "int option \<Rightarrow> string" where
  "exit_code_str c = (case c of Some n \<Rightarrow> show_int n | None \<Rightarrow> ''<signal>'')"

definition ensure_certbot_installed :: "'w ssl_env \<Rightarrow> 'w \<Rightarrow> (ssl_error + unit) \<times> 'w" where
  "ensure_certbot_installed env w =
     (case run_certbot env [''--version''] w of
        (Inl e, w') \<Rightarrow> (Inl (CertbotNotFound e), w')
      | (Inr c, w') \<Rightarrow> (if c = Some 0 then Inr () else Inl CertbotBroken, w'))"

text \<open>\<^verbatim>\<open>Path::join\<close>: an absolute path takes the place of what it is joined to.\<close>

definition path_join :: "string \<Rightarrow> string \<Rightarrow> string" where
  "path_join a b = (if starts_with ''/'' b then b else a @ ''/'' @ b)"


subsection \<open>Issuing\<close>

definition state_args :: "string list" where
  "state_args = [''--config-dir'', LETSENCRYPT_DIR, ''--work-dir'', WORK_DIR, ''--logs-dir'', LOGS_DIR]"

definition apply_args :: "string \<Rightarrow> string \<Rightarrow> string option \<Rightarrow> bool \<Rightarrow> string list" where
  "apply_args domain email dns_plugin staging =
     [''certonly'', ''--non-interactive'', ''--agree-tos'', ''--no-eff-email'', ''--email'', email, ''-d'', domain] @ state_args @
     (case dns_plugin of Some plugin \<Rightarrow> [''--dns-'' @ plugin] | None \<Rightarrow> [''--standalone'', ''--http-01-port'', ''80'']) @
     (if staging then [''--staging''] else [])"

definition ssl_apply ::
  "'w ssl_env \<Rightarrow> string \<Rightarrow> string \<Rightarrow> string option \<Rightarrow> bool \<Rightarrow> 'w \<Rightarrow> (ssl_error + string list) \<times> 'w" where
  "ssl_apply env domain email dns_plugin staging w =
     (case ensure_certbot_installed env w of
        (Inl e, w1) \<Rightarrow> (Inl e, w1)
      | (Inr _, w1) \<Rightarrow>
          (case create_dir_all env CERTS_ROOT w1 of
             (Inl e, w2) \<Rightarrow> (Inl (CreateFailed e), w2)
           | (Inr _, w2) \<Rightarrow>
               (case run_certbot env (apply_args domain email dns_plugin staging) w2 of
                  (Inl e, w3) \<Rightarrow> (Inl (SpawnFailed e), w3)
                | (Inr c, w3) \<Rightarrow>
                    if c \<noteq> Some 0 then (Inl (CertbotExited (exit_code_str c) domain), w3)
                    else (Inr [''SSL: certificate issued for '' @ domain,
                               ''  Live certs: '' @ LETSENCRYPT_DIR @ ''/live/'' @ domain @ ''/'',
                               ''  Remove with: tollgate ssl remove --domain '' @ domain], w3))))"


subsection \<open>Removing\<close>

fun remove_trees :: "'w ssl_env \<Rightarrow> string list \<Rightarrow> 'w \<Rightarrow> (ssl_error + unit) \<times> 'w" where
  "remove_trees env [] w = (Inr (), w)"
| "remove_trees env (p # ps) w =
     (if path_exists env p w
      then (case remove_dir_all env p w of
              (Inl e, w1) \<Rightarrow> (Inl (RemoveFailed p e), w1)
            | (Inr _, w1) \<Rightarrow> remove_trees env ps w1)
      else remove_trees env ps w)"

definition domain_dir :: "string \<Rightarrow> string \<Rightarrow> string" where
  "domain_dir sub domain = path_join (path_join LETSENCRYPT_DIR sub) domain"

definition renewal_conf :: "string \<Rightarrow> string" where
  "renewal_conf domain = path_join (path_join LETSENCRYPT_DIR ''renewal'') (domain @ ''.conf'')"

definition remove_by_hand :: "'w ssl_env \<Rightarrow> string \<Rightarrow> 'w \<Rightarrow> (ssl_error + unit) \<times> 'w" where
  "remove_by_hand env domain w =
     (case remove_trees env (map (\<lambda>sub. domain_dir sub domain) [''live'', ''archive'']) w of
        (Inl e, w1) \<Rightarrow> (Inl e, w1)
      | (Inr _, w1) \<Rightarrow>
          if path_exists env (renewal_conf domain) w1
          then (case remove_file env (renewal_conf domain) w1 of
                  (Inl e, w2) \<Rightarrow> (Inl (RemoveFailed (renewal_conf domain) e), w2)
                | (Inr _, w2) \<Rightarrow> (Inr (), w2))
          else (Inr (), w1))"

definition ssl_remove :: "'w ssl_env \<Rightarrow> string \<Rightarrow> 'w \<Rightarrow> (ssl_error + string list) \<times> 'w" where
  "ssl_remove env domain w =
     (if \<not> path_exists env (domain_dir ''live'' domain) w then (Inr [''SSL: no certificate found for '' @ domain], w)
      else case ensure_certbot_installed env w of
             (Inr _, w1) \<Rightarrow>
               (case run_certbot env ([''delete'', ''--cert-name'', domain, ''--non-interactive''] @ state_args) w1 of
                  (Inl e, w2) \<Rightarrow> (Inl (SpawnFailed e), w2)
                | (Inr c, w2) \<Rightarrow>
                    if c \<noteq> Some 0 then (Inl (CertbotExited (exit_code_str c) domain), w2)
                    else (Inr [''SSL: removed certificate for '' @ domain], w2))
           | (Inl _, w1) \<Rightarrow>
               (case remove_by_hand env domain w1 of
                  (Inl e, w2) \<Rightarrow> (Inl e, w2)
                | (Inr _, w2) \<Rightarrow> (Inr [''SSL: removed certificate for '' @ domain], w2)))"


subsection \<open>The report\<close>

text \<open>The time of expiry and now in seconds; how a time is written is the parser's.\<close>

definition format_cert_summary :: "(int \<Rightarrow> string) \<Rightarrow> int \<Rightarrow> int \<Rightarrow> string" where
  "format_cert_summary show_time expiry now =
     (if expiry < now then ''EXPIRED on '' @ show_time expiry
      else ''expires '' @ show_time expiry @ ''  ('' @ show_int ((expiry - now) div 86400) @ '' days remaining)'')"

text \<open>
  The entries of the directory: a name, whether it is a directory and, if it has a certificate, the
  expiry read from it or why it could not be read.
\<close>

type_synonym live_entry = "string \<times> bool \<times> (string + int) option"

definition collect_cert_summaries :: "(int \<Rightarrow> string) \<Rightarrow> int \<Rightarrow> live_entry list option \<Rightarrow> (string \<times> string) list" where
  "collect_cert_summaries show_time now live =
     (case live of
        None \<Rightarrow> []
      | Some entries \<Rightarrow>
          map (\<lambda>(domain, _, cert). (domain,
                 case cert of
                   Some (Inr expiry) \<Rightarrow> format_cert_summary show_time expiry now
                 | Some (Inl e) \<Rightarrow> ''(unreadable: '' @ e @ '')''
                 | None \<Rightarrow> []))
            (sort_key fst (filter (\<lambda>(_, is_dir, cert). is_dir \<and> cert \<noteq> None) entries)))"

definition print_status_report :: "(int \<Rightarrow> string) \<Rightarrow> int \<Rightarrow> live_entry list option \<Rightarrow> string list" where
  "print_status_report show_time now live =
     (let entries = collect_cert_summaries show_time now live
      in if entries = []
         then [''SSL: no certificates managed'',
               ''  Run '' @ [CHR 0x27] @ ''tollgate ssl apply --domain <domain> --email <email>'' @ [CHR 0x27] @ '' to issue one.'']
         else (''SSL: '' @ show_nat (length entries) @ '' certificate(s) under '' @ LETSENCRYPT_DIR @ ''/live/'') #
              map (\<lambda>(domain, summary). ''  '' @ domain @ [CHR 0x09] @ summary) entries)"



subsection \<open>What removing removes\<close>

text \<open>The file system: a path that was removed is gone, and removing brings nothing back.\<close>

definition fs_removes :: "'w ssl_env \<Rightarrow> bool" where
  "fs_removes env \<longleftrightarrow>
     (\<forall>p w w'. remove_dir_all env p w = (Inr (), w') \<longrightarrow>
        \<not> path_exists env p w' \<and> (\<forall>q. path_exists env q w' \<longrightarrow> path_exists env q w)) \<and>
     (\<forall>p w w'. remove_file env p w = (Inr (), w') \<longrightarrow>
        \<not> path_exists env p w' \<and> (\<forall>q. path_exists env q w' \<longrightarrow> path_exists env q w))"

lemma remove_trees_gone:
  assumes "fs_removes env" and "remove_trees env ps w = (Inr (), w')"
  shows "(\<forall>p\<in>set ps. \<not> path_exists env p w') \<and> (\<forall>q. path_exists env q w' \<longrightarrow> path_exists env q w)"
  using assms(2)
proof (induction ps arbitrary: w)
  case (Cons p ps)
  show ?case
  proof (cases "path_exists env p w")
    case True
    then obtain w1 where r: "remove_dir_all env p w = (Inr (), w1)" "remove_trees env ps w1 = (Inr (), w')"
      using Cons.prems by (auto split: prod.splits sum.splits)
    then have "\<not> path_exists env p w1" "\<forall>q. path_exists env q w1 \<longrightarrow> path_exists env q w"
      using assms(1) unfolding fs_removes_def by blast+
    then show ?thesis using Cons.IH [OF r(2)] by auto
  next
    case False
    then show ?thesis using Cons.IH [of w] Cons.prems by auto
  qed
qed simp

lemma by_hand_gone:
  assumes "fs_removes env" and "remove_by_hand env domain w = (Inr (), w')"
  shows "\<not> path_exists env (domain_dir ''live'' domain) w' \<and> \<not> path_exists env (domain_dir ''archive'' domain) w' \<and>
    \<not> path_exists env (renewal_conf domain) w'"
proof -
  obtain w1 where t: "remove_trees env (map (\<lambda>sub. domain_dir sub domain) [''live'', ''archive'']) w = (Inr (), w1)"
    and f: "if path_exists env (renewal_conf domain) w1 then remove_file env (renewal_conf domain) w1 = (Inr (), w') else w' = w1"
    using assms(2) unfolding remove_by_hand_def by (auto split: prod.splits sum.splits if_splits)
  have "(\<forall>q. path_exists env q w' \<longrightarrow> path_exists env q w1) \<and> \<not> path_exists env (renewal_conf domain) w'"
    using f assms(1) unfolding fs_removes_def by (metis (full_types))
  with remove_trees_gone [OF assms(1) t] show ?thesis by auto
qed

lemma remove_without_certbot:
  assumes "path_exists env (domain_dir ''live'' domain) w" and "ensure_certbot_installed env w = (Inl e, w1)"
    and "ssl_remove env domain w = (Inr out, w')"
  shows "remove_by_hand env domain w1 = (Inr (), w')"
  using assms by (auto simp: ssl_remove_def split: prod.splits sum.splits)

text \<open>
  Where certbot is missing, \<^verbatim>\<open>ssl remove\<close> does the work itself: when it reports success, neither the live
  directory nor the archive nor the renewal file of the domain is left.
\<close>

theorem removed_certificate_is_gone:
  assumes "fs_removes env" and "path_exists env (domain_dir ''live'' domain) w"
    and "ensure_certbot_installed env w = (Inl e, w1)" and "ssl_remove env domain w = (Inr out, w')"
  shows "\<not> path_exists env (domain_dir ''live'' domain) w' \<and> \<not> path_exists env (domain_dir ''archive'' domain) w' \<and>
    \<not> path_exists env (renewal_conf domain) w'"
  by (rule by_hand_gone [OF assms(1) remove_without_certbot [OF assms(2-4)]])

text \<open>
  C40. The domain is not checked: given an absolute path, the same command deletes that very directory, wherever
  it is, with everything in it.
\<close>

theorem absolute_domain_is_deleted:
  assumes "fs_removes env" and "starts_with ''/'' domain" and "path_exists env domain w"
    and "ensure_certbot_installed env w = (Inl e, w1)" and "ssl_remove env domain w = (Inr out, w')"
  shows "\<not> path_exists env domain w'"
proof -
  have "domain_dir sub domain = domain" for sub using assms(2) by (simp add: domain_dir_def path_join_def)
  then show ?thesis using by_hand_gone [OF assms(1) remove_without_certbot [OF _ assms(4,5)]] assms(3) by simp
qed

text \<open>
  The report lists exactly the directories that have a certificate, each once and in the order of their names.
\<close>

theorem report_lists_certificates:
  "sorted (map fst (collect_cert_summaries show_time now (Some entries))) \<and>
   mset (map fst (collect_cert_summaries show_time now (Some entries))) =
     mset (map fst (filter (\<lambda>(_, is_dir, cert). is_dir \<and> cert \<noteq> None) entries))"
proof -
  have "map fst (collect_cert_summaries show_time now (Some entries)) =
      map fst (sort_key fst (filter (\<lambda>(_, is_dir, cert). is_dir \<and> cert \<noteq> None) entries))"
    by (simp add: collect_cert_summaries_def comp_def case_prod_beta)
  then show ?thesis by simp
qed


subsection \<open>Closed instances\<close>

definition bare_host :: "string list ssl_env" where
  "bare_host =
     \<lparr> run_certbot = (\<lambda>_ w. (Inl ''not found'', w)), path_exists = (\<lambda>p w. p \<in> set w), create_dir_all = (\<lambda>p w. (Inr (), p # w)),
       remove_dir_all = (\<lambda>p w. (Inr (), filter (\<lambda>q. q \<noteq> p) w)), remove_file = (\<lambda>p w. (Inr (), filter (\<lambda>q. q \<noteq> p) w)) \<rparr>"

lemma bare_host_removes: "fs_removes bare_host"
  by (auto simp: fs_removes_def bare_host_def)

theorem removed_certificate_is_gone_witness:
  "\<not> path_exists bare_host (domain_dir ''live'' ''a.example'') []"
proof -
  let ?live = "domain_dir ''live'' ''a.example''"
  have v: "ensure_certbot_installed bare_host [?live] = (Inl (CertbotNotFound ''not found''), [?live])"
    by (simp add: ensure_certbot_installed_def bare_host_def)
  have "ssl_remove bare_host ''a.example'' [?live] = (Inr [''SSL: removed certificate for a.example''], [])"
    by (simp add: ssl_remove_def v remove_by_hand_def) (simp add: bare_host_def domain_dir_def path_join_def)
  from removed_certificate_is_gone [OF bare_host_removes _ v this] show ?thesis by (simp add: bare_host_def)
qed

theorem absolute_domain_is_deleted_witness:
  "\<exists>w'. fst (ssl_remove bare_host ''/srv'' [''/srv'', ''/home'']) = Inr [''SSL: removed certificate for /srv''] \<and>
     snd (ssl_remove bare_host ''/srv'' [''/srv'', ''/home'']) = w' \<and> \<not> path_exists bare_host ''/srv'' w'"
proof -
  have d: "domain_dir sub ''/srv'' = ''/srv''" for sub by (simp add: domain_dir_def path_join_def starts_with_def)
  have v: "ensure_certbot_installed bare_host w = (Inl (CertbotNotFound ''not found''), w)" for w
    by (simp add: ensure_certbot_installed_def bare_host_def)
  have r: "ssl_remove bare_host ''/srv'' [''/srv'', ''/home''] = (Inr [''SSL: removed certificate for /srv''], [''/home''])"
    by (simp add: ssl_remove_def v d remove_by_hand_def)
      (simp add: bare_host_def renewal_conf_def path_join_def starts_with_def)
  have "\<not> path_exists bare_host ''/srv'' [''/home'']"
    by (rule absolute_domain_is_deleted [OF bare_host_removes _ _ v r]) (simp_all add: starts_with_def bare_host_def)
  then show ?thesis using r by simp
qed

end
