(* ===== verification/Commands.thy ===== *)
theory Commands
  imports Upstream_Client V1_Crowsnest Certificates
begin

section \<open>The commands of the program\<close>

text \<open>
  \<^verbatim>\<open>crates/tollgate-net/src/main.rs\<close>: the command line, the start of the program, and the commands that
  buy: \<^verbatim>\<open>connect\<close>, \<^verbatim>\<open>pay\<close> and \<^verbatim>\<open>consume\<close> (with the lines that \<^verbatim>\<open>consume\<close> of \<^verbatim>\<open>client.rs\<close> prints), and the two v1 modes,
  \<^verbatim>\<open>v1-consume\<close> and \<^verbatim>\<open>v1-auto\<close>. The syntax of the command line is that of \<^verbatim>\<open>clap\<close>: a value of \<open>Command\<close> is what it
  yields. \<^verbatim>\<open>serve\<close> is in the theory of the node. Printed lines are the result; logging is left out.
\<close>

datatype SslSubcommand =
    Apply string string "string option" bool
  | Remove string
  | SslStatus

datatype Command =
    Serve "string option"
  | Connect string
  | Pay string string u64
  | Consume string string u64 u64 u64 u32 u8 "string option" bool
  | V1Consume string string u64 u64 bool
  | V1Auto string u64 u64 "string list option"
  | Ssl SslSubcommand

record Cli =
  cli_config :: "string option"
  cli_command :: "Command option"

datatype main_error = LoadFailed load_error | IdentityFailed identity_error

definition main_start ::
  "(string \<Rightarrow> config option) \<Rightarrow> string option \<Rightarrow> 'k key_api \<Rightarrow> fs_answers \<Rightarrow> 'k \<Rightarrow> Cli \<Rightarrow> files \<Rightarrow>
   files \<times> (main_error + config \<times> 'k \<times> Command)" where
  "main_start from_yaml config_dir keys fs fresh cli files =
     (case Config_load from_yaml config_dir files (cli_config cli) of
        Inl e \<Rightarrow> (files, Inl (LoadFailed e))
      | Inr cfg \<Rightarrow>
          (case load_or_generate keys fs fresh cfg files of
             (files', Inl e) \<Rightarrow> (files', Inl (IdentityFailed e))
           | (files', Inr key) \<Rightarrow>
               (files', Inr (cfg, key, case cli_command cli of Some c \<Rightarrow> c | None \<Rightarrow> Serve None))))"

text \<open>The interval between polls only delays the loop and is not part of the options here.\<close>

definition consume_opts ::
  "u64 \<Rightarrow> u64 \<Rightarrow> u32 \<Rightarrow> u8 \<Rightarrow> string option \<Rightarrow> bool \<Rightarrow> ConsumeOpts" where
  "consume_opts amount topup polls understate iface upstream =
     \<lparr> amount_sat = amount, topup_sat = topup, max_polls = (if 0 < polls then Some polls else None),
       understate_received_pct = understate, meter_iface = iface, meter_upstream = upstream \<rparr>"


subsection \<open>What is printed\<close>

definition show_i64 :: "i64 \<Rightarrow> string" where
  "show_i64 n = show_int (sint n)"

definition show_bool :: "bool \<Rightarrow> string" where
  "show_bool b = (if b then ''true'' else ''false'')"

definition format_price_sheet :: "price_sheet \<Rightarrow> string" where
  "format_price_sheet sheet =
     (let n = show_nat (length (ps_products sheet))
      in case Option.bind (first_option (ps_products sheet)) (first_option \<circ> pe_mint_options) of
           Some mint \<Rightarrow>
             ''PRICESHEET products='' @ n @ '' mints='' @
             show_nat (case first_option (ps_products sheet) of None \<Rightarrow> 0 | Some p \<Rightarrow> length (pe_mint_options p)) @
             '' per_second='' @ show_i64 (mo_price_per_second mint) @ '' per_unit='' @ show_i64 (mo_price_per_unit mint) @
             '' mint_unit='' @ mo_mint_unit mint
         | None \<Rightarrow> ''PRICESHEET products='' @ n @ '' mints=0'')"

definition sheet_line :: "price_sheet option \<Rightarrow> string list" where
  "sheet_line s = (case s of None \<Rightarrow> [] | Some sheet \<Rightarrow> [format_price_sheet sheet])"

definition connect_command :: "'w client_env \<Rightarrow> buyer \<Rightarrow> 'w \<Rightarrow> string list \<times> (client_error + unit) \<times> 'w" where
  "connect_command env b w =
     (case detect env b w of
        (Inl e, w') \<Rightarrow> ([], Inl e, w')
      | (Inr d, w') \<Rightarrow>
          ((''DETECTED peer='' @ det_pubkey_hex d @ '' unit='' @ det_unit d @ '' version='' @ show_nat (unat (det_version d))) #
             sheet_line (det_price_sheet d), Inr (), w'))"

definition pay_command :: "'w client_env \<Rightarrow> buyer \<Rightarrow> u64 \<Rightarrow> 'w \<Rightarrow> string list \<times> (client_error + unit) \<times> 'w" where
  "pay_command env b amount w =
     (case pay env b amount w of
        (Inl e, w') \<Rightarrow> ([], Inl e, w')
      | (Inr p, w') \<Rightarrow>
          ((''PAID peer='' @ paid_pubkey_hex p @ '' accepted='' @ show_bool (paid_accepted p) @ '' reason='' @
              (case paid_reason p of None \<Rightarrow> ''-'' | Some r \<Rightarrow> r)) # sheet_line (paid_price_sheet p),
           if paid_accepted p then Inr ()
           else Inl (BootstrapRejected (case paid_reason p of None \<Rightarrow> ''unknown'' | Some r \<Rightarrow> r)), w'))"

definition consume_line :: "u64 \<Rightarrow> ConsumeEvent \<Rightarrow> string list" where
  "consume_line topup ev =
     (if ev_poll ev = 0
      then [''CONSUME start peer='' @ ev_peer_pubkey ev @ '' paid='' @ show_nat (unat (ev_paid_scaled ev div PRICING_SCALE)) @
              '' sat per_second='' @ show_i64 (per_second (ev_price ev)) @ '' per_unit='' @ show_i64 (per_unit (ev_price ev))]
      else (case ev_report ev of
              Some r \<Rightarrow>
                [''CONSUME poll='' @ show_nat (unat (ev_poll ev)) @ '' delivered='' @ show_nat (unat (mr_delivered r)) @
                 '' elapsed_ms='' @ show_nat (unat (mr_elapsed_ms r)) @ '' remaining='' @ show_i64 (ev_remaining_scaled ev)]
            | None \<Rightarrow>
                [''CONSUME poll='' @ show_nat (unat (ev_poll ev)) @ '' (no report yet)'' @
                 (if ev_cut_off ev then '' cut-off'' else [])]) @
           (if ev_topped_up ev then [''CONSUME topup amount='' @ show_nat (unat topup) @ '' sat cut_off='' @ show_bool (ev_cut_off ev) @
                 '' paid_scaled='' @ show_nat (unat (ev_paid_scaled ev))] else []))"


definition consume_command ::
  "'w client_env \<Rightarrow> buyer \<Rightarrow> ConsumeOpts \<Rightarrow> nat \<Rightarrow> 'w \<Rightarrow> string list \<times> (client_error + unit) option \<times> 'w" where
  "consume_command env b opts n w =
     (let (evs, r, w') = run_consume env b opts n w in (concat (map (consume_line (topup_sat opts)) evs), r, w'))"

definition buyer_of :: "config \<Rightarrow> bytes \<Rightarrow> string \<Rightarrow> string \<Rightarrow> buyer" where
  "buyer_of cfg key peer mint = \<lparr> b_base_url = peer, b_key = key, b_unit = unit_name cfg, b_mint_url = mint \<rparr>"

text \<open>The commands that talk to a peer; \<open>n\<close> bounds the polls of \<^verbatim>\<open>consume\<close>.\<close>

fun buying_command ::
  "'w client_env \<Rightarrow> config \<Rightarrow> bytes \<Rightarrow> nat \<Rightarrow> Command \<Rightarrow> 'w \<Rightarrow> (string list \<times> (client_error + unit) option \<times> 'w) option" where
  "buying_command env cfg key n (Connect peer) w =
     (let (out, r, w') = connect_command env (buyer_of cfg key peer []) w in Some (out, Some r, w'))"
| "buying_command env cfg key n (Pay peer mint amount) w =
     (let (out, r, w') = pay_command env (buyer_of cfg key peer mint) amount w in Some (out, Some r, w'))"
| "buying_command env cfg key n (Consume peer mint amount topup interval polls understate iface upstream) w =
     Some (consume_command env (buyer_of cfg key peer mint) (consume_opts amount topup polls understate iface upstream) n w)"
| "buying_command env cfg key n _ w = None"

text \<open>The certificates the report is on, and the time, are read from the world.\<close>

fun ssl_dispatch ::
  "'w ssl_env \<Rightarrow> (int \<Rightarrow> string) \<Rightarrow> ('w \<Rightarrow> int \<times> live_entry list option) \<Rightarrow> SslSubcommand \<Rightarrow> 'w \<Rightarrow> (ssl_error + string list) \<times> 'w" where
  "ssl_dispatch env show_time live (Apply domain email dns staging) w = ssl_apply env domain email dns staging w"
| "ssl_dispatch env show_time live (Remove domain) w = ssl_remove env domain w"
| "ssl_dispatch env show_time live SslStatus w = (let (now, entries) = live w in (Inr (print_status_report show_time now entries), w))"


subsection \<open>The v1 modes\<close>

definition v1_base_url :: "string \<Rightarrow> string" where
  "v1_base_url gateway = (if starts_with ''http'' gateway then gateway else ''http://'' @ gateway)"

text \<open>The product is taken in the width of the machine, as a release build does.\<close>

definition v1_mode_config :: "string \<Rightarrow> string \<Rightarrow> u64 \<Rightarrow> u64 \<Rightarrow> V1ClientConfig" where
  "v1_mode_config ip mint amount interval =
     \<lparr> gateway_ip = ip, mac_address = ''00:00:00:00:00:00'', our_mint_urls = [mint], pay_unit = ''sat'',
       max_price_per_ms = Finite 0, max_price_per_byte = Finite 0, preferred_allotment = amount * 60000,
       poll_interval_secs = interval, renewal_threshold = Finite (round_f64 (2 / 10)) \<rparr>"

definition v1_consume_config :: "string \<Rightarrow> string \<Rightarrow> u64 \<Rightarrow> u64 \<Rightarrow> V1ClientConfig" where
  "v1_consume_config gateway = v1_mode_config (v1_base_url gateway)"

datatype v1_mode_error = WalletInitFailed V1WalletError | V1ClientFailed V1ClientError

definition v1_consume ::
  "('p, 'm, 'w) v1_env \<Rightarrow> string \<Rightarrow> string \<Rightarrow> u64 \<Rightarrow> u64 \<Rightarrow> nat \<Rightarrow> 'w \<Rightarrow> ((v1_mode_error + unit) \<times> 'w) option" where
  "v1_consume env gateway mint amount interval n w =
     (case CdkWallet_new (cdk env) mint w of
        Inl e \<Rightarrow> Some (Inl (WalletInitFailed e), w)
      | Inr w1 \<Rightarrow>
          map_option (\<lambda>(r, cl, w2). (case r of Inl e \<Rightarrow> Inl (V1ClientFailed e) | Inr _ \<Rightarrow> Inr (), w2))
            (v1_run env n (V1Client_new (v1_consume_config gateway mint amount interval)) w1))"

record v1_auto_setup =
  auto_client :: V1ClientConfig
  auto_tracker :: UsageTrackerConfig
  auto_crowsnest :: CrowsnestConfig

definition v1_auto :: "string \<Rightarrow> u64 \<Rightarrow> u64 \<Rightarrow> string list option \<Rightarrow> v1_auto_setup" where
  "v1_auto mint amount interval scan_interfaces =
     \<lparr> auto_client = v1_mode_config [] mint amount interval,
       auto_tracker = \<lparr> tk_poll_interval = unat interval * 1000, tk_renewal_threshold = Finite (round_f64 (8 / 10)) \<rparr>,
       auto_crowsnest = CrowsnestConfig_default\<lparr>
         gateway_ips := (case scan_interfaces of None \<Rightarrow> [''192.168.1.1''] | Some ips \<Rightarrow> ips), scan_interval := 30000 \<rparr> \<rparr>"


subsection \<open>What the commands report\<close>

text \<open>
  The exit status of \<^verbatim>\<open>pay\<close> is that of the payment: the command succeeds exactly when the
  peer was reached and acknowledged the token as accepted, and then the printed line says so.
\<close>

theorem pay_succeeds_when_accepted:
  "(\<exists>out w'. pay_command env b amount w = (out, Inr (), w')) \<longleftrightarrow>
   (\<exists>p w'. pay env b amount w = (Inr p, w') \<and> paid_accepted p \<and>
      pay_command env b amount w =
        ((''PAID peer='' @ paid_pubkey_hex p @ '' accepted=true reason='' @
            (case paid_reason p of None \<Rightarrow> ''-'' | Some r \<Rightarrow> r)) # sheet_line (paid_price_sheet p), Inr (), w'))"
  by (cases "pay env b amount w"; cases "fst (pay env b amount w)")
    (auto simp: pay_command_def show_bool_def)

text \<open>
  Neither v1 mode can buy: both pass a limit of zero for the price, so an offer that costs
  anything for a step of any size is refused before the wallet is asked for a token.
\<close>

theorem v1_modes_cannot_buy:
  assumes "cl_config cl = v1_mode_config ip mint amount interval"
    and "find_offer env cl w = (Inr (ad, opt), w1)" and "0 < price_per_step opt" and "0 < ad_step_size ad"
  shows "\<exists>e. buy env cl w = Some (Inl (Pricing e), cl, w1)"
proof -
  have "\<exists>e. validate_budget opt (ad_step_size ad) (ad_metric ad) (Finite 0) (Finite 0) = Inl e"
    using zero_limit_refuses [OF assms(3,4)] .
  then show ?thesis using assms(1,2) by (auto simp: buy_def v1_mode_config_def)
qed

text \<open>
  \<^verbatim>\<open>v1-consume\<close> never asks the gateway it is given: the client puts \<^verbatim>\<open>http://\<close> and \<^verbatim>\<open>:2121\<close> around an address that
  already is an origin, so that every address it asks starts with \<^verbatim>\<open>http://http\<close>.
\<close>

theorem v1_consume_doubles_the_scheme:
  "base_url (cl_http (V1Client_new (v1_consume_config gateway mint amount interval))) = ''http://'' @ v1_base_url gateway @ '':2121'' \<and>
   starts_with ''http://http'' (base_url (cl_http (V1Client_new (v1_consume_config gateway mint amount interval))))"
proof -
  have "Suc (Suc (Suc (Suc 0))) \<le> length gateway" if "take (Suc (Suc (Suc (Suc 0)))) gateway = ''http''"
    using arg_cong [OF that, of length] by simp
  then show ?thesis
    by (simp add: V1Client_new_def http_new_def http_new_with_base_url_def v1_consume_config_def v1_mode_config_def
      v1_base_url_def starts_with_def)
qed

definition priced_advertisement :: nostr_event where
  "priced_advertisement =
     \<lparr> ev_kind = ADVERTISEMENT_KIND, ev_tags = [[''price_per_step'', ''cashu'', show_u64 1, ''sat'', ''m'']], ev_content = [], ev_pubkey = ''gw'' \<rparr>"

definition priced_web :: "u64 http_api" where
  "priced_web = attached_http\<lparr> nostr := (sample_nostr ''us'')\<lparr> event_from_json := (\<lambda>_. Some priced_advertisement) \<rparr> \<rparr>"

theorem v1_modes_cannot_buy_witness:
  "\<exists>e. buy \<lparr> web = priced_web, cdk = stuck_mint \<rparr> (V1Client_new (v1_consume_config ''gw:2121'' ''m'' 8 5)) 0 =
     Some (Inl (Pricing e), V1Client_new (v1_consume_config ''gw:2121'' ''m'' 8 5), 0)"
proof (rule v1_modes_cannot_buy)
  show "find_offer \<lparr> web = priced_web, cdk = stuck_mint \<rparr> (V1Client_new (v1_consume_config ''gw:2121'' ''m'' 8 5)) 0 =
      (Inr (priced_advertisement, \<lparr> asset_type = ''cashu'', price_per_step = 1, po_unit = ''sat'', po_mint_url = ''m'', min_steps = 0 \<rparr>), 0)"
    by (simp add: find_offer_def fetch_advertisement_def V1Client_new_def v1_consume_config_def v1_mode_config_def http_new_def
      http_new_with_base_url_def eval_nat_numeral fetch_advertisement_once_def checked_text_def priced_web_def attached_http_def
      Advertisement_from_json_def event_of_kind_def priced_advertisement_def pricing_options_def item_def option_of_tag_def
      select_cheapest_compatible_def compatible_def)
qed (simp_all add: V1Client_new_def v1_consume_config_def ad_step_size_def adv_step_size_def tag_value_def priced_advertisement_def)

end
