(* ===== verification/Spilman.thy ===== *)
theory Spilman
  imports V1_Client
begin

section \<open>Payment channels\<close>

text \<open>
  \<^verbatim>\<open>crates/tollgate-net/src/spilman\<close>: the mint calls and the service around the channel bridge of
  \<^verbatim>\<open>cdk-spilman\<close> (\<^verbatim>\<open>service.rs\<close>), the choice of a keyset and the minting of funding proofs (\<^verbatim>\<open>wallet.rs\<close>), and the
  command that pays through a channel (\<^verbatim>\<open>v1_consume_spilman\<close> of \<^verbatim>\<open>main.rs\<close>). The bridge, the construction of proofs and
  the reading of a keyset are the crate's: the record \<open>bridge\<close> holds them.
\<close>

type_synonym 'w reply = "(string + nat \<times> (string + string)) \<times> 'w"


subsection \<open>Calls to a mint\<close>

text \<open>
  What each call does with the reply: a failed request, a status other than success with its body, and
  a body that cannot be read are errors.
\<close>

definition mint_text :: "'w http_api \<Rightarrow> string \<Rightarrow> 'w reply \<Rightarrow> (string + string) \<times> 'w" where
  "mint_text api what rw =
     (case rw of
        (Inl e, w) \<Rightarrow> (Inl (what @ '' request failed: '' @ e), w)
      | (Inr (code, t), w) \<Rightarrow>
          if \<not> (200 \<le> code \<and> code < 300)
          then (Inl (what @ '' failed: '' @ status_text api code @ '' - '' @ (case t of Inr b \<Rightarrow> b | Inl _ \<Rightarrow> [])), w)
          else (case t of Inl e \<Rightarrow> Inl (''failed to read '' @ what @ '' response: '' @ e) | Inr b \<Rightarrow> Inr b, w))"

definition call_mint_swap :: "'w http_api \<Rightarrow> string \<Rightarrow> string \<Rightarrow> 'w \<Rightarrow> (string + string) \<times> 'w" where
  "call_mint_swap api mint body w = mint_text api ''swap'' (http_post api (mint @ ''/v1/swap'') ''application/json'' body w)"

definition call_mint_keysets :: "'w http_api \<Rightarrow> string \<Rightarrow> 'w \<Rightarrow> (string + string) \<times> 'w" where
  "call_mint_keysets api mint w = mint_text api ''keysets'' (http_get api (mint @ ''/v1/keysets'') w)"

definition call_mint_keys :: "'w http_api \<Rightarrow> string \<Rightarrow> string \<Rightarrow> 'w \<Rightarrow> (string + string) \<times> 'w" where
  "call_mint_keys api mint keyset w = mint_text api ''keys'' (http_get api (mint @ ''/v1/keys/'' @ keyset) w)"

definition call_mint_restore :: "'w http_api \<Rightarrow> string \<Rightarrow> string \<Rightarrow> 'w \<Rightarrow> (string + string) \<times> 'w" where
  "call_mint_restore api mint body w = mint_text api ''restore'' (http_post api (mint @ ''/v1/restore'') ''application/json'' body w)"


subsection \<open>Keysets\<close>

definition json_index :: "string \<Rightarrow> json \<Rightarrow> json" where
  "json_index k j = (case json_get k j of None \<Rightarrow> JNull | Some v \<Rightarrow> v)"

text \<open>
  A request whose body is read and parsed whatever its status is, with what is said when each of the
  three fails. The parser's own message is left out.
\<close>

definition fetch_json :: "'w http_api \<Rightarrow> string \<Rightarrow> string \<Rightarrow> string \<Rightarrow> 'w reply \<Rightarrow> (string + json) \<times> 'w" where
  "fetch_json api sending reading parsing rw =
     (case rw of
        (Inl e, w) \<Rightarrow> (Inl (sending @ e), w)
      | (Inr (_, Inl e), w) \<Rightarrow> (Inl (reading @ e), w)
      | (Inr (_, Inr body), w) \<Rightarrow> (case json_parse api body of None \<Rightarrow> Inl parsing | Some j \<Rightarrow> Inr j, w))"

definition active_sat :: "json \<Rightarrow> bool" where
  "active_sat ks \<longleftrightarrow> as_str (json_index ''unit'' ks) = Some ''sat'' \<and> as_bool (json_index ''active'' ks) = Some True"

definition input_fee_ppk :: "json \<Rightarrow> u64" where
  "input_fee_ppk ks =
     (case as_u64 (json_index ''input_fee_ppk'' ks) of
        Some n \<Rightarrow> n
      | None \<Rightarrow> (case as_u64 (json_index ''inputFeePpk'' ks) of Some n \<Rightarrow> n | None \<Rightarrow> 0))"

definition keyset_info_json :: "string \<Rightarrow> json \<Rightarrow> u64 \<Rightarrow> json" where
  "keyset_info_json keyset_id keyset_data fee =
     json_object [(''keysetId'', JString keyset_id), (''unit'', JString ''sat''), (''keys'', json_index ''keys'' keyset_data),
       (''inputFeePpk'', JInt (uint fee))]"

definition fetch_active_keyset_info ::
  "'w http_api \<Rightarrow> (string \<Rightarrow> string + 'ki) \<Rightarrow> string \<Rightarrow> 'w \<Rightarrow> (string + string \<times> 'ki) \<times> 'w" where
  "fetch_active_keyset_info api parse_info mint w =
     (case fetch_json api ''GET /v1/keysets: '' ''read keysets body: '' ''parse keysets'' (http_get api (mint @ ''/v1/keysets'') w) of
        (Inl e, w1) \<Rightarrow> (Inl e, w1)
      | (Inr body, w1) \<Rightarrow>
          (case as_array (json_index ''keysets'' body) of
             None \<Rightarrow> (Inl ''missing keysets array'', w1)
           | Some keysets \<Rightarrow>
               (case List.find active_sat keysets of
                  None \<Rightarrow> (Inl ''no active sat keyset'', w1)
                | Some ks \<Rightarrow>
                    (case as_str (json_index ''id'' ks) of
                       None \<Rightarrow> (Inl ''missing keyset id'', w1)
                     | Some keyset_id \<Rightarrow>
                         (case fetch_json api ''GET /v1/keys: '' ''read keys body: '' ''parse keys'' (http_get api (mint @ ''/v1/keys/'' @ keyset_id) w1) of
                            (Inl e, w2) \<Rightarrow> (Inl e, w2)
                          | (Inr keys_body, w2) \<Rightarrow>
                              (case Option.bind (as_array (json_index ''keysets'' keys_body)) (\<lambda>a. case a of [] \<Rightarrow> None | x # _ \<Rightarrow> Some x) of
                                 None \<Rightarrow> (Inl ''missing keyset in keys response'', w2)
                               | Some keyset_data \<Rightarrow>
                                   let info = json_print api (keyset_info_json keyset_id keyset_data (input_fee_ppk ks))
                                   in (case parse_info info of Inl e \<Rightarrow> Inl e | Inr ki \<Rightarrow> Inr (info, ki), w2)))))))"


subsection \<open>Funding proofs\<close>

fun poll_quote :: "'w http_api \<Rightarrow> string \<Rightarrow> string \<Rightarrow> nat \<Rightarrow> 'w \<Rightarrow> (string + unit) \<times> 'w" where
  "poll_quote api mint quote_id 0 w = (Inl (''quote '' @ quote_id @ '' not paid after 60s''), w)"
| "poll_quote api mint quote_id (Suc left) w =
     (case fetch_json api ''poll quote: '' ''read poll body: '' ''parse poll''
             (http_get api (mint @ ''/v1/mint/quote/bolt11/'' @ quote_id) (sleep_ms api 500 w)) of
        (Inl e, w1) \<Rightarrow> (Inl e, w1)
      | (Inr st, w1) \<Rightarrow>
          if as_str (json_index ''state'' st) = Some ''PAID'' then (Inr (), w1) else poll_quote api mint quote_id left w1)"

definition mint_proofs_from_funding_outputs ::
  "'w http_api \<Rightarrow> (string \<Rightarrow> string \<Rightarrow> string \<Rightarrow> string + string) \<Rightarrow> string \<Rightarrow> string \<Rightarrow> string \<Rightarrow> 'w \<Rightarrow> (string + string) \<times> 'w" where
  "mint_proofs_from_funding_outputs api construct_proofs mint funding_outputs keyset_info w =
     (case json_parse api funding_outputs of
        None \<Rightarrow> (Inl ''parse funding outputs'', w)
      | Some outs \<Rightarrow>
          (case as_u64 (json_index ''funding_token_nominal'' outs) of
             None \<Rightarrow> (Inl ''missing funding_token_nominal'', w)
           | Some nominal \<Rightarrow>
               let secrets = json_print api (json_index ''secrets_with_blinding'' outs);
                   quote_body = json_print api (json_object [(''amount'', JInt (uint nominal)), (''unit'', JString ''sat'')])
               in case fetch_json api ''POST /v1/mint/quote/bolt11: '' ''read quote body: '' ''parse quote''
                       (http_post api (mint @ ''/v1/mint/quote/bolt11'') ''application/json'' quote_body w) of
                    (Inl e, w1) \<Rightarrow> (Inl e, w1)
                  | (Inr q, w1) \<Rightarrow>
                      (case as_str (json_index ''quote'' q) of
                         None \<Rightarrow> (Inl ''missing quote id'', w1)
                       | Some quote_id \<Rightarrow>
                           (case poll_quote api mint quote_id 120 w1 of
                              (Inl e, w2) \<Rightarrow> (Inl e, w2)
                            | (Inr _, w2) \<Rightarrow>
                                let mint_body = json_print api (json_object [(''quote'', JString quote_id),
                                      (''outputs'', json_index ''blinded_messages'' outs)])
                                in case fetch_json api ''POST /v1/mint/bolt11: '' ''read mint body: '' ''parse mint''
                                        (http_post api (mint @ ''/v1/mint/bolt11'') ''application/json'' mint_body w2) of
                                     (Inl e, w3) \<Rightarrow> (Inl e, w3)
                                   | (Inr res, w3) \<Rightarrow>
                                       (case as_array (json_index ''signatures'' res) of
                                          None \<Rightarrow> (Inl ''missing signatures in mint response'', w3)
                                        | Some sigs \<Rightarrow>
                                            (construct_proofs (json_print api (JArray sigs)) secrets keyset_info, w3))))))"



subsection \<open>The service\<close>

record ('pay, 'w) bridge =
  br_open :: "string \<Rightarrow> string \<Rightarrow> string \<Rightarrow> u64 \<Rightarrow> string \<Rightarrow> u64 \<Rightarrow> 'w \<Rightarrow> (string + string) \<times> 'w"
  br_pay :: "string \<Rightarrow> u64 \<Rightarrow> 'w \<Rightarrow> (string + 'pay) \<times> 'w"
  br_pay_with_funding :: "string \<Rightarrow> u64 \<Rightarrow> 'w \<Rightarrow> (string + 'pay) \<times> 'w"
  br_close :: "string \<Rightarrow> u64 \<Rightarrow> 'w \<Rightarrow> (string + 'pay) \<times> 'w"
  br_closed :: "string \<Rightarrow> 'w \<Rightarrow> (string + unit) \<times> 'w"

record ('pay, 'w) SpilmanService =
  client_bridge :: "('pay, 'w) bridge"
  spl_mint_url :: string
  sender_pubkey_hex :: string

definition SpilmanService_new :: "('pay, 'w) bridge \<Rightarrow> string \<Rightarrow> string \<Rightarrow> ('pay, 'w) SpilmanService" where
  "SpilmanService_new br mint sender = \<lparr> client_bridge = br, spl_mint_url = mint, sender_pubkey_hex = sender \<rparr>"

definition open_channel ::
  "('pay, 'w) SpilmanService \<Rightarrow> u64 \<Rightarrow> string \<Rightarrow> string \<Rightarrow> u64 \<Rightarrow> string \<Rightarrow> u64 \<Rightarrow> 'w \<Rightarrow> (string + string) \<times> 'w" where
  "open_channel svc now token receiver expiry_secs keyset_info max_amount w =
     br_open (client_bridge svc) token receiver (sender_pubkey_hex svc) (saturating_add now expiry_secs) keyset_info max_amount w"

definition create_payment :: "('pay, 'w) SpilmanService \<Rightarrow> string \<Rightarrow> u64 \<Rightarrow> 'w \<Rightarrow> (string + 'pay) \<times> 'w" where
  "create_payment svc = br_pay (client_bridge svc)"

definition create_payment_with_funding :: "('pay, 'w) SpilmanService \<Rightarrow> string \<Rightarrow> u64 \<Rightarrow> 'w \<Rightarrow> (string + 'pay) \<times> 'w" where
  "create_payment_with_funding svc = br_pay_with_funding (client_bridge svc)"

definition request_cooperative_close :: "('pay, 'w) SpilmanService \<Rightarrow> string \<Rightarrow> u64 \<Rightarrow> 'w \<Rightarrow> (string + 'pay) \<times> 'w" where
  "request_cooperative_close svc = br_close (client_bridge svc)"

definition confirm_cooperative_close :: "('pay, 'w) SpilmanService \<Rightarrow> string \<Rightarrow> 'w \<Rightarrow> (string + unit) \<times> 'w" where
  "confirm_cooperative_close svc = br_closed (client_bridge svc)"


subsection \<open>Paying through a channel\<close>

datatype loop_end = PaymentRefused string | CloseRequested u64

text \<open>
  The loop: the balances signed so far and how it ended, \<open>None\<close> when the bound on its passes was too
  small. The products are those of the machine's width.
\<close>

fun payment_loop ::
  "('pay, 'w) SpilmanService \<Rightarrow> ('w \<Rightarrow> 'w) \<Rightarrow> string \<Rightarrow> u64 \<Rightarrow> nat \<Rightarrow> u64 \<Rightarrow> 'w \<Rightarrow> (u64 list \<times> loop_end option) \<times> 'w" where
  "payment_loop svc pause channel amount 0 bal w = (([], None), w)"
| "payment_loop svc pause channel amount (Suc n) bal w =
     (case create_payment svc channel bal (pause w) of
        (Inl e, w1) \<Rightarrow> (([], Some (PaymentRefused e)), w1)
      | (Inr _, w1) \<Rightarrow>
          (if amount * 100 < bal + 1
           then (let (_, w2) = request_cooperative_close svc channel bal w1 in (([bal], Some (CloseRequested bal)), w2))
           else (let ((paid, r), w2) = payment_loop svc pause channel amount n (bal + 1) w1 in ((bal # paid, r), w2))))"

datatype spilman_error =
    AdvertisementFailed V1HttpError
  | KeysetFailed string
  | WalletFailedToOpen V1WalletError
  | TokenFailed V1WalletError
  | TokenNotUtf8
  | ChannelFailed string

text \<open>The token is the text of the wallet; \<open>utf8\<close> tells whether its bytes are one.\<close>

definition v1_consume_spilman ::
  "('p, 'm, 'w) v1_env \<Rightarrow> ('pay, 'w) bridge \<Rightarrow> (string \<Rightarrow> string + 'ki) \<Rightarrow> ('ki \<Rightarrow> string) \<Rightarrow> (nostr_event \<Rightarrow> string) \<Rightarrow>
   string \<Rightarrow> (string \<Rightarrow> bool) \<Rightarrow> u64 \<Rightarrow> string \<Rightarrow> string \<Rightarrow> u64 \<Rightarrow> u64 \<Rightarrow> nat \<Rightarrow> 'w \<Rightarrow>
   (spilman_error + u64 list \<times> loop_end option) \<times> 'w" where
  "v1_consume_spilman env br parse_info info_json pubkey sender utf8 now gateway mint amount interval n w =
     (let base = (if starts_with ''http'' gateway then gateway else ''http://'' @ gateway)
      in case fetch_advertisement (web env) (http_new_with_base_url base) w of
           (Inl e, w1) \<Rightarrow> (Inl (AdvertisementFailed e), w1)
         | (Inr ad, w1) \<Rightarrow>
             (case fetch_active_keyset_info (web env) parse_info mint w1 of
                (Inl e, w2) \<Rightarrow> (Inl (KeysetFailed e), w2)
              | (Inr (_, ki), w2) \<Rightarrow>
                  let svc = SpilmanService_new br mint sender
                  in case CdkWallet_new (cdk env) mint w2 of
                       Inl e \<Rightarrow> (Inl (WalletFailedToOpen e), w2)
                     | Inr w3 \<Rightarrow>
                         (case create_token (cdk env) amount mint w3 of
                            (Inl e, w4) \<Rightarrow> (Inl (TokenFailed e), w4)
                          | (Inr token, w4) \<Rightarrow>
                              if \<not> utf8 token then (Inl TokenNotUtf8, w4)
                              else (case open_channel svc now token (pubkey ad) 3600 (info_json ki) amount w4 of
                                      (Inl e, w5) \<Rightarrow> (Inl (ChannelFailed e), w5)
                                    | (Inr channel, w5) \<Rightarrow>
                                        (let (r, w6) = payment_loop svc (sleep_ms (web env) (unat interval * 1000)) channel amount n 1 w5
                                         in (Inr r, w6))))))"



subsection \<open>The payment loop\<close>

lemma hundredfold_below_max: "unat (amount * 100 :: u64) + 2 < 2 ^ 64"
proof -
  have "unat (amount * 100) = unat amount * 100 mod 2 ^ 64" by (simp add: unat_word_ariths)
  moreover have "(4::nat) dvd unat amount * 100 mod 2 ^ 64" by (rule dvd_mod) (simp_all add: dvd_def)
  ultimately obtain q where "unat (amount * 100) = 4 * q" by (metis dvdE)
  moreover have "unat (amount * 100) < 2 ^ LENGTH(64)" by (rule unsigned_less)
  ultimately show ?thesis by simp
qed

lemma loop_ends:
  assumes "unat (amount * 100) < unat bal + n" and "0 < n" and "unat bal \<le> unat (amount * 100) + 1"
  shows "snd (fst (payment_loop svc pause channel amount n bal w)) \<noteq> None"
  using assms
proof (induction n arbitrary: bal w)
  case (Suc n)
  have small: "unat (bal + 1) = unat bal + 1"
  proof -
    have "unat bal + 1 < 2 ^ 64" using Suc.prems(3) hundredfold_below_max [of amount] by linarith
    then show ?thesis by (simp add: unat_word_ariths)
  qed
  obtain r w1 where p: "create_payment svc channel bal (pause w) = (r, w1)" by (meson surj_pair)
  show ?case
  proof (cases "isl r \<or> amount * 100 < bal + 1")
    case True
    then show ?thesis using p by (cases r) (auto simp: case_prod_beta)
  next
    case False
    then have "\<not> unat (amount * 100) < unat bal + 1" using small by (simp add: word_less_nat_alt)
    then have "snd (fst (payment_loop svc pause channel amount n (bal + 1) w1)) \<noteq> None"
      using Suc.IH [of "bal + 1" w1] Suc.prems small by (cases n) auto
    then show ?thesis using p False by (cases r) (auto simp: case_prod_beta)
  qed
qed simp

text \<open>
  C35. The payment loop always ends: however the bridge answers, it leaves the loop after at most
  one more pass than the cap of a hundred payments per unit of the amount, also when that product wraps around.
\<close>

theorem payment_loop_ends:
  "snd (fst (payment_loop svc pause channel amount (unat (amount * 100) + 1) 1 w)) \<noteq> None"
  by (rule loop_ends) simp_all

text \<open>
  A channel cannot pay out more than it holds. With a bridge that refuses such payments, the loop runs
  into that refusal before its cap and ends without asking for the cooperative close, which only the cap does.
\<close>

theorem channel_is_never_closed:
  assumes refuses: "\<And>ch bal w. amount < bal \<Longrightarrow> \<exists>e w'. create_payment svc ch bal w = (Inl e, w')"
    and "0 < amount" and "unat amount * 100 < 2 ^ 64"
  shows "snd (fst (payment_loop svc pause channel amount n 1 w)) \<noteq> Some (CloseRequested b)"
proof -
  have cap: "unat (amount * 100) = unat amount * 100" using assms(3) by (simp add: unat_word_ariths)
  have pos: "0 < unat amount" using assms(2) by (simp add: word_less_nat_alt)
  have "snd (fst (payment_loop svc pause channel amount n bal w)) \<noteq> Some (CloseRequested b)"
    if "unat bal \<le> unat amount + 1" for bal w
    using that
  proof (induction n arbitrary: bal w)
    case (Suc n)
    obtain r w1 where p: "create_payment svc channel bal (pause w) = (r, w1)" by (meson surj_pair)
    show ?case
    proof (cases r)
      case (Inr x)
      then have "\<not> amount < bal" using refuses [of bal channel "pause w"] p by auto
      then have le: "unat bal \<le> unat amount" by (simp add: word_less_nat_alt)
      then have small: "unat (bal + 1) = unat bal + 1" using assms(3) by (simp add: unat_word_ariths)
      then have "\<not> amount * 100 < bal + 1" using le cap pos by (simp add: word_less_nat_alt)
      then show ?thesis using p Inr Suc.IH [of "bal + 1" w1] small le by (simp add: case_prod_beta)
    qed (use p in simp)
  qed simp
  then show ?thesis using pos by simp
qed

definition capped_bridge :: "u64 \<Rightarrow> (unit, unit) bridge" where
  "capped_bridge capacity =
     \<lparr> br_open = (\<lambda>_ _ _ _ _ _ w. (Inr ''c'', w)),
       br_pay = (\<lambda>_ bal w. (if capacity < bal then Inl ''balance exceeds capacity'' else Inr (), w)),
       br_pay_with_funding = (\<lambda>_ _ w. (Inr (), w)), br_close = (\<lambda>_ _ w. (Inr (), w)), br_closed = (\<lambda>_ w. (Inr (), w)) \<rparr>"

theorem channel_is_never_closed_witness:
  "snd (fst (payment_loop (SpilmanService_new (capped_bridge 8) ''m'' ''s'') (\<lambda>w. w) ''c'' 8 801 1 ())) \<noteq> Some (CloseRequested 800)"
  by (rule channel_is_never_closed) (simp_all add: create_payment_def SpilmanService_new_def capped_bridge_def)

end
