(* ===== verification/Status_Report.thy ===== *)
theory Status_Report
  imports Host_Status Rust_Float Json
begin

section \<open>The printed status\<close>

text \<open>
  The tables of \<^verbatim>\<open>crates/tollgate-net/src/status.rs\<close> that \<^verbatim>\<open>tolltop --once\<close> prints: the figures (\<^verbatim>\<open>fmt_net\<close>, \<^verbatim>\<open>fmt_held\<close>,
  \<^verbatim>\<open>fmt_drift\<close>, \<^verbatim>\<open>fmt_units\<close>, \<^verbatim>\<open>short\<close>) and the tables of peers and prices. Strings are their UTF-8 bytes and a field
  is padded by its characters. A double with a fixed number of decimals is its value rounded to the
  nearest, ties to even.
\<close>

definition quot :: "int \<Rightarrow> int \<Rightarrow> int" where
  "quot a b = (if a < 0 then - ((- a) div b) else a div b)"

definition show_signed :: "int \<Rightarrow> string" where
  "show_signed n = (if n < 0 then show_int n else CHR ''+'' # show_int n)"

definition show_fixed :: "nat \<Rightarrow> rat \<Rightarrow> string" where
  "show_fixed d q =
     (let n = nat (round_even (q * 10 ^ d)); digits = show_nat (n mod 10 ^ d)
      in show_nat (n div 10 ^ d) @ ''.'' @ replicate (d - length digits) (CHR ''0'') @ digits)"


subsection \<open>Figures\<close>

definition fmt_net :: "i64 \<Rightarrow> string" where
  "fmt_net net_scaled = show_signed (quot (sint net_scaled) 1000)"

definition fmt_held :: "i64 \<Rightarrow> string" where
  "fmt_held scaled = (if scaled = 0 then ''-'' else show_int (quot (sint scaled) 1000))"

text \<open>The percentage is computed in doubles; the denominator of a drift is not zero.\<close>

definition fmt_drift :: "(u64 \<times> u64) option \<Rightarrow> string" where
  "fmt_drift drift =
     (case drift of
        None \<Rightarrow> ''-''
      | Some (a, b) \<Rightarrow>
          (case f64_div (f64_of_u64 a) (f64_of_u64 b) of
             Finite q \<Rightarrow> show_fixed 1 (round_f64 (q * 100)) @ ''%''
           | Infinite pos \<Rightarrow> (if pos then ''inf%'' else ''-inf%'')
           | NaN \<Rightarrow> ''NaN%''))"

definition SUFFIXES :: "string list" where
  "SUFFIXES = [''B'', ''KB'', ''MB'', ''GB'', ''TB'', ''PB'']"

text \<open>The loop that divides by 1024: the steps left to the last suffix bound it, and the division is exact.\<close>

fun scale_units :: "nat \<Rightarrow> rat \<Rightarrow> nat \<times> rat" where
  "scale_units 0 v = (0, v)"
| "scale_units (Suc n) v = (if 1024 \<le> v then (let (i, u) = scale_units n (v / 1024) in (Suc i, u)) else (0, v))"

definition fmt_units :: "u64 \<Rightarrow> string \<Rightarrow> string" where
  "fmt_units n unit =
     (if unit \<noteq> ''bytes'' then show_nat (unat n)
      else let (i, v) = scale_units 5 (round_f64 (of_nat (unat n)))
           in if i = 0 then show_nat (unat n) @ '' B'' else show_fixed 2 v @ '' '' @ SUFFIXES ! i)"

definition ellipsis :: string where
  "ellipsis = [CHR 0xE2, CHR 0x80, CHR 0xA6]"

definition short :: "string \<Rightarrow> string" where
  "short hex = (if 12 < length hex then take 6 hex @ ellipsis @ drop (length hex - 4) hex else hex)"


subsection \<open>Tables\<close>

definition char_count :: "string \<Rightarrow> nat" where
  "char_count s = length (filter (\<lambda>c. \<not> (128 \<le> char_nat c \<and> char_nat c < 192)) s)"

definition left_pad :: "nat \<Rightarrow> string \<Rightarrow> string" where
  "left_pad n s = replicate (n - char_count s) (CHR '' '') @ s"

definition right_pad :: "nat \<Rightarrow> string \<Rightarrow> string" where
  "right_pad n s = s @ replicate (n - char_count s) (CHR '' '')"

definition join_spaces :: "string list \<Rightarrow> string" where
  "join_spaces ss = concat (map (\<lambda>s. s @ '' '') (butlast ss)) @ last ss"

definition table_header :: string where
  "table_header =
     join_spaces [right_pad 13 ''PEER'', right_pad 19 ''IP'', right_pad 10 ''STATE'', left_pad 11 ''DELIVERED'', left_pad 11 ''RECEIVED'',
       left_pad 8 ''WE_HOLD'', left_pad 9 ''THEY_HOLD'', left_pad 6 ''NET'', left_pad 6 ''DRIFT'', left_pad 7 ''METERED'']"

definition peer_row :: "string \<Rightarrow> peer_status \<Rightarrow> string" where
  "peer_row unit p =
     join_spaces [right_pad 13 (short (st_pubkey p)), right_pad 19 (case st_ip p of None \<Rightarrow> ''-'' | Some ip \<Rightarrow> ip),
       right_pad 10 (st_state p), left_pad 11 (fmt_units (st_delivered p) unit), left_pad 11 (fmt_units (st_received p) unit),
       left_pad 8 (fmt_held (st_their_balance p)), left_pad 9 (fmt_held (st_our_balance p)),
       left_pad 6 (fmt_net (net_balance p)), left_pad 6 (fmt_drift (st_drift p)),
       left_pad 5 (show_nat (unat (st_metered_secs p))) @ ''s'']"

definition render_table :: "node_status \<Rightarrow> string" where
  "render_table s =
     (let (a, su, ot) = state_counts s
      in ''node '' @ short (ns_pubkey s) @ ''  unit='' @ ns_unit s @ [newline] @ table_header @ [newline] @
         concat (map (\<lambda>p. peer_row (ns_unit s) p @ [newline]) (ns_peers s)) @
         show_nat (length (ns_peers s)) @ '' peers ('' @ show_nat a @ '' active, '' @ show_nat su @ '' suspended, '' @
         show_nat ot @ '' other)'')"

definition price_row :: "product_status \<Rightarrow> mint_status \<Rightarrow> string" where
  "price_row product m =
     join_spaces [right_pad 13 (short (pst_product_id product)), right_pad 26 (ms_mint_url m), right_pad 5 (ms_mint_unit m),
       left_pad 8 (show_int (sint (ms_price_per_second m))), left_pad 9 (show_int (sint (ms_price_per_unit m)))]"

definition product_rows :: "product_status \<Rightarrow> string list" where
  "product_rows product =
     (if pst_mints product = [] then [right_pad 13 (short (pst_product_id product)) @ '' (no mints)'']
      else map (price_row product) (pst_mints product))"

definition em_dash :: string where
  "em_dash = [CHR 0xE2, CHR 0x80, CHR 0x94]"

definition en_dash :: string where
  "en_dash = [CHR 0xE2, CHR 0x80, CHR 0x93]"

definition middle_dot :: string where
  "middle_dot = [CHR 0xC2, CHR 0xB7]"

definition render_pricing :: "node_status \<Rightarrow> string" where
  "render_pricing s =
     (let p = ns_pricing s
      in ''pricing '' @ em_dash @ '' selling '' @ ns_unit s @ ''  '' @ middle_dot @ ''  '' @ show_nat (length (prs_products p)) @
         '' product(s), interval '' @ show_nat (unat (prs_min_interval_ms p)) @ en_dash @ show_nat (unat (prs_max_interval_ms p)) @
         '' ms'' @ [newline] @
         (if prs_products p = [] then ''(no products '' @ em_dash @ '' this node sells nothing)''
          else join_spaces [right_pad 13 ''PRODUCT'', right_pad 26 ''MINT'', right_pad 5 ''CCY'', left_pad 8 ''PER_SEC'', left_pad 9 ''PER_UNIT''] @
               [newline] @ concat (map (\<lambda>r. r @ [newline]) (concat (map product_rows (prs_products p)))) @
               show_nat (sum_list (map (length \<circ> pst_mints) (prs_products p))) @ '' mint option(s)''))"



subsection \<open>What the figures say\<close>

lemma scale_units_exact:
  "case scale_units n v of (i, u) \<Rightarrow> u * 1024 ^ i = v \<and> i \<le> n \<and> (u < 1024 \<or> i = n) \<and> (i = 0 \<or> 1 \<le> u)"
proof (induction n v rule: scale_units.induct)
  case (2 n v)
  show ?case
  proof (cases "1024 \<le> v")
    case True
    obtain i u where r: "scale_units n (v / 1024) = (i, u)" by (meson surj_pair)
    have "i = 0 \<Longrightarrow> 1 \<le> u" using 2 True r by (auto simp: field_simps)
    then show ?thesis using 2 [OF True] True r by (auto simp: field_simps)
  qed simp
qed simp

text \<open>
  A byte count is shown in the largest unit that leaves at least one: the value shown times the unit is
  the count, and only petabytes go beyond 1024.
\<close>

theorem units_suffix:
  "\<exists>i v. i \<le> 5 \<and> v * 1024 ^ i = round_f64 (of_nat (unat n)) \<and> (v < 1024 \<or> i = 5) \<and> (i = 0 \<or> 1 \<le> v) \<and>
     fmt_units n ''bytes'' = (if i = 0 then show_nat (unat n) @ '' B'' else show_fixed 2 v @ '' '' @ SUFFIXES ! i)"
proof -
  obtain i v where r: "scale_units 5 (round_f64 (of_nat (unat n))) = (i, v)" by (meson surj_pair)
  have "fmt_units n ''bytes'' = (if i = 0 then show_nat (unat n) @ '' B'' else show_fixed 2 v @ '' '' @ SUFFIXES ! i)"
    by (simp add: fmt_units_def r del: of_nat_unat)
  moreover have "v * 1024 ^ i = round_f64 (of_nat (unat n)) \<and> i \<le> 5 \<and> (v < 1024 \<or> i = 5) \<and> (i = 0 \<or> 1 \<le> v)"
    using scale_units_exact [of "round_f64 (of_nat (unat n))" 5] unfolding r prod.case .
  ultimately show ?thesis by blast
qed

text \<open>
  Positions are shown in whole sats, cut towards zero: a net position shows as nothing exactly when
  it is less than one sat either way.
\<close>

theorem small_positions_hidden: "fmt_net n = ''+0'' \<longleftrightarrow> \<bar>sint n\<bar> < 1000"
proof -
  have zero: "show_nat 0 = ''0''" by (simp add: show_nat.simps char_of_def bit_0)
  have inject: "show_nat k = show_nat l \<Longrightarrow> k = l" for k l by (metis parse_show_nat option.inject)
  have "show_int k = ''0'' \<longleftrightarrow> k = 0" if "0 \<le> k" for k
    using that zero inject [of "nat k" 0] by (auto simp: show_int_def)
  then have "fmt_net n = ''+0'' \<longleftrightarrow> quot (sint n) 1000 = 0"
    by (auto simp: fmt_net_def show_signed_def show_int_def)
  also have "\<dots> \<longleftrightarrow> \<bar>sint n\<bar> < 1000" by (simp add: quot_def div_eq_0_iff) linarith
  finally show ?thesis .
qed

end
