(* ===== verification/Upstream_Loop.thy ===== *)
theory Upstream_Loop
  imports Upstream_Client Host_Status
begin

section \<open>Buying from the configured upstreams\<close>

text \<open>
  \<^verbatim>\<open>spawn_upstreams\<close> of \<^verbatim>\<open>crates/tollgate-net/src/driver.rs\<close>: one task per upstream with an address, which runs
  the consume loop of \<^verbatim>\<open>client.rs\<close>, records what it reports in the driver, and starts over when the loop ends.
\<close>

definition upstream_opts :: "UpstreamConfig \<Rightarrow> ConsumeOpts" where
  "upstream_opts u =
     \<lparr> amount_sat = up_amount u, topup_sat = up_topup u, max_polls = None, understate_received_pct = 0,
       meter_iface = up_meter_iface u, meter_upstream = up_meter_upstream u \<rparr>"

definition upstream_interval :: "UpstreamConfig \<Rightarrow> u64" where
  "upstream_interval u = max (up_interval_secs u) 1"

definition spawned_upstreams :: "config \<Rightarrow> UpstreamConfig list" where
  "spawned_upstreams cfg = filter (\<lambda>u. up_peer u \<noteq> []) (config.upstreams cfg)"

text \<open>What the driver reads of an event of the loop.\<close>

definition event_summary :: "ConsumeEvent \<Rightarrow> consume_event" where
  "event_summary ev =
     \<lparr> ce_peer_pubkey = ev_peer_pubkey ev, ce_price = ev_price ev, ce_remaining_scaled = ev_remaining_scaled ev,
       ce_report = map_option (\<lambda>r. \<lparr> rs_delivered = mr_delivered r, rs_received = mr_received r,
                                      rs_elapsed_ms = mr_elapsed_ms r \<rparr>) (ev_report ev),
       ce_cut_off = ev_cut_off ev, ce_drift = ev_drift ev \<rparr>"

definition record_events :: "string \<Rightarrow> (ConsumeEvent \<times> Millis) list \<Rightarrow> host \<Rightarrow> host" where
  "record_events url evs h = fold (\<lambda>(ev, now). record_upstream url (event_summary ev) now) evs h"

text \<open>
  One run of the consume loop, of at most \<open>n\<close> polls, with the times at which its events are
  recorded. The pause of five seconds before the next run is left out.
\<close>

definition upstream_round ::
  "'w client_env \<Rightarrow> bytes \<Rightarrow> string \<Rightarrow> UpstreamConfig \<Rightarrow> nat \<Rightarrow> (nat \<Rightarrow> Millis) \<Rightarrow> host \<times> 'w \<Rightarrow> host \<times> 'w" where
  "upstream_round env key unit u n clock hw =
     (let (h, w) = hw;
          b = \<lparr> b_base_url = up_peer u, b_key = key, b_unit = unit, b_mint_url = up_mint u \<rparr>;
          (evs, _, w') = run_consume env b (upstream_opts u) n w
      in (mark_upstream_offline (up_peer u) (record_events (up_peer u) (zip evs (map clock [0..<length evs])) h), w'))"


subsection \<open>What a round leaves behind\<close>

lemma record_upstream_upstreams: "\<exists>us. record_upstream url ev now h = h\<lparr> Host_Driver.host.upstreams := us \<rparr>"
  unfolding record_upstream_def Let_def by blast

lemma record_events_upstreams: "\<exists>us. record_events url evs h = h\<lparr> Host_Driver.host.upstreams := us \<rparr>"
proof (induction evs arbitrary: h)
  case Nil
  have "record_events url [] h = h\<lparr> Host_Driver.host.upstreams := Host_Driver.host.upstreams h \<rparr>" by (simp add: record_events_def)
  then show ?case ..
next
  case (Cons e evs)
  obtain us where "record_upstream url (event_summary (fst e)) (snd e) h = h\<lparr> Host_Driver.host.upstreams := us \<rparr>"
    using record_upstream_upstreams by blast
  then show ?case using Cons.IH [of "h\<lparr> Host_Driver.host.upstreams := us \<rparr>"]
    by (auto simp: record_events_def case_prod_beta)
qed

lemma record_upstream_get:
  "other \<noteq> url \<Longrightarrow> bt_get (Host_Driver.host.upstreams (record_upstream url ev now h)) other = bt_get (Host_Driver.host.upstreams h) other"
  "\<exists>st. bt_get (Host_Driver.host.upstreams (record_upstream url ev now h)) url = Some st \<and> us_remaining_scaled st = ce_remaining_scaled ev"
  by (auto simp: record_upstream_def Let_def split: option.split)

lemma record_events_other:
  "other \<noteq> url \<Longrightarrow> bt_get (Host_Driver.host.upstreams (record_events url evs h)) other = bt_get (Host_Driver.host.upstreams h) other"
  by (induction evs arbitrary: h) (simp_all add: record_events_def case_prod_beta record_upstream_get(1))

lemma record_events_last:
  assumes "evs \<noteq> []"
  shows "\<exists>st. bt_get (Host_Driver.host.upstreams (record_events url evs h)) url = Some st \<and>
    us_remaining_scaled st = ev_remaining_scaled (fst (last evs))"
  using assms record_upstream_get(2) [of url "event_summary (fst (last evs))" "snd (last evs)"]
  by (cases evs rule: rev_cases) (simp_all add: record_events_def case_prod_beta event_summary_def)

lemma offline_effect:
  "\<exists>us. mark_upstream_offline url h = h\<lparr> Host_Driver.host.upstreams := us \<rparr> \<and>
     (\<forall>other. other \<noteq> url \<longrightarrow> bt_get us other = bt_get (Host_Driver.host.upstreams h) other) \<and>
     bt_get us url = map_option (\<lambda>st. st\<lparr> us_online := False \<rparr>) (bt_get (Host_Driver.host.upstreams h) url)"
proof (cases "bt_get (Host_Driver.host.upstreams h) url")
  case None
  then show ?thesis by (intro exI [of _ "Host_Driver.host.upstreams h"]) (simp add: mark_upstream_offline_def)
next
  case (Some st)
  then show ?thesis
    by (intro exI [of _ "bt_insert url (st\<lparr> us_online := False \<rparr>) (Host_Driver.host.upstreams h)"]) (simp add: mark_upstream_offline_def)
qed

text \<open>
  However the loop for an upstream went, it touches that upstream's entry only: the sessions, the
  firewall, the wallet and the other upstreams are as before. Afterwards the upstream is shown offline, with the
  balance of the last event of the loop.
\<close>

theorem upstream_round_effect:
  assumes "upstream_round env key unit u n clock (h, w) = (h', w')"
    and "run_consume env \<lparr> b_base_url = up_peer u, b_key = key, b_unit = unit, b_mint_url = up_mint u \<rparr> (upstream_opts u) n w = (evs, r, w1)"
  shows "\<exists>us. h' = h\<lparr> Host_Driver.host.upstreams := us \<rparr> \<and>
    (\<forall>other. other \<noteq> up_peer u \<longrightarrow> bt_get us other = bt_get (Host_Driver.host.upstreams h) other) \<and>
    (case bt_get us (up_peer u) of
       None \<Rightarrow> evs = []
     | Some st \<Rightarrow> \<not> us_online st \<and> (evs = [] \<or> us_remaining_scaled st = ev_remaining_scaled (last evs)))"
proof -
  let ?evs = "zip evs (map clock [0..<length evs])"
  let ?h1 = "record_events (up_peer u) ?evs h"
  have h': "h' = mark_upstream_offline (up_peer u) ?h1" using assms by (simp add: upstream_round_def Let_def)
  obtain us1 where h1: "?h1 = h\<lparr> Host_Driver.host.upstreams := us1 \<rparr>" using record_events_upstreams by blast
  obtain us where off: "h' = ?h1\<lparr> Host_Driver.host.upstreams := us \<rparr>"
      "\<forall>other. other \<noteq> up_peer u \<longrightarrow> bt_get us other = bt_get (Host_Driver.host.upstreams ?h1) other"
      "bt_get us (up_peer u) = map_option (\<lambda>st. st\<lparr> us_online := False \<rparr>) (bt_get (Host_Driver.host.upstreams ?h1) (up_peer u))"
    using offline_effect [of "up_peer u" ?h1] h' by auto
  have "evs = [] \<or> (\<exists>st. bt_get (Host_Driver.host.upstreams ?h1) (up_peer u) = Some st \<and>
      us_remaining_scaled st = ev_remaining_scaled (last evs))"
  proof (cases "evs = []")
    case False
    then have "?evs \<noteq> []" "fst (last ?evs) = last evs" by (simp_all add: last_zip)
    then show ?thesis using record_events_last [of ?evs "up_peer u" h] by simp
  qed simp
  then have "case bt_get us (up_peer u) of None \<Rightarrow> evs = []
      | Some st \<Rightarrow> \<not> us_online st \<and> (evs = [] \<or> us_remaining_scaled st = ev_remaining_scaled (last evs))"
    using off(3) by (auto split: option.split)
  moreover have "h' = h\<lparr> Host_Driver.host.upstreams := us \<rparr>" using off(1) h1 by simp
  moreover have "\<forall>other. other \<noteq> up_peer u \<longrightarrow> bt_get us other = bt_get (Host_Driver.host.upstreams h) other"
    using off(2) record_events_other by simp
  ultimately show ?thesis by blast
qed

theorem upstream_round_effect_witness:
  "paid_ips (fst (upstream_round sample_client [1] ''bytes'' (UpstreamConfig_default\<lparr> up_peer := ''http://peer:4747'', up_mint := ''m'' \<rparr>) 2
     (\<lambda>_. 7) (Driver_new (BootstrapWallet_new []) Price_default, ()))) = {}"
proof -
  let ?u = "UpstreamConfig_default\<lparr> up_peer := ''http://peer:4747'', up_mint := ''m'' \<rparr>"
  let ?h = "Driver_new (BootstrapWallet_new []) Price_default"
  obtain h' w' where r: "upstream_round sample_client [1] ''bytes'' ?u 2 (\<lambda>_. 7) (?h, ()) = (h', w')" by (meson surj_pair)
  obtain evs e w1 where "run_consume sample_client
      \<lparr> b_base_url = up_peer ?u, b_key = [1], b_unit = ''bytes'', b_mint_url = up_mint ?u \<rparr> (upstream_opts ?u) 2 () = (evs, e, w1)"
    by (metis prod_cases3)
  from upstream_round_effect [OF r this] obtain us where "h' = ?h\<lparr> Host_Driver.host.upstreams := us \<rparr>" by blast
  then show ?thesis using r by (simp add: Driver_new_def)
qed

end
