(* ===== verification/Dynamic_Pricing.thy ===== *)
theory Dynamic_Pricing
  imports Pricing Rust_Float
begin

section \<open>Prices that follow the load\<close>

text \<open>
  \<^verbatim>\<open>Price::apply_multiplier\<close> and \<^verbatim>\<open>Price::adjust\<close> of \<^verbatim>\<open>crates/tollgate-core/src/pricing.rs\<close>, which compute in doubles:
  a product is rounded to 53 bits and overflows to an infinity, and a conversion to an integer cuts towards
  zero, saturates, and takes a NaN to zero. A result below the range of normal doubles is cut to zero anyway.
\<close>

definition round_signed :: "rat \<Rightarrow> rat" where
  "round_signed q = (if q < 0 then - round_f64 (- q) else round_f64 q)"

definition f64_result :: "rat \<Rightarrow> f64" where
  "f64_result q = (let r = round_signed q in if 2 ^ 1024 \<le> \<bar>r\<bar> then Infinite (0 < r) else Finite r)"

fun f64_mul :: "f64 \<Rightarrow> f64 \<Rightarrow> f64" where
  "f64_mul (Finite a) (Finite b) = f64_result (a * b)"
| "f64_mul NaN _ = NaN"
| "f64_mul _ NaN = NaN"
| "f64_mul (Finite a) (Infinite s) = (if a = 0 then NaN else Infinite (s = (0 < a)))"
| "f64_mul (Infinite s) (Finite b) = (if b = 0 then NaN else Infinite (s = (0 < b)))"
| "f64_mul (Infinite s) (Infinite t) = Infinite (s = t)"

fun f64_add :: "f64 \<Rightarrow> f64 \<Rightarrow> f64" where
  "f64_add (Finite a) (Finite b) = f64_result (a + b)"
| "f64_add NaN _ = NaN"
| "f64_add _ NaN = NaN"
| "f64_add (Infinite s) (Infinite t) = (if s = t then Infinite s else NaN)"
| "f64_add (Infinite s) (Finite _) = Infinite s"
| "f64_add (Finite _) (Infinite s) = Infinite s"

definition f64_of_i64 :: "i64 \<Rightarrow> f64" where
  "f64_of_i64 n = Finite (round_signed (of_int (sint n)))"

definition truncate_rat :: "rat \<Rightarrow> int" where
  "truncate_rat q = (if q < 0 then - \<lfloor>- q\<rfloor> else \<lfloor>q\<rfloor>)"

definition i64_saturate :: "int \<Rightarrow> i64" where
  "i64_saturate n = word_of_int (max (- (2 ^ 63)) (min (2 ^ 63 - 1) n))"

fun f64_to_i64 :: "f64 \<Rightarrow> i64" where
  "f64_to_i64 (Finite q) = i64_saturate (truncate_rat q)"
| "f64_to_i64 (Infinite s) = i64_saturate (if s then 2 ^ 63 else - (2 ^ 63))"
| "f64_to_i64 NaN = 0"

definition scaled_rate :: "i64 \<Rightarrow> f64 \<Rightarrow> i64" where
  "scaled_rate rate factor = f64_to_i64 (f64_mul (f64_of_i64 rate) factor)"

definition apply_multiplier :: "price \<Rightarrow> f64 \<Rightarrow> price" where
  "apply_multiplier p multiplier =
     \<lparr> per_second = scaled_rate (per_second p) multiplier, per_unit = scaled_rate (per_unit p) multiplier \<rparr>"

definition adjust :: "price \<Rightarrow> price_bounds \<Rightarrow> f64 option \<Rightarrow> f64 option \<Rightarrow> price" where
  "adjust p bounds peer_multiplier active_peer_factor =
     (let p1 = (case active_peer_factor of
                  None \<Rightarrow> p
                | Some factor \<Rightarrow>
                    let boost = f64_add (Finite 1) factor
                    in \<lparr> per_second = scaled_rate (per_second p) boost, per_unit = scaled_rate (per_unit p) boost \<rparr>);
          p2 = (case peer_multiplier of None \<Rightarrow> p1 | Some mult \<Rightarrow> apply_multiplier p1 mult)
      in Price_clamp p2 bounds)"


text \<open>
  Whatever the load and the multiplier of the peer are, infinite and undefined ones included, an adjusted
  price is at most its ceiling and, up to the ceiling, at least its floor; without either the price is
  only clamped.
\<close>

theorem adjusted_price_in_bounds:
  "(case per_second_ceiling b of None \<Rightarrow> True | Some c \<Rightarrow> sint (per_second (adjust p b m f)) \<le> sint c) \<and>
   (case per_unit_ceiling b of None \<Rightarrow> True | Some c \<Rightarrow> sint (per_unit (adjust p b m f)) \<le> sint c) \<and>
   (case per_second_floor b of None \<Rightarrow> True
    | Some l \<Rightarrow> (case per_second_ceiling b of None \<Rightarrow> sint l | Some c \<Rightarrow> min (sint l) (sint c)) \<le> sint (per_second (adjust p b m f))) \<and>
   (case per_unit_floor b of None \<Rightarrow> True
    | Some l \<Rightarrow> (case per_unit_ceiling b of None \<Rightarrow> sint l | Some c \<Rightarrow> min (sint l) (sint c)) \<le> sint (per_unit (adjust p b m f))) \<and>
   adjust p b None None = Price_clamp p b"
proof -
  obtain q where "adjust p b m f = Price_clamp q b" by (simp add: adjust_def Let_def)
  then show ?thesis
    by (simp only: Price_clamp_sel clamp_val_bounds simp_thms) (simp add: adjust_def)
qed

end
