(* ===== verification/Spec2Isabelle.thy ===== *)
theory Spec2Isabelle
  imports Framing Product_Id Session_Billing Charger External Host_Exchange Host_Status
    V1_Merchant V1_Quotes V1_Recovery Ubus_Client Wifi_Connector Network_Monitor Upstream_Client
    V1_Crowsnest V1_Purchase Nft_Firewall Node Commands Spilman Certificates Status_Report Upstream_Loop Dynamic_Pricing
begin

text \<open>
  \<^bold>\<open>A verification of TollGate\<close>

  TollGate sells a metered resource, network access first, for prepaid ecash. The repository has four Rust
  crates under \<^verbatim>\<open>src/crates\<close>: \<^verbatim>\<open>tollgate-protocol\<close> (wire messages, frames, product ids), \<^verbatim>\<open>tollgate-core\<close> (the session
  machine that bills peers, and the delivery engine that bounds what a grant may cost), \<^verbatim>\<open>tollgate-charger-host\<close>
  (drivers that put the delivery engine in front of a charger or an external provider) and \<^verbatim>\<open>tollgate-net\<close> (the
  node: firewall, wallet, HTTP exchange, status, and the older v1 protocol). The session machine and the
  delivery engine are pure: a host feeds them events and carries out the actions they return. The
  development follows that split.

  \<^bold>\<open>Theories and what they model\<close>

  \<^item> \<open>Prelude\<close>: machine integers as words (\<open>u8\<close> to \<open>i64\<close>), saturating arithmetic, time, the type of a
    machine (\<open>state\<close>, \<open>event\<close> to \<open>state\<close>, outputs) with \<open>run\<close>, \<open>final\<close>, \<open>outputs\<close>, and the locales \<open>invariant_machine\<close>,
    \<open>traced_machine\<close> and \<open>settling_machine\<close>, whose obligations speak of one step and whose lemmas speak of every run.
  \<^item> The standard library and \<^verbatim>\<open>serde_json\<close>: \<open>BTreeMap\<close> is the ordered map with its contract \<open>keyed_store\<close>; \<open>Rust_Strings\<close>
    and \<open>Rust_Text\<close> strings, decimal numbers, lines, UTF-8 and patterns; \<open>Rust_Float\<close> doubles, rounded to even; \<open>Rust_Ip\<close> the printed
    form of addresses; \<open>Rust_Files\<close> paths and the answers of a file system; \<open>Json\<close> and \<open>Serde_Json\<close> values, and what derived
    serialisation writes and reads. \<open>Throttle\<close>: the contract of the components that limit how often they act.
  \<^item> \<open>Wire_Message\<close> (\<^verbatim>\<open>message.rs\<close>), \<open>Framing\<close> (\<^verbatim>\<open>codec.rs\<close>), \<open>Product_Id\<close> (\<^verbatim>\<open>product.rs\<close>): messages, the frame codec with its round
    trip and errors, the hashed byte layout of products.
  \<^item> \<open>Pricing\<close> (\<^verbatim>\<open>pricing.rs\<close>): the cost of an interval in 128-bit arithmetic and price bounds; \<open>Dynamic_Pricing\<close>: \<^verbatim>\<open>apply_multiplier\<close> and \<^verbatim>\<open>adjust\<close> in doubles.
  \<^item> \<open>Session\<close> (\<^verbatim>\<open>session.rs\<close>, with \<^verbatim>\<open>access.rs\<close>, \<^verbatim>\<open>metering.rs\<close>, \<^verbatim>\<open>event.rs\<close>, \<^verbatim>\<open>action.rs\<close>): \<open>handle\<close> is \<^verbatim>\<open>Session::handle\<close>, one definition per event and
    per message arm. \<open>Session_Access\<close> shows who is let through, \<open>Session_Billing\<close> what is charged.
    \<open>Sample_Codec\<close> is an executable instance of the message codec for closed instances.
  \<^item> \<open>Delivery\<close> (\<^verbatim>\<open>delivery.rs\<close>): grants, the budget guard, \<open>engine_handle\<close>. \<open>Charger\<close> (\<^verbatim>\<open>driver.rs\<close>, \<^verbatim>\<open>sim.rs\<close> of the charger host) and
    \<open>External\<close> (\<^verbatim>\<open>external.rs\<close>): the drivers built on it; both are instances of \<open>settling_machine\<close>.
  \<^item> \<open>Wallet\<close> (\<^verbatim>\<open>wallet.rs\<close> of the node): token verification, the spent set and its file.
  \<^item> \<open>Host_Driver\<close> (\<^verbatim>\<open>driver.rs\<close> of the node, \<^verbatim>\<open>http_exchange\<close> of \<^verbatim>\<open>server.rs\<close>): the record \<open>host\<close> is \<^verbatim>\<open>Inner\<close> with the firewall's paid set;
    \<open>peer_connected\<close>, \<open>message_received\<close>, \<open>meter\<close>, \<open>reap_idle\<close> and the others are the methods of that name. \<open>Host_Access\<close> proves
    that the firewall follows the session, \<open>Host_Exchange\<close> the outboxes, the reaper and the exchange, \<open>Host_Status\<close> the
    merged status.
  \<^item> \<open>Nft_Adapter\<close> (\<^verbatim>\<open>adapter.rs\<close>): the nftables adapter with its rulesets, commands and counters, and the part of the nftables
    language it uses; \<open>Nft_Firewall\<close> proves what the installed rules forward and count.
  \<^item> \<open>Config\<close> (\<^verbatim>\<open>config.rs\<close>), \<open>Upstream_Client\<close> (\<^verbatim>\<open>client.rs\<close>: exchange, pay, the consume loop), \<open>Upstream_Loop\<close> (\<^verbatim>\<open>spawn_upstreams\<close> of
    \<^verbatim>\<open>driver.rs\<close>), \<open>Status_Report\<close> (the tables of \<^verbatim>\<open>status.rs\<close>), \<open>Control\<close> (\<^verbatim>\<open>control_server.rs\<close>, \<^verbatim>\<open>control.rs\<close>, the JSON routes of \<^verbatim>\<open>web_ui.rs\<close>).
  \<^item> \<open>Node\<close> (\<^verbatim>\<open>serve\<close> of \<^verbatim>\<open>main.rs\<close>, \<^verbatim>\<open>router\<close> of \<^verbatim>\<open>server.rs\<close>): how a node is put together and which part answers a request.
    \<open>Commands\<close> (\<^verbatim>\<open>main.rs\<close>): the commands that buy, and the v1 modes. \<open>Certificates\<close> (\<^verbatim>\<open>ssl.rs\<close>), \<open>Spilman\<close> (\<^verbatim>\<open>spilman\<close> and the loop of
    \<^verbatim>\<open>v1_consume_spilman\<close>).
  \<^item> The v1 layer under \<^verbatim>\<open>v1_compat\<close>: \<open>V1_Pricing\<close>, \<open>V1_Mint_Health\<close>, \<open>V1_Events\<close> (\<^verbatim>\<open>nostr.rs\<close>), \<open>V1_Merchant\<close>, \<open>V1_Quotes\<close> (\<^verbatim>\<open>ln_quotes.rs\<close>),
    \<open>V1_Recovery\<close>, \<open>V1_Http_Client\<close>, \<open>V1_Wallet\<close>, \<open>V1_Client\<close>, \<open>V1_Tracker\<close> (\<^verbatim>\<open>usage_tracker.rs\<close>), \<open>V1_Session_Manager\<close>, \<open>V1_Crowsnest\<close>,
    \<open>V1_Server\<close> (\<^verbatim>\<open>handlers.rs\<close>, \<^verbatim>\<open>adapter.rs\<close>, \<^verbatim>\<open>mac_resolver.rs\<close>). \<open>V1_Purchase\<close> puts client and server together.
  \<^item> The router under \<^verbatim>\<open>openwrt\<close>: \<open>Uci_Ops\<close> with the contract \<open>op_executor\<close> of the two transports, \<open>Ubus_Client\<close>, \<open>Wifi_Scanner\<close>,
    \<open>Wifi_Connector\<close>, \<open>Network_Monitor\<close>.

  \<^bold>\<open>What the lemmas show\<close>

  Access and billing: a peer is let through only while it is active or its token is being verified;
  a sample charges exactly the cost of the reconciled units and time; billing does not depend on how
  often it samples; balances are bounded by payments; persistent drift suspends. Delivery: the
  journal only grows, caps stop delivery, a settlement neither creates nor loses money, and a lapsed
  lease, whatever came before, ends the session; a resumed engine behaves as the lost one. The two
  drivers settle a deposit exactly once. Host: the firewall, the metered set and the session agree
  after every sequence of operations; a proof is credited once, also across a restart if the spent file could be opened each time; frames decode to exactly what
  was encoded. Below the host, the nftables rules refine its paid set, whichever commands fail only granted
  addresses are forwarded, and traffic is counted once; a node starts closed. Buying: client and node
  agree on the price, a buyer's credit agrees with the acknowledgements seen on the wire, and a payment stays within the balance. Control:
  what a tool reads over the socket is the status of the node. v1: advertisements are read back as built,
  payments buy whole steps, a quote is granted once, a payment is confirmed only when the wallet verified its token and nothing was waiting for the client before,
  a session has one tracker, connecting returns. Router: the shell reads rendered commands as the
  intended words, the wait for an address ends. Where the code does something else than it says, the theorem states what it does: a top-up
  forgives usage, a reading reopens a finished engine, a rejection during verification keeps access,
  an external session is left running, interleaved verifications of one token both pay when there is no wallet repository, a roaming peer leaves its old
  address open, and the lemmas on price overflow, report dips, failed top-ups, re-acknowledgement, product ids with a
  repeated mint, concurrent quote monitors and the janitor; the configuration is served with its secrets, an unusable
  seed becomes the zero seed, a direct v1 purchase fails, the v1 modes buy nothing, a Spilman channel is never closed, and an
  absolute path given as a domain is deleted; an acknowledgement that waits from another request decides a v1 payment.

  \<^bold>\<open>Conventions and bounds\<close>

  Integers are words of their width; plain \<^verbatim>\<open>+\<close> and \<^verbatim>\<open>*\<close> wrap, as in an optimised build, and \<^verbatim>\<open>debug_assert\<close> is
  absent. A loop over data is a recursion, with a termination proof where it is not structural (the frame
  decoder, lines, decimal numbers, the calendar). The two loops that wait for the clock, \<open>wait_loop\<close> and \<open>ln_wait\<close>, are
  partial functions that are proved to return whenever the clock runs. Loops that run until
  the process is stopped (\<open>run_consume\<close>, \<open>run_passes\<close>, \<open>payment_loop\<close>) take the number of passes, and what is proved of them holds for
  every number; for \<open>payment_loop\<close> a number is given after which it has ended. An operation of the host runs without
  interruption; where the code awaits in between and it matters, the operation is split at the await
  (\<open>verify_start\<close> and \<open>verify_finish\<close>, the steps of a quote monitor). Doubles are exact fractions rounded to 53 bits, with infinities
  and the undefined value; a drift is kept as the pair of integers it is the quotient of until it is printed.

  Code outside the repository is a parameter: the CBOR codec (\<open>codec\<close>), SHA-256 and the sort by URL, hexadecimal,
  the cashu crate and the mints (\<open>cashu_api\<close>, \<open>mint_answers\<close>), the provider of an external session, the nostr
  crate (\<open>nostr_api\<close>), session stores, the text of JSON (\<open>json_api\<close>), the \<^verbatim>\<open>nft\<close> program and the kernel behind it, HTTP, the router's
  shell and clock, the cdk wallet and the Spilman bridge. What is relied on is a named hypothesis, with an executable
  instance in the closed instances.

  \<^bold>\<open>Not modelled\<close>

  Task spawning, sockets, TLS termination and logging, which are the runtime's; argument parsing, which is the clap
  crate; the HTML page of \<^verbatim>\<open>web_ui.rs\<close>, a constant, and the terminal UI \<^verbatim>\<open>tolltop.rs\<close>, which only draws; \<^verbatim>\<open>build_test_token\<close>,
  \<^verbatim>\<open>unspent_proofs_json\<close> and \<^verbatim>\<open>get_channel_info\<close>, which assemble or forward values of third-party crates.
\<close>

end
